(* ===== verification/Taler_Prelude.thy ===== *)
theory Taler_Prelude
  imports Main "HOL-Library.Word"
begin

text \<open>
  Shared vocabulary of the development: the return codes of the C code, the outcome of a
  function that may run into a failing \<^verbatim>\<open>GNUNET_assert\<close>, C strings and fixed-size character
  buffers, the character classes of \<^verbatim>\<open>ctype.h\<close>, decimal printing as \<^verbatim>\<open>printf\<close> does it, and the
  lemmas on words, lists and digits the component theories build on.
\<close>

section \<open>Return codes and assertions\<close>

text \<open>
  \<^verbatim>\<open>enum GNUNET_GenericReturnValue\<close>: \<^verbatim>\<open>GNUNET_OK\<close> and \<^verbatim>\<open>GNUNET_YES\<close> are the same value 1,
  \<^verbatim>\<open>GNUNET_NO\<close> is 0 and \<^verbatim>\<open>GNUNET_SYSERR\<close> is -1.
\<close>

datatype generic_return = GNUNET_SYSERR | GNUNET_NO | GNUNET_OK

abbreviation GNUNET_YES :: generic_return where
  "GNUNET_YES \<equiv> GNUNET_OK"

text \<open>
  \<^verbatim>\<open>GNUNET_assert\<close> aborts the process when its condition is false. A function that contains
  assertions returns \<open>Done r\<close> when every assertion on its path holds and \<open>Abort\<close> otherwise.
\<close>

datatype 'a outcome = Abort | Done 'a

definition gassert :: "bool \<Rightarrow> 'a outcome \<Rightarrow> 'a outcome" where
  "gassert c k = (if c then k else Abort)"

fun obind :: "'a outcome \<Rightarrow> ('a \<Rightarrow> 'b outcome) \<Rightarrow> 'b outcome" where
  "obind Abort f = Abort"
| "obind (Done x) f = f x"

lemma gassert_simps [simp]: "gassert True k = k" "gassert False k = Abort"
  by (simp_all add: gassert_def)

lemma gassert_Done: "gassert c k = Done r \<longleftrightarrow> c \<and> k = Done r"
  by (simp add: gassert_def)

lemma obind_assoc: "obind (obind m f) g = obind m (\<lambda>x. obind (f x) g)"
  by (cases m) simp_all

lemma obind_Done: "obind m f = Done r \<longleftrightarrow> (\<exists>x. m = Done x \<and> f x = Done r)"
  by (cases m) auto

text \<open>Fallible code that may also abort: \<open>Done None\<close> is the early return of an error.\<close>

fun and_then :: "'a option outcome \<Rightarrow> ('a \<Rightarrow> 'b option outcome) \<Rightarrow> 'b option outcome" where
  "and_then Abort f = Abort"
| "and_then (Done None) f = Done None"
| "and_then (Done (Some x)) f = f x"

lemma and_then_Some:
  "and_then m f = Done (Some y) \<longleftrightarrow> (\<exists>x. m = Done (Some x) \<and> f x = Done (Some y))"
  by (cases "(m, f)" rule: and_then.cases) auto

lemma and_then_Done: "and_then (Done x) (\<lambda>v. Done (f v)) = Done (Option.bind x f)"
  by (cases x) simp_all

text \<open>Facts on the machine words of a component, unfolded to natural numbers.\<close>

named_theorems word_nat

section \<open>C strings and buffers\<close>

text \<open>
  A C string argument is the list of its bytes before the terminating NUL. A \<^verbatim>\<open>char[n]\<close> buffer
  is a list of \<open>n\<close> bytes; \<open>cstr\<close> reads it as a C string, up to the first NUL.
\<close>

abbreviation NUL :: char where
  "NUL \<equiv> CHR 0x00"

definition cstr :: "char list \<Rightarrow> string" where
  "cstr buf = takeWhile (\<lambda>c. c \<noteq> NUL) buf"

definition is_cstring :: "string \<Rightarrow> bool" where
  "is_cstring s \<longleftrightarrow> NUL \<notin> set s"

definition zero_padded :: "nat \<Rightarrow> string \<Rightarrow> char list" where
  "zero_padded n s = s @ replicate (n - length s) NUL"

abbreviation code :: "char \<Rightarrow> nat" where
  "code c \<equiv> of_char c"

definition c_isdigit :: "char \<Rightarrow> bool" where
  "c_isdigit c \<longleftrightarrow> code CHR ''0'' \<le> code c \<and> code c \<le> code CHR ''9''"

definition c_isupper :: "char \<Rightarrow> bool" where
  "c_isupper c \<longleftrightarrow> code CHR ''A'' \<le> code c \<and> code c \<le> code CHR ''Z''"

definition c_islower :: "char \<Rightarrow> bool" where
  "c_islower c \<longleftrightarrow> code CHR ''a'' \<le> code c \<and> code c \<le> code CHR ''z''"

definition c_isalpha :: "char \<Rightarrow> bool" where
  "c_isalpha c \<longleftrightarrow> c_isupper c \<or> c_islower c"

text \<open>\<^verbatim>\<open>isspace\<close> in the C locale: space, \<^verbatim>\<open>\\t\<close>, \<^verbatim>\<open>\\n\<close>, \<^verbatim>\<open>\\v\<close>, \<^verbatim>\<open>\\f\<close> and \<^verbatim>\<open>\\r\<close>.\<close>

definition c_isspace :: "char \<Rightarrow> bool" where
  "c_isspace c \<longleftrightarrow> code c = 32 \<or> (9 \<le> code c \<and> code c \<le> 13)"

definition c_tolower :: "char \<Rightarrow> char" where
  "c_tolower c = (if c_isupper c then char_of (code c + 32) else c)"

definition c_toupper :: "char \<Rightarrow> char" where
  "c_toupper c = (if c_islower c then char_of (code c - 32) else c)"

text \<open>\<^verbatim>\<open>0 == strcasecmp (s, t)\<close>.\<close>

definition strcaseeq :: "string \<Rightarrow> string \<Rightarrow> bool" where
  "strcaseeq s t \<longleftrightarrow> map c_tolower s = map c_tolower t"

text \<open>\<^verbatim>\<open>0 == strncasecmp (s, t, n)\<close>.\<close>

definition strncaseeq :: "string \<Rightarrow> string \<Rightarrow> nat \<Rightarrow> bool" where
  "strncaseeq s t n \<longleftrightarrow> map c_tolower (take n s) = map c_tolower (take n t)"

lemma strcaseeq_refl [simp]: "strcaseeq s s"
  by (simp add: strcaseeq_def)

lemma strcaseeq_sym: "strcaseeq s t \<longleftrightarrow> strcaseeq t s"
  by (auto simp: strcaseeq_def)

lemma strcaseeq_trans: "strcaseeq s t \<Longrightarrow> strcaseeq t u \<Longrightarrow> strcaseeq s u"
  by (simp add: strcaseeq_def)

lemma strcaseeq_length: "strcaseeq s t \<Longrightarrow> length s = length t"
  unfolding strcaseeq_def by (metis length_map)

lemma c_tolower_upper_inj:
  "c_isupper c \<Longrightarrow> c_isupper d \<Longrightarrow> c_tolower c = c_tolower d \<longleftrightarrow> c = d"
proof -
  assume u: "c_isupper c" "c_isupper d"
  have "c_tolower c = c_tolower d \<Longrightarrow> code c = code d"
  proof -
    assume "c_tolower c = c_tolower d"
    with u have "(of_char (char_of (code c + 32)) :: nat) = of_char (char_of (code d + 32))"
      by (simp add: c_tolower_def)
    moreover have "code c + 32 < 256" "code d + 32 < 256"
      using u by (simp_all add: c_isupper_def)
    ultimately show ?thesis by (simp add: of_char_of)
  qed
  then show ?thesis by (auto dest: of_char_eq_iff [THEN iffD1])
qed

lemma strcaseeq_upper:
  assumes "list_all c_isupper s" "list_all c_isupper t"
  shows "strcaseeq s t \<longleftrightarrow> s = t"
proof
  assume eq: "strcaseeq s t"
  then have "length s = length t" by (rule strcaseeq_length)
  then show "s = t" using assms eq
    by (induction s t rule: list_induct2) (auto simp: strcaseeq_def c_tolower_upper_inj)
qed simp

lemma cstr_zero_padded [simp]:
  assumes "is_cstring s"
  shows "cstr (zero_padded n s) = s"
proof -
  have "takeWhile (\<lambda>c. c \<noteq> NUL) (replicate k NUL) = []" for k
    by (cases k) simp_all
  moreover have "\<And>x. x \<in> set s \<Longrightarrow> x \<noteq> NUL"
    using assms by (auto simp: is_cstring_def)
  ultimately show ?thesis
    by (simp add: cstr_def zero_padded_def takeWhile_append2)
qed

lemma cstr_replicate_NUL [simp]: "cstr (replicate n NUL) = []"
  by (cases n) (simp_all add: cstr_def)

lemma cstr_Nil [simp]: "cstr [] = []"
  by (simp add: cstr_def)

lemma is_cstring_cstr [simp]: "is_cstring (cstr buf)"
  by (auto simp: cstr_def is_cstring_def dest: set_takeWhileD)

lemma length_cstr_le: "length (cstr buf) \<le> length buf"
  by (simp add: cstr_def length_takeWhile_le)

lemma length_zero_padded [simp]: "length (zero_padded n s) = max n (length s)"
  by (simp add: zero_padded_def)

lemma c_isupper_not_NUL: "c_isupper c \<Longrightarrow> c \<noteq> NUL"
  by (auto simp: c_isupper_def)

lemma upper_is_cstring: "list_all c_isupper s \<Longrightarrow> is_cstring s"
  by (auto simp: is_cstring_def list_all_iff dest: c_isupper_not_NUL)

section \<open>Decimal numbers\<close>

text \<open>\<^verbatim>\<open>c - '0'\<close> for a digit, and the digit of a number below ten.\<close>

definition digit_val :: "char \<Rightarrow> nat" where
  "digit_val c = code c - code CHR ''0''"

definition digit_char :: "nat \<Rightarrow> char" where
  "digit_char n = char_of (code CHR ''0'' + n)"

lemma code_digit_char: "n < 10 \<Longrightarrow> code (digit_char n) = 48 + n"
  by (simp add: digit_char_def of_char_of)

lemma digit_val_digit_char [simp]: "n < 10 \<Longrightarrow> digit_val (digit_char n) = n"
  by (simp add: digit_val_def code_digit_char)

lemma c_isdigit_digit_char [simp]: "n < 10 \<Longrightarrow> c_isdigit (digit_char n)"
  by (simp add: c_isdigit_def code_digit_char)

lemma digit_val_less: "c_isdigit c \<Longrightarrow> digit_val c < 10"
  by (auto simp: c_isdigit_def digit_val_def)

lemma digit_char_digit_val [simp]: "c_isdigit c \<Longrightarrow> digit_char (digit_val c) = c"
  by (simp add: c_isdigit_def digit_val_def digit_char_def)

text \<open>\<^verbatim>\<open>printf ("%llu")\<close>: the decimal digits of a number, most significant first.\<close>

fun decimal :: "nat \<Rightarrow> string" where
  "decimal n = (if n < 10 then [digit_char n] else decimal (n div 10) @ [digit_char (n mod 10)])"

declare decimal.simps [simp del]

definition digits_value :: "string \<Rightarrow> nat" where
  "digits_value s = foldl (\<lambda>v c. 10 * v + digit_val c) 0 s"

lemma digits_value_Nil [simp]: "digits_value [] = 0"
  by (simp add: digits_value_def)

lemma digits_value_snoc [simp]: "digits_value (s @ [c]) = 10 * digits_value s + digit_val c"
  by (simp add: digits_value_def)

lemma decimal_digits: "list_all c_isdigit (decimal n)"
proof (induction n rule: decimal.induct)
  case (1 n)
  then show ?case by (subst decimal.simps) auto
qed

lemma digits_value_decimal [simp]: "digits_value (decimal n) = n"
proof (induction n rule: decimal.induct)
  case (1 n)
  show ?case
  proof (cases "n < 10")
    case True
    then show ?thesis
      by (subst decimal.simps) (simp add: digits_value_def)
  next
    case False
    with 1 show ?thesis by (subst decimal.simps) simp
  qed
qed

lemma decimal_nonempty [simp]: "decimal n \<noteq> []"
  by (subst decimal.simps) simp

lemma length_decimal_le: "n < 10 ^ k \<Longrightarrow> 0 < k \<Longrightarrow> length (decimal n) \<le> k"
proof (induction n arbitrary: k rule: decimal.induct)
  case (1 n)
  show ?case
  proof (cases "n < 10")
    case True
    with 1 show ?thesis by (subst decimal.simps) simp
  next
    case False
    from 1 obtain j where k: "k = Suc j" by (cases k) auto
    with False "1.prems" have "n div 10 < 10 ^ j" by simp
    moreover from this False have "0 < j" by (cases j) auto
    ultimately have "length (decimal (n div 10)) \<le> j" using "1.IH" False by blast
    with False k show ?thesis by (subst decimal.simps) simp
  qed
qed

lemma c_isdigit_not_special:
  "c_isdigit c \<Longrightarrow> c \<noteq> NUL \<and> c \<noteq> CHR ''.'' \<and> c \<noteq> CHR '':'' \<and> \<not> c_isspace c \<and> \<not> c_isupper c"
  by (auto simp: c_isdigit_def c_isspace_def c_isupper_def)

section \<open>Words\<close>

text \<open>Sums and products that stay below the width are exact.\<close>

lemma unat_add_exact:
  "unat (a :: 'a::len word) + unat b < 2 ^ LENGTH('a) \<Longrightarrow> unat (a + b) = unat a + unat b"
  by (simp add: unat_add_lem [THEN iffD1])

lemma unat_mult_exact:
  "unat (a :: 'a::len word) * unat b < 2 ^ LENGTH('a) \<Longrightarrow> unat (a * b) = unat a * unat b"
  by (simp add: unat_mult_lem [THEN iffD1])

lemma unat_sub_exact: "b \<le> a \<Longrightarrow> unat (a - b) = unat a - unat (b :: 'a::len word)"
  by (rule unat_sub)

lemma unat_less_width: "unat (w :: 'a::len word) < 2 ^ LENGTH('a)"
  by (rule unsigned_less)

lemma unat_ucast_up:
  assumes "LENGTH('b) \<le> LENGTH('a)"
  shows "unat (ucast (w :: 'b::len word) :: 'a::len word) = unat w"
proof -
  have "(2 :: nat) ^ LENGTH('b) \<le> 2 ^ LENGTH('a)"
    using assms by (simp add: power_increasing)
  then have "unat w < 2 ^ LENGTH('a)"
    using unat_less_width [of w] by linarith
  then show ?thesis by (simp add: unsigned_ucast_eq take_bit_nat_eq_self)
qed

lemma unat_of_nat_exact: "n < 2 ^ LENGTH('a) \<Longrightarrow> unat (of_nat n :: 'a::len word) = n"
  by (simp add: unat_of_nat)

lemma word_eq_of_natI: "unat (w :: 'a::len word) = n \<Longrightarrow> w = of_nat n"
  by auto

lemma lex_div_mod:
  fixes u w b :: nat
  shows "u < w \<longleftrightarrow> u div b < w div b \<or> (u div b = w div b \<and> u mod b < w mod b)"
proof
  assume "u < w"
  then have "u div b \<le> w div b" by (simp add: div_le_mono)
  moreover have "u div b = w div b \<Longrightarrow> u mod b < w mod b"
    using \<open>u < w\<close> by (metis div_mult_mod_eq nat_add_left_cancel_less)
  ultimately show "u div b < w div b \<or> (u div b = w div b \<and> u mod b < w mod b)"
    by linarith
next
  assume "u div b < w div b \<or> (u div b = w div b \<and> u mod b < w mod b)"
  then show "u < w"
    by (metis div_le_mono div_mult_mod_eq leD leI nat_add_left_cancel_less)
qed

text \<open>Subtraction of two numbers written with base \<open>b\<close>, with a borrow from the high part.\<close>

lemma borrow_div_mod:
  fixes u w b :: nat
  assumes "w div b < u div b" "w mod b < b"
  shows "u - w = (u div b - 1 - w div b) * b + (u mod b + b - w mod b)" and "w \<le> u"
proof -
  obtain k where k: "u div b = Suc (w div b + k)"
    using assms(1) less_iff_Suc_add by blast
  have "u = (w div b) * b + k * b + b + u mod b"
    by (metis k div_mult_mod_eq add.commute add_mult_distrib mult_Suc)
  moreover have "w = (w div b) * b + w mod b" by simp
  ultimately have "u = w + (k * b + (u mod b + b - w mod b))"
    using assms(2) by linarith
  then show "u - w = (u div b - 1 - w div b) * b + (u mod b + b - w mod b)" "w \<le> u"
    using k by simp_all
qed

lemma noborrow_div_mod:
  fixes u w b :: nat
  assumes "w div b \<le> u div b" "w mod b \<le> u mod b"
  shows "u - w = (u div b - w div b) * b + (u mod b - w mod b)" and "w \<le> u"
proof -
  obtain k where k: "u div b = w div b + k"
    using assms(1) le_iff_add by blast
  have "u = (w div b) * b + k * b + u mod b"
    by (metis k div_mult_mod_eq add_mult_distrib)
  moreover have "w = (w div b) * b + w mod b" by simp
  ultimately have "u = w + (k * b + (u mod b - w mod b))"
    using assms(2) by linarith
  then show "u - w = (u div b - w div b) * b + (u mod b - w mod b)" "w \<le> u"
    using k by simp_all
qed

lemma unat_lt_64: "unat (w :: 64 word) < 18446744073709551616"
  using unat_less_width [of w] by simp

lemma unat_lt_32: "unat (w :: 32 word) < 4294967296"
  using unat_less_width [of w] by simp

lemma unat_lt_8: "unat (w :: 8 word) < 256"
  using unat_less_width [of w] by simp

text \<open>
  The overflow test of C code that multiplies and divides back: the quotient is the first
  factor exactly when the product did not wrap.
\<close>

lemma mult_div_overflow_check:
  fixes x y :: "'a::len word"
  assumes "y \<noteq> 0"
  shows "x * y div y = x \<longleftrightarrow> unat x * unat y < 2 ^ LENGTH('a)"
proof
  assume eq: "x * y div y = x"
  show "unat x * unat y < 2 ^ LENGTH('a)"
  proof (rule ccontr)
    assume ov: "\<not> unat x * unat y < 2 ^ LENGTH('a)"
    have "unat (x * y) < 2 ^ LENGTH('a)" by (rule unat_less_width)
    with ov have less: "unat (x * y) < unat x * unat y" by linarith
    have "unat (x * y) div unat y = unat x"
      using eq by (metis unat_div)
    then have "unat x * unat y \<le> unat (x * y)"
      by (metis div_times_less_eq_dividend)
    with less show False by simp
  qed
next
  assume "unat x * unat y < 2 ^ LENGTH('a)"
  with assms show "x * y div y = x" by (simp add: word_div_mult word_gt_0)
qed

text \<open>The wrap-around test of C code that adds and compares back.\<close>

lemma add_overflow_check:
  fixes x y :: "'a::len word"
  shows "x + y < x \<longleftrightarrow> 2 ^ LENGTH('a) \<le> unat x + unat y"
  using no_plus_overflow_unat_size [of x y] by (simp add: word_size not_le [symmetric])

end
