(* ===== verification/Taler_Amount.thy ===== *)
theory Taler_Amount
  imports Taler_Prelude
begin

text \<open>
  The fixed-point amounts of \<^verbatim>\<open>src/src/util/amount.c\<close>: the struct with its 64-bit value, 32-bit
  fraction and 12-byte currency buffer, every operation of the file except the conversions
  from and to strings (theory \<open>Amount_Format\<close>), and their exactness over the number of
  smallest units the amount stands for. Output parameters are returned next to the result
  code; a failing assertion is \<open>Abort\<close>.
\<close>

section \<open>The data\<close>

record amount =
  "value" :: "64 word"
  fraction :: "32 word"
  currency :: "char list"

definition TALER_CURRENCY_LEN :: nat where
  "TALER_CURRENCY_LEN = 12"

definition TALER_AMOUNT_FRAC_BASE :: nat where
  "TALER_AMOUNT_FRAC_BASE = 100000000"

definition TALER_AMOUNT_FRAC_LEN :: nat where
  "TALER_AMOUNT_FRAC_LEN = 8"

definition TALER_AMOUNT_MAX_VALUE :: nat where
  "TALER_AMOUNT_MAX_VALUE = 2 ^ 52"

abbreviation max_value64 :: "64 word" where
  "max_value64 \<equiv> of_nat TALER_AMOUNT_MAX_VALUE"

abbreviation frac_base32 :: "32 word" where
  "frac_base32 \<equiv> of_nat TALER_AMOUNT_FRAC_BASE"

abbreviation frac_base64 :: "64 word" where
  "frac_base64 \<equiv> of_nat TALER_AMOUNT_FRAC_BASE"

datatype arithmetic_result =
    TALER_AAR_RESULT_POSITIVE
  | TALER_AAR_RESULT_ZERO
  | TALER_AAR_INVALID_NEGATIVE_RESULT
  | TALER_AAR_INVALID_RESULT_OVERFLOW
  | TALER_AAR_INVALID_NORMALIZATION_FAILED
  | TALER_AAR_INVALID_CURRENCIES_INCOMPATIBLE

fun aar_code :: "arithmetic_result \<Rightarrow> int" where
  "aar_code TALER_AAR_RESULT_POSITIVE = 1"
| "aar_code TALER_AAR_RESULT_ZERO = 0"
| "aar_code TALER_AAR_INVALID_NEGATIVE_RESULT = -1"
| "aar_code TALER_AAR_INVALID_RESULT_OVERFLOW = -2"
| "aar_code TALER_AAR_INVALID_NORMALIZATION_FAILED = -3"
| "aar_code TALER_AAR_INVALID_CURRENCIES_INCOMPATIBLE = -4"

section \<open>The operations\<close>

text \<open>\<^verbatim>\<open>invalidate\<close> zeroes the whole struct, the currency buffer included.\<close>

definition invalidate :: amount where
  "invalidate = \<lparr>value = 0, fraction = 0, currency = replicate TALER_CURRENCY_LEN NUL\<rparr>"

definition TALER_check_currency :: "string \<Rightarrow> generic_return" where
  "TALER_check_currency str =
     (if length str \<ge> TALER_CURRENCY_LEN then GNUNET_SYSERR
      else if list_ex (\<lambda>c. code CHR ''A'' > code c \<or> code CHR ''Z'' < code c) str
      then GNUNET_SYSERR
      else GNUNET_OK)"

definition TALER_amount_set_zero :: "string \<Rightarrow> amount \<Rightarrow> generic_return \<times> amount" where
  "TALER_amount_set_zero cur amount =
     (if TALER_check_currency cur \<noteq> GNUNET_OK then (GNUNET_SYSERR, amount)
      else (GNUNET_OK,
            \<lparr>value = 0, fraction = 0, currency = zero_padded TALER_CURRENCY_LEN cur\<rparr>))"

definition TALER_amount_is_valid :: "amount \<Rightarrow> generic_return" where
  "TALER_amount_is_valid a =
     (if value a > max_value64 then GNUNET_SYSERR
      else if currency a ! 0 \<noteq> NUL then GNUNET_OK else GNUNET_NO)"

definition TALER_amount_is_zero :: "amount \<Rightarrow> bool" where
  "TALER_amount_is_zero a =
     (if TALER_amount_is_valid a \<noteq> GNUNET_OK then False
      else value a = 0 \<and> fraction a = 0)"

definition TALER_amount_is_currency :: "amount \<Rightarrow> string \<Rightarrow> generic_return" where
  "TALER_amount_is_currency a cur =
     (if TALER_amount_is_valid a \<noteq> GNUNET_OK then GNUNET_SYSERR
      else if strcaseeq cur (cstr (currency a)) then GNUNET_OK else GNUNET_NO)"

definition TALER_amount_cmp_currency :: "amount \<Rightarrow> amount \<Rightarrow> generic_return" where
  "TALER_amount_cmp_currency a1 a2 =
     (if TALER_amount_is_valid a1 = GNUNET_NO \<or> TALER_amount_is_valid a2 = GNUNET_NO
      then GNUNET_SYSERR
      else if strcaseeq (cstr (currency a1)) (cstr (currency a2)) then GNUNET_YES
      else GNUNET_NO)"

definition TALER_amount_normalize :: "amount \<Rightarrow> generic_return \<times> amount" where
  "TALER_amount_normalize a =
     (if TALER_amount_is_valid a \<noteq> GNUNET_YES then (GNUNET_SYSERR, a)
      else if fraction a < frac_base32 then (GNUNET_NO, a)
      else let overflow = fraction a div frac_base32;
               a' = a\<lparr>fraction := fraction a mod frac_base32,
                      value := value a + ucast overflow\<rparr>
           in if value a' < ucast overflow \<or> value a' > max_value64
              then (GNUNET_SYSERR, invalidate)
              else (GNUNET_OK, a'))"

definition TALER_amount_cmp :: "amount \<Rightarrow> amount \<Rightarrow> int outcome" where
  "TALER_amount_cmp a1 a2 =
     gassert (TALER_amount_cmp_currency a1 a2 = GNUNET_YES)
       (let (r1, n1) = TALER_amount_normalize a1;
            (r2, n2) = TALER_amount_normalize a2
        in gassert (r1 \<noteq> GNUNET_SYSERR)
             (gassert (r2 \<noteq> GNUNET_SYSERR)
               (Done (if value n1 = value n2
                      then (if fraction n1 < fraction n2 then -1
                            else if fraction n1 > fraction n2 then 1 else 0)
                      else if value n1 < value n2 then -1 else 1))))"

definition TALER_amount_max :: "amount \<Rightarrow> amount \<Rightarrow> (generic_return \<times> amount) outcome" where
  "TALER_amount_max a1 a2 =
     (if TALER_amount_cmp_currency a1 a2 \<noteq> GNUNET_OK then Done (GNUNET_SYSERR, invalidate)
      else obind (TALER_amount_cmp a1 a2)
             (\<lambda>c. Done (GNUNET_OK, if c = 1 then a1 else a2)))"

definition TALER_amount_min :: "amount \<Rightarrow> amount \<Rightarrow> (generic_return \<times> amount) outcome" where
  "TALER_amount_min a1 a2 =
     (if TALER_amount_cmp_currency a1 a2 \<noteq> GNUNET_OK then Done (GNUNET_SYSERR, invalidate)
      else obind (TALER_amount_cmp a1 a2)
             (\<lambda>c. Done (GNUNET_OK, if c = 1 then a2 else a1)))"

text \<open>
  Subtraction: the operands are copied and normalised, one unit is borrowed from the value
  when the fraction is too small, and the difference is written into a zeroed amount of the
  first operand's currency.
\<close>

definition TALER_amount_subtract ::
  "amount \<Rightarrow> amount \<Rightarrow> (arithmetic_result \<times> amount) outcome" where
  "TALER_amount_subtract a1 a2 =
     (if TALER_amount_cmp_currency a1 a2 \<noteq> GNUNET_YES
      then Done (TALER_AAR_INVALID_CURRENCIES_INCOMPATIBLE, invalidate)
      else let (r1, n1) = TALER_amount_normalize a1;
               (r2, n2) = TALER_amount_normalize a2
      in if r1 = GNUNET_SYSERR \<or> r2 = GNUNET_SYSERR
         then Done (TALER_AAR_INVALID_NORMALIZATION_FAILED, invalidate)
         else if fraction n1 < fraction n2 \<and> value n1 = 0
         then Done (TALER_AAR_INVALID_NEGATIVE_RESULT, invalidate)
         else let m1 = (if fraction n1 < fraction n2
                        then n1\<lparr>fraction := fraction n1 + frac_base32, value := value n1 - 1\<rparr>
                        else n1)
         in if value m1 < value n2
            then Done (TALER_AAR_INVALID_NEGATIVE_RESULT, invalidate)
            else let (rz, z) = TALER_amount_set_zero (cstr (currency m1)) invalidate
            in gassert (rz = GNUNET_OK)
                 (gassert (fraction m1 \<ge> fraction n2)
                   (gassert (value m1 \<ge> value n2)
                     (let diff = z\<lparr>fraction := fraction m1 - fraction n2,
                                   value := value m1 - value n2\<rparr>
                      in Done (if fraction diff = 0 \<and> value diff = 0
                               then TALER_AAR_RESULT_ZERO else TALER_AAR_RESULT_POSITIVE,
                               diff)))))"

definition TALER_amount_add ::
  "amount \<Rightarrow> amount \<Rightarrow> (arithmetic_result \<times> amount) outcome" where
  "TALER_amount_add a1 a2 =
     (if TALER_amount_cmp_currency a1 a2 \<noteq> GNUNET_YES
      then Done (TALER_AAR_INVALID_CURRENCIES_INCOMPATIBLE, invalidate)
      else let (r1, n1) = TALER_amount_normalize a1;
               (r2, n2) = TALER_amount_normalize a2
      in if r1 = GNUNET_SYSERR \<or> r2 = GNUNET_SYSERR
         then Done (TALER_AAR_INVALID_NORMALIZATION_FAILED, invalidate)
         else let (rz, z) = TALER_amount_set_zero (cstr (currency a1)) invalidate
         in gassert (rz = GNUNET_OK)
              (let res = z\<lparr>value := value n1 + value n2\<rparr>
               in if value res < value n1
                  then Done (TALER_AAR_INVALID_RESULT_OVERFLOW, invalidate)
                  else if value res > max_value64
                  then Done (TALER_AAR_INVALID_RESULT_OVERFLOW, invalidate)
                  else let (rn, sum) =
                         TALER_amount_normalize (res\<lparr>fraction := fraction n1 + fraction n2\<rparr>)
                  in if rn = GNUNET_SYSERR
                     then Done (TALER_AAR_INVALID_RESULT_OVERFLOW, invalidate)
                     else Done (if fraction sum = 0 \<and> value sum = 0
                                then TALER_AAR_RESULT_ZERO else TALER_AAR_RESULT_POSITIVE,
                                sum)))"

definition TALER_amount_divide :: "amount \<Rightarrow> 32 word \<Rightarrow> amount outcome" where
  "TALER_amount_divide dividend divisor =
     gassert (divisor \<noteq> 0)
       (let (r, result) = TALER_amount_normalize dividend
        in gassert (r \<noteq> GNUNET_SYSERR)
             (if divisor = 1 then Done result
              else let modr = value result mod ucast divisor;
                       modr' = modr * frac_base64 + ucast (fraction result);
                       result' = result\<lparr>value := value result div ucast divisor,
                                        fraction := ucast (modr' div ucast divisor)\<rparr>;
                       (r', result'') = TALER_amount_normalize result'
              in gassert (r' \<noteq> GNUNET_SYSERR) (Done result'')))"

text \<open>
  Multiplication writes into its output parameter as it goes, so the content of the result
  before the call and the partial writes of the overflow branches are part of the model.
\<close>

definition TALER_amount_multiply ::
  "amount \<Rightarrow> amount \<Rightarrow> 32 word \<Rightarrow> (arithmetic_result \<times> amount) outcome" where
  "TALER_amount_multiply result amount factor =
     (let (r, inp) = TALER_amount_normalize amount
      in if r = GNUNET_SYSERR then Done (TALER_AAR_INVALID_NORMALIZATION_FAILED, result)
      else let result0 = result\<lparr>currency := currency amount\<rparr>
      in if factor = 0 \<or> (value inp = 0 \<and> fraction inp = 0)
         then Done (TALER_AAR_RESULT_ZERO, result0\<lparr>value := 0, fraction := 0\<rparr>)
         else let result1 = result0\<lparr>value := value inp * ucast factor\<rparr>
         in if value inp \<noteq> value result1 div ucast factor
            then Done (TALER_AAR_INVALID_RESULT_OVERFLOW, result1)
            else let tmp = ucast factor * ucast (fraction inp);
                     res = tmp div frac_base64
            in if value result1 + res < value result1
               then Done (TALER_AAR_INVALID_RESULT_OVERFLOW, result1)
               else let result2 = result1\<lparr>value := value result1 + res,
                                          fraction := ucast (tmp mod frac_base64)\<rparr>
               in if value result2 > max_value64
                  then Done (TALER_AAR_INVALID_RESULT_OVERFLOW, result2)
                  else let (rn, result3) = TALER_amount_normalize result2
                  in gassert (rn \<noteq> GNUNET_SYSERR)
                       (Done (TALER_AAR_RESULT_POSITIVE, result3)))"

definition TALER_amount_round_down :: "amount \<Rightarrow> amount \<Rightarrow> generic_return \<times> amount" where
  "TALER_amount_round_down amount round_unit =
     (if TALER_amount_cmp_currency amount round_unit \<noteq> GNUNET_OK then (GNUNET_SYSERR, amount)
      else if fraction round_unit \<noteq> 0 \<and> value round_unit \<noteq> 0 then (GNUNET_SYSERR, amount)
      else if fraction round_unit = 0 \<and> value round_unit = 0 then (GNUNET_NO, amount)
      else if fraction round_unit \<noteq> 0 \<and> fraction amount mod fraction round_unit = 0
      then (GNUNET_NO, amount)
      else let amount1 = (if fraction round_unit \<noteq> 0
                          then amount\<lparr>fraction := fraction amount
                                                  - fraction amount mod fraction round_unit\<rparr>
                          else amount)
      in if value round_unit \<noteq> 0
         then (if value amount1 mod value round_unit = 0 then (GNUNET_NO, amount1)
               else (GNUNET_OK,
                     amount1\<lparr>value := value amount1 - value amount1 mod value round_unit,
                             fraction := 0\<rparr>))
         else (GNUNET_OK, amount1))"

section \<open>What an amount stands for\<close>

text \<open>
  An amount stands for a number of smallest units (one unit is \<open>1 / TALER_AMOUNT_FRAC_BASE\<close>
  of the currency). The largest number of units a normalised amount can hold is \<open>max_units\<close>.
\<close>

definition units :: "amount \<Rightarrow> nat" where
  "units a = unat (value a) * TALER_AMOUNT_FRAC_BASE + unat (fraction a)"

definition max_units :: nat where
  "max_units = TALER_AMOUNT_MAX_VALUE * TALER_AMOUNT_FRAC_BASE + (TALER_AMOUNT_FRAC_BASE - 1)"

text \<open>A legal currency buffer: one to eleven letters A to Z, padded with NUL bytes.\<close>

definition legal_currency :: "char list \<Rightarrow> bool" where
  "legal_currency buf \<longleftrightarrow>
     buf = zero_padded TALER_CURRENCY_LEN (cstr buf) \<and> cstr buf \<noteq> []
     \<and> length (cstr buf) < TALER_CURRENCY_LEN \<and> list_all c_isupper (cstr buf)"

text \<open>
  A representable amount has a legal currency and can be normalised; a normal amount is one
  whose fraction is already below the base.
\<close>

definition representable :: "amount \<Rightarrow> bool" where
  "representable a \<longleftrightarrow> legal_currency (currency a) \<and> units a \<le> max_units"

definition normal :: "amount \<Rightarrow> bool" where
  "normal a \<longleftrightarrow> representable a \<and> unat (fraction a) < TALER_AMOUNT_FRAC_BASE"

text \<open>The normal amount of a currency with a given number of units.\<close>

definition mk_amount :: "char list \<Rightarrow> nat \<Rightarrow> amount" where
  "mk_amount cur u = \<lparr>value = of_nat (u div TALER_AMOUNT_FRAC_BASE),
                      fraction = of_nat (u mod TALER_AMOUNT_FRAC_BASE), currency = cur\<rparr>"

lemmas amount_consts =
  TALER_AMOUNT_FRAC_BASE_def TALER_AMOUNT_MAX_VALUE_def TALER_CURRENCY_LEN_def max_units_def

lemma unat_bounds [word_nat]:
  "unat max_value64 = TALER_AMOUNT_MAX_VALUE"
  "unat frac_base32 = TALER_AMOUNT_FRAC_BASE"
  "unat frac_base64 = TALER_AMOUNT_FRAC_BASE"
  by (simp_all add: amount_consts)

subsection \<open>Currencies\<close>

lemma legal_currency_nth: "legal_currency buf \<Longrightarrow> buf ! 0 \<noteq> NUL"
proof -
  assume l: "legal_currency buf"
  then obtain c s where s: "cstr buf = c # s" by (auto simp: legal_currency_def neq_Nil_conv)
  with l have "buf ! 0 = c" and "c_isupper c"
    by (auto simp: legal_currency_def zero_padded_def)
  then show ?thesis by (simp add: c_isupper_not_NUL)
qed

lemma legal_currency_check: "legal_currency buf \<Longrightarrow> TALER_check_currency (cstr buf) = GNUNET_OK"
  by (auto simp: legal_currency_def TALER_check_currency_def list_ex_iff list_all_iff c_isupper_def)

lemma check_currency_OK:
  "TALER_check_currency s = GNUNET_OK \<longleftrightarrow> length s < TALER_CURRENCY_LEN \<and> list_all c_isupper s"
  by (simp add: TALER_check_currency_def list_ex_iff list_all_iff c_isupper_def not_less not_le)

lemma check_currency_legal:
  assumes "TALER_check_currency s = GNUNET_OK" "s \<noteq> []"
  shows "legal_currency (zero_padded TALER_CURRENCY_LEN s)"
  using assms by (simp add: check_currency_OK legal_currency_def upper_is_cstring)

lemma set_zero_legal:
  "legal_currency buf \<Longrightarrow>
   TALER_amount_set_zero (cstr buf) a = (GNUNET_OK, \<lparr>value = 0, fraction = 0, currency = buf\<rparr>)"
  using legal_currency_check [of buf]
  by (simp add: TALER_amount_set_zero_def legal_currency_def)

lemma legal_currency_eq:
  assumes "legal_currency b1" "legal_currency b2"
  shows "strcaseeq (cstr b1) (cstr b2) \<longleftrightarrow> b1 = b2"
  using assms strcaseeq_upper [of "cstr b1" "cstr b2"]
  by (metis legal_currency_def)

subsection \<open>Validity and normalisation\<close>

lemma unat_value_le: "unat (value a) * TALER_AMOUNT_FRAC_BASE \<le> units a"
  by (simp add: units_def)

lemma units_le_value: "units a \<le> max_units \<Longrightarrow> unat (value a) \<le> TALER_AMOUNT_MAX_VALUE"
  by (simp add: units_def amount_consts)

lemma representable_valid: "representable a \<Longrightarrow> TALER_amount_is_valid a = GNUNET_OK"
  using units_le_value [of a] legal_currency_nth [of "currency a"]
  by (auto simp: TALER_amount_is_valid_def representable_def word_less_nat_alt word_nat)

lemma cmp_currency_representable:
  assumes "representable a1" "representable a2"
  shows "TALER_amount_cmp_currency a1 a2
         = (if currency a1 = currency a2 then GNUNET_YES else GNUNET_NO)"
  using assms legal_currency_eq [of "currency a1" "currency a2"]
  by (auto simp: TALER_amount_cmp_currency_def representable_valid representable_def)

lemma mk_amount_sel [simp]: "currency (mk_amount cur u) = cur"
  by (simp add: mk_amount_def)

lemma mk_amount_nat:
  assumes "u \<le> max_units"
  shows "unat (value (mk_amount cur u)) = u div TALER_AMOUNT_FRAC_BASE"
    and "unat (fraction (mk_amount cur u)) = u mod TALER_AMOUNT_FRAC_BASE"
proof -
  have "u div TALER_AMOUNT_FRAC_BASE < 2 ^ 64" "u mod TALER_AMOUNT_FRAC_BASE < 2 ^ 32"
    using assms by (simp_all add: amount_consts)
  then show "unat (value (mk_amount cur u)) = u div TALER_AMOUNT_FRAC_BASE"
    "unat (fraction (mk_amount cur u)) = u mod TALER_AMOUNT_FRAC_BASE"
    by (simp_all add: mk_amount_def unat_of_nat_exact)
qed

lemma units_mk_amount [simp]: "u \<le> max_units \<Longrightarrow> units (mk_amount cur u) = u"
  by (simp add: units_def mk_amount_nat)

lemma normal_mk_amount [simp]: "legal_currency cur \<Longrightarrow> u \<le> max_units \<Longrightarrow> normal (mk_amount cur u)"
  by (simp add: normal_def representable_def mk_amount_nat) (simp add: amount_consts)

lemma normal_representable: "normal a \<Longrightarrow> representable a"
  by (simp add: normal_def)

lemma normal_mk_amount_units: "normal a \<Longrightarrow> mk_amount (currency a) (units a) = a"
  by (cases a) (simp add: normal_def units_def mk_amount_def)

lemma normalize_representable:
  assumes "representable a"
  shows "TALER_amount_normalize a =
         (if unat (fraction a) < TALER_AMOUNT_FRAC_BASE then GNUNET_NO else GNUNET_OK,
          mk_amount (currency a) (units a))"
proof (cases "unat (fraction a) < TALER_AMOUNT_FRAC_BASE")
  case True
  with assms normal_mk_amount_units [of a] representable_valid [OF assms] show ?thesis
    by (simp add: TALER_amount_normalize_def word_less_nat_alt word_nat normal_def)
next
  case False
  define ov where "ov = fraction a div frac_base32"
  have ov: "unat (ucast ov :: 64 word) = unat (fraction a) div TALER_AMOUNT_FRAC_BASE"
    by (simp add: unat_ucast_up ov_def unat_div word_nat)
  have le: "units a div TALER_AMOUNT_FRAC_BASE \<le> TALER_AMOUNT_MAX_VALUE"
    using assms by (auto simp: representable_def amount_consts)
  have dv: "units a div TALER_AMOUNT_FRAC_BASE
            = unat (value a) + unat (fraction a) div TALER_AMOUNT_FRAC_BASE"
    and md: "units a mod TALER_AMOUNT_FRAC_BASE = unat (fraction a) mod TALER_AMOUNT_FRAC_BASE"
    by (simp_all add: units_def amount_consts)
  have sum: "unat (value a + ucast ov) = units a div TALER_AMOUNT_FRAC_BASE"
    unfolding dv using le [unfolded dv]
    by (subst unat_add_exact) (simp_all add: ov, simp add: amount_consts)
  have "value a + ucast ov = of_nat (units a div TALER_AMOUNT_FRAC_BASE)"
    by (rule word_eq_of_natI [OF sum])
  moreover have "fraction a mod frac_base32 = of_nat (units a mod TALER_AMOUNT_FRAC_BASE)"
    by (rule word_eq_of_natI) (simp add: unat_mod word_nat md)
  ultimately have eq: "a\<lparr>fraction := fraction a mod frac_base32, value := value a + ucast ov\<rparr>
                       = mk_amount (currency a) (units a)"
    by (cases a) (simp add: mk_amount_def)
  have "\<not> value a + ucast ov < ucast ov" "\<not> value a + ucast ov > max_value64"
    using le by (simp_all add: word_less_nat_alt word_nat sum) (simp add: ov dv)
  with False eq representable_valid [OF assms] show ?thesis
    by (simp add: TALER_amount_normalize_def Let_def ov_def [symmetric] word_less_nat_alt [of _ frac_base32] word_nat)
qed

lemma normalizeE:
  assumes "representable a"
  obtains r where "TALER_amount_normalize a = (r, mk_amount (currency a) (units a))"
    and "r \<noteq> GNUNET_SYSERR"
  using normalize_representable [OF assms] by (metis generic_return.distinct(1,3))

text \<open>A valid amount of a legal currency that is not representable cannot be normalised.\<close>

lemma normalize_overflow:
  assumes "legal_currency (currency a)" "unat (value a) \<le> TALER_AMOUNT_MAX_VALUE"
    and "units a > max_units"
  shows "TALER_amount_normalize a = (GNUNET_SYSERR, invalidate)"
proof -
  have valid: "TALER_amount_is_valid a = GNUNET_OK"
    using assms(1,2) legal_currency_nth [of "currency a"]
    by (auto simp: TALER_amount_is_valid_def word_less_nat_alt word_nat)
  define ov where "ov = fraction a div frac_base32"
  have ov: "unat (ucast ov :: 64 word) = unat (fraction a) div TALER_AMOUNT_FRAC_BASE"
    by (simp add: unat_ucast_up ov_def unat_div word_nat)
  have fr: "\<not> unat (fraction a) < TALER_AMOUNT_FRAC_BASE"
    using assms(2,3) by (simp add: units_def amount_consts)
  have big: "TALER_AMOUNT_MAX_VALUE < unat (value a) + unat (fraction a) div TALER_AMOUNT_FRAC_BASE"
    using assms(3) by (simp add: units_def amount_consts)
  have "unat (value a + ucast ov) = unat (value a) + unat (fraction a) div TALER_AMOUNT_FRAC_BASE"
    using assms(2) unat_lt_32 [of "fraction a"]
    by (subst unat_add_exact) (simp_all add: ov amount_consts)
  with big have "value a + ucast ov > max_value64"
    by (simp add: word_less_nat_alt word_nat)
  with valid fr show ?thesis
    by (simp add: TALER_amount_normalize_def Let_def ov_def [symmetric] word_less_nat_alt [of _ frac_base32] word_nat)
qed

subsection \<open>Addition, subtraction and comparison\<close>

text \<open>The result code of a successful operation.\<close>

definition aar_of :: "nat \<Rightarrow> arithmetic_result" where
  "aar_of u = (if u = 0 then TALER_AAR_RESULT_ZERO else TALER_AAR_RESULT_POSITIVE)"

lemma aar_of_code [simp]: "\<not> aar_code (aar_of u) < 0" "0 \<le> aar_code (aar_of u)"
  by (simp_all add: aar_of_def)

lemma mk_amount_zero_iff:
  assumes "u \<le> max_units"
  shows "fraction (mk_amount cur u) = 0 \<and> value (mk_amount cur u) = 0 \<longleftrightarrow> u = 0"
proof -
  have "u = 0 \<longleftrightarrow> u div TALER_AMOUNT_FRAC_BASE = 0 \<and> u mod TALER_AMOUNT_FRAC_BASE = 0"
    by (metis add_0 div_mult_mod_eq div_0 mod_0 mult_0)
  then show ?thesis
    using mk_amount_nat [OF assms, of cur] by (auto simp: unat_0_iff [symmetric])
qed

lemma units_split: "u = u div TALER_AMOUNT_FRAC_BASE * TALER_AMOUNT_FRAC_BASE + u mod TALER_AMOUNT_FRAC_BASE"
  by simp

lemma units_mod_less: "u mod TALER_AMOUNT_FRAC_BASE < TALER_AMOUNT_FRAC_BASE"
  by (simp add: amount_consts)

lemma units_div_le: "u \<le> max_units \<longleftrightarrow> u div TALER_AMOUNT_FRAC_BASE \<le> TALER_AMOUNT_MAX_VALUE"
  by (auto simp: amount_consts)

lemma add_representable:
  assumes a1: "representable a1" and a2: "representable a2" and cur: "currency a1 = currency a2"
  shows "TALER_amount_add a1 a2 =
         Done (if units a1 + units a2 \<le> max_units
               then (aar_of (units a1 + units a2),
                     mk_amount (currency a1) (units a1 + units a2))
               else (TALER_AAR_INVALID_RESULT_OVERFLOW, invalidate))"
proof -
  let ?u1 = "units a1" and ?u2 = "units a2" and ?B = TALER_AMOUNT_FRAC_BASE
  let ?n1 = "mk_amount (currency a1) ?u1" and ?n2 = "mk_amount (currency a1) ?u2"
  let ?v = "value ?n1 + value ?n2"
  define res where "res = \<lparr>value = ?v, fraction = fraction ?n1 + fraction ?n2, currency = currency a1\<rparr>"
  have u: "?u1 \<le> max_units" "?u2 \<le> max_units" and leg: "legal_currency (currency a1)"
    using a1 a2 by (simp_all add: representable_def)
  have v: "unat ?v = ?u1 div ?B + ?u2 div ?B"
    using u by (subst unat_add_exact) (simp_all add: mk_amount_nat, simp add: units_div_le amount_consts)
  have f: "unat (fraction ?n1 + fraction ?n2) = ?u1 mod ?B + ?u2 mod ?B"
    using units_mod_less [of ?u1] units_mod_less [of ?u2]
    by (subst unat_add_exact) (simp_all add: mk_amount_nat u, simp add: amount_consts)
  have units_res: "units res = ?u1 + ?u2"
    using units_split [of ?u1] units_split [of ?u2]
    by (simp add: units_def [of res]) (simp add: res_def v f add_mult_distrib)
  have no_wrap: "\<not> ?v < value ?n1"
    by (simp add: word_less_nat_alt v mk_amount_nat u)
  have step: "TALER_amount_add a1 a2 =
      (if ?v > max_value64 then Done (TALER_AAR_INVALID_RESULT_OVERFLOW, invalidate)
       else let (rn, sum) = TALER_amount_normalize res
            in if rn = GNUNET_SYSERR then Done (TALER_AAR_INVALID_RESULT_OVERFLOW, invalidate)
               else Done (if fraction sum = 0 \<and> value sum = 0 then TALER_AAR_RESULT_ZERO
                          else TALER_AAR_RESULT_POSITIVE, sum))"
    using no_wrap
    by (simp add: TALER_amount_add_def cmp_currency_representable a1 a2 cur [symmetric]
        normalize_representable set_zero_legal leg Let_def res_def)
  show ?thesis
  proof (cases "?u1 + ?u2 \<le> max_units")
    case True
    then have rep: "representable res"
      by (simp add: representable_def units_res) (simp add: res_def leg)
    have "\<not> ?v > max_value64"
      using units_le_value [of res] True
      by (simp add: word_less_nat_alt word_nat units_res) (simp add: res_def)
    moreover obtain rn where "TALER_amount_normalize res = (rn, mk_amount (currency a1) (?u1 + ?u2))"
      and "rn \<noteq> GNUNET_SYSERR"
      using normalizeE [OF rep] units_res res_def by (metis amount.select_convs(3))
    ultimately show ?thesis
      unfolding step aar_of_def using True mk_amount_zero_iff [OF True, of "currency a1"] by auto
  next
    case False
    have "\<not> ?v > max_value64 \<Longrightarrow> TALER_amount_normalize res = (GNUNET_SYSERR, invalidate)"
      using False by (intro normalize_overflow)
        (simp_all add: units_res word_less_nat_alt word_nat, simp_all add: res_def leg)
    with False show ?thesis by (simp add: step)
  qed
qed

lemma cmp_representable:
  assumes a1: "representable a1" and a2: "representable a2" and cur: "currency a1 = currency a2"
  shows "TALER_amount_cmp a1 a2 =
         Done (if units a1 < units a2 then -1 else if units a1 > units a2 then 1 else 0)"
proof -
  let ?u1 = "units a1" and ?u2 = "units a2" and ?B = TALER_AMOUNT_FRAC_BASE
  have u: "?u1 \<le> max_units" "?u2 \<le> max_units"
    using a1 a2 by (simp_all add: representable_def)
  show ?thesis
    by (simp add: TALER_amount_cmp_def cmp_currency_representable a1 a2 cur [symmetric]
        normalize_representable word_less_nat_alt word_unat_eq_iff mk_amount_nat u
        lex_div_mod [of ?u1 ?u2 ?B] lex_div_mod [of ?u2 ?u1 ?B])
qed

lemma mk_amountI:
  assumes "unat v = q" "unat f = r" "r < TALER_AMOUNT_FRAC_BASE"
  shows "\<lparr>value = v, fraction = f, currency = cur\<rparr> = mk_amount cur (q * TALER_AMOUNT_FRAC_BASE + r)"
  using assms by (auto simp: mk_amount_def)

text \<open>The last step of the subtraction, on operands whose parts do not need a borrow.\<close>

lemma subtract_parts:
  assumes "unat v2 \<le> unat v1" "unat f2 \<le> unat f1"
    and "unat f1 - unat f2 < TALER_AMOUNT_FRAC_BASE" "unat v1 \<le> TALER_AMOUNT_MAX_VALUE"
    and d: "d = (unat v1 - unat v2) * TALER_AMOUNT_FRAC_BASE + (unat f1 - unat f2)"
  shows "\<lparr>value = v1 - v2, fraction = f1 - f2, currency = cur\<rparr> = mk_amount cur d"
    and "f1 - f2 = 0 \<and> v1 - v2 = 0 \<longleftrightarrow> d = 0"
proof -
  have parts: "unat (v1 - v2) = unat v1 - unat v2" "unat (f1 - f2) = unat f1 - unat f2"
    using assms(1,2) by (simp_all add: unat_sub_exact word_le_nat_alt)
  show "\<lparr>value = v1 - v2, fraction = f1 - f2, currency = cur\<rparr> = mk_amount cur d"
    unfolding d by (rule mk_amountI [OF parts assms(3)])
  show "f1 - f2 = 0 \<and> v1 - v2 = 0 \<longleftrightarrow> d = 0"
    unfolding d unat_0_iff [symmetric] parts by (auto simp: amount_consts)
qed

text \<open>The subtraction of representable operands of one currency, the normalisation done.\<close>

lemma subtract_unfold:
  fixes a1 a2
  defines "n1 \<equiv> mk_amount (currency a1) (units a1)"
    and "n2 \<equiv> mk_amount (currency a1) (units a2)"
  defines "f1 \<equiv> (if fraction n1 < fraction n2 then fraction n1 + frac_base32 else fraction n1)"
    and "v1 \<equiv> (if fraction n1 < fraction n2 then value n1 - 1 else value n1)"
  assumes a1: "representable a1" and a2: "representable a2" and cur: "currency a1 = currency a2"
  shows "TALER_amount_subtract a1 a2 =
     (if fraction n1 < fraction n2 \<and> value n1 = 0 \<or> v1 < value n2
      then Done (TALER_AAR_INVALID_NEGATIVE_RESULT, invalidate)
      else gassert (fraction n2 \<le> f1)
             (Done (if f1 - fraction n2 = 0 \<and> v1 - value n2 = 0
                    then TALER_AAR_RESULT_ZERO else TALER_AAR_RESULT_POSITIVE,
                    \<lparr>value = v1 - value n2, fraction = f1 - fraction n2, currency = currency a1\<rparr>)))"
proof -
  have leg: "legal_currency (currency a1)" using a1 by (simp add: representable_def)
  obtain r1 where norm1: "TALER_amount_normalize a1 = (r1, n1)" "r1 \<noteq> GNUNET_SYSERR"
    using a1 normalizeE n1_def by metis
  obtain r2 where norm2: "TALER_amount_normalize a2 = (r2, n2)" "r2 \<noteq> GNUNET_SYSERR"
    using a2 normalizeE n2_def cur by metis
  have cmp: "TALER_amount_cmp_currency a1 a2 = GNUNET_YES"
    by (simp add: cmp_currency_representable a1 a2 cur)
  have sel: "currency n1 = currency a1" by (simp add: n1_def)
  show ?thesis
    unfolding TALER_amount_subtract_def cmp norm1(1) norm2(1) Let_def prod.case
    using norm1(2) norm2(2)
    by (cases "fraction n1 < fraction n2")
      (simp_all add: sel set_zero_legal leg f1_def v1_def leI)
qed

lemma subtract_representable:
  assumes a1: "representable a1" and a2: "representable a2" and cur: "currency a1 = currency a2"
  shows "TALER_amount_subtract a1 a2 =
         Done (if units a2 \<le> units a1
               then (aar_of (units a1 - units a2),
                     mk_amount (currency a1) (units a1 - units a2))
               else (TALER_AAR_INVALID_NEGATIVE_RESULT, invalidate))"
proof -
  let ?u1 = "units a1" and ?u2 = "units a2" and ?B = TALER_AMOUNT_FRAC_BASE
  define n1 where "n1 = mk_amount (currency a1) ?u1"
  define n2 where "n2 = mk_amount (currency a1) ?u2"
  let ?v1 = "?u1 div ?B" and ?f1 = "?u1 mod ?B" and ?v2 = "?u2 div ?B" and ?f2 = "?u2 mod ?B"
  have u: "?u1 \<le> max_units" "?u2 \<le> max_units"
    using a1 a2 by (simp_all add: representable_def)
  have nat: "unat (value n1) = ?v1" "unat (fraction n1) = ?f1"
    "unat (value n2) = ?v2" "unat (fraction n2) = ?f2"
    using mk_amount_nat [OF u(1)] mk_amount_nat [OF u(2)] by (simp_all add: n1_def n2_def)
  note less = units_mod_less [of ?u1] units_mod_less [of ?u2]
  have le: "?v1 \<le> TALER_AMOUNT_MAX_VALUE" using u(1) by (simp add: units_div_le)
  note unfold = subtract_unfold [OF a1 a2 cur, folded n1_def n2_def]
  show ?thesis
  proof (cases "?f1 < ?f2")
    case f: True
    then have fw: "fraction n1 < fraction n2" by (simp add: word_less_nat_alt nat)
    show ?thesis
    proof (cases "?v1 \<le> ?v2")
      case True
      then have "value n1 = 0 \<or> value n1 - 1 < value n2"
        by (cases "value n1 = 0") (auto simp: word_less_nat_alt unat_minus_one nat
            unat_0_iff [symmetric])
      moreover have "?u1 < ?u2"
        using True f by (simp add: lex_div_mod [of ?u1 ?u2 ?B]) linarith
      ultimately show ?thesis using fw by (auto simp: unfold)
    next
      case False
      then have v0: "value n1 \<noteq> 0" by (auto simp: unat_0_iff [symmetric] nat)
      have f': "unat (fraction n1 + frac_base32) = ?f1 + ?B"
        using less(1) by (subst unat_add_exact) (simp_all add: nat word_nat, simp add: amount_consts)
      have v': "unat (value n1 - 1) = ?v1 - 1"
        using v0 by (simp add: unat_minus_one nat)
      have d: "?u1 - ?u2 = (?v1 - 1 - ?v2) * ?B + (?f1 + ?B - ?f2)" and ge: "?u2 \<le> ?u1"
        using borrow_div_mod [of ?u2 ?B ?u1] less(2) False by linarith+
      have w: "\<not> value n1 - 1 < value n2" "fraction n2 \<le> fraction n1 + frac_base32"
        using False less by (simp_all add: word_less_nat_alt word_le_nat_alt v' f' nat)
      have "?f1 + ?B - ?f2 < ?B" using f less by linarith
      then have "unat (value n2) \<le> unat (value n1 - 1)"
        "unat (fraction n2) \<le> unat (fraction n1 + frac_base32)"
        "unat (fraction n1 + frac_base32) - unat (fraction n2) < ?B"
        "unat (value n1 - 1) \<le> TALER_AMOUNT_MAX_VALUE"
        "?u1 - ?u2 = (unat (value n1 - 1) - unat (value n2)) * ?B
                     + (unat (fraction n1 + frac_base32) - unat (fraction n2))"
        unfolding v' f' nat using False f le d less by linarith+
      note parts = subtract_parts [OF this]
      from fw v0 w ge parts(1) [of "currency a1"] parts(2) show ?thesis
        unfolding unfold aar_of_def by (simp only: if_True if_False simp_thms gassert_simps)
    qed
  next
    case f: False
    then have fw: "\<not> fraction n1 < fraction n2" "fraction n2 \<le> fraction n1"
      by (simp_all add: word_less_nat_alt word_le_nat_alt nat)
    show ?thesis
    proof (cases "?v1 < ?v2")
      case True
      then have "?u1 < ?u2" by (simp add: lex_div_mod [of ?u1 ?u2 ?B])
      moreover have "value n1 < value n2" using True by (simp add: word_less_nat_alt nat)
      ultimately show ?thesis using fw by (simp add: unfold)
    next
      case False
      have d: "?u1 - ?u2 = (?v1 - ?v2) * ?B + (?f1 - ?f2)" and ge: "?u2 \<le> ?u1"
        using noborrow_div_mod [of ?u2 ?B ?u1] False f by linarith+
      have w: "\<not> value n1 < value n2" using False by (simp add: word_less_nat_alt nat)
      have "?f1 - ?f2 < ?B" using less by linarith
      then have "unat (value n2) \<le> unat (value n1)" "unat (fraction n2) \<le> unat (fraction n1)"
        "unat (fraction n1) - unat (fraction n2) < ?B" "unat (value n1) \<le> TALER_AMOUNT_MAX_VALUE"
        "?u1 - ?u2 = (unat (value n1) - unat (value n2)) * ?B
                     + (unat (fraction n1) - unat (fraction n2))"
        unfolding nat using False f le d by linarith+
      note parts = subtract_parts [OF this]
      from fw w ge parts(1) [of "currency a1"] parts(2) show ?thesis
        unfolding unfold aar_of_def by (simp only: if_True if_False simp_thms gassert_simps)
    qed
  qed
qed

subsection \<open>Multiplication and division\<close>

lemma unat_ucast_32_64 [simp]: "unat (ucast (w :: 32 word) :: 64 word) = unat w"
  by (rule unat_ucast_up) simp

lemma unat_ucast_64_32: "unat (w :: 64 word) < 2 ^ 32 \<Longrightarrow> unat (ucast w :: 32 word) = unat w"
  by (simp add: unsigned_ucast_eq take_bit_nat_eq_self)

lemma ucast_32_64_eq_0 [simp]: "(ucast (w :: 32 word) :: 64 word) = 0 \<longleftrightarrow> w = 0"
  by (simp add: unat_0_iff [symmetric])

lemma normalize_mk_amount:
  assumes "legal_currency cur" "u \<le> max_units"
  shows "TALER_amount_normalize (mk_amount cur u) = (GNUNET_NO, mk_amount cur u)"
  using normal_mk_amount [OF assms]
  by (simp add: normalize_representable normal_def assms)

lemma zero_mk_amount: "\<lparr>value = 0, fraction = 0, currency = cur\<rparr> = mk_amount cur 0"
  by (simp add: mk_amount_def)

lemma multiply_representable:
  assumes rep: "representable a"
  shows "if units a * unat k \<le> max_units
         then TALER_amount_multiply r a k
              = Done (aar_of (units a * unat k), mk_amount (currency a) (units a * unat k))
         else \<exists>r'. TALER_amount_multiply r a k = Done (TALER_AAR_INVALID_RESULT_OVERFLOW, r')"
proof -
  let ?u = "units a" and ?k = "unat k" and ?B = TALER_AMOUNT_FRAC_BASE
  define n where "n = mk_amount (currency a) ?u"
  have u: "?u \<le> max_units" and leg: "legal_currency (currency a)"
    using rep by (simp_all add: representable_def)
  have nat: "unat (value n) = ?u div ?B" "unat (fraction n) = ?u mod ?B"
    using mk_amount_nat [OF u] by (simp_all add: n_def)
  obtain rn where norm: "TALER_amount_normalize a = (rn, n)" "rn \<noteq> GNUNET_SYSERR"
    using normalizeE [OF rep] n_def by metis
  show ?thesis
  proof (cases "k = 0 \<or> ?u = 0")
    case True
    then have "k = 0 \<or> value n = 0 \<and> fraction n = 0"
      using mk_amount_zero_iff [OF u, of "currency a"] by (auto simp: n_def)
    moreover have "r\<lparr>currency := currency a, value := 0, fraction := 0\<rparr> = mk_amount (currency a) 0"
      by (cases r) (simp add: zero_mk_amount)
    ultimately show ?thesis
      using True norm by (auto simp: TALER_amount_multiply_def aar_of_def)
  next
    case False
    then have k0: "k \<noteq> 0" and nz: "\<not> (value n = 0 \<and> fraction n = 0)"
      using mk_amount_zero_iff [OF u, of "currency a"] by (auto simp: n_def)
    define p where "p = value n * (ucast k :: 64 word)"
    define t where "t = (ucast k :: 64 word) * ucast (fraction n)"
    have split: "?u * ?k = (?u div ?B * ?k + ?k * (?u mod ?B) div ?B) * ?B + ?k * (?u mod ?B) mod ?B"
      (is "_ = ?q * ?B + ?f")
    proof -
      have "?u * ?k = ?u div ?B * ?k * ?B + ?k * (?u mod ?B)"
        by (metis add_mult_distrib div_mult_mod_eq mult.commute mult.assoc)
      then show ?thesis by (metis add.assoc add_mult_distrib div_mult_mod_eq)
    qed
    have fl: "?f < ?B" by (rule units_mod_less)
    have t: "unat t = ?k * (?u mod ?B)"
      unfolding t_def
    proof (subst unat_mult_exact)
      show "unat (ucast k :: 64 word) * unat (ucast (fraction n) :: 64 word) < 2 ^ LENGTH(64)"
        using mult_strict_mono' [OF unat_lt_32 [of k] unat_lt_32 [of "fraction n"]] by simp
    qed (simp add: nat)
    have res: "unat (t div frac_base64) = ?k * (?u mod ?B) div ?B"
      "unat (t mod frac_base64) = ?f"
      by (simp_all add: unat_div unat_mod word_nat t)
    have fr: "unat (ucast (t mod frac_base64) :: 32 word) = ?f"
      using fl by (subst unat_ucast_64_32) (simp_all add: res, simp add: amount_consts)
    note unfold = TALER_amount_multiply_def norm(1) Let_def prod.case
    have max: "?u * ?k \<le> max_units \<longleftrightarrow> ?q \<le> TALER_AMOUNT_MAX_VALUE"
      using fl by (subst split) (simp add: units_div_le)
    consider (wrap1) "2 ^ 64 \<le> ?u div ?B * ?k"
      | (wrap2) "?u div ?B * ?k < 2 ^ 64" "2 ^ 64 \<le> ?q"
      | (exact) "?u div ?B * ?k < 2 ^ 64" "?q < 2 ^ 64" by linarith
    then show ?thesis
    proof cases
      case wrap1
      then have "value n \<noteq> p div ucast k"
        using mult_div_overflow_check [of "ucast k" "value n"] k0 by (auto simp: p_def nat)
      moreover have "\<not> ?q \<le> TALER_AMOUNT_MAX_VALUE" using wrap1 by (simp add: amount_consts)
      ultimately show ?thesis
        using norm(2) k0 nz by (simp add: unfold max p_def [symmetric])
    next
      case wrap2
      then have p: "p div ucast k = value n" "unat p = ?u div ?B * ?k"
        using mult_div_overflow_check [of "ucast k" "value n"] k0
        by (auto simp: p_def nat unat_mult_exact)
      have "p + t div frac_base64 < p"
        using wrap2 by (simp add: add_overflow_check p(2) res)
      moreover have "\<not> ?q \<le> TALER_AMOUNT_MAX_VALUE" using wrap2 by (simp add: amount_consts)
      ultimately show ?thesis
        using norm(2) k0 nz p(1) by (simp add: unfold max p_def [symmetric] t_def [symmetric])
    next
      case exact
      then have p: "p div ucast k = value n" "unat p = ?u div ?B * ?k"
        using mult_div_overflow_check [of "ucast k" "value n"] k0
        by (auto simp: p_def nat unat_mult_exact)
      have nw: "\<not> p + t div frac_base64 < p"
        using exact by (simp add: add_overflow_check p(2) res)
      have sum: "unat (p + t div frac_base64) = ?q"
        using exact by (subst unat_add_exact) (simp_all add: p(2) res)
      have rec: "\<lparr>value = p + t div frac_base64, fraction = ucast (t mod frac_base64), currency = currency a\<rparr>
                 = mk_amount (currency a) (?u * ?k)"
        using mk_amountI [OF sum fr fl] split by simp
      have "max_value64 < p + t div frac_base64 \<longleftrightarrow> \<not> ?u * ?k \<le> max_units"
        by (simp add: word_less_nat_alt word_nat sum max not_le)
      moreover have "?u * ?k \<le> max_units \<Longrightarrow>
          TALER_amount_normalize (mk_amount (currency a) (?u * ?k)) = (GNUNET_NO, mk_amount (currency a) (?u * ?k))"
        by (rule normalize_mk_amount [OF leg])
      moreover have "value (mk_amount (currency a) (?u * ?k)) = p + t div frac_base64"
        unfolding rec [symmetric] by simp
      moreover have "0 < ?k" "0 < ?u" using False by (simp_all add: unat_gt_0)
      ultimately show ?thesis
        using norm(2) k0 nz p(1) nw rec
        by (cases r; cases "?u * ?k \<le> max_units")
          (simp_all add: unfold p_def [symmetric] t_def [symmetric] aar_of_def)
    qed
  qed
qed

lemma div_by_parts:
  fixes v f b k :: nat
  assumes "0 < k" "f < b"
  shows "(v * b + f) div k = v div k * b + (v mod k * b + f) div k"
    and "(v mod k * b + f) div k < b" and "v mod k * b + f < k * b"
proof -
  have "v mod k \<le> k - 1" using assms(1) by (simp add: Suc_leI [THEN Suc_le_mono [THEN iffD1]] less_Suc_eq_le [symmetric])
  then have "v mod k * b + f < (k - 1) * b + b"
    using assms(2) by (meson add_le_less_mono mult_le_mono1)
  then show less: "v mod k * b + f < k * b"
    using assms(1) by (simp add: diff_mult_distrib)
  then show "(v mod k * b + f) div k < b"
    by (simp add: less_mult_imp_div_less mult.commute)
  have "v * b + f = k * (v div k * b) + (v mod k * b + f)"
    by (metis add.assoc add_mult_distrib div_mult_mod_eq mult.assoc mult.commute)
  then show "(v * b + f) div k = v div k * b + (v mod k * b + f) div k"
    using assms(1) div_mult_self4 [of k "v div k * b" "v mod k * b + f"] by (metis less_irrefl)
qed

lemma divide_representable:
  assumes rep: "representable a" and k: "k \<noteq> 0"
  shows "TALER_amount_divide a k = Done (mk_amount (currency a) (units a div unat k))"
proof -
  let ?u = "units a" and ?k = "unat k" and ?B = TALER_AMOUNT_FRAC_BASE
  let ?v = "?u div ?B" and ?f = "?u mod ?B"
  define n where "n = mk_amount (currency a) ?u"
  have u: "?u \<le> max_units" and leg: "legal_currency (currency a)"
    using rep by (simp_all add: representable_def)
  have nat: "unat (value n) = ?v" "unat (fraction n) = ?f"
    using mk_amount_nat [OF u] by (simp_all add: n_def)
  obtain rn where norm: "TALER_amount_normalize a = (rn, n)" "rn \<noteq> GNUNET_SYSERR"
    using normalizeE [OF rep] n_def by metis
  show ?thesis
  proof (cases "k = 1")
    case True
    then show ?thesis using norm by (simp add: TALER_amount_divide_def n_def)
  next
    case False
    have k0: "0 < ?k" using k by (simp add: unat_gt_0)
    note parts = div_by_parts [OF k0 units_mod_less [of ?u], of ?v]
    define m where "m = (value n mod ucast k) * frac_base64 + ucast (fraction n)"
    have kb: "?k * ?B < 2 ^ 64" using unat_lt_32 [of k] by (simp add: amount_consts)
    have m1: "unat ((value n mod ucast k) * frac_base64) = ?v mod ?k * ?B"
      using parts(3) kb by (subst unat_mult_exact) (simp_all add: unat_mod nat word_nat)
    have m: "unat m = ?v mod ?k * ?B + ?f"
      unfolding m_def using parts(3) kb by (subst unat_add_exact) (simp_all add: m1 nat)
    have f: "unat (ucast (m div ucast k) :: 32 word) = (?v mod ?k * ?B + ?f) div ?k"
      using parts(2) by (subst unat_ucast_64_32) (simp_all add: unat_div m, simp add: amount_consts)
    have v: "unat (value n div ucast k) = ?v div ?k" by (simp add: unat_div nat)
    have rec: "\<lparr>value = value n div ucast k, fraction = ucast (m div ucast k), currency = currency a\<rparr>
               = mk_amount (currency a) (?u div ?k)"
      using mk_amountI [OF v f parts(2)] parts(1) by simp
    have "?u div ?k \<le> max_units" using u by (meson div_le_dividend le_trans)
    then have "TALER_amount_normalize (mk_amount (currency a) (?u div ?k))
               = (GNUNET_NO, mk_amount (currency a) (?u div ?k))"
      by (rule normalize_mk_amount [OF leg])
    moreover have "n\<lparr>value := value n div ucast k, fraction := ucast (m div ucast k)\<rparr>
                   = mk_amount (currency a) (?u div ?k)"
      unfolding rec [symmetric] by (simp add: n_def mk_amount_def)
    ultimately show ?thesis
      using k False norm by (simp add: TALER_amount_divide_def Let_def m_def [symmetric])
  qed
qed

subsection \<open>Rounding\<close>

lemma units_eqI:
  "currency a = currency b \<Longrightarrow> normal a \<Longrightarrow> normal b \<Longrightarrow> units a = units b \<Longrightarrow> a = b"
  by (metis normal_mk_amount_units)

lemma unat_sub_mod: "unat (w - w mod (q :: 'a::len word)) = unat w - unat w mod unat q"
  by (subst unat_sub_exact) (simp_all add: word_le_nat_alt unat_mod)

lemma fraction_update_normal:
  assumes "normal a" "unat f \<le> unat (fraction a)"
  shows "a\<lparr>fraction := f\<rparr> = mk_amount (currency a) (units a - (unat (fraction a) - unat f))"
proof -
  have "unat f < TALER_AMOUNT_FRAC_BASE" using assms by (simp add: normal_def)
  then have "\<lparr>value = value a, fraction = f, currency = currency a\<rparr>
      = mk_amount (currency a) (unat (value a) * TALER_AMOUNT_FRAC_BASE + unat f)"
    by (intro mk_amountI) simp_all
  moreover have "units a - (unat (fraction a) - unat f) = unat (value a) * TALER_AMOUNT_FRAC_BASE + unat f"
    using assms(2) by (simp add: units_def)
  ultimately show ?thesis by (cases a) simp
qed

lemma round_down_fraction:
  assumes a: "normal a" and r: "representable r" and cur: "currency a = currency r"
    and zero: "value r = 0" and q: "fraction r \<noteq> 0"
    and dvd: "unat (fraction r) dvd TALER_AMOUNT_FRAC_BASE"
  shows "TALER_amount_round_down a r =
         (if units r dvd units a then GNUNET_NO else GNUNET_OK,
          mk_amount (currency a) (units a - units a mod units r))"
proof -
  have ur: "units r = unat (fraction r)" by (simp add: units_def zero)
  obtain c where c: "TALER_AMOUNT_FRAC_BASE = c * unat (fraction r)"
    using dvd by (metis dvdE mult.commute)
  have "units a = unat (fraction a) + unat (value a) * c * unat (fraction r)"
    by (simp add: units_def c)
  then have md: "units a mod units r = unat (fraction a) mod unat (fraction r)"
    unfolding ur by (metis mod_mult_self1)
  have z: "fraction a mod fraction r = 0 \<longleftrightarrow> units r dvd units a"
    unfolding dvd_eq_mod_eq_0 md by (simp add: unat_0_iff [symmetric] unat_mod)
  have cmp: "TALER_amount_cmp_currency a r = GNUNET_OK"
    by (simp add: cmp_currency_representable normal_representable a r cur)
  have upd: "a\<lparr>fraction := fraction a - fraction a mod fraction r\<rparr>
             = mk_amount (currency a) (units a - units a mod units r)"
    using fraction_update_normal [OF a, of "fraction a - fraction a mod fraction r"]
    by (simp add: unat_sub_mod md)
  show ?thesis
  proof (cases "units r dvd units a")
    case True
    then show ?thesis
      using normal_mk_amount_units [OF a] z cmp q zero
      by (simp add: TALER_amount_round_down_def dvd_eq_mod_eq_0)
  next
    case False
    then show ?thesis
      using z cmp q zero upd by (simp add: TALER_amount_round_down_def Let_def)
  qed
qed

lemma round_down_value:
  assumes a: "normal a" and r: "representable r" and cur: "currency a = currency r"
    and zero: "fraction r = 0" and q: "value r \<noteq> 0"
  shows "TALER_amount_round_down a r =
         (if unat (value a) mod unat (value r) = 0 then (GNUNET_NO, a)
          else (GNUNET_OK, mk_amount (currency a) (units a - units a mod units r)))"
proof -
  let ?B = TALER_AMOUNT_FRAC_BASE and ?v = "unat (value a)" and ?q = "unat (value r)"
  have cmp: "TALER_amount_cmp_currency a r = GNUNET_OK"
    by (simp add: cmp_currency_representable normal_representable a r cur)
  have z: "value a mod value r = 0 \<longleftrightarrow> ?v mod ?q = 0"
    by (simp add: unat_0_iff [symmetric] unat_mod)
  have "units a = (?v - ?v mod ?q) * ?B + (?v mod ?q * ?B + unat (fraction a))"
    using mod_less_eq_dividend [of ?v ?q] by (simp add: units_def flip: add_mult_distrib)
  moreover have "(?v - ?v mod ?q) * ?B = ?v div ?q * (?q * ?B)"
    by (simp add: minus_mod_eq_div_mult)
  moreover have "?v mod ?q * ?B + unat (fraction a) < ?q * ?B"
    using div_by_parts(3) [of ?q "unat (fraction a)" ?B ?v] q a
    by (simp add: unat_gt_0 normal_def)
  ultimately have "units a mod units r = ?v mod ?q * ?B + unat (fraction a)"
    by (simp add: units_def [of r] zero)
  then have diff: "units a - units a mod units r = (?v - ?v mod ?q) * ?B + 0"
    using \<open>units a = (?v - ?v mod ?q) * ?B + _\<close> by linarith
  have "\<lparr>value = value a - value a mod value r, fraction = 0, currency = currency a\<rparr>
        = mk_amount (currency a) (units a - units a mod units r)"
    unfolding diff by (rule mk_amountI) (simp_all add: unat_sub_mod, simp add: amount_consts)
  moreover have "a\<lparr>value := value a - value a mod value r, fraction := 0\<rparr>
        = \<lparr>value = value a - value a mod value r, fraction = 0, currency = currency a\<rparr>"
    by (cases a) simp
  ultimately show ?thesis
    using cmp q zero z by (simp add: TALER_amount_round_down_def)
qed

section \<open>The interface the other components rely on\<close>

text \<open>
  Callers use amounts through addition, subtraction and comparison and look at the sign of the
  result code only. The locale states what they may rely on; the accumulation loop of the
  callers, and the way back from a sum, are proved once over it.
\<close>

fun accumulate :: "('a \<Rightarrow> 'a \<Rightarrow> (arithmetic_result \<times> 'a) outcome) \<Rightarrow> 'a \<Rightarrow> 'a list \<Rightarrow> 'a option outcome" where
  "accumulate add acc [] = Done (Some acc)"
| "accumulate add acc (x # xs) =
     obind (add acc x)
       (\<lambda>(r, acc'). if aar_code r < 0 then Done None else accumulate add acc' xs)"

locale exact_arithmetic =
  fixes ok :: "'a \<Rightarrow> bool"
    and cur :: "'a \<Rightarrow> 'c"
    and val :: "'a \<Rightarrow> nat"
    and top :: nat
    and add :: "'a \<Rightarrow> 'a \<Rightarrow> (arithmetic_result \<times> 'a) outcome"
    and sub :: "'a \<Rightarrow> 'a \<Rightarrow> (arithmetic_result \<times> 'a) outcome"
    and cmp :: "'a \<Rightarrow> 'a \<Rightarrow> int outcome"
  assumes val_le: "ok a \<Longrightarrow> val a \<le> top"
    and add_exact: "ok a \<Longrightarrow> ok b \<Longrightarrow> cur a = cur b \<Longrightarrow> val a + val b \<le> top \<Longrightarrow>
      \<exists>r c. add a b = Done (r, c) \<and> 0 \<le> aar_code r \<and> ok c \<and> cur c = cur a \<and> val c = val a + val b"
    and add_overflow: "ok a \<Longrightarrow> ok b \<Longrightarrow> cur a = cur b \<Longrightarrow> top < val a + val b \<Longrightarrow>
      \<exists>r c. add a b = Done (r, c) \<and> aar_code r < 0"
    and sub_exact: "ok a \<Longrightarrow> ok b \<Longrightarrow> cur a = cur b \<Longrightarrow> val b \<le> val a \<Longrightarrow>
      \<exists>r c. sub a b = Done (r, c) \<and> 0 \<le> aar_code r \<and> ok c \<and> cur c = cur a \<and> val c = val a - val b"
    and sub_negative: "ok a \<Longrightarrow> ok b \<Longrightarrow> cur a = cur b \<Longrightarrow> val a < val b \<Longrightarrow>
      \<exists>r c. sub a b = Done (r, c) \<and> aar_code r < 0"
    and cmp_exact: "ok a \<Longrightarrow> ok b \<Longrightarrow> cur a = cur b \<Longrightarrow>
      cmp a b = Done (if val a < val b then -1 else if val b < val a then 1 else 0)"
begin

text \<open>An addition that succeeds is undone by the subtraction.\<close>

lemma add_then_sub:
  assumes "ok a" "ok b" "cur a = cur b" "add a b = Done (r, c)" "0 \<le> aar_code r"
  shows "\<exists>r' d. sub c b = Done (r', d) \<and> 0 \<le> aar_code r' \<and> ok d \<and> cur d = cur a \<and> val d = val a"
proof -
  have "val a + val b \<le> top"
    using add_overflow [OF assms(1,2,3)] assms(4,5) by fastforce
  then have "ok c" "cur c = cur a" "val c = val a + val b"
    using add_exact [OF assms(1,2,3)] assms(4) by auto
  then show ?thesis using sub_exact [of c b] assms by auto
qed

text \<open>The accumulation of a list is the exact sum, or fails because the sum does not fit.\<close>

lemma accumulate_exact:
  assumes "ok a" "\<forall>x\<in>set xs. ok x \<and> cur x = cur a" "val a + sum_list (map val xs) \<le> top"
  shows "\<exists>c. accumulate add a xs = Done (Some c) \<and> ok c \<and> cur c = cur a
             \<and> val c = val a + sum_list (map val xs)"
  using assms
proof (induction xs arbitrary: a)
  case Nil
  then show ?case by simp
next
  case (Cons x xs)
  from add_exact [of a x] Cons.prems obtain r c where
    c: "add a x = Done (r, c)" "0 \<le> aar_code r" "ok c" "cur c = cur a" "val c = val a + val x"
    by auto
  then show ?case using Cons.IH [of c] Cons.prems by (auto simp: add.assoc)
qed

lemma accumulate_overflow:
  assumes "ok a" "\<forall>x\<in>set xs. ok x \<and> cur x = cur a" "top < val a + sum_list (map val xs)"
  shows "accumulate add a xs = Done None"
  using assms
proof (induction xs arbitrary: a)
  case Nil
  then show ?case using val_le [of a] by simp
next
  case (Cons x xs)
  show ?case
  proof (cases "val a + val x \<le> top")
    case True
    from add_exact [of a x] True Cons.prems obtain r c where
      c: "add a x = Done (r, c)" "0 \<le> aar_code r" "ok c" "cur c = cur a" "val c = val a + val x"
      by auto
    then show ?thesis using Cons.IH [of c] Cons.prems by (auto simp: add.assoc)
  next
    case False
    then show ?thesis using add_overflow [of a x] Cons.prems by auto
  qed
qed

end

interpretation amt: exact_arithmetic representable currency units max_units
  TALER_amount_add TALER_amount_subtract TALER_amount_cmp
proof unfold_locales
  fix a b :: amount
  show "representable a \<Longrightarrow> units a \<le> max_units" by (simp add: representable_def)
  assume ab: "representable a" "representable b" "currency a = currency b"
  have leg: "legal_currency (currency a)" using ab by (simp add: representable_def)
  show "units a + units b \<le> max_units \<Longrightarrow> \<exists>r c. TALER_amount_add a b = Done (r, c) \<and> 0 \<le> aar_code r
      \<and> representable c \<and> currency c = currency a \<and> units c = units a + units b"
    using add_representable [OF ab] leg by (simp add: normal_representable)
  show "max_units < units a + units b \<Longrightarrow> \<exists>r c. TALER_amount_add a b = Done (r, c) \<and> aar_code r < 0"
    using add_representable [OF ab] by simp
  have le: "units a - units b \<le> max_units"
    using ab(1) by (meson diff_le_self le_trans representable_def)
  show "units b \<le> units a \<Longrightarrow> \<exists>r c. TALER_amount_subtract a b = Done (r, c) \<and> 0 \<le> aar_code r
      \<and> representable c \<and> currency c = currency a \<and> units c = units a - units b"
    using subtract_representable [OF ab] leg le by (simp add: normal_representable)
  show "units a < units b \<Longrightarrow> \<exists>r c. TALER_amount_subtract a b = Done (r, c) \<and> aar_code r < 0"
    using subtract_representable [OF ab] by simp
  show "TALER_amount_cmp a b = Done (if units a < units b then -1 else if units b < units a then 1 else 0)"
    by (rule cmp_representable [OF ab])
qed

section \<open>Properties\<close>

text \<open>Sample amounts for the witnesses: euros, in units of a hundred millionth.\<close>

definition EUR :: "char list" where
  "EUR = zero_padded TALER_CURRENCY_LEN ''EUR''"

definition eur :: "nat \<Rightarrow> amount" where
  "eur u = mk_amount EUR u"

lemma legal_EUR: "legal_currency EUR"
  by (simp add: EUR_def legal_currency_def is_cstring_def amount_consts c_isupper_def)

lemma eur_facts [simp]:
  "currency (eur u) = EUR"
  "u \<le> max_units \<Longrightarrow> units (eur u) = u"
  "u \<le> max_units \<Longrightarrow> normal (eur u)"
  "u \<le> max_units \<Longrightarrow> representable (eur u)"
  by (simp_all add: eur_def legal_EUR normal_representable)

lemma eur_eqI: "mk_amount EUR u = eur u"
  by (simp add: eur_def)

text \<open>
  C1: \<^verbatim>\<open>TALER_amount_add\<close> of two amounts of one currency is exact: it returns the normalised
  amount with the sum of the units, or reports an overflow, and it does the latter exactly
  when the sum is beyond the largest representable amount. No assertion fails.
\<close>

theorem amount_add_exact:
  assumes "representable a1" "representable a2" "currency a1 = currency a2"
  shows "TALER_amount_add a1 a2 =
         Done (if units a1 + units a2 \<le> max_units
               then (aar_of (units a1 + units a2), mk_amount (currency a1) (units a1 + units a2))
               else (TALER_AAR_INVALID_RESULT_OVERFLOW, invalidate))"
  by (rule add_representable [OF assms])

theorem amount_add_exact_witness:
  "TALER_amount_add (eur 150000000) (eur 250000000) = Done (TALER_AAR_RESULT_POSITIVE, eur 400000000)"
  using amount_add_exact [of "eur 150000000" "eur 250000000"]
  by (simp add: amount_consts aar_of_def eur_eqI)

text \<open>
  C2: \<^verbatim>\<open>TALER_amount_subtract\<close> of two amounts of one currency is exact: it returns the
  normalised difference, or reports a negative result, and the latter exactly when the second
  amount is larger. The assertions inside the function hold.
\<close>

theorem amount_subtract_exact:
  assumes "representable a1" "representable a2" "currency a1 = currency a2"
  shows "TALER_amount_subtract a1 a2 =
         Done (if units a2 \<le> units a1
               then (aar_of (units a1 - units a2), mk_amount (currency a1) (units a1 - units a2))
               else (TALER_AAR_INVALID_NEGATIVE_RESULT, invalidate))"
  by (rule subtract_representable [OF assms])

theorem amount_subtract_exact_witness:
  "TALER_amount_subtract (eur 100000000) (eur 1) = Done (TALER_AAR_RESULT_POSITIVE, eur 99999999)
   \<and> TALER_amount_subtract (eur 1) (eur 2) = Done (TALER_AAR_INVALID_NEGATIVE_RESULT, invalidate)"
  using amount_subtract_exact [of "eur 100000000" "eur 1"] amount_subtract_exact [of "eur 1" "eur 2"]
  by (simp add: amount_consts aar_of_def eur_eqI)

text \<open>
  \<^verbatim>\<open>TALER_amount_cmp\<close> of two amounts of one currency returns the sign of the difference of
  their units, whether or not they are normalised.
\<close>

lemma amount_cmp_sign:
  assumes "representable a1" "representable a2" "currency a1 = currency a2"
  shows "TALER_amount_cmp a1 a2 = Done (sgn (int (units a1) - int (units a2)))"
  using cmp_representable [OF assms] by auto

text \<open>
  \<^verbatim>\<open>TALER_amount_normalize\<close> of a valid amount of a legal currency keeps the number of units
  and brings the fraction below the base; it fails, and invalidates the amount, exactly when
  the carry pushes the value over \<^verbatim>\<open>TALER_AMOUNT_MAX_VALUE\<close>.
\<close>

lemma amount_normalize_exact:
  assumes "legal_currency (currency a)" "TALER_amount_is_valid a = GNUNET_OK"
  shows "TALER_amount_normalize a =
         (if units a > max_units then (GNUNET_SYSERR, invalidate)
          else (if unat (fraction a) < TALER_AMOUNT_FRAC_BASE then GNUNET_NO else GNUNET_OK,
                mk_amount (currency a) (units a)))"
proof -
  have "unat (value a) \<le> TALER_AMOUNT_MAX_VALUE"
    using assms(2) by (auto simp: TALER_amount_is_valid_def word_less_nat_alt word_nat split: if_splits)
  then show ?thesis
    using normalize_overflow [OF assms(1)] normalize_representable [of a] assms(1)
    by (auto simp: representable_def)
qed

text \<open>
  \<^verbatim>\<open>TALER_amount_multiply\<close> returns exactly \<open>factor\<close> times the amount, or reports an
  overflow, and the latter exactly when the product is not representable: the wrap-around
  tests on the 64-bit products catch every overflow and nothing else.
\<close>

lemma amount_multiply_exact:
  assumes "representable a"
  shows "if units a * unat k \<le> max_units
         then TALER_amount_multiply r a k
              = Done (aar_of (units a * unat k), mk_amount (currency a) (units a * unat k))
         else \<exists>r'. TALER_amount_multiply r a k = Done (TALER_AAR_INVALID_RESULT_OVERFLOW, r')"
  by (rule multiply_representable [OF assms])

text \<open>
  \<^verbatim>\<open>TALER_amount_divide\<close> by a non-zero divisor never fails and returns the number of units
  divided by the divisor, rounded down.
\<close>

lemma amount_divide_floor:
  assumes "representable a" "k \<noteq> 0"
  shows "TALER_amount_divide a k = Done (mk_amount (currency a) (units a div unat k))"
  by (rule divide_representable [OF assms])

text \<open>
  Rounding down to a fractional unit that divides the base returns the largest multiple of
  the unit that is not above the amount, and \<^verbatim>\<open>GNUNET_NO\<close> exactly when the amount already was
  such a multiple.
\<close>

lemma amount_round_down_fraction:
  assumes "normal a" "representable r" "currency a = currency r" "value r = 0" "fraction r \<noteq> 0"
    and "unat (fraction r) dvd TALER_AMOUNT_FRAC_BASE"
  shows "TALER_amount_round_down a r =
         (if units r dvd units a then GNUNET_NO else GNUNET_OK,
          mk_amount (currency a) (units a - units a mod units r))"
  by (rule round_down_fraction [OF assms])

text \<open>
  Rounding down to a whole-number unit leaves every amount unchanged whose value part is a
  multiple of the unit, even when its fraction is not zero (with the unit 1 this is every
  amount); other amounts are rounded down to the largest multiple of the unit.
\<close>

lemma amount_round_down_value:
  assumes "normal a" "representable r" "currency a = currency r" "fraction r = 0" "value r \<noteq> 0"
  shows "TALER_amount_round_down a r =
         (if unat (value a) mod unat (value r) = 0 then (GNUNET_NO, a)
          else (GNUNET_OK, mk_amount (currency a) (units a - units a mod units r)))"
  by (rule round_down_value [OF assms])

text \<open>
  A subtraction undoes a successful addition: taking the second summand from the sum again
  gives an amount of the same currency with the units of the first.
\<close>

lemma amount_add_subtract_inverse:
  assumes "representable a" "representable b" "currency a = currency b"
    and "TALER_amount_add a b = Done (r, c)" "0 \<le> aar_code r"
  shows "\<exists>r' d. TALER_amount_subtract c b = Done (r', d) \<and> 0 \<le> aar_code r'
             \<and> representable d \<and> currency d = currency a \<and> units d = units a"
  by (rule amt.add_then_sub [OF assms])

end
