(* ===== verification/Transaction_Totals.thy ===== *)
theory Transaction_Totals
  imports Taler_Amount
begin

text \<open>
  \<^verbatim>\<open>src/src/exchangedb/exchangedb_transactions.c\<close>: how much of a coin has been spent, computed
  from the coin's transaction list. The list entries are the nine transaction types of
  \<^verbatim>\<open>struct TALER_EXCHANGEDB_TransactionList\<close> with the amounts the function reads. Shown: the
  total is the sum of the debits less the credits and one deposit fee, and the error branches
  are taken exactly for overflows and negative totals.
\<close>

section \<open>The transaction list and the loop\<close>

datatype coin_transaction =
    TALER_EXCHANGEDB_TT_DEPOSIT (amount_with_fee: amount) (deposit_fee: amount)
  | TALER_EXCHANGEDB_TT_MELT (amount_with_fee: amount)
  | TALER_EXCHANGEDB_TT_REFUND (refund_amount: amount) (refund_fee: amount)
  | TALER_EXCHANGEDB_TT_OLD_COIN_RECOUP (recoup_value: amount)
  | TALER_EXCHANGEDB_TT_RECOUP (recoup_value: amount)
  | TALER_EXCHANGEDB_TT_RECOUP_REFRESH (recoup_value: amount)
  | TALER_EXCHANGEDB_TT_PURSE_DEPOSIT (purse_amount: amount) (deposit_fee: amount)
  | TALER_EXCHANGEDB_TT_PURSE_REFUND (refund_amount: amount) (refund_fee: amount)
  | TALER_EXCHANGEDB_TT_RESERVE_OPEN (coin_contribution: amount)

text \<open>The local variables of the loop. \<open>fee\<close> is \<open>None\<close> while \<^verbatim>\<open>deposit_fee\<close> is not initialised.\<close>

record totals =
  spent :: amount
  refunded :: amount
  fee :: "amount option"
  have_refund :: bool

text \<open>
  \<^verbatim>\<open>if (0 > TALER_amount_add (&x, &x, d)) return GNUNET_SYSERR;\<close> for the two accumulators:
  \<open>Done None\<close> is the early return.
\<close>

definition add_spent :: "totals \<Rightarrow> amount \<Rightarrow> totals option outcome" where
  "add_spent t d = obind (TALER_amount_add (spent t) d)
     (\<lambda>(r, x). Done (if aar_code r < 0 then None else Some (t\<lparr>spent := x\<rparr>)))"

definition add_refunded :: "totals \<Rightarrow> amount \<Rightarrow> totals option outcome" where
  "add_refunded t d = obind (TALER_amount_add (refunded t) d)
     (\<lambda>(r, x). Done (if aar_code r < 0 then None else Some (t\<lparr>refunded := x\<rparr>)))"

text \<open>One iteration: the \<^verbatim>\<open>switch\<close> on the transaction type.\<close>

fun totals_step :: "totals \<Rightarrow> coin_transaction \<Rightarrow> totals option outcome" where
  "totals_step t (TALER_EXCHANGEDB_TT_DEPOSIT a f) =
     and_then (add_spent t a) (\<lambda>t'. Done (Some (t'\<lparr>fee := Some f\<rparr>)))"
| "totals_step t (TALER_EXCHANGEDB_TT_MELT a) = add_spent t a"
| "totals_step t (TALER_EXCHANGEDB_TT_REFUND a f) =
     and_then (add_refunded t a)
       (\<lambda>t'. and_then (add_spent t' f) (\<lambda>t''. Done (Some (t''\<lparr>have_refund := True\<rparr>))))"
| "totals_step t (TALER_EXCHANGEDB_TT_OLD_COIN_RECOUP a) = add_refunded t a"
| "totals_step t (TALER_EXCHANGEDB_TT_RECOUP a) = add_spent t a"
| "totals_step t (TALER_EXCHANGEDB_TT_RECOUP_REFRESH a) = add_spent t a"
| "totals_step t (TALER_EXCHANGEDB_TT_PURSE_DEPOSIT a f) =
     and_then (add_spent t a) (\<lambda>t'. Done (Some (t'\<lparr>fee := Some f\<rparr>)))"
| "totals_step t (TALER_EXCHANGEDB_TT_PURSE_REFUND a f) =
     and_then (add_refunded t a)
       (\<lambda>t'. and_then (add_spent t' f) (\<lambda>t''. Done (Some (t''\<lparr>have_refund := True\<rparr>))))"
| "totals_step t (TALER_EXCHANGEDB_TT_RESERVE_OPEN a) = add_spent t a"

fun totals_loop :: "totals \<Rightarrow> coin_transaction list \<Rightarrow> totals option outcome" where
  "totals_loop t [] = Done (Some t)"
| "totals_loop t (x # xs) = and_then (totals_step t x) (\<lambda>t'. totals_loop t' xs)"

text \<open>
  The result: the total, the error return, or \<open>Total_undefined\<close> where the code would read the
  uninitialised \<^verbatim>\<open>deposit_fee\<close> (a refund in a list without any deposit).
\<close>

datatype totals_result = Total amount | Total_SYSERR | Total_undefined

definition totals_finish :: "totals \<Rightarrow> totals_result outcome" where
  "totals_finish t =
     (if have_refund t \<and> fee t = None then Done Total_undefined
      else obind (if have_refund t then add_refunded t (the (fee t)) else Done (Some t))
        (\<lambda>m. case m of
               None \<Rightarrow> Done Total_SYSERR
             | Some t' \<Rightarrow> obind (TALER_amount_subtract (spent t') (refunded t'))
                 (\<lambda>(r, x). Done (if aar_code r < 0 then Total_SYSERR else Total x))))"

definition TALER_EXCHANGEDB_calculate_transaction_list_totals ::
  "coin_transaction list \<Rightarrow> amount \<Rightarrow> totals_result outcome" where
  "TALER_EXCHANGEDB_calculate_transaction_list_totals txs off =
     (let (rz, z) = TALER_amount_set_zero (cstr (currency off)) invalidate
      in gassert (rz = GNUNET_OK)
           (obind (totals_loop \<lparr>spent = off, refunded = z, fee = None, have_refund = False\<rparr> txs)
              (\<lambda>m. case m of None \<Rightarrow> Done Total_SYSERR | Some t \<Rightarrow> totals_finish t)))"

section \<open>What the total should be\<close>

fun debit :: "coin_transaction \<Rightarrow> nat" where
  "debit (TALER_EXCHANGEDB_TT_DEPOSIT a f) = units a"
| "debit (TALER_EXCHANGEDB_TT_MELT a) = units a"
| "debit (TALER_EXCHANGEDB_TT_REFUND a f) = units f"
| "debit (TALER_EXCHANGEDB_TT_OLD_COIN_RECOUP a) = 0"
| "debit (TALER_EXCHANGEDB_TT_RECOUP a) = units a"
| "debit (TALER_EXCHANGEDB_TT_RECOUP_REFRESH a) = units a"
| "debit (TALER_EXCHANGEDB_TT_PURSE_DEPOSIT a f) = units a"
| "debit (TALER_EXCHANGEDB_TT_PURSE_REFUND a f) = units f"
| "debit (TALER_EXCHANGEDB_TT_RESERVE_OPEN a) = units a"

fun credit :: "coin_transaction \<Rightarrow> nat" where
  "credit (TALER_EXCHANGEDB_TT_REFUND a f) = units a"
| "credit (TALER_EXCHANGEDB_TT_OLD_COIN_RECOUP a) = units a"
| "credit (TALER_EXCHANGEDB_TT_PURSE_REFUND a f) = units a"
| "credit _ = 0"

fun is_refund :: "coin_transaction \<Rightarrow> bool" where
  "is_refund (TALER_EXCHANGEDB_TT_REFUND a f) = True"
| "is_refund (TALER_EXCHANGEDB_TT_PURSE_REFUND a f) = True"
| "is_refund _ = False"

fun fee_of :: "coin_transaction \<Rightarrow> amount option" where
  "fee_of (TALER_EXCHANGEDB_TT_DEPOSIT a f) = Some f"
| "fee_of (TALER_EXCHANGEDB_TT_PURSE_DEPOSIT a f) = Some f"
| "fee_of _ = None"

text \<open>The deposit fee in effect after the list: that of the last deposit.\<close>

fun last_fee :: "amount option \<Rightarrow> coin_transaction list \<Rightarrow> amount option" where
  "last_fee f [] = f"
| "last_fee f (x # xs) = last_fee (case fee_of x of None \<Rightarrow> f | Some g \<Rightarrow> Some g) xs"

fun tx_amounts :: "coin_transaction \<Rightarrow> amount list" where
  "tx_amounts (TALER_EXCHANGEDB_TT_DEPOSIT a f) = [a, f]"
| "tx_amounts (TALER_EXCHANGEDB_TT_MELT a) = [a]"
| "tx_amounts (TALER_EXCHANGEDB_TT_REFUND a f) = [a, f]"
| "tx_amounts (TALER_EXCHANGEDB_TT_OLD_COIN_RECOUP a) = [a]"
| "tx_amounts (TALER_EXCHANGEDB_TT_RECOUP a) = [a]"
| "tx_amounts (TALER_EXCHANGEDB_TT_RECOUP_REFRESH a) = [a]"
| "tx_amounts (TALER_EXCHANGEDB_TT_PURSE_DEPOSIT a f) = [a, f]"
| "tx_amounts (TALER_EXCHANGEDB_TT_PURSE_REFUND a f) = [a, f]"
| "tx_amounts (TALER_EXCHANGEDB_TT_RESERVE_OPEN a) = [a]"

definition good_tx :: "char list \<Rightarrow> coin_transaction \<Rightarrow> bool" where
  "good_tx cur x \<longleftrightarrow> list_all (\<lambda>a. representable a \<and> currency a = cur) (tx_amounts x)"

definition debits :: "coin_transaction list \<Rightarrow> nat" where
  "debits txs = sum_list (map debit txs)"

definition credits :: "coin_transaction list \<Rightarrow> nat" where
  "credits txs = sum_list (map credit txs)"

text \<open>All a list takes off what was spent: the credits, and one deposit fee if there is a refund.\<close>

definition total_refunded :: "coin_transaction list \<Rightarrow> nat" where
  "total_refunded txs =
     credits txs + (if list_ex is_refund txs then units (the (last_fee None txs)) else 0)"

section \<open>The loop computes the sums\<close>

definition good_totals :: "char list \<Rightarrow> totals \<Rightarrow> bool" where
  "good_totals cur t \<longleftrightarrow>
     representable (spent t) \<and> currency (spent t) = cur
     \<and> representable (refunded t) \<and> currency (refunded t) = cur
     \<and> (\<forall>f. fee t = Some f \<longrightarrow> representable f \<and> currency f = cur)"

lemma add_spent_exact:
  assumes "good_totals cur t" "representable d" "currency d = cur"
  shows "add_spent t d =
         Done (if units (spent t) + units d \<le> max_units
               then Some (t\<lparr>spent := mk_amount cur (units (spent t) + units d)\<rparr>) else None)"
  using assms add_representable [of "spent t" d]
  by (simp add: add_spent_def good_totals_def)

lemma add_refunded_exact:
  assumes "good_totals cur t" "representable d" "currency d = cur"
  shows "add_refunded t d =
         Done (if units (refunded t) + units d \<le> max_units
               then Some (t\<lparr>refunded := mk_amount cur (units (refunded t) + units d)\<rparr>) else None)"
  using assms add_representable [of "refunded t" d]
  by (simp add: add_refunded_def good_totals_def)

lemma good_totals_update [simp]:
  assumes "good_totals cur t"
  shows "u \<le> max_units \<Longrightarrow> good_totals cur (t\<lparr>spent := mk_amount cur u\<rparr>)"
    and "u \<le> max_units \<Longrightarrow> good_totals cur (t\<lparr>refunded := mk_amount cur u\<rparr>)"
    and "representable f \<Longrightarrow> currency f = cur \<Longrightarrow> good_totals cur (t\<lparr>fee := Some f\<rparr>)"
    and "good_totals cur (t\<lparr>have_refund := b\<rparr>)"
  using assms normal_representable [OF normal_mk_amount]
  by (auto simp: good_totals_def representable_def)

text \<open>What one step does to the two sums, the fee and the refund flag.\<close>

definition step_result :: "totals \<Rightarrow> coin_transaction \<Rightarrow> totals \<Rightarrow> bool" where
  "step_result t x t' \<longleftrightarrow>
     units (spent t') = units (spent t) + debit x
     \<and> units (refunded t') = units (refunded t) + credit x
     \<and> fee t' = (case fee_of x of None \<Rightarrow> fee t | Some g \<Rightarrow> Some g)
     \<and> have_refund t' = (have_refund t \<or> is_refund x)"

lemma totals_step_exact:
  assumes t: "good_totals cur t" and x: "good_tx cur x"
  shows "if units (spent t) + debit x \<le> max_units \<and> units (refunded t) + credit x \<le> max_units
         then \<exists>t'. totals_step t x = Done (Some t') \<and> good_totals cur t' \<and> step_result t x t'
         else totals_step t x = Done None"
proof -
  have le: "units (spent t) \<le> max_units" "units (refunded t) \<le> max_units"
    using t by (simp_all add: good_totals_def representable_def)
  show ?thesis
    using x t le
    by (cases x) (auto simp: good_tx_def add_spent_exact [OF t] add_refunded_exact [OF t]
        add_spent_exact [OF good_totals_update(2) [OF t]] step_result_def)
qed

lemma totals_loop_exact:
  assumes "good_totals cur t" "list_all (good_tx cur) txs"
  shows "if units (spent t) + debits txs \<le> max_units \<and> units (refunded t) + credits txs \<le> max_units
         then \<exists>t'. totals_loop t txs = Done (Some t') \<and> good_totals cur t'
              \<and> units (spent t') = units (spent t) + debits txs
              \<and> units (refunded t') = units (refunded t) + credits txs
              \<and> fee t' = last_fee (fee t) txs
              \<and> have_refund t' = (have_refund t \<or> list_ex is_refund txs)
         else totals_loop t txs = Done None"
  using assms
proof (induction txs arbitrary: t)
  case Nil
  then show ?case by (auto simp: debits_def credits_def good_totals_def representable_def)
next
  case (Cons x xs)
  from Cons.prems have x: "good_tx cur x" and xs: "list_all (good_tx cur) xs" by simp_all
  show ?case
  proof (cases "units (spent t) + debit x \<le> max_units \<and> units (refunded t) + credit x \<le> max_units")
    case True
    with totals_step_exact [OF Cons.prems(1) x] obtain t' where
      t': "totals_step t x = Done (Some t')" "good_totals cur t'" "step_result t x t'"
      by auto
    then show ?thesis
      using Cons.IH [OF t'(2) xs]
      by (auto simp: step_result_def debits_def credits_def add.assoc split: if_splits)
  next
    case False
    then have "totals_step t x = Done None" using totals_step_exact [OF Cons.prems(1) x] by argo
    with False show ?thesis by (auto simp: debits_def credits_def)
  qed
qed

lemma last_fee_good:
  assumes "list_all (good_tx cur) txs" "\<forall>f. g = Some f \<longrightarrow> representable f \<and> currency f = cur"
    and "last_fee g txs = Some f"
  shows "representable f \<and> currency f = cur"
  using assms
proof (induction txs arbitrary: g)
  case (Cons x xs)
  show ?case
  proof (rule Cons.IH)
    show "\<forall>f. (case fee_of x of None \<Rightarrow> g | Some h \<Rightarrow> Some h) = Some f
            \<longrightarrow> representable f \<and> currency f = cur"
      using Cons.prems(1,2) by (cases x) (auto simp: good_tx_def)
  qed (use Cons.prems in simp_all)
qed simp

lemma last_fee_None: "last_fee g txs = None \<longleftrightarrow> g = None \<and> list_all (\<lambda>x. fee_of x = None) txs"
proof (induction txs arbitrary: g)
  case (Cons x xs)
  then show ?case by (cases "fee_of x") simp_all
qed simp

lemma totals_finish_exact:
  assumes t: "good_totals cur t" and fee: "have_refund t \<Longrightarrow> fee t \<noteq> None"
  defines "r \<equiv> units (refunded t) + (if have_refund t then units (the (fee t)) else 0)"
  shows "totals_finish t =
         Done (if r \<le> max_units \<and> r \<le> units (spent t)
               then Total (mk_amount cur (units (spent t) - r)) else Total_SYSERR)"
proof (cases "have_refund t")
  case True
  with fee obtain f where f: "fee t = Some f" by auto
  with t have rep: "representable f" "currency f = cur" by (simp_all add: good_totals_def)
  show ?thesis
  proof (cases "r \<le> max_units")
    case False
    then show ?thesis
      using True f by (simp add: totals_finish_def add_refunded_exact [OF t rep] r_def)
  next
    case le: True
    let ?m = "mk_amount cur (units (refunded t) + units f)"
    have m: "representable ?m" "units ?m = r"
      using good_totals_update(2) [OF t, of r] le True f by (simp_all add: good_totals_def r_def)
    then show ?thesis
      using le True f t subtract_representable [of "spent t" ?m]
      by (simp add: totals_finish_def add_refunded_exact [OF t rep] r_def good_totals_def)
  qed
next
  case False
  have "units (refunded t) \<le> max_units" using t by (simp add: good_totals_def representable_def)
  with False t show ?thesis
    using subtract_representable [of "spent t" "refunded t"]
    by (simp add: totals_finish_def r_def good_totals_def)
qed

section \<open>Properties\<close>

text \<open>
  C4: for a list of transactions in the currency of the offset, in which a refund comes with
  at least one deposit, the function returns the offset plus all debits less all credits (and
  less one deposit fee when there was a refund); it returns the error exactly when one of the
  two sums overflows or the result would be negative. No assertion fails and no uninitialised
  fee is read.
\<close>

theorem transaction_totals_exact:
  assumes "representable off" "list_all (good_tx (currency off)) txs"
    and "list_ex is_refund txs \<Longrightarrow> list_ex (\<lambda>x. fee_of x \<noteq> None) txs"
  shows "TALER_EXCHANGEDB_calculate_transaction_list_totals txs off =
         Done (if units off + debits txs \<le> max_units \<and> total_refunded txs \<le> max_units
                  \<and> total_refunded txs \<le> units off + debits txs
               then Total (mk_amount (currency off) (units off + debits txs - total_refunded txs))
               else Total_SYSERR)"
proof -
  let ?cur = "currency off"
  let ?t = "\<lparr>spent = off, refunded = mk_amount ?cur 0, fee = None, have_refund = False\<rparr>"
  have leg: "legal_currency ?cur" using assms(1) by (simp add: representable_def)
  have t: "good_totals ?cur ?t"
    using assms(1) leg by (simp add: good_totals_def normal_representable)
  have start: "TALER_EXCHANGEDB_calculate_transaction_list_totals txs off =
      obind (totals_loop ?t txs)
        (\<lambda>m. case m of None \<Rightarrow> Done Total_SYSERR | Some t \<Rightarrow> totals_finish t)"
    by (simp add: TALER_EXCHANGEDB_calculate_transaction_list_totals_def set_zero_legal [OF leg]
        zero_mk_amount)
  show ?thesis
  proof (cases "units off + debits txs \<le> max_units \<and> credits txs \<le> max_units")
    case True
    with totals_loop_exact [OF t assms(2)] obtain t' where
      t': "totals_loop ?t txs = Done (Some t')" "good_totals ?cur t'"
      "units (spent t') = units off + debits txs" "units (refunded t') = credits txs"
      "fee t' = last_fee None txs" "have_refund t' = list_ex is_refund txs"
      by auto
    have "have_refund t' \<Longrightarrow> fee t' \<noteq> None"
      using assms(3) t'(5,6) by (auto simp: last_fee_None list_ex_iff list_all_iff)
    then show ?thesis
      using totals_finish_exact [OF t'(2)] True
      by (simp add: start t' total_refunded_def)
  next
    case False
    then have "totals_loop ?t txs = Done None"
      using totals_loop_exact [OF t assms(2)] by simp
    with False show ?thesis by (auto simp: start total_refunded_def)
  qed
qed

theorem transaction_totals_exact_witness:
  "TALER_EXCHANGEDB_calculate_transaction_list_totals
     [TALER_EXCHANGEDB_TT_DEPOSIT (eur 500) (eur 10), TALER_EXCHANGEDB_TT_REFUND (eur 200) (eur 5)] (eur 7)
   = Done (Total (eur 302))"
  using transaction_totals_exact [of "eur 7" "[TALER_EXCHANGEDB_TT_DEPOSIT (eur 500) (eur 10),
      TALER_EXCHANGEDB_TT_REFUND (eur 200) (eur 5)]"]
  by (simp add: good_tx_def debits_def credits_def total_refunded_def amount_consts eur_eqI)

text \<open>
  When a list holds a refund but no deposit and no purse deposit, the function reads the
  variable \<^verbatim>\<open>deposit_fee\<close> that no iteration has initialised, whatever the amounts are (as long
  as the two sums fit).
\<close>

lemma transaction_totals_uninitialised_fee:
  assumes "representable off" "list_all (good_tx (currency off)) txs"
    and "list_ex is_refund txs" "list_all (\<lambda>x. fee_of x = None) txs"
    and "units off + debits txs \<le> max_units" "credits txs \<le> max_units"
  shows "TALER_EXCHANGEDB_calculate_transaction_list_totals txs off = Done Total_undefined"
proof -
  let ?cur = "currency off"
  let ?t = "\<lparr>spent = off, refunded = mk_amount ?cur 0, fee = None, have_refund = False\<rparr>"
  have leg: "legal_currency ?cur" using assms(1) by (simp add: representable_def)
  have t: "good_totals ?cur ?t"
    using assms(1) leg by (simp add: good_totals_def normal_representable)
  from totals_loop_exact [OF t assms(2)] assms(5,6) obtain t' where
    "totals_loop ?t txs = Done (Some t')" "fee t' = last_fee None txs"
    "have_refund t' = list_ex is_refund txs"
    by auto
  then show ?thesis
    using assms(3,4) last_fee_None [of None txs]
    by (simp add: TALER_EXCHANGEDB_calculate_transaction_list_totals_def set_zero_legal [OF leg]
        zero_mk_amount totals_finish_def)
qed

end
