(* ===== verification/Age_Restriction.thy ===== *)
theory Age_Restriction
  imports Taler_Prelude
begin

text \<open>
  Age groups and age commitments of \<^verbatim>\<open>src/src/util/age_restriction.c\<close>. A mask is a 32-bit word
  whose bit \<open>j\<close> says that an age group starts at age \<open>j\<close>. Modelled: the group and lowest-age
  loops, the string format of masks, and commit, derive, attest, verify and copy of age
  commitments. The curve operations (key generation from a seed, public keys, derivation,
  signing, verification, the KDF and the hash) are library functions and parameters.
\<close>

unbundle bit_operations_syntax

section \<open>Age groups\<close>

function age_group_loop :: "32 word \<Rightarrow> 8 word \<Rightarrow> 8 word \<Rightarrow> 8 word" where
  "age_group_loop m i age =
     (if m = 0 \<or> age = 0 then i
      else let m' = drop_bit 1 m in age_group_loop m' (i + ucast (m' AND 1)) (age - 1))"
  by pat_completeness auto
termination
  by (relation "measure (\<lambda>(m, i, age). unat age)") (auto intro: measure_unat)

declare age_group_loop.simps [simp del]

definition TALER_get_age_group :: "32 word \<Rightarrow> 8 word \<Rightarrow> 8 word" where
  "TALER_get_age_group msk age = age_group_loop msk 0 age"

text \<open>
  The loop of \<^verbatim>\<open>TALER_get_lowest_age\<close> does not look at the mask running empty; it ends only when
  enough set bits have been shifted out. \<open>None\<close> stands for a run that does not end.
\<close>

partial_function (option) lowest_age_loop :: "32 word \<Rightarrow> 8 word \<Rightarrow> 8 word \<Rightarrow> 8 word option" where
  "lowest_age_loop m grp lowest =
     (if grp = 0 then Some lowest
      else let m' = drop_bit 1 m
      in lowest_age_loop m' (if m' AND 1 \<noteq> 0 then grp - 1 else grp) (lowest + 1))"

definition TALER_get_lowest_age :: "32 word \<Rightarrow> 8 word \<Rightarrow> 8 word option" where
  "TALER_get_lowest_age msk age = lowest_age_loop msk (TALER_get_age_group msk age) 0"

section \<open>Masks as strings\<close>

text \<open>
  The loop of \<^verbatim>\<open>TALER_parse_age_group_string\<close>; \<open>val\<close> stays below 330 between its tests, so the
  unsigned arithmetic of the code does not wrap and natural numbers are exact.
\<close>

fun parse_age_loop :: "32 word \<Rightarrow> nat \<Rightarrow> nat \<Rightarrow> string \<Rightarrow> generic_return \<times> 32 word" where
  "parse_age_loop bits prev val [] =
     (if 32 \<le> val \<or> prev \<ge> val then (GNUNET_SYSERR, bits)
      else (GNUNET_OK, bits OR push_bit val 1 OR 1))"
| "parse_age_loop bits prev val (c # cs) =
     (if c = CHR '':'' then
        (if prev \<ge> val then (GNUNET_SYSERR, bits)
         else parse_age_loop (bits OR push_bit val 1) val 0 cs)
      else if \<not> c_isdigit c then (GNUNET_SYSERR, bits)
      else let val' = 10 * val + digit_val c
      in if val' = 0 \<or> 32 \<le> val' then (GNUNET_SYSERR, bits)
         else parse_age_loop bits prev val' cs)"

definition TALER_parse_age_group_string :: "string \<Rightarrow> generic_return \<times> 32 word" where
  "TALER_parse_age_group_string groups = parse_age_loop 0 0 0 groups"

text \<open>\<^verbatim>\<open>TALER_JSON_parse_age_groups\<close>, on the string found under the key (\<open>None\<close>: parsing the JSON failed).\<close>

definition TALER_JSON_parse_age_groups :: "string option \<Rightarrow> 32 word \<Rightarrow> generic_return \<times> 32 word" where
  "TALER_JSON_parse_age_groups root msk =
     (case root of
        None \<Rightarrow> (GNUNET_SYSERR, msk)
      | Some str \<Rightarrow> (GNUNET_OK, snd (TALER_parse_age_group_string str)))"

lemma unat_drop_bit_1_less: "w \<noteq> 0 \<Longrightarrow> unat (drop_bit (Suc 0) w) < unat (w :: 32 word)"
  by (simp add: drop_bit_eq_div unat_div unat_gt_0)

function age_mask_loop :: "32 word \<Rightarrow> nat \<Rightarrow> string" where
  "age_mask_loop bits n =
     (if bits = 0 then []
      else let bits' = drop_bit 1 bits; n' = n + 1
      in if bits' AND 1 = 0 then age_mask_loop bits' n'
         else (if n' > 9 then [digit_char (n' div 10)] else [])
              @ [digit_char (n' mod 10)]
              @ (if drop_bit 1 bits' \<noteq> 0 then '':'' else [])
              @ age_mask_loop bits' n')"
  by pat_completeness auto
termination
  by (relation "measure (\<lambda>(bits, n). unat bits)") (auto intro: unat_drop_bit_1_less)

declare age_mask_loop.simps [simp del]

definition TALER_age_mask_to_string :: "32 word \<Rightarrow> string" where
  "TALER_age_mask_to_string msk = age_mask_loop msk 0"

section \<open>Commitments\<close>

record 'pub age_commitment =
  ac_mask :: "32 word"
  ac_num :: nat
  ac_keys :: "'pub list"

record 'priv age_proof =
  ap_num :: nat
  ap_keys :: "'priv list"

record ('pub, 'priv) age_commitment_proof =
  commitment :: "'pub age_commitment"
  proof_part :: "'priv age_proof"

text \<open>\<^verbatim>\<open>__builtin_popcount\<close>.\<close>

definition popcount :: "32 word \<Rightarrow> nat" where
  "popcount w = length (filter (bit w) [0..<32])"

text \<open>The seed is a \<^verbatim>\<open>struct GNUNET_HashCode\<close>, an array of 16 words; the loop increments the first.\<close>

type_synonym hash_code = "32 word list"

definition next_seed :: "hash_code \<Rightarrow> hash_code" where
  "next_seed s = s[0 := s ! 0 + 1]"

fun commit_keys :: "(hash_code \<Rightarrow> 'priv) \<Rightarrow> nat \<Rightarrow> hash_code \<Rightarrow> 'priv list" where
  "commit_keys key_create 0 seed = []"
| "commit_keys key_create (Suc n) seed = key_create seed # commit_keys key_create n (next_seed seed)"

definition TALER_age_restriction_commit ::
  "(hash_code \<Rightarrow> 'priv) \<Rightarrow> ('priv \<Rightarrow> 'pub) \<Rightarrow> 32 word \<Rightarrow> 8 word \<Rightarrow> hash_code
   \<Rightarrow> ('pub, 'priv) age_commitment_proof outcome" where
  "TALER_age_restriction_commit key_create get_public msk age seed =
     gassert (msk AND 1 \<noteq> 0)
       (let num_pub = popcount msk - 1;
            num_priv = unat (TALER_get_age_group msk age);
            keys = commit_keys key_create num_pub seed
        in gassert (31 > num_priv)
             (gassert (num_priv \<le> num_pub)
               (Done \<lparr>commitment = \<lparr>ac_mask = msk, ac_num = num_pub, ac_keys = map get_public keys\<rparr>,
                      proof_part = \<lparr>ap_num = num_priv, ap_keys = take num_priv keys\<rparr>\<rparr>)))"

definition TALER_age_commitment_derive ::
  "('pub \<Rightarrow> hash_code \<Rightarrow> 'pub) \<Rightarrow> ('priv \<Rightarrow> hash_code \<Rightarrow> 'priv)
   \<Rightarrow> ('pub, 'priv) age_commitment_proof \<Rightarrow> hash_code
   \<Rightarrow> (generic_return \<times> ('pub, 'priv) age_commitment_proof) outcome" where
  "TALER_age_commitment_derive public_derive private_derive orig salt =
     gassert (ap_num (proof_part orig) \<le> ac_num (commitment orig))
       (gassert (int (ac_num (commitment orig)) = int (popcount (ac_mask (commitment orig))) - 1)
         (Done (GNUNET_OK,
            \<lparr>commitment = \<lparr>ac_mask = ac_mask (commitment orig), ac_num = ac_num (commitment orig),
                           ac_keys = map (\<lambda>i. public_derive (ac_keys (commitment orig) ! i) salt)
                                         [0..<ac_num (commitment orig)]\<rparr>,
             proof_part = \<lparr>ap_num = ap_num (proof_part orig),
                           ap_keys = map (\<lambda>i. private_derive (ap_keys (proof_part orig) ! i) salt)
                                         [0..<ap_num (proof_part orig)]\<rparr>\<rparr>)))"

text \<open>
  The signed block \<^verbatim>\<open>struct TALER_AgeAttestationPS\<close> holds the mask and the age; the purpose and
  size fields are constants. \<open>zero_sig\<close> is the all-zero signature of group 0.
\<close>

record attestation_ps =
  at_mask :: "32 word"
  at_age :: "8 word"

definition TALER_age_commitment_attest ::
  "('priv \<Rightarrow> attestation_ps \<Rightarrow> 'sig) \<Rightarrow> 'sig \<Rightarrow> ('pub, 'priv) age_commitment_proof \<Rightarrow> 8 word \<Rightarrow> 'sig
   \<Rightarrow> (generic_return \<times> 'sig) outcome" where
  "TALER_age_commitment_attest sign zero_sig cp age attest =
     (let grp = TALER_get_age_group (ac_mask (commitment cp)) age
      in gassert (grp < 32)
           (if grp = 0 then Done (GNUNET_OK, zero_sig)
            else if unat grp > ap_num (proof_part cp) then Done (GNUNET_NO, attest)
            else Done (GNUNET_OK,
                       sign (ap_keys (proof_part cp) ! (unat grp - 1))
                            \<lparr>at_mask = ac_mask (commitment cp), at_age = age\<rparr>)))"

definition TALER_age_commitment_verify ::
  "(attestation_ps \<Rightarrow> 'sig \<Rightarrow> 'pub \<Rightarrow> generic_return) \<Rightarrow> 'pub age_commitment \<Rightarrow> 8 word \<Rightarrow> 'sig
   \<Rightarrow> generic_return outcome" where
  "TALER_age_commitment_verify verify comm age attest =
     (let grp = TALER_get_age_group (ac_mask comm) age
      in gassert (grp < 32)
           (Done (if grp = 0 then GNUNET_OK
                  else if unat grp > ac_num comm then GNUNET_NO
                  else verify \<lparr>at_mask = ac_mask comm, at_age = age\<rparr> attest
                              (ac_keys comm ! (unat grp - 1)))))"

definition TALER_age_commitment_hash ::
  "('pub list \<Rightarrow> 'hash) \<Rightarrow> 'hash \<Rightarrow> 'pub age_commitment option \<Rightarrow> 'hash outcome" where
  "TALER_age_commitment_hash hash zero_hash comm =
     (case comm of
        None \<Rightarrow> Done zero_hash
      | Some c \<Rightarrow> gassert (int (popcount (ac_mask c)) - 1 = int (ac_num c))
                    (Done (hash (map (\<lambda>i. ac_keys c ! i) [0..<ac_num c]))))"

definition TALER_age_commitment_proof_deep_copy ::
  "('pub, 'priv) age_commitment_proof \<Rightarrow> ('pub, 'priv) age_commitment_proof outcome" where
  "TALER_age_commitment_proof_deep_copy acp =
     gassert (int (popcount (ac_mask (commitment acp))) - 1 = int (ac_num (commitment acp)))
       (Done \<lparr>commitment = (commitment acp)\<lparr>ac_keys :=
                map (\<lambda>i. ac_keys (commitment acp) ! i) [0..<ac_num (commitment acp)]\<rparr>,
              proof_part = (proof_part acp)\<lparr>ap_keys :=
                map (\<lambda>i. ap_keys (proof_part acp) ! i) [0..<ap_num (proof_part acp)]\<rparr>\<rparr>)"

definition TALER_age_commitment_proof_duplicate ::
  "('pub, 'priv) age_commitment_proof \<Rightarrow> ('pub, 'priv) age_commitment_proof outcome" where
  "TALER_age_commitment_proof_duplicate acp =
     gassert (int (popcount (ac_mask (commitment acp))) - 1 = int (ac_num (commitment acp)))
       (TALER_age_commitment_proof_deep_copy acp)"

text \<open>
  \<^verbatim>\<open>TALER_age_restriction_from_secret\<close>: the keys below \<open>num_priv\<close> are generated from the secret,
  the public keys of the other groups are derived from a fixed base key.
\<close>

definition TALER_age_restriction_from_secret ::
  "('secret \<Rightarrow> string \<Rightarrow> nat \<Rightarrow> hash_code) \<Rightarrow> (hash_code \<Rightarrow> 'priv) \<Rightarrow> ('priv \<Rightarrow> 'pub)
   \<Rightarrow> ('pub \<Rightarrow> hash_code \<Rightarrow> 'pub) \<Rightarrow> 'pub \<Rightarrow> 'secret \<Rightarrow> 32 word \<Rightarrow> 8 word
   \<Rightarrow> ('pub, 'priv) age_commitment_proof outcome" where
  "TALER_age_restriction_from_secret kdf key_create get_public public_derive base_key secret msk max_age =
     gassert (msk AND 1 \<noteq> 0)
       (let num_pub = popcount msk - 1;
            num_priv = unat (TALER_get_age_group msk max_age);
            priv_key = (\<lambda>i. key_create (kdf secret ''age-commitment'' i))
        in gassert (31 > num_priv)
             (gassert (num_priv \<le> num_pub)
               (Done \<lparr>commitment = \<lparr>ac_mask = msk, ac_num = num_pub,
                        ac_keys = map (\<lambda>i. if i < num_priv then get_public (priv_key i)
                                           else public_derive base_key (kdf secret ''age-factor'' i))
                                      [0..<num_pub]\<rparr>,
                      proof_part = \<lparr>ap_num = num_priv, ap_keys = map priv_key [0..<num_priv]\<rparr>\<rparr>)))"

section \<open>Age groups counted\<close>

text \<open>The group starts above age \<open>l\<close> and up to age \<open>a\<close>.\<close>

definition starts :: "32 word \<Rightarrow> nat \<Rightarrow> nat \<Rightarrow> nat set" where
  "starts w l a = {j. l < j \<and> j \<le> a \<and> bit w j}"

lemma finite_starts [simp]: "finite (starts w l a)"
  by (simp add: starts_def)

lemma starts_subset: "starts w l a \<subseteq> {l<..<32}"
  by (auto simp: starts_def dest: bit_imp_le_length)

lemma card_starts_le: "card (starts w l a) \<le> 31"
  using card_mono [OF _ starts_subset [of w l a]] by simp

lemma starts_step:
  "l < a \<Longrightarrow> starts w l a = (if bit w (Suc l) then insert (Suc l) (starts w (Suc l) a) else starts w (Suc l) a)"
  by (auto simp: starts_def) (metis Suc_lessI)+

lemma Suc_notin_starts [simp]: "Suc l \<notin> starts w (Suc l) a"
  by (simp add: starts_def)

lemma and_1_bit: "(drop_bit k w AND 1 = 0) = (\<not> bit w k)" "(drop_bit k w AND 1 \<noteq> 0) = bit w k"
  for w :: "32 word"
  by (simp_all add: and_one_eq mod_2_eq_odd bit_iff_odd_drop_bit)

lemma ucast_and_1: "ucast (drop_bit k w AND 1) = (of_bool (bit w k) :: 8 word)" for w :: "32 word"
  by (simp add: and_one_eq mod_2_eq_odd bit_iff_odd_drop_bit)

lemma drop_bit_Suc_1: "drop_bit 1 (drop_bit l w) = drop_bit (Suc l) w" for w :: "32 word"
  by simp

lemma drop_bit_0_bits: "drop_bit l w = 0 \<Longrightarrow> l \<le> j \<Longrightarrow> \<not> bit w j" for w :: "32 word"
proof -
  assume z: "drop_bit l w = 0" and le: "l \<le> j"
  have "bit w j = bit (drop_bit l w) (j - l)" using le by (simp add: bit_drop_bit_eq)
  with z show ?thesis by simp
qed

lemma age_group_loop_starts:
  "age_group_loop (drop_bit l w) i age = i + of_nat (card (starts w l (l + unat age)))"
proof (induction "drop_bit l w" i age arbitrary: l rule: age_group_loop.induct)
  case (1 i age l)
  show ?case
  proof (cases "drop_bit l w = 0 \<or> age = 0")
    case True
    then have "starts w l (l + unat age) = {}"
      using drop_bit_0_bits [of l w] by (auto simp: starts_def)
    with True show ?thesis by (subst age_group_loop.simps) simp
  next
    case False
    then have age: "unat age = Suc (unat (age - 1))"
      using unat_minus_one [of age] unat_gt_0 [of age] by simp
    have IH: "age_group_loop (drop_bit (Suc l) w) (i + of_bool (bit w (Suc l))) (age - 1)
        = i + of_bool (bit w (Suc l)) + of_nat (card (starts w (Suc l) (Suc l + unat (age - 1))))"
      using "1.hyps" [OF False drop_bit_Suc_1 [symmetric]]
      by (simp only: drop_bit_Suc_1 ucast_and_1)
    have "starts w l (l + unat age) =
        (if bit w (Suc l) then insert (Suc l) (starts w (Suc l) (Suc l + unat (age - 1)))
         else starts w (Suc l) (Suc l + unat (age - 1)))"
      using starts_step [of l "l + unat age" w] age by simp
    then have "of_nat (card (starts w l (l + unat age))) =
        (of_bool (bit w (Suc l)) + of_nat (card (starts w (Suc l) (Suc l + unat (age - 1)))) :: 8 word)"
      by simp
    then show ?thesis
      using False IH by (subst age_group_loop.simps) (simp add: ucast_and_1 drop_bit_Suc_1 add.assoc)
  qed
qed

lemma age_group_card: "unat (TALER_get_age_group w age) = card (starts w 0 (unat age))"
proof -
  have "TALER_get_age_group w age = of_nat (card (starts w 0 (unat age)))"
    using age_group_loop_starts [of 0 w 0 age] by (simp add: TALER_get_age_group_def)
  then show ?thesis
    using card_starts_le [of w 0 "unat age"] by (simp add: unat_of_nat)
qed

lemma starts_mono: "a \<le> b \<Longrightarrow> starts w l a \<subseteq> starts w l b"
  by (auto simp: starts_def)

lemma lowest_age_loop_starts:
  assumes "unat g = card (starts w l a)"
  shows "lowest_age_loop (drop_bit l w) g (of_nat l)
         = Some (of_nat (if starts w l a = {} then l else Max (starts w l a)))"
  using assms
proof (induction "a - l" arbitrary: l g rule: less_induct)
  case less
  show ?case
  proof (cases "starts w l a = {}")
    case True
    with less.prems have "g = 0" by (simp add: unat_0_iff)
    with True show ?thesis by (subst lowest_age_loop.simps) simp
  next
    case False
    then have g: "g \<noteq> 0" using less.prems by (metis card_0_eq finite_starts unat_0)
    from False have la: "l < a" by (auto simp: starts_def)
    let ?g = "if bit w (Suc l) then g - 1 else g"
    have "unat ?g = card (starts w (Suc l) a)"
      using less.prems starts_step [OF la, of w] unat_minus_one [OF g] by simp
    then have IH: "lowest_age_loop (drop_bit (Suc l) w) ?g (of_nat (Suc l))
        = Some (of_nat (if starts w (Suc l) a = {} then Suc l else Max (starts w (Suc l) a)))"
      using la by (intro less.hyps) simp_all
    have "Max (starts w l a) = (if starts w (Suc l) a = {} then Suc l else Max (starts w (Suc l) a))"
    proof (cases "bit w (Suc l)")
      case True
      have "starts w (Suc l) a \<noteq> {} \<Longrightarrow> Suc l \<le> Max (starts w (Suc l) a)"
        by (metis (mono_tags, lifting) Max_in finite_starts less_imp_le mem_Collect_eq starts_def)
      then show ?thesis
        using True starts_step [OF la, of w] by (auto simp: Max_insert max_def)
    next
      case False
      then show ?thesis using starts_step [OF la, of w] \<open>starts w l a \<noteq> {}\<close> by simp
    qed
    then show ?thesis
      using g IH False
      by (subst lowest_age_loop.simps) (simp add: Let_def and_1_bit drop_bit_Suc_1 add.commute)
  qed
qed

lemma lowest_age_starts:
  "TALER_get_lowest_age w age
   = Some (of_nat (if starts w 0 (unat age) = {} then 0 else Max (starts w 0 (unat age))))"
  using lowest_age_loop_starts [of "TALER_get_age_group w age" w 0 "unat age"]
  by (simp add: TALER_get_lowest_age_def age_group_card)

section \<open>Masks and their strings\<close>

definition age_digits :: "nat \<Rightarrow> string" where
  "age_digits n = (if n > 9 then [digit_char (n div 10)] else []) @ [digit_char (n mod 10)]"

lemma digit_char_not_colon: "n < 10 \<Longrightarrow> digit_char n \<noteq> CHR '':''"
  using c_isdigit_not_special [OF c_isdigit_digit_char] by blast

lemma parse_age_digits:
  assumes "0 < n" "n < 32"
  shows "parse_age_loop acc prev 0 (age_digits n @ rest) = parse_age_loop acc prev n rest"
proof (cases "n > 9")
  case True
  have "0 < n div 10" "n div 10 < 10" using True assms by (simp_all add: div_less_iff_less_mult)
  with True assms show ?thesis
    by (simp add: age_digits_def digit_char_not_colon)
next
  case False
  with assms show ?thesis by (simp add: age_digits_def digit_char_not_colon)
qed

lemma push_bit_split:
  fixes b :: "32 word"
  shows "push_bit n b = (if bit b 0 then push_bit n 1 else 0) OR push_bit (Suc n) (drop_bit 1 b)"
proof (rule bit_word_eqI)
  fix k assume "k < LENGTH(32)"
  then have k: "k < 32" by simp
  consider "k < n" | "k = n" | "n < k" by linarith
  then show "bit (push_bit n b) k \<longleftrightarrow>
      bit ((if bit b 0 then push_bit n 1 else 0) OR push_bit (Suc n) (drop_bit 1 b)) k"
  proof cases
    case 3
    then have "k - n = Suc (k - Suc n)" by simp
    with 3 k show ?thesis
      by (simp add: bit_or_iff bit_push_bit_iff bit_drop_bit_eq bit_1_iff Suc_le_eq
          del: push_bit_Suc push_bit_of_1)
  qed (use k in \<open>simp_all add: bit_or_iff bit_push_bit_iff bit_drop_bit_eq bit_1_iff
      del: push_bit_Suc push_bit_of_1\<close>)
qed

text \<open>
  The printed groups, parsed back with the parser between two groups: all group starts above
  \<open>n\<close> are added to the mask read so far.
\<close>

lemma age_mask_loop_unfold:
  assumes "bits \<noteq> 0"
  shows "age_mask_loop bits n =
         (if bit (drop_bit 1 bits) 0
          then age_digits (Suc n) @ (if drop_bit 1 (drop_bit 1 bits) \<noteq> 0 then '':'' else [])
               @ age_mask_loop (drop_bit 1 bits) (Suc n)
          else age_mask_loop (drop_bit 1 bits) (Suc n))"
  using assms and_1_bit(1) [of 0 "drop_bit 1 bits"]
  by (subst age_mask_loop.simps) (auto simp: age_digits_def Let_def)

lemma even_drop_bit_nonzero:
  fixes b :: "32 word"
  assumes "b \<noteq> 0" "\<not> bit b 0"
  shows "drop_bit 1 b \<noteq> 0"
  using push_bit_split [of 0 b] assms by (auto simp: bit_0)

lemma age_mask_loop_1: "drop_bit 1 b = 0 \<Longrightarrow> age_mask_loop b n = []"
  by (cases "b = 0") (simp_all add: age_mask_loop.simps [of b n] age_mask_loop.simps [of 0])

lemma parse_age_mask_loop:
  assumes "drop_bit 1 bits \<noteq> 0" "prev \<le> n" "bits = drop_bit n w"
  shows "parse_age_loop acc prev 0 (age_mask_loop bits n)
         = (GNUNET_OK, acc OR push_bit (Suc n) (drop_bit 1 bits) OR 1)"
  using assms
proof (induction "31 - n" arbitrary: bits n acc prev rule: less_induct)
  case less
  let ?b = "drop_bit 1 bits" and ?n = "Suc n"
  have bw: "?b = drop_bit ?n w" using less.prems(3) by simp
  have ne: "bits \<noteq> 0" using less.prems(1) by auto
  have n32: "?n < 32"
  proof (rule ccontr)
    assume "\<not> ?n < 32"
    then have "drop_bit ?n w = 0" by (intro bit_word_eqI) (simp add: bit_drop_bit_eq bit_imp_le_length)
    with bw less.prems(1) show False by simp
  qed
  have dec: "31 - ?n < 31 - n" using n32 by simp
  note split = push_bit_split [of ?n ?b]
  show ?case
  proof (cases "bit ?b 0")
    case False
    have "parse_age_loop acc prev 0 (age_mask_loop ?b ?n)
          = (GNUNET_OK, acc OR push_bit (Suc ?n) (drop_bit 1 ?b) OR 1)"
      using less.hyps [OF dec even_drop_bit_nonzero [OF less.prems(1) False] _ bw] less.prems(2) by simp
    then show ?thesis
      unfolding age_mask_loop_unfold [OF ne] split using False by (simp only: if_False or.left_neutral)
  next
    case bit: True
    show ?thesis
    proof (cases "drop_bit 1 ?b = 0")
      case True
      then have "parse_age_loop acc prev 0 (age_mask_loop bits n) = parse_age_loop acc prev ?n []"
        unfolding age_mask_loop_unfold [OF ne] age_mask_loop_1 [OF True]
        using bit parse_age_digits [of ?n acc prev "[]"] n32 by simp
      then show ?thesis
        unfolding split True using bit less.prems(2) n32 by simp
    next
      case False
      have "parse_age_loop (acc OR push_bit ?n 1) ?n 0 (age_mask_loop ?b ?n)
            = (GNUNET_OK, (acc OR push_bit ?n 1) OR push_bit (Suc ?n) (drop_bit 1 ?b) OR 1)"
        by (rule less.hyps [OF dec False _ bw]) simp
      moreover have "parse_age_loop acc prev 0 (age_mask_loop bits n)
            = parse_age_loop (acc OR push_bit ?n 1) ?n 0 (age_mask_loop ?b ?n)"
        unfolding age_mask_loop_unfold [OF ne]
        using bit False parse_age_digits [of ?n acc prev "'':'' @ age_mask_loop ?b ?n"] n32 less.prems(2)
        by simp
      ultimately show ?thesis
        unfolding split using bit by (simp only: if_True or.assoc)
    qed
  qed
qed

lemma parse_age_mask_to_string:
  assumes "bit w 0" "w \<noteq> 1"
  shows "TALER_parse_age_group_string (TALER_age_mask_to_string w) = (GNUNET_OK, w)"
proof -
  have split: "w = 1 OR push_bit 1 (drop_bit 1 w)"
    using push_bit_split [of 0 w] assms(1) by simp
  then have ne: "drop_bit 1 w \<noteq> 0"
    using assms(2) by (metis or.right_neutral push_bit_of_0)
  have "TALER_parse_age_group_string (TALER_age_mask_to_string w)
        = (GNUNET_OK, 0 OR push_bit (Suc 0) (drop_bit 1 w) OR 1)"
    unfolding TALER_parse_age_group_string_def TALER_age_mask_to_string_def
    by (rule parse_age_mask_loop [OF ne, of 0 0 w]) simp_all
  then show ?thesis using split by (simp add: or.commute)
qed

lemma length_age_mask_loop:
  "bits = drop_bit n w \<Longrightarrow> length (age_mask_loop bits n) \<le> 3 * (31 - n)"
proof (induction "31 - n" arbitrary: bits n rule: less_induct)
  case less
  show ?case
  proof (cases "n < 31")
    case True
    have IH: "length (age_mask_loop (drop_bit 1 bits) (Suc n)) \<le> 3 * (31 - Suc n)"
      using True less.prems by (intro less.hyps) simp_all
    have "length (age_digits (Suc n)) \<le> 2" by (simp add: age_digits_def)
    with True IH show ?thesis
      by (cases "bits = 0") (auto simp: age_mask_loop_unfold age_mask_loop.simps [of 0])
  next
    case False
    then have "drop_bit 1 bits = 0"
      using less.prems by (intro bit_word_eqI) (simp add: bit_drop_bit_eq bit_imp_le_length)
    then show ?thesis by (simp add: age_mask_loop_1)
  qed
qed

section \<open>Commitments\<close>

lemma popcount_card: "popcount w = card {j. bit w j}"
proof -
  have "{j. bit w j} = set (filter (bit w) [0..<32])"
    by (auto dest: bit_imp_le_length)
  then show ?thesis
    unfolding popcount_def by (simp only: distinct_card distinct_filter distinct_upt)
qed

lemma popcount_starts: "bit w 0 \<Longrightarrow> popcount w = Suc (card (starts w 0 31))"
proof -
  assume "bit w 0"
  then have "{j. bit w j} = insert 0 (starts w 0 31)"
    by (auto simp: starts_def dest: bit_imp_le_length)
  moreover have "0 \<notin> starts w 0 31" by (simp add: starts_def)
  ultimately show ?thesis by (simp add: popcount_card)
qed

lemma starts_31: "starts w l a \<subseteq> starts w l 31"
  by (auto simp: starts_def dest: bit_imp_le_length)

lemma age_group_le_popcount: "bit w 0 \<Longrightarrow> unat (TALER_get_age_group w age) \<le> popcount w - 1"
  using card_mono [OF _ starts_31 [of w 0 "unat age"]] by (simp add: age_group_card popcount_starts)

lemma age_group_less_32: "TALER_get_age_group w age < 32"
  using card_starts_le [of w 0 "unat age"] by (simp add: word_less_nat_alt age_group_card)

lemma and_1_bit_0: "(w AND 1 \<noteq> 0) = bit w 0" for w :: "32 word"
  using and_1_bit(2) [of 0 w] by simp

lemma length_commit_keys [simp]: "length (commit_keys kc n seed) = n"
  by (induction n arbitrary: seed) simp_all

text \<open>
  A consistent commitment: one public key per age group above the first, at most as many
  private keys, and each private key belongs to the public key at its position.
\<close>

definition wf_acp :: "('priv \<Rightarrow> 'pub) \<Rightarrow> ('pub, 'priv) age_commitment_proof \<Rightarrow> bool" where
  "wf_acp get_public cp \<longleftrightarrow>
     bit (ac_mask (commitment cp)) 0
     \<and> ac_num (commitment cp) = popcount (ac_mask (commitment cp)) - 1
     \<and> length (ac_keys (commitment cp)) = ac_num (commitment cp)
     \<and> ap_num (proof_part cp) \<le> ac_num (commitment cp)
     \<and> length (ap_keys (proof_part cp)) = ap_num (proof_part cp)
     \<and> (\<forall>i < ap_num (proof_part cp).
          ac_keys (commitment cp) ! i = get_public (ap_keys (proof_part cp) ! i))"

lemma wf_acp_popcount:
  "wf_acp gp cp \<Longrightarrow> int (ac_num (commitment cp)) = int (popcount (ac_mask (commitment cp))) - 1"
  by (simp add: wf_acp_def popcount_starts)

lemma commit_wf:
  assumes "bit w 0" "unat (TALER_get_age_group w age) < 31"
  shows "\<exists>cp. TALER_age_restriction_commit kc gp w age seed = Done cp \<and> wf_acp gp cp
              \<and> ac_mask (commitment cp) = w
              \<and> ap_num (proof_part cp) = unat (TALER_get_age_group w age)"
  using assms age_group_le_popcount [OF assms(1), of age]
  by (simp add: TALER_age_restriction_commit_def and_1_bit_0 wf_acp_def min_def Let_def)

lemma from_secret_wf:
  assumes "bit w 0" "unat (TALER_get_age_group w age) < 31"
  shows "\<exists>cp. TALER_age_restriction_from_secret kdf kc gp pd base sec w age = Done cp \<and> wf_acp gp cp
              \<and> ac_mask (commitment cp) = w
              \<and> ap_num (proof_part cp) = unat (TALER_get_age_group w age)"
  using assms age_group_le_popcount [OF assms(1), of age]
  by (simp add: TALER_age_restriction_from_secret_def and_1_bit_0 wf_acp_def Let_def)

lemma derive_wf:
  assumes "wf_acp gp cp" and "\<And>k. pub_derive (gp k) salt = gp (priv_derive k salt)"
  shows "\<exists>cp'. TALER_age_commitment_derive pub_derive priv_derive cp salt = Done (GNUNET_OK, cp')
              \<and> wf_acp gp cp' \<and> ac_mask (commitment cp') = ac_mask (commitment cp)
              \<and> ap_num (proof_part cp') = ap_num (proof_part cp)"
  using assms wf_acp_popcount [OF assms(1)]
  by (simp add: TALER_age_commitment_derive_def wf_acp_def)

lemma deep_copy_id:
  assumes "wf_acp gp cp"
  shows "TALER_age_commitment_proof_deep_copy cp = Done cp"
proof -
  have "map (\<lambda>i. ac_keys (commitment cp) ! i) [0..<ac_num (commitment cp)] = ac_keys (commitment cp)"
    "map (\<lambda>i. ap_keys (proof_part cp) ! i) [0..<ap_num (proof_part cp)] = ap_keys (proof_part cp)"
    using assms by (auto simp: wf_acp_def intro!: nth_equalityI)
  then show ?thesis
    using wf_acp_popcount [OF assms] by (simp add: TALER_age_commitment_proof_deep_copy_def)
qed

lemma attest_verify:
  assumes wf: "wf_acp gp cp" and sign: "\<And>k m. verify m (sign k m) (gp k) = GNUNET_OK"
    and le: "unat (TALER_get_age_group (ac_mask (commitment cp)) age) \<le> ap_num (proof_part cp)"
  shows "\<exists>s. TALER_age_commitment_attest sign z cp age x = Done (GNUNET_OK, s)
             \<and> TALER_age_commitment_verify verify (commitment cp) age s = Done GNUNET_OK"
proof (cases "TALER_get_age_group (ac_mask (commitment cp)) age = 0")
  case True
  then show ?thesis
    by (simp add: TALER_age_commitment_attest_def TALER_age_commitment_verify_def)
next
  case False
  let ?g = "TALER_get_age_group (ac_mask (commitment cp)) age"
  have "unat ?g - 1 < ap_num (proof_part cp)" using False le unat_gt_0 [of ?g] by linarith
  then have "ac_keys (commitment cp) ! (unat ?g - 1) = gp (ap_keys (proof_part cp) ! (unat ?g - 1))"
    using wf by (simp add: wf_acp_def)
  moreover have "unat ?g \<le> ac_num (commitment cp)" using wf le by (simp add: wf_acp_def)
  ultimately show ?thesis
    using False le age_group_less_32 [of "ac_mask (commitment cp)" age] sign
    by (simp add: TALER_age_commitment_attest_def TALER_age_commitment_verify_def not_less)
qed

lemma attest_refused:
  assumes "\<not> unat (TALER_get_age_group (ac_mask (commitment cp)) age) \<le> ap_num (proof_part cp)"
  shows "TALER_age_commitment_attest sign z cp age x = Done (GNUNET_NO, x)"
proof -
  have "TALER_get_age_group (ac_mask (commitment cp)) age \<noteq> 0" using assms by auto
  then show ?thesis
    using assms age_group_less_32 [of "ac_mask (commitment cp)" age]
    by (simp add: TALER_age_commitment_attest_def not_le)
qed

lemma attest_iff:
  assumes "wf_acp gp cp" "\<And>k m. verify m (sign k m) (gp k) = GNUNET_OK"
  shows "if unat (TALER_get_age_group (ac_mask (commitment cp)) age) \<le> ap_num (proof_part cp)
         then \<exists>s. TALER_age_commitment_attest sign z cp age x = Done (GNUNET_OK, s)
                  \<and> TALER_age_commitment_verify verify (commitment cp) age s = Done GNUNET_OK
         else TALER_age_commitment_attest sign z cp age x = Done (GNUNET_NO, x)"
  using attest_verify [where verify = verify and sign = sign, OF assms] attest_refused [of cp age] by auto

section \<open>Properties\<close>

text \<open>
  \<^verbatim>\<open>TALER_get_age_group\<close> returns the number of group starts above age 0 and up to the given
  age; the loop over the shifted mask neither stops early nor wraps its 8-bit counter.
\<close>

lemma age_group_counts:
  "unat (TALER_get_age_group msk age) = card {j. 0 < j \<and> j \<le> unat age \<and> bit msk j}"
  using age_group_card [of msk age] by (simp add: starts_def)

text \<open>
  The loop of \<^verbatim>\<open>TALER_get_lowest_age\<close>, which has no test for an exhausted mask, ends for
  every mask and age. It returns the start of the group of the given age: an age that is 0 or a
  group start, not above the given age, with no other group start up to the given age.
\<close>

lemma lowest_age_terminates:
  "\<exists>lo. TALER_get_lowest_age msk age = Some lo \<and> unat lo \<le> unat age
        \<and> (lo = 0 \<or> bit msk (unat lo))
        \<and> {j. unat lo < j \<and> j \<le> unat age \<and> bit msk j} = {}"
proof (cases "starts msk 0 (unat age) = {}")
  case True
  then show ?thesis using lowest_age_starts [of msk age] by (auto simp: starts_def)
next
  case False
  let ?S = "starts msk 0 (unat age)"
  have mem: "Max ?S \<in> ?S" using False by (simp add: Max_in)
  then have b: "bit msk (Max ?S)" "Max ?S \<le> unat age" "Max ?S < 32"
    using starts_subset [of msk 0 "unat age"] by (auto simp: starts_def)
  have "unat (of_nat (Max ?S) :: 8 word) = Max ?S" using b(3) by (simp add: unat_of_nat)
  moreover have "{j. Max ?S < j \<and> j \<le> unat age \<and> bit msk j} = {}"
  proof (rule equals0I)
    fix j assume "j \<in> {j. Max ?S < j \<and> j \<le> unat age \<and> bit msk j}"
    then have "j \<in> ?S" "Max ?S < j" by (auto simp: starts_def)
    then show False using Max_ge [OF finite_starts, of j msk 0 "unat age"] by linarith
  qed
  ultimately show ?thesis
    using lowest_age_starts [of msk age] False b
    by (intro exI [of _ "of_nat (Max ?S)"]) (simp del: Max_less_iff Max_le_iff)
qed

text \<open>
  For a mask with bit 0 and at least one further group start, parsing the string that
  \<^verbatim>\<open>TALER_age_mask_to_string\<close> writes gives back the mask, and the string with its terminator
  fits the 256 bytes the function allocates.
\<close>

lemma age_mask_print_parse:
  assumes "bit msk 0" "msk \<noteq> 1"
  shows "TALER_parse_age_group_string (TALER_age_mask_to_string msk) = (GNUNET_OK, msk)
         \<and> length (TALER_age_mask_to_string msk) + 1 \<le> 256"
  using parse_age_mask_to_string [OF assms] length_age_mask_loop [of msk 0 msk]
  by (simp add: TALER_age_mask_to_string_def)

text \<open>
  C5: a commitment to an age made by \<^verbatim>\<open>TALER_age_restriction_commit\<close> (mask with bit 0, fewer
  than 31 groups up to the age) can attest exactly the ages of the groups up to the committed
  one: for those \<^verbatim>\<open>TALER_age_commitment_attest\<close> returns a signature that
  \<^verbatim>\<open>TALER_age_commitment_verify\<close> accepts, for all others it refuses and leaves its output alone.
  The signature scheme is only assumed to accept what it signed.
\<close>

theorem age_commit_attest:
  assumes "bit msk 0" "unat (TALER_get_age_group msk age) < 31"
    and "\<And>k m. verify m (sign k m) (get_public k) = GNUNET_OK"
  shows "\<exists>cp. TALER_age_restriction_commit key_create get_public msk age seed = Done cp
          \<and> (if unat (TALER_get_age_group msk age') \<le> unat (TALER_get_age_group msk age)
             then \<exists>s. TALER_age_commitment_attest sign zero cp age' x = Done (GNUNET_OK, s)
                      \<and> TALER_age_commitment_verify verify (commitment cp) age' s = Done GNUNET_OK
             else TALER_age_commitment_attest sign zero cp age' x = Done (GNUNET_NO, x))"
proof -
  obtain cp where cp: "TALER_age_restriction_commit key_create get_public msk age seed = Done cp"
    "wf_acp get_public cp" "ac_mask (commitment cp) = msk"
    "ap_num (proof_part cp) = unat (TALER_get_age_group msk age)"
    using commit_wf [OF assms(1,2)] by blast
  then show ?thesis using attest_iff [where verify = verify and sign = sign, OF cp(2) assms(3)] by auto
qed

theorem age_commit_attest_witness:
  "\<exists>cp. TALER_age_restriction_commit hd (\<lambda>k. k + 1) 0x105 9 [7, 0] = Done cp
     \<and> (if unat (TALER_get_age_group 0x105 3) \<le> unat (TALER_get_age_group 0x105 9)
        then \<exists>s. TALER_age_commitment_attest Pair (0, \<lparr>at_mask = 0, at_age = 0\<rparr>) cp 3 (5, \<lparr>at_mask = 0, at_age = 0\<rparr>)
                   = Done (GNUNET_OK, s)
                 \<and> TALER_age_commitment_verify
                     (\<lambda>m s p. if s = (p - 1, m) then GNUNET_OK else GNUNET_SYSERR) (commitment cp) 3 s
                   = Done GNUNET_OK
        else TALER_age_commitment_attest Pair (0, \<lparr>at_mask = 0, at_age = 0\<rparr>) cp 3 (5, \<lparr>at_mask = 0, at_age = 0\<rparr>)
             = Done (GNUNET_NO, (5, \<lparr>at_mask = 0, at_age = 0\<rparr>)))"
proof (rule age_commit_attest)
  show "unat (TALER_get_age_group 0x105 9) < 31"
    by (simp add: TALER_get_age_group_def age_group_loop.simps Let_def drop_bit_eq_div)
qed simp_all

text \<open>
  Deriving a commitment for a new coin keeps what can be attested: the derived commitment
  of a consistent one is consistent again, over the same mask and number of private keys, so
  it attests and verifies the same ages. Assumed of the curve: deriving the public key of a
  private key gives the public key of the derived private key.
\<close>

lemma age_derive_attest:
  assumes "wf_acp get_public cp"
    and "\<And>k. public_derive (get_public k) salt = get_public (private_derive k salt)"
    and "\<And>k m. verify m (sign k m) (get_public k) = GNUNET_OK"
  shows "\<exists>cp'. TALER_age_commitment_derive public_derive private_derive cp salt = Done (GNUNET_OK, cp')
          \<and> wf_acp get_public cp'
          \<and> (if unat (TALER_get_age_group (ac_mask (commitment cp)) age) \<le> ap_num (proof_part cp)
             then \<exists>s. TALER_age_commitment_attest sign zero cp' age x = Done (GNUNET_OK, s)
                      \<and> TALER_age_commitment_verify verify (commitment cp') age s = Done GNUNET_OK
             else TALER_age_commitment_attest sign zero cp' age x = Done (GNUNET_NO, x))"
proof -
  obtain cp' where cp': "TALER_age_commitment_derive public_derive private_derive cp salt = Done (GNUNET_OK, cp')"
    "wf_acp get_public cp'" "ac_mask (commitment cp') = ac_mask (commitment cp)"
    "ap_num (proof_part cp') = ap_num (proof_part cp)"
    using derive_wf [where gp = get_public and pub_derive = public_derive and priv_derive = private_derive]
      assms(1,2) by blast
  then show ?thesis using attest_iff [where verify = verify and sign = sign, OF cp'(2) assms(3)] by auto
qed

definition sample_acp :: "(32 word, 32 word) age_commitment_proof" where
  "sample_acp = \<lparr>commitment = \<lparr>ac_mask = 0x105, ac_num = 2, ac_keys = [8, 9]\<rparr>,
                 proof_part = \<lparr>ap_num = 1, ap_keys = [8]\<rparr>\<rparr>"

lemma sample_acp_wf: "wf_acp id sample_acp"
  by (simp add: wf_acp_def sample_acp_def popcount_def upt_rec)

end
