(* ===== verification/Iban.thy ===== *)
theory Iban
  imports Taler_Prelude
begin

text \<open>
  \<^verbatim>\<open>src/src/util/iban.c\<close>: validation of IBANs by country table and checksum. The checksum loop
  mixes \<^verbatim>\<open>unsigned long long\<close> with the \<^verbatim>\<open>double\<close> that \<^verbatim>\<open>pow\<close> returns, so the model has the rounding
  of a double-precision addition. Shown: for IBANs whose numeric form has at most 29 digits the
  function accepts a string of the form of an IBAN exactly if its country is in the table and the
  checksum of the standard is right; beyond that the rounding makes it reject valid IBANs. The
  length that the standard fixes for each country is not checked by the code.
\<close>

section \<open>Country table\<close>

definition country_table :: "(string \<times> string) list" where
  "country_table =
   [(''AE'', ''U.A.E.''), (''AF'', ''Afghanistan''), (''AL'', ''Albania''), (''AM'', ''Armenia''),
    (''AN'', ''Netherlands Antilles''), (''AR'', ''Argentina''), (''AT'', ''Austria''),
    (''AU'', ''Australia''), (''AZ'', ''Azerbaijan''), (''BA'', ''Bosnia and Herzegovina''),
    (''BD'', ''Bangladesh''), (''BE'', ''Belgium''), (''BG'', ''Bulgaria''), (''BH'', ''Bahrain''),
    (''BN'', ''Brunei Darussalam''), (''BO'', ''Bolivia''), (''BR'', ''Brazil''),
    (''BT'', ''Bhutan''), (''BY'', ''Belarus''), (''BZ'', ''Belize''), (''CA'', ''Canada''),
    (''CG'', ''Congo''), (''CH'', ''Switzerland''), (''CI'', ''Cote d'' @ [CHR 0x27] @ ''Ivoire''),
    (''CL'', ''Chile''), (''CM'', ''Cameroon''),
    (''CN'', ''People'' @ [CHR 0x27] @ ''s Republic of China''), (''CO'', ''Colombia''),
    (''CR'', ''Costa Rica''), (''CS'', ''Serbia and Montenegro''), (''CZ'', ''Czech Republic''),
    (''DE'', ''Germany''), (''DK'', ''Denmark''), (''DO'', ''Dominican Republic''),
    (''DZ'', ''Algeria''), (''EC'', ''Ecuador''), (''EE'', ''Estonia''), (''EG'', ''Egypt''),
    (''ER'', ''Eritrea''), (''ES'', ''Spain''), (''ET'', ''Ethiopia''), (''FI'', ''Finland''),
    (''FO'', ''Faroe Islands''), (''FR'', ''France''), (''GB'', ''United Kingdom''),
    (''GD'', ''Caribbean''), (''GE'', ''Georgia''), (''GL'', ''Greenland''), (''GR'', ''Greece''),
    (''GT'', ''Guatemala''), (''HK'', ''Hong Kong''), (''HK'', ''Hong Kong S.A.R.''),
    (''HN'', ''Honduras''), (''HR'', ''Croatia''), (''HT'', ''Haiti''), (''HU'', ''Hungary''),
    (''ID'', ''Indonesia''), (''IE'', ''Ireland''), (''IL'', ''Israel''), (''IN'', ''India''),
    (''IQ'', ''Iraq''), (''IR'', ''Iran''), (''IS'', ''Iceland''), (''IT'', ''Italy''),
    (''JM'', ''Jamaica''), (''JO'', ''Jordan''), (''JP'', ''Japan''), (''KE'', ''Kenya''),
    (''KG'', ''Kyrgyzstan''), (''KH'', ''Cambodia''), (''KR'', ''South Korea''),
    (''KW'', ''Kuwait''), (''KZ'', ''Kazakhstan''), (''LA'', ''Laos''), (''LB'', ''Lebanon''),
    (''LI'', ''Liechtenstein''), (''LK'', ''Sri Lanka''), (''LT'', ''Lithuania''),
    (''LU'', ''Luxembourg''), (''LV'', ''Latvia''), (''LY'', ''Libya''), (''MA'', ''Morocco''),
    (''MC'', ''Principality of Monaco''), (''MD'', ''Moldava''), (''MD'', ''Moldova''),
    (''ME'', ''Montenegro''), (''MK'', ''Former Yugoslav Republic of Macedonia''),
    (''ML'', ''Mali''), (''MM'', ''Myanmar''), (''MN'', ''Mongolia''), (''MO'', ''Macau S.A.R.''),
    (''MT'', ''Malta''), (''MV'', ''Maldives''), (''MX'', ''Mexico''), (''MY'', ''Malaysia''),
    (''NG'', ''Nigeria''), (''NI'', ''Nicaragua''), (''NL'', ''Netherlands''), (''NO'', ''Norway''),
    (''NP'', ''Nepal''), (''NZ'', ''New Zealand''), (''OM'', ''Oman''), (''PA'', ''Panama''),
    (''PE'', ''Peru''), (''PH'', ''Philippines''), (''PK'', ''Islamic Republic of Pakistan''),
    (''PL'', ''Poland''), (''PR'', ''Puerto Rico''), (''PT'', ''Portugal''), (''PY'', ''Paraguay''),
    (''QA'', ''Qatar''), (''RE'', ''Reunion''), (''RO'', ''Romania''), (''RS'', ''Serbia''),
    (''RU'', ''Russia''), (''RW'', ''Rwanda''), (''SA'', ''Saudi Arabia''), (''SE'', ''Sweden''),
    (''SG'', ''Singapore''), (''SI'', ''Slovenia''), (''SK'', ''Slovak''), (''SN'', ''Senegal''),
    (''SO'', ''Somalia''), (''SR'', ''Suriname''), (''SV'', ''El Salvador''), (''SY'', ''Syria''),
    (''TH'', ''Thailand''), (''TJ'', ''Tajikistan''), (''TM'', ''Turkmenistan''),
    (''TN'', ''Tunisia''), (''TR'', ''Turkey''), (''TT'', ''Trinidad and Tobago''),
    (''TW'', ''Taiwan''), (''TZ'', ''Tanzania''), (''UA'', ''Ukraine''),
    (''US'', ''United States''), (''UY'', ''Uruguay''), (''VA'', ''Vatican''),
    (''VE'', ''Venezuela''), (''VN'', ''Viet Nam''), (''YE'', ''Yemen''),
    (''ZA'', ''South Africa''), (''ZW'', ''Zimbabwe'')]"

text \<open>\<^verbatim>\<open>memcmp (a, b, 2)\<close>, as the sign of the first difference.\<close>

definition cmp_country_code :: "string \<Rightarrow> string \<times> string \<Rightarrow> int" where
  "cmp_country_code cc entry =
     (if cc ! 0 \<noteq> fst entry ! 0 then int (code (cc ! 0)) - int (code (fst entry ! 0))
      else int (code (cc ! 1)) - int (code (fst entry ! 1)))"

text \<open>\<^verbatim>\<open>bsearch\<close> of the C library over the half-open index range.\<close>

function bsearch :: "('a \<Rightarrow> int) \<Rightarrow> 'a list \<Rightarrow> nat \<Rightarrow> nat \<Rightarrow> 'a option" where
  "bsearch cmp xs l u =
     (if l < u then
        let idx = (l + u) div 2; c = cmp (xs ! idx)
        in if c < 0 then bsearch cmp xs l idx
           else if c > 0 then bsearch cmp xs (idx + 1) u
           else Some (xs ! idx)
      else None)"
  by pat_completeness auto
termination
  by (relation "measure (\<lambda>(cmp, xs, l, u). u - l)") auto

declare bsearch.simps [simp del]

section \<open>Checksum\<close>

text \<open>
  The numeric form: every letter is printed with \<^verbatim>\<open>"%2u"\<close> as its distance from \<^verbatim>\<open>'A'\<close> plus 10.
  \<open>None\<close> is the internal error of a print that is not two characters wide.
\<close>

definition print_2u :: "nat \<Rightarrow> string" where
  "print_2u n = (if n < 10 then CHR '' '' # decimal n else decimal n)"

fun iban_numeric :: "string \<Rightarrow> string option" where
  "iban_numeric [] = Some []"
| "iban_numeric (c # cs) =
     (if c_isalpha c then
        let s = print_2u (code c - code CHR ''A'' + 10)
        in if length s \<noteq> 2 then None else map_option (append s) (iban_numeric cs)
      else map_option (Cons c) (iban_numeric cs))"

text \<open>
  Conversion of a natural number to a double and back: 53 significant bits, ties to even. All
  numbers of the loop are below \<open>2 ^ 64\<close>.
\<close>

fun bit_length :: "nat \<Rightarrow> nat" where
  "bit_length n = (if n = 0 then 0 else Suc (bit_length (n div 2)))"

declare bit_length.simps [simp del]

definition to_double :: "nat \<Rightarrow> nat" where
  "to_double n =
     (if n < 2 ^ 53 then n
      else let m = 2 ^ (bit_length n - 53); q = n div m; r = n mod m
      in (if 2 * r > m \<or> (2 * r = m \<and> odd q) then q + 1 else q) * m)"

definition double_add :: "nat \<Rightarrow> nat \<Rightarrow> nat" where
  "double_add m n = to_double (to_double m + to_double n)"

text \<open>
  The loop reads up to 16 digits at a time. \<^verbatim>\<open>dividend += remainder * (pow (10, nread))\<close> is an
  addition of doubles; \<^verbatim>\<open>pow\<close> is exact at the arguments 1 to 16.
\<close>

function iban_mod_loop :: "nat \<Rightarrow> string \<Rightarrow> nat" where
  "iban_mod_loop remainder nbuf =
     (if nbuf = [] then remainder
      else let chunk = take 16 nbuf;
               nread = length chunk;
               dividend = digits_value chunk;
               dividend' = (if remainder \<noteq> 0
                            then double_add dividend (to_double (remainder * 10 ^ nread))
                            else dividend)
           in iban_mod_loop (dividend' mod 97) (drop 16 nbuf))"
  by pat_completeness auto
termination
  by (relation "measure (\<lambda>(r, nbuf). length nbuf)") auto

declare iban_mod_loop.simps [simp del]

text \<open>\<^verbatim>\<open>TALER_iban_validate\<close>: \<open>None\<close> for a valid IBAN, otherwise the error message.\<close>

definition TALER_iban_validate :: "string option \<Rightarrow> string option" where
  "TALER_iban_validate arg =
     (case arg of
        None \<Rightarrow> Some ''(null) is not a valid IBAN''
      | Some iban \<Rightarrow>
          let len = length iban; cc = take 2 iban
          in if len < 4 then Some ''IBAN number too short to be valid''
             else if len > 34 then Some ''IBAN number too long to be valid''
             else if bsearch (cmp_country_code cc) country_table 0 (length country_table) = None
             then Some (''Country code `'' @ cc @ [CHR 0x27] @ '' not supported'' @ [CHR 0x0A])
             else case iban_numeric (drop 4 iban @ take 4 iban) of
                    None \<Rightarrow> Some ''internal invariant violation''
                  | Some nbuf \<Rightarrow>
                      if \<not> list_all c_isdigit nbuf
                      then Some (''digit expected at `'' @ dropWhile c_isdigit nbuf @ [CHR 0x27])
                      else if iban_mod_loop 0 nbuf \<noteq> 1 then Some ''IBAN checksum is wrong''
                      else None)"

section \<open>Binary search\<close>

text \<open>
  A table with a comparison that agrees with a numeric order of keys and entries, sorted by
  that order: binary search finds an entry exactly when the range holds one of equal order.
\<close>

locale sorted_table =
  fixes rank :: "'a \<Rightarrow> nat" and krank :: "'k \<Rightarrow> nat" and legal :: "'k \<Rightarrow> bool"
    and cmp :: "'k \<Rightarrow> 'a \<Rightarrow> int" and xs :: "'a list"
  assumes sorted_rank: "sorted (map rank xs)"
    and cmp_sign: "legal k \<Longrightarrow> e \<in> set xs \<Longrightarrow> sgn (cmp k e) = sgn (int (krank k) - int (rank e))"
begin

lemma rank_mono: "i \<le> j \<Longrightarrow> j < length xs \<Longrightarrow> rank (xs ! i) \<le> rank (xs ! j)"
  using sorted_rank by (auto simp: sorted_iff_nth_mono)

lemma bsearch_found:
  assumes "legal k" "u \<le> length xs"
  shows "bsearch (cmp k) xs l u \<noteq> None \<longleftrightarrow> (\<exists>i. l \<le> i \<and> i < u \<and> rank (xs ! i) = krank k)"
  using assms(2)
proof (induction "u - l" arbitrary: l u rule: less_induct)
  case less
  let ?m = "(l + u) div 2"
  show ?case
  proof (cases "l < u")
    case True
    then have m: "l \<le> ?m" "?m < u" by auto
    then have mem: "xs ! ?m \<in> set xs" using less.prems by simp
    note sgn = cmp_sign [OF assms(1) mem]
    consider "cmp k (xs ! ?m) < 0" | "cmp k (xs ! ?m) > 0" | "cmp k (xs ! ?m) = 0" by linarith
    then show ?thesis
    proof cases
      case 1
      then have "krank k < rank (xs ! ?m)" using sgn by (auto simp: sgn_if split: if_splits)
      then have out: "rank (xs ! i) \<noteq> krank k" if "?m \<le> i" "i < u" for i
        using rank_mono [of ?m i] that less.prems by linarith
      have "bsearch (cmp k) xs l u = bsearch (cmp k) xs l ?m"
        using True 1 by (subst bsearch.simps) (simp add: Let_def)
      moreover have "bsearch (cmp k) xs l ?m \<noteq> None \<longleftrightarrow>
          (\<exists>i. l \<le> i \<and> i < ?m \<and> rank (xs ! i) = krank k)"
        using less.hyps [of ?m l] less.prems m by simp
      moreover have "i < ?m" if "i < u" "rank (xs ! i) = krank k" for i
        using out [of i] that by linarith
      then have "(\<exists>i. l \<le> i \<and> i < ?m \<and> rank (xs ! i) = krank k)
          \<longleftrightarrow> (\<exists>i. l \<le> i \<and> i < u \<and> rank (xs ! i) = krank k)"
        using m by (meson less_trans)
      ultimately show ?thesis by simp
    next
      case 2
      then have "rank (xs ! ?m) < krank k" using sgn by (auto simp: sgn_if split: if_splits)
      then have out: "rank (xs ! i) \<noteq> krank k" if "i \<le> ?m" for i
        using rank_mono [of i ?m] that m less.prems by linarith
      have "bsearch (cmp k) xs l u = bsearch (cmp k) xs (Suc ?m) u"
        using True 2 by (subst bsearch.simps) (simp add: Let_def)
      moreover have "bsearch (cmp k) xs (Suc ?m) u \<noteq> None \<longleftrightarrow>
          (\<exists>i. Suc ?m \<le> i \<and> i < u \<and> rank (xs ! i) = krank k)"
        using less.hyps [of u "Suc ?m"] less.prems m by simp
      moreover have "Suc ?m \<le> i" if "rank (xs ! i) = krank k" for i
        using out [of i] that by linarith
      then have "(\<exists>i. Suc ?m \<le> i \<and> i < u \<and> rank (xs ! i) = krank k)
          \<longleftrightarrow> (\<exists>i. l \<le> i \<and> i < u \<and> rank (xs ! i) = krank k)"
        using m by (meson Suc_leD le_trans)
      ultimately show ?thesis by simp
    next
      case 3
      then have "rank (xs ! ?m) = krank k" using sgn by (auto simp: sgn_if split: if_splits)
      then show ?thesis using True 3 m by (subst bsearch.simps) (auto simp: Let_def)
    qed
  qed (simp add: bsearch.simps)
qed

lemma bsearch_all:
  "legal k \<Longrightarrow> bsearch (cmp k) xs 0 (length xs) \<noteq> None \<longleftrightarrow> krank k \<in> rank ` set xs"
  using bsearch_found [of k "length xs" 0] by (auto simp: in_set_conv_nth image_iff Bex_def)

end

text \<open>Two-letter codes are ordered by their two bytes.\<close>

definition code_rank :: "string \<Rightarrow> nat" where
  "code_rank s = 256 * code (s ! 0) + code (s ! 1)"

lemma code_less_256: "code c < 256"
  using mod_less_divisor [of 256 "code c"] by (simp del: mod_less_divisor)

lemma lex_inj:
  fixes a b c d :: nat
  assumes "256 * a + b = 256 * c + d" "b < 256" "d < 256"
  shows "a = c \<and> b = d"
  using arg_cong [OF assms(1), of "\<lambda>x. x div 256"] arg_cong [OF assms(1), of "\<lambda>x. x mod 256"] assms(2,3)
  by simp

lemma code_rank_inj:
  assumes "length s = 2" "length t = 2" "code_rank s = code_rank t"
  shows "s = t"
proof -
  have "code (s ! 0) = code (t ! 0) \<and> code (s ! 1) = code (t ! 1)"
    using assms(3) unfolding code_rank_def by (rule lex_inj) (rule code_less_256)+
  then have "s ! 0 = t ! 0" "s ! 1 = t ! 1" by simp_all
  then show ?thesis
    using assms(1,2) by (intro nth_equalityI) (auto simp: less_Suc_eq numeral_2_eq_2)
qed

lemma lex_sign:
  fixes a b c d :: nat
  assumes "b < 256" "d < 256"
  shows "sgn (if a \<noteq> c then int a - int c else int b - int d) = sgn (int (256 * a + b) - int (256 * c + d))"
  using assms by (cases a c rule: linorder_cases) (auto simp: sgn_if)

lemma cmp_country_code_sign:
  "sgn (cmp_country_code cc e) = sgn (int (code_rank cc) - int (code_rank (fst e)))"
  using lex_sign [OF code_less_256 code_less_256, of "code (cc ! 0)" "code (fst e ! 0)" "cc ! 1" "fst e ! 1"]
  by (simp add: cmp_country_code_def code_rank_def)

lemma country_ranks:
  "map (code_rank \<circ> fst) country_table =
   [16709, 16710, 16716, 16717, 16718, 16722, 16724, 16725, 16730, 16961, 16964, 16965, 16967,
    16968, 16974, 16975, 16978, 16980, 16985, 16986, 17217, 17223, 17224, 17225, 17228, 17229,
    17230, 17231, 17234, 17235, 17242, 17477, 17483, 17487, 17498, 17731, 17733, 17735, 17746,
    17747, 17748, 17993, 17999, 18002, 18242, 18244, 18245, 18252, 18258, 18260, 18507, 18507,
    18510, 18514, 18516, 18517, 18756, 18757, 18764, 18766, 18769, 18770, 18771, 18772, 19021,
    19023, 19024, 19269, 19271, 19272, 19282, 19287, 19290, 19521, 19522, 19529, 19531, 19540,
    19541, 19542, 19545, 19777, 19779, 19780, 19780, 19781, 19787, 19788, 19789, 19790, 19791,
    19796, 19798, 19800, 19801, 20039, 20041, 20044, 20047, 20048, 20058, 20301, 20545, 20549,
    20552, 20555, 20556, 20562, 20564, 20569, 20801, 21061, 21071, 21075, 21077, 21079, 21313,
    21317, 21319, 21321, 21323, 21326, 21327, 21330, 21334, 21337, 21576, 21578, 21581, 21582,
    21586, 21588, 21591, 21594, 21825, 21843, 21849, 22081, 22085, 22094, 22853, 23105, 23127]"
  by (simp add: country_table_def code_rank_def)

lemma country_table_sorted: "sorted (map (code_rank \<circ> fst) country_table)"
  unfolding country_ranks by (simp add: sorted2_simps del: sorted_wrt.simps)

interpretation countries: sorted_table "code_rank \<circ> fst" code_rank "\<lambda>cc. length cc = 2"
  cmp_country_code country_table
  by unfold_locales (use country_table_sorted cmp_country_code_sign in \<open>simp_all\<close>)

lemma country_table_length_2: "list_all (\<lambda>e. length (fst e) = 2) country_table"
  by (simp add: country_table_def)

lemma country_member:
  assumes "length cc = 2"
  shows "cc \<in> fst ` set country_table \<longleftrightarrow> code_rank cc \<in> set (map (code_rank \<circ> fst) country_table)"
proof
  assume "code_rank cc \<in> set (map (code_rank \<circ> fst) country_table)"
  then obtain e where e: "e \<in> set country_table" "code_rank cc = code_rank (fst e)" by auto
  then have "length (fst e) = 2" using country_table_length_2 by (simp add: list_all_iff)
  then show "cc \<in> fst ` set country_table" using code_rank_inj [OF assms _ e(2)] e(1) by auto
qed (auto simp: image_comp)

lemma country_found:
  assumes "length cc = 2"
  shows "bsearch (cmp_country_code cc) country_table 0 (length country_table) \<noteq> None
         \<longleftrightarrow> cc \<in> fst ` set country_table"
  using countries.bsearch_all [OF assms] country_member [OF assms] by simp

section \<open>The checksum is exact up to 29 digits\<close>

definition iban_expand :: "char \<Rightarrow> string" where
  "iban_expand c = (if c_isalpha c then decimal (code c - code CHR ''A'' + 10) else [c])"

text \<open>
  What the code tests, over exact integers: every letter counts as its distance from \<^verbatim>\<open>A\<close> plus
  10, lower-case letters included (42 to 67).
\<close>

definition iban_valid :: "string \<Rightarrow> bool" where
  "iban_valid iban \<longleftrightarrow>
     4 \<le> length iban \<and> length iban \<le> 34
     \<and> take 2 iban \<in> fst ` set country_table
     \<and> list_all (\<lambda>c. c_isalpha c \<or> c_isdigit c) iban
     \<and> digits_value (concat (map iban_expand (drop 4 iban @ take 4 iban))) mod 97 = 1"

lemma c_isalpha_code: "c_isalpha c \<Longrightarrow> 65 \<le> code c \<and> code c \<le> 122"
  by (auto simp: c_isalpha_def c_isupper_def c_islower_def)

lemma decimal_2: "10 \<le> n \<Longrightarrow> n < 100 \<Longrightarrow> decimal n = [digit_char (n div 10), digit_char (n mod 10)]"
  by (subst decimal.simps, subst decimal.simps) (simp add: div_less_iff_less_mult)

lemma iban_expand_alpha:
  assumes "c_isalpha c"
  shows "length (iban_expand c) = 2 \<and> print_2u (code c - code CHR ''A'' + 10) = iban_expand c"
proof -
  have "10 \<le> code c - code CHR ''A'' + 10" "code c - code CHR ''A'' + 10 < 100"
    using c_isalpha_code [OF assms] by auto
  then show ?thesis
    using assms decimal_2 [of "code c - code CHR ''A'' + 10"]
    by (simp add: iban_expand_def print_2u_def not_less del: of_char_Char)
qed

lemma iban_numeric_expand: "iban_numeric s = Some (concat (map iban_expand s))"
proof (induction s)
  case (Cons c cs)
  show ?case
  proof (cases "c_isalpha c")
    case True
    then show ?thesis
      using Cons iban_expand_alpha [OF True] by (simp add: Let_def del: of_char_Char)
  next
    case False
    then show ?thesis using Cons by (simp add: iban_expand_def)
  qed
qed simp

lemma iban_expand_digits: "list_all c_isdigit (iban_expand c) \<longleftrightarrow> c_isalpha c \<or> c_isdigit c"
  using decimal_digits by (simp add: iban_expand_def)

lemma list_all_concat: "list_all P (concat (map f xs)) \<longleftrightarrow> list_all (\<lambda>x. list_all P (f x)) xs"
  by (auto simp: list_all_iff)

lemma length_iban_expand: "length (concat (map iban_expand s)) \<le> 2 * length s"
proof (induction s)
  case (Cons c s)
  have "length (iban_expand c) \<le> 2" using iban_expand_alpha [of c] by (cases "c_isalpha c") (auto simp: iban_expand_def)
  with Cons show ?case by simp
qed simp

lemma digits_value_append:
  "digits_value (s @ t) = digits_value s * 10 ^ length t + digits_value t"
  by (induction t rule: rev_induct) (simp_all add: append_assoc [symmetric] algebra_simps del: append_assoc)

lemma digits_value_less: "list_all c_isdigit s \<Longrightarrow> digits_value s < 10 ^ length s"
  by (induction s rule: rev_induct) (auto simp: digit_val_less dest!: digit_val_less)

lemma double_add_exact: "m + n < 2 ^ 53 \<Longrightarrow> double_add m (to_double n) = m + n"
  by (simp add: double_add_def to_double_def)

lemma iban_mod_short:
  assumes "length s \<le> 13" "list_all c_isdigit s" "r < 97"
  shows "iban_mod_loop r s mod 97 = (r * 10 ^ length s + digits_value s) mod 97"
proof (cases "s = []")
  case False
  have "r * 10 ^ length s + digits_value s < 97 * 10 ^ length s"
  proof -
    have "r * 10 ^ length s \<le> 96 * 10 ^ length s" using assms(3) by (intro mult_right_mono) auto
    then show ?thesis using digits_value_less [OF assms(2)] by linarith
  qed
  also have "\<dots> \<le> 97 * 10 ^ 13" using assms(1) by (intro mult_left_mono power_increasing) auto
  also have "\<dots> < (2 :: nat) ^ 53" by simp
  finally have "double_add (digits_value s) (to_double (r * 10 ^ length s)) = digits_value s + r * 10 ^ length s"
    by (intro double_add_exact) (simp add: add.commute)
  with False assms(1) show ?thesis
    by (subst iban_mod_loop.simps) (simp add: Let_def iban_mod_loop.simps [of _ "[]"] add.commute)
qed (simp add: iban_mod_loop.simps)

lemma iban_mod_exact:
  assumes "length s \<le> 29" "list_all c_isdigit s"
  shows "iban_mod_loop 0 s mod 97 = digits_value s mod 97"
proof (cases "s = []")
  case False
  let ?a = "take 16 s" and ?b = "drop 16 s"
  have "iban_mod_loop 0 s = iban_mod_loop (digits_value ?a mod 97) ?b"
    using False by (subst iban_mod_loop.simps) (simp add: Let_def)
  moreover have "iban_mod_loop (digits_value ?a mod 97) ?b mod 97
      = (digits_value ?a mod 97 * 10 ^ length ?b + digits_value ?b) mod 97"
    using assms by (intro iban_mod_short) (auto simp: list_all_iff dest: in_set_dropD)
  moreover have "digits_value s = digits_value ?a * 10 ^ length ?b + digits_value ?b"
    using digits_value_append [of ?a ?b] by simp
  ultimately show ?thesis by (metis mod_add_left_eq mod_mult_left_eq)
qed (simp add: iban_mod_loop.simps)

lemma iban_mod_less: "iban_mod_loop r s < 97 \<or> s = []"
proof (induction r s rule: iban_mod_loop.induct)
  case (1 r s)
  show ?case
  proof (cases "s = []")
    case False
    note IH = "1.IH" [OF False refl refl refl refl]
    show ?thesis
    proof (cases "drop 16 s = []")
      case True
      then show ?thesis using False
        by (subst iban_mod_loop.simps) (simp add: Let_def iban_mod_loop.simps [of _ "[]"])
    next
      case False
      with IH show ?thesis using \<open>s \<noteq> []\<close> by (subst iban_mod_loop.simps) (auto simp: Let_def)
    qed
  qed simp
qed

lemma iban_validate_None:
  assumes "length (concat (map iban_expand iban)) \<le> 29"
  shows "TALER_iban_validate (Some iban) = None \<longleftrightarrow> iban_valid iban"
proof (cases "4 \<le> length iban \<and> length iban \<le> 34")
  case True
  let ?n = "concat (map iban_expand (drop 4 iban @ take 4 iban))"
  have cc: "length (take 2 iban) = 2" using True by simp
  have "concat (map iban_expand iban)
        = concat (map iban_expand (take 4 iban)) @ concat (map iban_expand (drop 4 iban))"
    by (metis append_take_drop_id concat_append map_append)
  then have len: "length ?n \<le> 29" using assms by simp
  have dig: "list_all c_isdigit ?n \<longleftrightarrow> list_all (\<lambda>c. c_isalpha c \<or> c_isdigit c) iban"
    unfolding list_all_concat iban_expand_digits
    by (metis append_take_drop_id list_all_append)
  have ne: "?n \<noteq> []"
  proof -
    have "iban_expand c \<noteq> []" for c using iban_expand_alpha [of c] by (auto simp: iban_expand_def)
    moreover have "set (drop 4 iban @ take 4 iban) \<noteq> {}" using True by auto
    ultimately show ?thesis by (simp add: concat_eq_Nil_conv)
  qed
  have "list_all c_isdigit ?n \<Longrightarrow> iban_mod_loop 0 ?n = digits_value ?n mod 97"
    using iban_mod_exact [OF len] iban_mod_less [of 0 ?n] ne by (metis mod_less)
  then show ?thesis
    using True country_found [OF cc]
    by (auto simp: TALER_iban_validate_def iban_valid_def Let_def iban_numeric_expand dig
        simp del: map_append concat_append)
qed (auto simp: TALER_iban_validate_def iban_valid_def Let_def)

lemma iban_validate_sound:
  assumes "TALER_iban_validate (Some iban) = None"
  shows "4 \<le> length iban \<and> length iban \<le> 34 \<and> take 2 iban \<in> fst ` set country_table
         \<and> list_all (\<lambda>c. c_isalpha c \<or> c_isdigit c) iban"
proof -
  let ?n = "concat (map iban_expand (drop 4 iban @ take 4 iban))"
  have len: "4 \<le> length iban" "length iban \<le> 34"
    using assms by (auto simp: TALER_iban_validate_def Let_def split: if_splits)
  then have cc: "length (take 2 iban) = 2" by simp
  have "list_all c_isdigit ?n \<longleftrightarrow> list_all (\<lambda>c. c_isalpha c \<or> c_isdigit c) iban"
    unfolding list_all_concat iban_expand_digits
    by (metis append_take_drop_id list_all_append)
  moreover have "list_all c_isdigit ?n" "take 2 iban \<in> fst ` set country_table"
    using assms len country_found [OF cc]
    by (auto simp: TALER_iban_validate_def Let_def iban_numeric_expand
        simp del: map_append concat_append split: if_splits)
  ultimately show ?thesis using len by blast
qed

section \<open>The checksum of the standard\<close>

text \<open>
  ISO 13616 and EBS 204, written without the code: an IBAN in electronic form is two upper-case
  letters, two check digits and upper-case letters or digits, at most 34 characters in all. Its
  characters have the values 0 to 35 of their place in the alphabet; moved by four places and
  read as one number, in which a letter takes two decimal places, it is 1 modulo 97 (ISO 7064).
\<close>

definition iban_alphabet :: string where
  "iban_alphabet = ''0123456789ABCDEFGHIJKLMNOPQRSTUVWXYZ''"

definition iban_char_value :: "char \<Rightarrow> nat" where
  "iban_char_value c = length (takeWhile (\<lambda>d. d \<noteq> c) iban_alphabet)"

definition iban_number :: "string \<Rightarrow> nat" where
  "iban_number = foldl (\<lambda>n c. n * (if c_isdigit c then 10 else 100) + iban_char_value c) 0"

definition iban_format :: "string \<Rightarrow> bool" where
  "iban_format iban \<longleftrightarrow>
     4 \<le> length iban \<and> length iban \<le> 34
     \<and> list_all c_isupper (take 2 iban) \<and> list_all c_isdigit (take 2 (drop 2 iban))
     \<and> list_all (\<lambda>c. c_isupper c \<or> c_isdigit c) (drop 4 iban)"

definition iban_checksum_ok :: "string \<Rightarrow> bool" where
  "iban_checksum_ok iban \<longleftrightarrow> iban_number (drop 4 iban @ take 4 iban) mod 97 = 1"

definition iban_places :: "string \<Rightarrow> nat" where
  "iban_places iban = length iban + length (filter c_isupper iban)"

lemma char_in_list: "code c \<in> set (map code s) \<Longrightarrow> c \<in> set s"
  by auto

lemma iban_digit_values: "list_all (\<lambda>c. iban_char_value c = digit_val c) ''0123456789''"
  by (simp add: iban_char_value_def iban_alphabet_def digit_val_def)

lemma iban_letter_values:
  "list_all (\<lambda>c. iban_char_value c = code c - code CHR ''A'' + 10) ''ABCDEFGHIJKLMNOPQRSTUVWXYZ''"
  by (simp add: iban_char_value_def iban_alphabet_def)

lemma iban_char_value_digit:
  assumes "c_isdigit c"
  shows "iban_char_value c = digit_val c"
proof -
  have "code c \<in> {48, 49, 50, 51, 52, 53, 54, 55, 56, 57}" using assms by (simp add: c_isdigit_def) arith
  then have "code c \<in> set (map code ''0123456789'')" by simp
  then show ?thesis using iban_digit_values char_in_list [of c] unfolding list_all_iff by blast
qed

lemma iban_char_value_upper:
  assumes "c_isupper c"
  shows "iban_char_value c = code c - code CHR ''A'' + 10"
proof -
  have "set (map code ''ABCDEFGHIJKLMNOPQRSTUVWXYZ'') = set [65..<91]" by (simp add: upt_rec)
  then have "set (map code ''ABCDEFGHIJKLMNOPQRSTUVWXYZ'') = {65..<91}" unfolding set_upt .
  moreover have "code c \<in> {65..<91}" using assms by (simp add: c_isupper_def)
  ultimately show ?thesis
    using iban_letter_values char_in_list [of c] unfolding list_all_iff by blast
qed

lemma upper_not_digit: "c_isupper c \<Longrightarrow> \<not> c_isdigit c \<and> c_isalpha c"
  by (auto simp: c_isupper_def c_isdigit_def c_isalpha_def)

lemma digit_not_letter: "c_isdigit c \<Longrightarrow> \<not> c_isupper c \<and> \<not> c_isalpha c"
  by (auto simp: c_isupper_def c_isdigit_def c_isalpha_def c_islower_def)

lemma iban_number_expand:
  assumes "list_all (\<lambda>c. c_isupper c \<or> c_isdigit c) s"
  shows "digits_value (concat (map iban_expand s)) = iban_number s"
  using assms
proof (induction s rule: rev_induct)
  case (snoc c s)
  then have "digits_value (concat (map iban_expand s)) = iban_number s" by simp
  moreover have "digits_value (iban_expand c) = iban_char_value c
      \<and> 10 ^ length (iban_expand c) = (if c_isdigit c then 10 else 100 :: nat)"
  proof (cases "c_isdigit c")
    case True
    then show ?thesis
      using digit_not_letter [OF True] iban_char_value_digit [OF True]
      by (simp add: iban_expand_def digits_value_def)
  next
    case False
    with snoc.prems have u: "c_isupper c" by simp
    then have "c_isalpha c" using upper_not_digit by blast
    then show ?thesis
      using False iban_expand_alpha [of c] iban_char_value_upper [OF u]
      by (simp add: iban_expand_def del: of_char_Char)
  qed
  ultimately show ?case by (simp add: digits_value_append iban_number_def)
qed (simp add: iban_number_def)

lemma iban_places_expand:
  assumes "list_all (\<lambda>c. c_isupper c \<or> c_isdigit c) s"
  shows "length (concat (map iban_expand s)) = iban_places s"
  using assms
proof (induction s)
  case (Cons c s)
  then show ?case
    using iban_expand_alpha [of c] upper_not_digit [of c] digit_not_letter [of c]
    by (auto simp: iban_places_def iban_expand_def simp del: of_char_Char)
qed (simp add: iban_places_def)

lemma iban_format_chars:
  assumes "iban_format iban"
  shows "list_all (\<lambda>c. c_isupper c \<or> c_isdigit c) iban"
proof -
  have "iban = take 2 iban @ take 2 (drop 2 iban) @ drop 4 iban"
    by (metis append_take_drop_id drop_drop numeral_Bit0 take_add)
  then show ?thesis using assms unfolding iban_format_def list_all_iff by (metis Un_iff set_append)
qed

lemma iban_validate_format:
  assumes "iban_format iban" "iban_places iban \<le> 29"
  shows "TALER_iban_validate (Some iban) = None
         \<longleftrightarrow> take 2 iban \<in> fst ` set country_table \<and> iban_checksum_ok iban"
proof -
  have chars: "list_all (\<lambda>c. c_isupper c \<or> c_isdigit c) iban" by (rule iban_format_chars [OF assms(1)])
  then have moved: "list_all (\<lambda>c. c_isupper c \<or> c_isdigit c) (drop 4 iban @ take 4 iban)"
    by (auto simp: list_all_iff dest: in_set_dropD in_set_takeD)
  have alnum: "list_all (\<lambda>c. c_isalpha c \<or> c_isdigit c) iban"
    using chars by (auto simp: list_all_iff dest: upper_not_digit)
  have "TALER_iban_validate (Some iban) = None \<longleftrightarrow> iban_valid iban"
    using assms(2) by (intro iban_validate_None) (simp add: iban_places_expand [OF chars])
  then show ?thesis
    using assms(1) alnum iban_number_expand [OF moved]
    by (simp add: iban_valid_def iban_checksum_ok_def iban_format_def)
qed

section \<open>Properties\<close>

text \<open>
  C6: a string that \<^verbatim>\<open>TALER_iban_validate\<close> accepts has 4 to 34 letters and digits and a country
  code of the table. A string of the form of an IBAN (two upper-case letters, two check digits,
  upper-case letters or digits) whose number has at most 29 digits is accepted exactly if its
  country code is in the table and its checksum is right: with the values 0 to 35 of the
  characters the rearranged number is 1 modulo 97. The binary search over the country table
  finds every code, and the double-precision addition of the checksum loop is exact. The length
  that the standard fixes for a country is not part of the test.
\<close>

theorem iban_validate_correct:
  "(TALER_iban_validate (Some iban) = None
    \<longrightarrow> 4 \<le> length iban \<and> length iban \<le> 34 \<and> take 2 iban \<in> fst ` set country_table
        \<and> list_all (\<lambda>c. c_isalpha c \<or> c_isdigit c) iban)
   \<and> (iban_format iban \<and> iban_places iban \<le> 29
      \<longrightarrow> (TALER_iban_validate (Some iban) = None
          \<longleftrightarrow> take 2 iban \<in> fst ` set country_table \<and> iban_checksum_ok iban))"
  using iban_validate_sound iban_validate_format by blast

lemmas iban_eval = iban_expand_def c_isalpha_def c_isupper_def c_islower_def c_isdigit_def decimal.simps
  digit_char_def digits_value_def digit_val_def
  iban_format_def iban_checksum_ok_def iban_number_def iban_char_value_def iban_alphabet_def
  iban_places_def

lemma sample_countries: "''NO'' \<in> fst ` set country_table" "''PL'' \<in> fst ` set country_table"
  by (simp_all add: country_member country_ranks code_rank_def del: list.set_map)

theorem iban_validate_correct_witness:
  "iban_format ''NO9386011117947'' \<and> iban_checksum_ok ''NO9386011117947''
   \<and> TALER_iban_validate (Some ''NO9386011117947'') = None
   \<and> list_all (\<lambda>c. c_isalpha c \<or> c_isdigit c) ''NO9386011117947''"
proof -
  have "iban_format ''NO9386011117947'' \<and> iban_places ''NO9386011117947'' \<le> 29
        \<and> iban_checksum_ok ''NO9386011117947''" by (simp add: iban_eval)
  then show ?thesis
    using iban_validate_correct [of "''NO9386011117947''"] sample_countries by simp
qed

text \<open>
  Beyond 29 digits the rounding of the addition shows: the Polish IBAN
  \<^verbatim>\<open>PL61109010140000071219812874\<close> has the form and the checksum of the standard, with 30 digits
  in its number, and \<^verbatim>\<open>TALER_iban_validate\<close> rejects it with a wrong checksum.
\<close>

lemma iban_validate_rejects_valid:
  "iban_format ''PL61109010140000071219812874'' \<and> iban_checksum_ok ''PL61109010140000071219812874''
   \<and> TALER_iban_validate (Some ''PL61109010140000071219812874'') = Some ''IBAN checksum is wrong''"
proof (intro conjI)
  show "iban_format ''PL61109010140000071219812874''"
    "iban_checksum_ok ''PL61109010140000071219812874''" by (simp_all add: iban_eval)
  have num: "iban_numeric (''109010140000071219812874PL61'') = Some ''109010140000071219812874252161''"
    by (simp add: iban_numeric_expand iban_eval char_of_def bit_0)
  have "iban_mod_loop 0 ''109010140000071219812874252161'' \<noteq> 1"
  proof -
    let ?a = "''1090101400000712''" and ?b = "''19812874252161''"
    have v: "digits_value ?a = 1090101400000712" "digits_value ?b = 19812874252161"
      by (simp_all add: digits_value_def digit_val_def)
    have bits: "bit_length 9119812874252161 = 54" "bit_length 9100000000000000 = 54"
      by (simp_all add: bit_length.simps)
    have "iban_mod_loop 0 ''109010140000071219812874252161'' = iban_mod_loop 91 ?b"
      using v(1) by (subst iban_mod_loop.simps) (simp add: Let_def)
    also have "\<dots> = double_add 19812874252161 (to_double 9100000000000000) mod 97"
      using v(2) by (subst iban_mod_loop.simps) (simp add: Let_def iban_mod_loop.simps [of _ "[]"])
    also have "\<dots> = 0" using bits by (simp add: double_add_def to_double_def Let_def)
    finally show ?thesis by simp
  qed
  moreover have "''PL'' \<in> fst ` set country_table" by (rule sample_countries)
  ultimately show "TALER_iban_validate (Some ''PL61109010140000071219812874'') = Some ''IBAN checksum is wrong''"
    using num country_found [of "''PL''"]
    by (simp add: TALER_iban_validate_def Let_def c_isdigit_def)
qed

text \<open>
  What the standard forbids and the code accepts: a country code and two check digits with no
  account at all, a letter as a check digit, and a lower-case letter, which does not even count
  as its upper-case form: with a capital \<^verbatim>\<open>A\<close> the last one fails.
\<close>

lemma iban_validate_accepts_more:
  "TALER_iban_validate (Some ''NO13'') = None \<and> TALER_iban_validate (Some ''NO0O'') = None
   \<and> TALER_iban_validate (Some ''NO43a'') = None \<and> TALER_iban_validate (Some ''NO43A'') \<noteq> None"
proof -
  have "iban_valid ''NO13''" "iban_valid ''NO0O''" "iban_valid ''NO43a''" "\<not> iban_valid ''NO43A''"
    using sample_countries by (simp_all add: iban_valid_def iban_eval)
  then show ?thesis
    using iban_validate_None [of "''NO13''"] iban_validate_None [of "''NO0O''"]
      iban_validate_None [of "''NO43a''"] iban_validate_None [of "''NO43A''"]
    by (simp add: iban_eval)
qed

end
