(* ===== verification/Payto.thy ===== *)
theory Payto
  imports Iban
begin

text \<open>
  \<^verbatim>\<open>src/src/util/payto.c\<close>: payto URIs of RFC 8905. A C string is a list of non-NUL characters and
  a \<^verbatim>\<open>char *\<close> into it is the suffix it points to, so pointer differences are differences of
  lengths. Modelled: comparison, parameters, method, the x-taler-bank account, validation,
  normalisation, hashing (the hash is a parameter) and the URI of a reserve (the encoding of
  the public key is a parameter). \<open>None\<close> is \<^verbatim>\<open>NULL\<close>.
\<close>

section \<open>String functions of the C library\<close>

definition strchr :: "string \<Rightarrow> char \<Rightarrow> string option" where
  "strchr s c = (case dropWhile (\<lambda>x. x \<noteq> c) s of [] \<Rightarrow> None | t \<Rightarrow> Some t)"

text \<open>\<^verbatim>\<open>strrchr (s, c) + 1\<close> for a character that occurs: what follows its last occurrence.\<close>

definition after_strrchr :: "string \<Rightarrow> char \<Rightarrow> string" where
  "after_strrchr s c = rev (takeWhile (\<lambda>x. x \<noteq> c) (rev s))"

fun strcmp :: "string \<Rightarrow> string \<Rightarrow> int" where
  "strcmp [] [] = 0"
| "strcmp [] (d # ds) = - int (code d)"
| "strcmp (c # cs) [] = int (code c)"
| "strcmp (c # cs) (d # ds) = (if c = d then strcmp cs ds else int (code c) - int (code d))"

section \<open>Comparison\<close>

definition TALER_full_payto_cmp :: "string option \<Rightarrow> string option \<Rightarrow> int" where
  "TALER_full_payto_cmp a b =
     (case (a, b) of
        (None, None) \<Rightarrow> 0
      | (None, Some _) \<Rightarrow> -1
      | (Some _, None) \<Rightarrow> 1
      | (Some x, Some y) \<Rightarrow> strcmp x y)"

definition TALER_normalized_payto_cmp :: "string option \<Rightarrow> string option \<Rightarrow> int" where
  "TALER_normalized_payto_cmp a b =
     (case (a, b) of
        (None, None) \<Rightarrow> 0
      | (None, Some _) \<Rightarrow> -1
      | (Some _, None) \<Rightarrow> 1
      | (Some x, Some y) \<Rightarrow> strcmp x y)"

section \<open>Parameters and parts\<close>

text \<open>\<open>key\<close> points to the separator before the parameter, a \<^verbatim>\<open>?\<close> or a \<^verbatim>\<open>&\<close>.\<close>

function payto_key_loop :: "string \<Rightarrow> string \<Rightarrow> string option" where
  "payto_key_loop key search_key =
     (let key' = tl key
      in if strncaseeq key' search_key (length search_key)
         then (case strchr key' CHR ''='' of
                 None \<Rightarrow> None
               | Some value_start \<Rightarrow> Some (takeWhile (\<lambda>x. x \<noteq> CHR ''&'') (tl value_start)))
         else if key = [] then None
         else (case strchr key' CHR ''&'' of
                 None \<Rightarrow> None
               | Some k \<Rightarrow> payto_key_loop k search_key))"
  by pat_completeness auto

lemma strchr_length: "strchr s c = Some t \<Longrightarrow> length t \<le> length s"
  by (auto simp: strchr_def split: list.splits) (metis length_dropWhile_le list.size(4))

termination payto_key_loop
proof (relation "measure (\<lambda>(key, search_key). length key)")
  fix key search_key k' k :: string
  assume "k' = tl key" "key \<noteq> []" "strchr k' CHR ''&'' = Some k"
  then show "((k, search_key), (key, search_key)) \<in> measure (\<lambda>(key, search_key). length key)"
    using strchr_length [of k' "CHR ''&''" k] by (cases key) auto
qed simp

declare payto_key_loop.simps [simp del]

definition payto_get_key :: "string \<Rightarrow> string \<Rightarrow> string option" where
  "payto_get_key payto_uri search_key =
     (case strchr payto_uri CHR ''?'' of
        None \<Rightarrow> None
      | Some key \<Rightarrow> payto_key_loop key search_key)"

definition TALER_payto_get_subject :: "string \<Rightarrow> string option" where
  "TALER_payto_get_subject payto_uri = payto_get_key payto_uri ''subject=''"

definition PAYTO :: string where
  "PAYTO = ''payto://''"

lemma length_PAYTO [simp]: "length PAYTO = 8"
  by (simp add: PAYTO_def)

definition TALER_payto_get_method :: "string \<Rightarrow> string option" where
  "TALER_payto_get_method payto_uri =
     (if \<not> strncaseeq payto_uri PAYTO (length PAYTO) then None
      else let start = drop (length PAYTO) payto_uri
      in case strchr start CHR ''/'' of
           None \<Rightarrow> None
         | Some end \<Rightarrow> Some (take (length start - length end) start))"

text \<open>
  The loop that moves \<^verbatim>\<open>beg\<close> behind every \<^verbatim>\<open>/\<close> before \<^verbatim>\<open>end\<close>; \<open>elen\<close> is the length of the suffix
  at \<^verbatim>\<open>end\<close>, so \<^verbatim>\<open>end - nxt > 0\<close> is \<open>elen < length nxt\<close>.
\<close>

function account_loop :: "string \<Rightarrow> string option \<Rightarrow> nat \<Rightarrow> string" where
  "account_loop beg nxt elen =
     (case nxt of
        None \<Rightarrow> beg
      | Some n \<Rightarrow>
          if elen < length n then account_loop (tl n) (strchr (tl n) CHR ''/'') elen else beg)"
  by pat_completeness auto
termination account_loop
proof (relation "measure (\<lambda>(beg, nxt, elen). case nxt of None \<Rightarrow> 0 | Some n \<Rightarrow> Suc (length n))")
  fix beg :: string and nxt :: "string option" and elen :: nat and n :: string
  assume "nxt = Some n" "elen < length n"
  then show "((tl n, strchr (tl n) CHR ''/'', elen), (beg, nxt, elen))
      \<in> measure (\<lambda>(beg, nxt, elen). case nxt of None \<Rightarrow> 0 | Some n \<Rightarrow> Suc (length n))"
    using strchr_length [of "tl n" "CHR ''/''"] by (cases n) (auto split: option.splits dest!: strchr_length)
qed simp

declare account_loop.simps [simp del]

abbreviation XTALERBANK_PREFIX :: string where
  "XTALERBANK_PREFIX \<equiv> ''payto://x-taler-bank/''"

definition TALER_xtalerbank_account_from_payto :: "string \<Rightarrow> string option" where
  "TALER_xtalerbank_account_from_payto payto =
     (if \<not> strncaseeq payto XTALERBANK_PREFIX (length XTALERBANK_PREFIX) then None
      else let host = drop (length XTALERBANK_PREFIX) payto
      in case strchr host CHR ''/'' of
           None \<Rightarrow> None
         | Some slash \<Rightarrow>
             let beg = tl slash;
                 nxt = strchr beg CHR ''/'';
                 elen = (case strchr beg CHR ''?'' of None \<Rightarrow> 0 | Some e \<Rightarrow> length e);
                 user = account_loop beg nxt elen
             in Some (take (length user - elen) user))"

section \<open>Validation\<close>

definition receiver_missing :: string where
  "receiver_missing = [CHR 0x27] @ ''receiver-name'' @ [CHR 0x27] @ '' parameter missing''"

definition validate_payto_iban :: "string \<Rightarrow> string option" where
  "validate_payto_iban account_url =
     (if \<not> strncaseeq account_url ''payto://iban/'' (length ''payto://iban/'') then None
      else let iban = after_strrchr account_url CHR ''/'';
               result = (case strchr iban CHR ''?'' of
                           Some q \<Rightarrow> take (length iban - length q) iban
                         | None \<Rightarrow> iban)
      in case TALER_iban_validate (Some result) of
           Some err \<Rightarrow> Some err
         | None \<Rightarrow>
             if payto_get_key account_url ''receiver-name='' = None
             then Some receiver_missing else None)"

text \<open>The loop over the host name; \<open>ulen\<close> is the length of the suffix at \<^verbatim>\<open>user\<close>.\<close>

fun xtalerbank_host_loop :: "string \<Rightarrow> nat \<Rightarrow> bool \<Rightarrow> bool \<Rightarrow> bool \<Rightarrow> string + (bool \<times> bool)" where
  "xtalerbank_host_loop [] ulen dot_ok post_colon port_ok = Inr (post_colon, port_ok)"
| "xtalerbank_host_loop (c # host) ulen dot_ok post_colon port_ok =
     (if Suc (length host) = ulen then Inr (post_colon, port_ok)
      else if c = CHR ''/'' then Inr (post_colon, port_ok)
      else if c = CHR '':'' then xtalerbank_host_loop host ulen dot_ok True port_ok
      else if post_colon then
        (if \<not> c_isdigit c
         then Inl (''invalid character '' @ [CHR 0x27, c, CHR 0x27] @ '' in port'')
         else xtalerbank_host_loop host ulen dot_ok post_colon True)
      else if c = CHR ''.'' then
        (if \<not> dot_ok
         then Inl (''invalid domain name (misplaced '' @ [CHR 0x27] @ ''.'' @ [CHR 0x27] @ '')'')
         else xtalerbank_host_loop host ulen False post_colon port_ok)
      else if \<not> (c = CHR ''-'' \<or> c = CHR ''_'' \<or> c_isdigit c \<or> c_islower c \<or> c_isupper c)
      then Inl (''invalid character '' @ [CHR 0x27, c, CHR 0x27] @ '' in domain name'')
      else xtalerbank_host_loop host ulen True post_colon port_ok)"

definition validate_payto_xtalerbank :: "string \<Rightarrow> string option" where
  "validate_payto_xtalerbank account_url =
     (if \<not> strncaseeq account_url XTALERBANK_PREFIX (length XTALERBANK_PREFIX) then None
      else let host = drop (length XTALERBANK_PREFIX) account_url
      in case strchr host CHR ''/'' of
           None \<Rightarrow> Some ''account name missing''
         | Some slash \<Rightarrow>
             let beg = tl slash; nxt = strchr beg CHR ''/''
             in case strchr beg CHR ''?'' of
                  None \<Rightarrow> Some receiver_missing
                | Some end \<Rightarrow>
                    let user = account_loop beg nxt (length end)
                    in if length user + 1 = length host then Some ''domain name missing''
                       else if hd host = CHR ''-''
                       then Some (''invalid character '' @ [CHR 0x27] @ ''-'' @ [CHR 0x27]
                                  @ '' at start of domain name'')
                       else case xtalerbank_host_loop host (length user) False False False of
                              Inl err \<Rightarrow> Some err
                            | Inr (post_colon, port_ok) \<Rightarrow>
                                if post_colon \<and> \<not> port_ok
                                then Some (''port missing after '' @ [CHR 0x27] @ '':'' @ [CHR 0x27])
                                else if payto_get_key account_url ''receiver-name='' = None
                                then Some receiver_missing
                                else None)"

definition ALLOWED_CHARACTERS :: string where
  "ALLOWED_CHARACTERS =
     ''abcdefghijklmnopqrstuvwxyzABCDEFGHIJKLMNOPQRSTUVWXYZ0123456789/:$&?!-_.,;=*+%~@()[]''"

fun allowed_loop :: "nat \<Rightarrow> string \<Rightarrow> (nat \<times> char) option" where
  "allowed_loop i [] = None"
| "allowed_loop i (c # cs) =
     (if c \<notin> set ALLOWED_CHARACTERS then Some (i, c) else allowed_loop (i + 1) cs)"

definition TALER_payto_validate :: "string \<Rightarrow> string option" where
  "TALER_payto_validate payto_uri =
     (if \<not> strncaseeq payto_uri PAYTO (length PAYTO) then Some ''invalid prefix''
      else case allowed_loop 0 payto_uri of
             Some (i, c) \<Rightarrow>
               Some (''Encountered invalid character `'' @ [c, CHR 0x27] @ '' at offset '' @ decimal i
                     @ '' in payto URI `'' @ payto_uri @ [CHR 0x27])
           | None \<Rightarrow>
               if strchr (drop (length PAYTO) payto_uri) CHR ''/'' = None
               then Some (''missing '' @ [CHR 0x27] @ ''/'' @ [CHR 0x27] @ '' in payload'')
               else case validate_payto_iban payto_uri of
                      Some ret \<Rightarrow> Some ret
                    | None \<Rightarrow> validate_payto_xtalerbank payto_uri)"

definition TALER_payto_get_receiver_name :: "string \<Rightarrow> string option" where
  "TALER_payto_get_receiver_name fpayto =
     (case TALER_payto_validate fpayto of
        Some err \<Rightarrow> None
      | None \<Rightarrow> payto_get_key fpayto ''receiver-name='')"

section \<open>Normalisation\<close>

fun lower_until :: "nat \<Rightarrow> nat \<Rightarrow> string \<Rightarrow> string" where
  "lower_until bound sc [] = []"
| "lower_until bound sc (c # cs) =
     (let sc' = (if c = CHR ''/'' then sc + 1 else sc)
      in (if sc' < bound then c_tolower c else c) # lower_until bound sc' cs)"

definition normalize_payto_x_taler_bank :: "string \<Rightarrow> string" where
  "normalize_payto_x_taler_bank input = lower_until 4 0 input"

fun iban_loop :: "bool \<Rightarrow> nat \<Rightarrow> string \<Rightarrow> string" where
  "iban_loop have_bic sc [] = []"
| "iban_loop have_bic sc (c # cs) =
     (let sc' = (if c = CHR ''/'' then sc + 1 else sc)
      in (if sc' \<le> 2 then [c_tolower c]
          else if sc' = 3 then (if have_bic then [] else [c_toupper c])
          else if sc' = 4 then [c_toupper c]
          else []) @ iban_loop have_bic sc' cs)"

definition normalize_payto_iban :: "string \<Rightarrow> string option" where
  "normalize_payto_iban input =
     (let sc = length (filter (\<lambda>c. c = CHR ''/'') input)
      in if sc > 4 \<or> sc < 3 then None
         else Some (iban_loop (sc = 4) 0 input))"

definition normalize_payto_upi :: "string \<Rightarrow> string" where
  "normalize_payto_upi input = map c_tolower input"

definition normalize_payto_bitcoin :: "string \<Rightarrow> string" where
  "normalize_payto_bitcoin input = lower_until 3 0 input"

definition normalize_payto_ilp :: "string \<Rightarrow> string" where
  "normalize_payto_ilp input = map c_tolower input"

definition TALER_payto_normalize :: "string \<Rightarrow> string option" where
  "TALER_payto_normalize input =
     (if TALER_payto_validate input \<noteq> None then None
      else case TALER_payto_get_method input of
             None \<Rightarrow> None
           | Some method \<Rightarrow>
               let path = (case strchr input CHR ''?'' of
                             None \<Rightarrow> input
                           | Some end \<Rightarrow> take (length input - length end) input)
               in if strcaseeq method ''x-taler-bank'' then Some (normalize_payto_x_taler_bank path)
                  else if strcaseeq method ''iban'' then normalize_payto_iban path
                  else if strcaseeq method ''upi'' then Some (normalize_payto_upi path)
                  else if strcaseeq method ''bitcoin'' then Some (normalize_payto_bitcoin path)
                  else if strcaseeq method ''ilp'' then Some (normalize_payto_ilp path)
                  else Some path)"

definition TALER_full_payto_normalize_and_cmp :: "string \<Rightarrow> string \<Rightarrow> int" where
  "TALER_full_payto_normalize_and_cmp a b =
     TALER_normalized_payto_cmp (TALER_payto_normalize a) (TALER_payto_normalize b)"

section \<open>Hashes and reserve URIs\<close>

text \<open>
  The hash covers the string with its terminator and is truncated to the size of the output.
  Hashing \<^verbatim>\<open>NULL\<close> runs \<^verbatim>\<open>strlen\<close> on it, which is \<open>Abort\<close> here.
\<close>

definition TALER_normalized_payto_hash ::
  "(char list \<Rightarrow> char list) \<Rightarrow> nat \<Rightarrow> string option \<Rightarrow> char list outcome" where
  "TALER_normalized_payto_hash sha512 hlen npayto =
     (case npayto of
        None \<Rightarrow> Abort
      | Some s \<Rightarrow> Done (take hlen (sha512 (s @ [NUL]))))"

definition TALER_full_payto_hash ::
  "(char list \<Rightarrow> char list) \<Rightarrow> nat \<Rightarrow> string option \<Rightarrow> char list outcome" where
  "TALER_full_payto_hash sha512 hlen fpayto =
     (case fpayto of
        None \<Rightarrow> Abort
      | Some s \<Rightarrow> Done (take hlen (sha512 (s @ [NUL]))))"

definition TALER_full_payto_normalize_and_hash ::
  "(char list \<Rightarrow> char list) \<Rightarrow> nat \<Rightarrow> string \<Rightarrow> char list outcome" where
  "TALER_full_payto_normalize_and_hash sha512 hlen in_uri =
     TALER_normalized_payto_hash sha512 hlen (TALER_payto_normalize in_uri)"

definition TALER_reserve_make_payto :: "('pub \<Rightarrow> string) \<Rightarrow> string \<Rightarrow> 'pub \<Rightarrow> string option" where
  "TALER_reserve_make_payto data_to_string exchange_url reserve_pub =
     (if take (length ''http://'') exchange_url = ''http://''
      then Some (''payto://taler-reserve-http/'' @ drop (length ''http://'') exchange_url
                 @ data_to_string reserve_pub)
      else if take (length ''https://'') exchange_url = ''https://''
      then Some (''payto://taler-reserve/'' @ drop (length ''https://'') exchange_url
                 @ data_to_string reserve_pub)
      else None)"

section \<open>Lemmas\<close>

lemma takeWhile_neq_none: "c \<notin> set s \<Longrightarrow> takeWhile (\<lambda>x. x \<noteq> c) s = s"
  by (induction s) auto

lemma strchr_append: "c \<notin> set h \<Longrightarrow> strchr (h @ c # r) c = Some (c # r)"
  by (induction h) (auto simp: strchr_def)

lemma strchr_None: "strchr s c = None \<longleftrightarrow> c \<notin> set s"
  by (induction s) (auto simp: strchr_def)

lemma strchr_Some:
  assumes "strchr s c = Some n"
  obtains a t where "s = a @ c # t" "n = c # t" "c \<notin> set a"
proof -
  have "c \<in> set s" using assms strchr_None [of s c] by auto
  then obtain a t where "s = a @ c # t" "c \<notin> set a" using split_list_first by metis
  moreover from this have "n = c # t" using assms strchr_append [of c a t] by simp
  ultimately show ?thesis using that by blast
qed

lemma strchr_takeWhile:
  "take (length s - (case strchr s c of None \<Rightarrow> 0 | Some e \<Rightarrow> length e)) s = takeWhile (\<lambda>x. x \<noteq> c) s"
proof (cases "strchr s c")
  case None
  then show ?thesis using strchr_None [of s c] by (simp add: takeWhile_neq_none)
next
  case (Some e)
  then show ?thesis by (elim strchr_Some) (simp add: strchr_append takeWhile_tail takeWhile_neq_none)
qed

lemma strchr_elen: "(case strchr s c of None \<Rightarrow> 0 | Some e \<Rightarrow> length e) \<le> length s"
  by (auto split: option.splits dest: strchr_length)

lemma after_strrchr_none: "c \<notin> set s \<Longrightarrow> after_strrchr s c = s"
  by (simp add: after_strrchr_def takeWhile_neq_none)

lemma after_strrchr_tail: "after_strrchr (a @ c # t) c = after_strrchr t c"
proof (cases "c \<in> set t")
  case True
  then show ?thesis by (simp add: after_strrchr_def takeWhile_append1 [where x = c])
next
  case False
  then have "takeWhile (\<lambda>x. x \<noteq> c) (rev t @ c # rev a) = rev t"
    by (simp add: takeWhile_tail takeWhile_neq_none)
  then show ?thesis using False by (simp add: after_strrchr_none) (simp add: after_strrchr_def)
qed

text \<open>The account loop ends behind the last \<^verbatim>\<open>/\<close> of the part before \<^verbatim>\<open>end\<close>.\<close>

lemma account_loop_last:
  assumes "elen \<le> length beg"
  shows "take (length (account_loop beg (strchr beg CHR ''/'') elen) - elen)
              (account_loop beg (strchr beg CHR ''/'') elen)
         = after_strrchr (take (length beg - elen) beg) CHR ''/''"
  using assms
proof (induction "length beg" arbitrary: beg rule: less_induct)
  case less
  show ?case
  proof (cases "strchr beg CHR ''/''")
    case None
    then have "CHR ''/'' \<notin> set (take (length beg - elen) beg)"
      by (auto simp: strchr_None dest: in_set_takeD)
    then show ?thesis
      using None by (subst (1 2) account_loop.simps) (simp add: after_strrchr_none)
  next
    case (Some n)
    then obtain a t where beg: "beg = a @ CHR ''/'' # t" and n: "n = CHR ''/'' # t"
      and a: "CHR ''/'' \<notin> set a"
      by (rule strchr_Some)
    show ?thesis
    proof (cases "elen < length n")
      case True
      then have "elen \<le> length t" using n by simp
      moreover have "take (length beg - elen) beg = a @ CHR ''/'' # take (length t - elen) t"
        using \<open>elen \<le> length t\<close> by (simp add: beg Suc_diff_le)
      moreover have "account_loop beg (Some n) elen = account_loop t (strchr t CHR ''/'') elen"
        using True n by (subst account_loop.simps) simp
      ultimately show ?thesis
        using less.hyps [of t] Some beg by (simp add: after_strrchr_tail)
    next
      case False
      then have "CHR ''/'' \<notin> set (take (length beg - elen) beg)"
        using a n by (auto simp: beg not_less dest: in_set_takeD)
      moreover have "account_loop beg (Some n) elen = beg"
        using False by (subst account_loop.simps) simp
      ultimately show ?thesis using Some by (simp add: after_strrchr_none)
    qed
  qed
qed

lemma strncaseeq_prefix:
  assumes "strcaseeq p q"
  shows "strncaseeq (p @ s) q (length q)"
  using assms strcaseeq_length [OF assms] by (simp add: strncaseeq_def strcaseeq_def)

lemma xtalerbank_account:
  assumes "strcaseeq p XTALERBANK_PREFIX" "CHR ''/'' \<notin> set host"
  shows "TALER_xtalerbank_account_from_payto (p @ host @ CHR ''/'' # rest)
         = Some (after_strrchr (takeWhile (\<lambda>c. c \<noteq> CHR ''?'') rest) CHR ''/'')"
proof -
  let ?elen = "case strchr rest CHR ''?'' of None \<Rightarrow> 0 | Some e \<Rightarrow> length e"
  have p: "drop (length XTALERBANK_PREFIX) (p @ s) = s" for s
    using strcaseeq_length [OF assms(1)] by simp
  have pre: "strncaseeq (p @ host @ CHR ''/'' # rest) XTALERBANK_PREFIX (length XTALERBANK_PREFIX)"
    by (rule strncaseeq_prefix [OF assms(1)])
  have "take (length (account_loop rest (strchr rest CHR ''/'') ?elen) - ?elen)
             (account_loop rest (strchr rest CHR ''/'') ?elen)
        = after_strrchr (takeWhile (\<lambda>c. c \<noteq> CHR ''?'') rest) CHR ''/''"
    unfolding account_loop_last [OF strchr_elen] strchr_takeWhile ..
  then show ?thesis
    unfolding TALER_xtalerbank_account_from_payto_def p Let_def strchr_append [OF assms(2)]
    using pre by (simp only: not_True_eq_False if_False option.case list.sel)
qed

text \<open>Letters apart, case conversion keeps and reflects characters.\<close>

lemma code_char_of: "n < 256 \<Longrightarrow> code (char_of n) = n"
  by simp

lemma c_tolower_fixed:
  assumes "\<not> c_islower d"
  shows "c_tolower c = d \<Longrightarrow> \<not> c_isupper c \<and> c = d"
proof -
  assume eq: "c_tolower c = d"
  have "\<not> c_isupper c"
  proof
    assume up: "c_isupper c"
    then have "code d = code c + 32"
      using eq by (auto simp: c_tolower_def c_isupper_def)
    with up have "c_islower d" by (simp add: c_isupper_def c_islower_def)
    with assms show False ..
  qed
  with eq show ?thesis by (simp add: c_tolower_def)
qed

definition slashes :: "string \<Rightarrow> nat" where
  "slashes s = length (filter (\<lambda>c. c = CHR ''/'') s)"

lemma c_tolower_slash: "c_tolower c = CHR ''/'' \<longleftrightarrow> c = CHR ''/''"
  using c_tolower_fixed [of "CHR ''/''" c] by (auto simp: c_islower_def c_tolower_def c_isupper_def)

lemma slashes_case: "strcaseeq s t \<Longrightarrow> slashes s = slashes t"
proof -
  have "slashes s = slashes (map c_tolower s)" for s
    by (induction s) (simp_all add: slashes_def c_tolower_slash)
  then show "strcaseeq s t \<Longrightarrow> slashes s = slashes t" unfolding strcaseeq_def by metis
qed

lemma slashes_append [simp]: "slashes (s @ t) = slashes s + slashes t"
  by (simp add: slashes_def)

lemma slashes_0: "CHR ''/'' \<notin> set s \<Longrightarrow> slashes s = 0"
  by (auto simp: slashes_def filter_empty_conv)

lemma iban_loop_append: "iban_loop hb sc (s @ t) = iban_loop hb sc s @ iban_loop hb (sc + slashes s) t"
  by (induction s arbitrary: sc) (simp_all add: slashes_def Let_def)

lemma iban_loop_low: "sc + slashes s \<le> 2 \<Longrightarrow> iban_loop hb sc s = map c_tolower s"
  by (induction s arbitrary: sc) (auto simp: slashes_def Let_def)

lemma iban_loop_seg: "CHR ''/'' \<notin> set s \<Longrightarrow> iban_loop hb sc s =
    (if sc \<le> 2 then map c_tolower s else if sc = 3 then (if hb then [] else map c_toupper s)
     else if sc = 4 then map c_toupper s else [])"
  by (induction s) (auto simp: Let_def)

lemma c_toupper_slash [simp]: "c_toupper CHR ''/'' = CHR ''/''"
  by (simp add: c_toupper_def c_islower_def)

lemma prefix_chars:
  assumes "strcaseeq p q" "d \<notin> c_tolower ` set q" "\<not> c_isupper d"
  shows "d \<notin> set p"
  using assms unfolding strcaseeq_def by (metis c_tolower_def image_eqI image_set)

lemma normalize_iban_path:
  assumes "strcaseeq p ''payto://iban''" "CHR ''/'' \<notin> set iban"
    and "bic = [] \<or> (\<exists>b. bic = CHR ''/'' # b \<and> CHR ''/'' \<notin> set b)"
  shows "normalize_payto_iban (p @ bic @ CHR ''/'' # iban) = Some (''payto://iban/'' @ map c_toupper iban)"
proof -
  have sp: "slashes p = 2" using slashes_case [OF assms(1)] by (simp add: slashes_def)
  have lp: "map c_tolower p = ''payto://iban''"
    using assms(1) by (simp add: strcaseeq_def c_tolower_def c_isupper_def)
  have sb: "slashes bic = 0 \<or> slashes bic = 1" "bic = [] \<longleftrightarrow> slashes bic = 0"
    using assms(3) slashes_0 by (auto simp: slashes_def)
  have cnt: "length (filter (\<lambda>c. c = CHR ''/'') (p @ bic @ CHR ''/'' # iban)) = 3 + slashes bic"
    using sp slashes_0 [OF assms(2)] by (simp add: slashes_def)
  have "iban_loop (slashes bic = 1) 2 bic = []"
    using assms(3) by (auto simp: Let_def slashes_def iban_loop_seg filter_empty_conv)
  then have "iban_loop (slashes bic = 1) 0 (p @ bic @ CHR ''/'' # iban)
      = map c_tolower p @ CHR ''/'' # map c_toupper iban"
    using sb sp assms(2)
    by (auto simp: iban_loop_append iban_loop_low iban_loop_seg Let_def numeral_2_eq_2)
  then show ?thesis
    using sb(1) unfolding normalize_payto_iban_def cnt Let_def by (auto simp: lp)
qed

lemma payto_method_iban:
  assumes "strcaseeq p ''payto://iban''"
  shows "\<exists>m. TALER_payto_get_method (p @ CHR ''/'' # rest) = Some m \<and> strcaseeq m ''iban''"
proof -
  have len: "length p = 12" using strcaseeq_length [OF assms] by simp
  have pre: "strncaseeq (p @ s) PAYTO (length PAYTO)" for s
    using arg_cong [OF assms [unfolded strcaseeq_def], of "take 8"] len
    by (simp add: strncaseeq_def PAYTO_def [THEN arg_cong, of "map c_tolower"] take_map)
  have m: "strcaseeq (drop 8 p) ''iban''"
    using arg_cong [OF assms [unfolded strcaseeq_def], of "drop 8"]
    by (simp add: strcaseeq_def drop_map)
  then have ns: "CHR ''/'' \<notin> set (drop 8 p)"
    by (rule prefix_chars) (simp_all add: c_isupper_def c_tolower_def)
  have "drop (length PAYTO) (p @ CHR ''/'' # rest) = drop 8 p @ CHR ''/'' # rest"
    using len by simp
  then show ?thesis
    using m pre [unfolded length_PAYTO] by (simp add: TALER_payto_get_method_def strchr_append [OF ns])
qed

lemma not_xtalerbank: "strcaseeq m ''iban'' \<Longrightarrow> \<not> strcaseeq m ''x-taler-bank''"
  using strcaseeq_length [of m "''iban''"] strcaseeq_length [of m "''x-taler-bank''"] by auto

lemma payto_normalize_valid_iban:
  assumes valid: "TALER_payto_validate (p @ bic @ CHR ''/'' # iban @ query) = None"
    and p: "strcaseeq p ''payto://iban''" and bic: "bic = [] \<or> (\<exists>b. bic = CHR ''/'' # b \<and> CHR ''/'' \<notin> set b)"
    and q: "CHR ''?'' \<notin> set bic" "CHR ''?'' \<notin> set iban" "CHR ''/'' \<notin> set iban"
    and query: "query = [] \<or> (\<exists>r. query = CHR ''?'' # r)"
  shows "TALER_payto_normalize (p @ bic @ CHR ''/'' # iban @ query) = Some (''payto://iban/'' @ map c_toupper iban)"
proof -
  let ?path = "p @ bic @ CHR ''/'' # iban" and ?uri = "p @ bic @ CHR ''/'' # iban @ query"
  have "CHR ''?'' \<notin> set p" using p by (rule prefix_chars) (simp_all add: c_isupper_def c_tolower_def)
  then have nq: "CHR ''?'' \<notin> set ?path" using q by auto
  have path: "(case strchr ?uri CHR ''?'' of None \<Rightarrow> ?uri
               | Some end \<Rightarrow> take (length ?uri - length end) ?uri) = ?path"
  proof (cases "query = []")
    case True
    then show ?thesis using nq strchr_None [of ?path "CHR ''?''"] by simp
  next
    case False
    then obtain r where "?uri = ?path @ CHR ''?'' # r" using query by auto
    then show ?thesis using strchr_append [OF nq, of r] by (simp only:) simp
  qed
  obtain rest where "bic @ CHR ''/'' # iban @ query = CHR ''/'' # rest" using bic by auto
  then obtain m where m: "TALER_payto_get_method (p @ bic @ CHR ''/'' # iban @ query) = Some m"
    "strcaseeq m ''iban''"
    using payto_method_iban [OF p] by metis
  show ?thesis
    unfolding TALER_payto_normalize_def path m(1) Let_def
    using valid m(2) not_xtalerbank [OF m(2)] normalize_iban_path [OF p q(3) bic] by simp
qed

section \<open>Properties\<close>

text \<open>
  The account that \<^verbatim>\<open>TALER_xtalerbank_account_from_payto\<close> extracts is the last segment of the
  path: what follows the last \<^verbatim>\<open>/\<close> before the query, whatever path lies between the host and the
  account and whatever the query holds.
\<close>

lemma payto_xtalerbank_account:
  assumes "strcaseeq p XTALERBANK_PREFIX" "CHR ''/'' \<notin> set host"
  shows "TALER_xtalerbank_account_from_payto (p @ host @ CHR ''/'' # rest)
         = Some (after_strrchr (takeWhile (\<lambda>c. c \<noteq> CHR ''?'') rest) CHR ''/'')"
  using assms by (rule xtalerbank_account)

text \<open>
  The normal form of a valid IBAN payto URI is \<^verbatim>\<open>payto://iban/\<close> followed by the IBAN in upper
  case: the BIC, if there is one, the query and the case of the scheme are dropped, so that all
  spellings of one account have the same normal form.
\<close>

lemma payto_normalize_iban:
  assumes "TALER_payto_validate (p @ bic @ CHR ''/'' # iban @ query) = None"
    and "strcaseeq p ''payto://iban''" "bic = [] \<or> (\<exists>b. bic = CHR ''/'' # b \<and> CHR ''/'' \<notin> set b)"
    and "CHR ''?'' \<notin> set bic" "CHR ''?'' \<notin> set iban" "CHR ''/'' \<notin> set iban"
    and "query = [] \<or> (\<exists>r. query = CHR ''?'' # r)"
  shows "TALER_payto_normalize (p @ bic @ CHR ''/'' # iban @ query) = Some (''payto://iban/'' @ map c_toupper iban)"
  using assms by (rule payto_normalize_valid_iban)

lemma norwegian_iban: "TALER_iban_validate (Some ''NO9386011117947'') = None"
  by (rule iban_validate_None [THEN iffD2])
    (simp_all add: iban_valid_def country_member country_ranks code_rank_def iban_eval del: list.set_map)

lemma receiver_name_a: "payto_key_loop ''?receiver-name=A'' ''receiver-name='' = Some ''A''"
  by (subst payto_key_loop.simps) (simp add: Let_def strncaseeq_def strchr_def)

lemma sample_iban_valid: "TALER_payto_validate ''payto://iban/SPKB/NO9386011117947?receiver-name=A'' = None"
  using norwegian_iban receiver_name_a
  by (simp add: TALER_payto_validate_def PAYTO_def ALLOWED_CHARACTERS_def strchr_def validate_payto_iban_def
      validate_payto_xtalerbank_def after_strrchr_def payto_get_key_def strncaseeq_def c_tolower_def
      c_isupper_def Let_def)

text \<open>
  Validation of IBAN URIs looks for the IBAN behind the last \<^verbatim>\<open>/\<close> of the whole URI, the query
  included: every IBAN URI whose query ends in a \<^verbatim>\<open>/\<close> and fewer than four more characters is
  refused, whatever its IBAN.
\<close>

lemma payto_slash_in_query_refused:
  assumes "strcaseeq p ''payto://iban/''" "CHR ''/'' \<notin> set name" "CHR ''?'' \<notin> set name" "length name < 4"
    and "allowed_loop 0 (p @ iban @ ''?receiver-name=x/'' @ name) = None"
  shows "TALER_payto_validate (p @ iban @ ''?receiver-name=x/'' @ name)
         = Some ''IBAN number too short to be valid''"
proof -
  let ?uri = "p @ iban @ ''?receiver-name=x/'' @ name"
  have len: "length p = 13" using strcaseeq_length [OF assms(1)] by simp
  have eq: "map c_tolower p = ''payto://iban/''"
    using assms(1) by (simp add: strcaseeq_def c_tolower_def c_isupper_def)
  have pre: "strncaseeq ?uri ''payto://iban/'' (length ''payto://iban/'')"
    by (rule strncaseeq_prefix [OF assms(1)])
  have "strncaseeq ?uri PAYTO (length PAYTO)"
    using arg_cong [OF assms(1) [unfolded strcaseeq_def], of "take 8"] len
    by (simp add: strncaseeq_def PAYTO_def [THEN arg_cong, of "map c_tolower"] take_map)
  moreover have "strchr (drop (length PAYTO) ?uri) CHR ''/'' \<noteq> None"
    using len by (simp add: strchr_None)
  moreover have "after_strrchr ?uri CHR ''/'' = name"
    using after_strrchr_tail [of "p @ iban @ ''?receiver-name=x''" "CHR ''/''" name] after_strrchr_none [OF assms(2)]
    by simp
  moreover have "strchr name CHR ''?'' = None" using assms(3) by (simp add: strchr_None)
  moreover have "TALER_iban_validate (Some name) = Some ''IBAN number too short to be valid''"
    using assms(4) by (simp add: TALER_iban_validate_def Let_def)
  ultimately show ?thesis
    using assms(5) pre by (simp add: TALER_payto_validate_def validate_payto_iban_def Let_def)
qed

end
