(* ===== verification/Fakebank.thy ===== *)
theory Fakebank
  imports Taler_Amount Payto
begin

text \<open>
  The ledger of the fakebank, \<^verbatim>\<open>src/src/bank-lib/fakebank.h\<close>, \<^verbatim>\<open>fakebank_common_lookup.c\<close>,
  \<^verbatim>\<open>fakebank_common_transact.c\<close>, \<^verbatim>\<open>fakebank_common_make_admin_transfer.c\<close> and the notifications of
  \<^verbatim>\<open>fakebank_common_lp.c\<close>. Transactions live in an explicit store from pointers to records: the
  ring buffer, the lists of the accounts and the two hash maps all point into it, and
  \<^verbatim>\<open>GNUNET_free\<close> removes an entry. An account is identified by its key in the \<^verbatim>\<open>accounts\<close> map, the
  hash of its name; the hash function is a parameter and may collide. Hashes, public keys and
  identifiers are byte strings. Every operation runs under the locks the code takes, so it is
  one step. \<open>Abort\<close> is a failed assertion or the use of a pointer that is not in the store.
\<close>

section \<open>State\<close>

type_synonym bytes = "char list"
type_synonym tptr = nat

datatype subject =
    Subject_debit (wtid: bytes) (exchange_base_url: string)
  | Subject_credit (credit_pub: bytes)
  | Subject_auth (account_pub: bytes)
  | Subject_wad (wad_id: bytes) (origin_base_url: string)

datatype tx_type = T_CREDIT | T_DEBIT | T_AUTH | T_WAD

fun subject_type :: "subject \<Rightarrow> tx_type" where
  "subject_type (Subject_debit _ _) = T_DEBIT"
| "subject_type (Subject_credit _) = T_CREDIT"
| "subject_type (Subject_auth _) = T_AUTH"
| "subject_type (Subject_wad _ _) = T_WAD"

record transaction =
  tx_amount :: amount
  debit_account :: bytes
  credit_account :: bytes
  request_uid :: bytes
  tx_date :: "64 word"
  row_id :: "64 word"
  tx_subject :: subject
  tx_unchecked :: bool

datatype lp_type = LP_CREDIT | LP_DEBIT | LP_WITHDRAW

record long_poller =
  lp_kind :: lp_type
  lp_wo :: "bytes option"
  lp_conn :: nat

record account =
  in_list :: "tptr list"
  out_list :: "tptr list"
  lp_list :: "long_poller list"
  account_name :: string
  receiver_name :: string
  payto_uri :: string
  password :: "string option"
  balance :: amount
  is_negative :: bool

record withdrawal_operation =
  wo_debit_account :: bytes
  wo_exchange_account :: "bytes option"
  wo_row_id :: "64 word"
  wo_amount :: "amount option"
  wo_reserve_pub :: bytes
  wo_timestamp :: "64 word"
  wo_aborted :: bool
  wo_confirmation_done :: bool
  wo_selection_done :: bool

text \<open>
  \<^verbatim>\<open>heap\<close> and \<^verbatim>\<open>next_ptr\<close> are the memory of the transactions; \<open>resumed\<close> records the connections
  that were given to \<^verbatim>\<open>MHD_resume_connection\<close>. \<open>wops = None\<close> is the map not yet created.
\<close>

record fakebank =
  transactions :: "tptr option list"
  heap :: "tptr \<rightharpoonup> transaction"
  next_ptr :: tptr
  rpubs :: "bytes \<rightharpoonup> tptr"
  wops :: "(bytes \<rightharpoonup> withdrawal_operation) option"
  accounts :: "bytes \<rightharpoonup> account"
  uuid_map :: "bytes \<rightharpoonup> tptr"
  signup_bonus :: amount
  serial_counter :: "64 word"
  ram_limit :: "64 word"
  bank_currency :: string
  hostname :: string
  port :: nat
  resumed :: "nat list"

section \<open>Lookups\<close>

definition TALER_FAKEBANK_lookup_withdrawal_operation ::
  "(string \<Rightarrow> bytes option) \<Rightarrow> fakebank \<Rightarrow> string \<Rightarrow> (bytes \<times> withdrawal_operation) option" where
  "TALER_FAKEBANK_lookup_withdrawal_operation string_to_data h wopid =
     (case wops h of
        None \<Rightarrow> None
      | Some m \<Rightarrow> (case string_to_data wopid of
                    None \<Rightarrow> None
                  | Some sh \<Rightarrow> map_option (Pair sh) (m sh)))"

definition zero_memory_amount :: amount where
  "zero_memory_amount = \<lparr>value = 0, fraction = 0, currency = replicate TALER_CURRENCY_LEN NUL\<rparr>"

definition new_account :: "fakebank \<Rightarrow> string \<Rightarrow> string \<Rightarrow> amount \<Rightarrow> account" where
  "new_account h name rname bal =
     \<lparr>in_list = [], out_list = [], lp_list = [], account_name = name, receiver_name = rname,
      payto_uri = ''payto://x-taler-bank/'' @ hostname h @ ''/'' @ name @ ''?receiver-name='' @ rname,
      password = None, balance = bal, is_negative = False\<rparr>"

text \<open>\<open>rname = None\<close> asks not to create the account. The result is the key of the account.\<close>

definition TALER_FAKEBANK_lookup_account ::
  "(string \<Rightarrow> bytes) \<Rightarrow> fakebank \<Rightarrow> string \<Rightarrow> string option \<Rightarrow> (bytes option \<times> fakebank) outcome" where
  "TALER_FAKEBANK_lookup_account hash h name rname =
     (let hc = hash name
      in case accounts h hc of
           Some acc \<Rightarrow> Done (Some hc, h)
         | None \<Rightarrow>
             (case rname of
                None \<Rightarrow> Done (None, h)
              | Some rn \<Rightarrow>
                  let (ret, bal) = TALER_amount_set_zero (bank_currency h) zero_memory_amount
                  in gassert (ret = GNUNET_OK)
                       (Done (Some hc, h\<lparr>accounts := (accounts h)(hc \<mapsto> new_account h name rn bal)\<rparr>))))"

section \<open>Balances and the transaction log\<close>

definition update_balance :: "account \<Rightarrow> amount \<Rightarrow> bool \<Rightarrow> account outcome" where
  "update_balance acc amt debit =
     (if debit = is_negative acc
      then obind (TALER_amount_add (balance acc) amt)
             (\<lambda>(r, x). gassert (0 \<le> aar_code r) (Done (acc\<lparr>balance := x\<rparr>)))
      else obind (TALER_amount_cmp (balance acc) amt)
             (\<lambda>c. if 0 \<le> c
                  then obind (TALER_amount_subtract (balance acc) amt)
                         (\<lambda>(r, x). gassert (0 \<le> aar_code r) (Done (acc\<lparr>balance := x\<rparr>)))
                  else obind (TALER_amount_subtract amt (balance acc))
                         (\<lambda>(r, x). gassert (0 \<le> aar_code r)
                            (Done (acc\<lparr>balance := x, is_negative := \<not> is_negative acc\<rparr>)))))"

fun deref :: "('k \<rightharpoonup> 'v) \<Rightarrow> 'k \<Rightarrow> 'v outcome" where
  "deref m k = (case m k of None \<Rightarrow> Abort | Some v \<Rightarrow> Done v)"

text \<open>Updating the account behind a pointer.\<close>

definition with_account :: "bytes \<Rightarrow> (account \<Rightarrow> account outcome) \<Rightarrow> fakebank \<Rightarrow> fakebank outcome" where
  "with_account k f h =
     obind (deref (accounts h) k)
       (\<lambda>a. obind (f a) (\<lambda>a'. Done (h\<lparr>accounts := (accounts h)(k \<mapsto> a')\<rparr>)))"

text \<open>
  What \<^verbatim>\<open>TALER_FAKEBANK_transact_\<close> does with the entry whose slot it takes: unlink it from both
  accounts, remove it from the map of request identifiers (asserting that it was there) if it
  is a debit, and free it.
\<close>

definition evict :: "tptr option \<Rightarrow> fakebank \<Rightarrow> fakebank outcome" where
  "evict old h =
     (case old of
        None \<Rightarrow> Done h
      | Some p \<Rightarrow>
          obind (deref (heap h) p)
            (\<lambda>t. obind (with_account (debit_account t) (\<lambda>a. Done (a\<lparr>out_list := remove1 p (out_list a)\<rparr>)) h)
              (\<lambda>h1. obind (with_account (credit_account t) (\<lambda>a. Done (a\<lparr>in_list := remove1 p (in_list a)\<rparr>)) h1)
                (\<lambda>h2. obind
                   (if subject_type (tx_subject t) = T_DEBIT
                    then gassert (uuid_map h2 (request_uid t) = Some p)
                           (Done (h2\<lparr>uuid_map := (uuid_map h2)(request_uid t := None)\<rparr>))
                    else Done h2)
                   (\<lambda>h3. Done (h3\<lparr>heap := (heap h3)(p := None)\<rparr>))))))"

definition TALER_FAKEBANK_transact :: "fakebank \<Rightarrow> tptr \<Rightarrow> fakebank outcome" where
  "TALER_FAKEBANK_transact h p =
     obind (deref (heap h) p)
       (\<lambda>t. let row = serial_counter h + 1;
                slot = unat (row mod ram_limit h)
            in gassert (ram_limit h \<noteq> 0 \<and> slot < length (transactions h))
                 (let old = transactions h ! slot;
                      h1 = h\<lparr>serial_counter := row, transactions := (transactions h)[slot := Some p],
                             heap := (heap h)(p \<mapsto> t\<lparr>row_id := row\<rparr>)\<rparr>
                  in obind (with_account (debit_account t)
                       (\<lambda>a. update_balance (a\<lparr>out_list := out_list a @ [p]\<rparr>) (tx_amount t) True) h1)
                     (\<lambda>h2. obind (with_account (credit_account t)
                       (\<lambda>a. update_balance (a\<lparr>in_list := in_list a @ [p]\<rparr>) (tx_amount t) False) h2)
                     (evict old))))"

section \<open>Notifications\<close>

definition TALER_FAKEBANK_lp_trigger :: "(long_poller \<Rightarrow> bool) \<Rightarrow> bytes \<Rightarrow> fakebank \<Rightarrow> fakebank outcome" where
  "TALER_FAKEBANK_lp_trigger waiting k h =
     obind (deref (accounts h) k)
       (\<lambda>a. Done (h\<lparr>accounts := (accounts h)(k \<mapsto> a\<lparr>lp_list := filter (\<lambda>lp. \<not> waiting lp) (lp_list a)\<rparr>),
                    resumed := resumed h @ map lp_conn (filter waiting (lp_list a))\<rparr>))"

definition TALER_FAKEBANK_notify_transaction :: "fakebank \<Rightarrow> tptr \<Rightarrow> fakebank outcome" where
  "TALER_FAKEBANK_notify_transaction h p =
     obind (deref (heap h) p)
       (\<lambda>t. obind (TALER_FAKEBANK_lp_trigger (\<lambda>lp. lp_kind lp = LP_DEBIT) (debit_account t) h)
         (TALER_FAKEBANK_lp_trigger (\<lambda>lp. lp_kind lp = LP_CREDIT) (credit_account t)))"

definition TALER_FAKEBANK_notify_withdrawal :: "fakebank \<Rightarrow> bytes \<Rightarrow> withdrawal_operation \<Rightarrow> fakebank outcome" where
  "TALER_FAKEBANK_notify_withdrawal h wopid wo =
     TALER_FAKEBANK_lp_trigger (\<lambda>lp. lp_kind lp = LP_WITHDRAW \<and> lp_wo lp = Some wopid)
       (wo_debit_account wo) h"

section \<open>Transfers\<close>

definition MAX_URL_LEN :: nat where
  "MAX_URL_LEN = 64"

text \<open>\<^verbatim>\<open>GNUNET_new\<close> of a transaction: a pointer not in use.\<close>

definition alloc_tx :: "fakebank \<Rightarrow> transaction \<Rightarrow> tptr \<times> fakebank" where
  "alloc_tx h t = (next_ptr h, h\<lparr>heap := (heap h)(next_ptr h \<mapsto> t), next_ptr := next_ptr h + 1\<rparr>)"

text \<open>Both accounts are looked up and created if need be.\<close>

definition lookup_pair ::
  "(string \<Rightarrow> bytes) \<Rightarrow> fakebank \<Rightarrow> string \<Rightarrow> string \<Rightarrow> (bytes \<times> bytes \<times> fakebank) outcome" where
  "lookup_pair hash h debit credit =
     obind (TALER_FAKEBANK_lookup_account hash h debit (Some debit))
       (\<lambda>(d, h1). obind (TALER_FAKEBANK_lookup_account hash h1 credit (Some credit))
         (\<lambda>(c, h2). Done (the d, the c, h2)))"

text \<open>
  The results of the transfer functions: the return value, and the row and date that were
  stored through the pointers on success. \<open>now\<close> is the time and \<open>nonce\<close> the random identifier
  drawn when the caller has none.
\<close>

type_synonym transfer_result = "generic_return \<times> (64 word \<times> 64 word) option"

text \<open>A request identifier in use: the earlier transfer is repeated or contradicted.\<close>

definition check_request_uid ::
  "fakebank \<Rightarrow> bytes \<Rightarrow> bytes \<Rightarrow> bytes \<Rightarrow> amount \<Rightarrow> bytes \<Rightarrow> transfer_result option outcome" where
  "check_request_uid h uid debit_acc credit_acc amt subj =
     (case uuid_map h uid of
        None \<Rightarrow> Done None
      | Some p \<Rightarrow>
          obind (deref (heap h) p)
            (\<lambda>t. if debit_acc \<noteq> debit_account t \<or> credit_acc \<noteq> credit_account t
                 then Done (Some (GNUNET_SYSERR, None))
                 else obind (TALER_amount_cmp amt (tx_amount t))
                   (\<lambda>c. if c \<noteq> 0 \<or> subject_type (tx_subject t) \<noteq> T_DEBIT \<or> subj \<noteq> wtid (tx_subject t)
                        then Done (Some (GNUNET_SYSERR, None))
                        else Done (Some (GNUNET_OK, Some (row_id t, tx_date t))))))"

definition TALER_FAKEBANK_make_transfer ::
  "(string \<Rightarrow> bytes) \<Rightarrow> 64 word \<Rightarrow> bytes \<Rightarrow> fakebank \<Rightarrow> string \<Rightarrow> string \<Rightarrow> amount \<Rightarrow> bytes \<Rightarrow> string
   \<Rightarrow> bytes option \<Rightarrow> (transfer_result \<times> fakebank) outcome" where
  "TALER_FAKEBANK_make_transfer hash now nonce h debit credit amt subj url uid_opt =
     gassert (strcaseeq (cstr (currency amt)) (bank_currency h))
       (gassert (length url < MAX_URL_LEN)
         (obind (lookup_pair hash h debit credit)
           (\<lambda>(d, c, h1). obind
              (case uid_opt of
                 None \<Rightarrow> Done None
               | Some uid \<Rightarrow> check_request_uid h1 uid d c amt subj)
              (\<lambda>prev. case prev of
                 Some res \<Rightarrow> Done (res, h1)
               | None \<Rightarrow>
                   let uid = (case uid_opt of None \<Rightarrow> nonce | Some u \<Rightarrow> u);
                       t = \<lparr>tx_amount = amt, debit_account = d, credit_account = c, request_uid = uid,
                            tx_date = now, row_id = 0, tx_subject = Subject_debit subj url, tx_unchecked = True\<rparr>;
                       (p, h2) = alloc_tx h1 t
                   in obind (TALER_FAKEBANK_transact h2 p)
                        (\<lambda>h3. gassert (uuid_map h3 uid = None)
                          (let h4 = h3\<lparr>uuid_map := (uuid_map h3)(uid \<mapsto> p)\<rparr>
                           in obind (deref (heap h4) p)
                                (\<lambda>t'. obind (TALER_FAKEBANK_notify_transaction h4 p)
                                  (\<lambda>h5. Done ((GNUNET_OK, Some (row_id t', now)), h5)))))))))"

definition TALER_FAKEBANK_make_admin_transfer ::
  "(string \<Rightarrow> bytes) \<Rightarrow> 64 word \<Rightarrow> fakebank \<Rightarrow> string \<Rightarrow> string \<Rightarrow> amount \<Rightarrow> bytes
   \<Rightarrow> (transfer_result \<times> fakebank) outcome" where
  "TALER_FAKEBANK_make_admin_transfer hash now h debit credit amt reserve_pub =
     gassert (strcaseeq (cstr (currency amt)) (bank_currency h))
       (obind (lookup_pair hash h debit credit)
         (\<lambda>(d, c, h1).
            if rpubs h1 reserve_pub \<noteq> None then Done ((GNUNET_NO, None), h1)
            else
              let t = \<lparr>tx_amount = amt, debit_account = d, credit_account = c, request_uid = [],
                       tx_date = now, row_id = 0, tx_subject = Subject_credit reserve_pub, tx_unchecked = True\<rparr>;
                  (p, h2) = alloc_tx h1 t;
                  h3 = h2\<lparr>rpubs := (rpubs h2)(reserve_pub \<mapsto> p)\<rparr>
              in obind (TALER_FAKEBANK_transact h3 p)
                   (\<lambda>h4. obind (deref (heap h4) p)
                     (\<lambda>t'. obind (TALER_FAKEBANK_notify_transaction h4 p)
                       (\<lambda>h5. Done ((GNUNET_OK, Some (row_id t', now)), h5))))))"

definition TALER_FAKEBANK_make_kycauth_transfer ::
  "(string \<Rightarrow> bytes) \<Rightarrow> 64 word \<Rightarrow> fakebank \<Rightarrow> string \<Rightarrow> string \<Rightarrow> amount \<Rightarrow> bytes
   \<Rightarrow> (transfer_result \<times> fakebank) outcome" where
  "TALER_FAKEBANK_make_kycauth_transfer hash now h debit credit amt acc_pub =
     gassert (strcaseeq (cstr (currency amt)) (bank_currency h))
       (obind (lookup_pair hash h debit credit)
         (\<lambda>(d, c, h1).
            let t = \<lparr>tx_amount = amt, debit_account = d, credit_account = c, request_uid = [],
                     tx_date = now, row_id = 0, tx_subject = Subject_auth acc_pub, tx_unchecked = True\<rparr>;
                (p, h2) = alloc_tx h1 t
            in obind (TALER_FAKEBANK_transact h2 p)
                 (\<lambda>h3. obind (deref (heap h3) p)
                   (\<lambda>t'. obind (TALER_FAKEBANK_notify_transaction h3 p)
                     (\<lambda>h4. Done ((GNUNET_OK, Some (row_id t', now)), h4))))))"

section \<open>Start\<close>

text \<open>\<^verbatim>\<open>TALER_FAKEBANK_start3\<close> without the HTTP server: \<open>None\<close> is the failure to start.\<close>

definition TALER_FAKEBANK_start3 :: "string \<Rightarrow> nat \<Rightarrow> string \<Rightarrow> 64 word \<Rightarrow> amount \<Rightarrow> fakebank option outcome" where
  "TALER_FAKEBANK_start3 host prt cur limit bonus =
     (if (2 ^ 64 - 1) div 8 < unat limit then Done None
      else gassert (length cur < TALER_CURRENCY_LEN)
        (if cstr (currency bonus) \<noteq> cur then Done None
         else Done (Some
           \<lparr>transactions = replicate (unat limit) None, heap = Map.empty, next_ptr = 0, rpubs = Map.empty,
            wops = None, accounts = Map.empty, uuid_map = Map.empty, signup_bonus = bonus,
            serial_counter = 0, ram_limit = limit, bank_currency = cur, hostname = host, port = prt,
            resumed = []\<rparr>)))"

definition TALER_FAKEBANK_start2 :: "nat \<Rightarrow> string \<Rightarrow> 64 word \<Rightarrow> fakebank option outcome" where
  "TALER_FAKEBANK_start2 prt cur limit =
     (let (ret, zero) = TALER_amount_set_zero cur zero_memory_amount
      in if ret \<noteq> GNUNET_OK then Done None
         else TALER_FAKEBANK_start3 ''localhost'' prt cur limit zero)"

definition TALER_FAKEBANK_start :: "nat \<Rightarrow> string \<Rightarrow> fakebank option outcome" where
  "TALER_FAKEBANK_start prt cur = TALER_FAKEBANK_start2 prt cur 65536"

end
