(* ===== verification/Fakebank_Ledger.thy ===== *)
theory Fakebank_Ledger
  imports Fakebank
begin

text \<open>
  The invariant of the bank of \<open>Fakebank\<close>: it ties the ring buffer, the store, the lists of the
  accounts and the map of request identifiers together. Shown: \<^verbatim>\<open>update_balance\<close> is exact on signed
  balances, \<^verbatim>\<open>TALER_FAKEBANK_transact_\<close> keeps the invariant, evicts the entry whose slot it takes,
  and aborts exactly when a balance leaves the range of an amount.
\<close>

section \<open>Signed balances\<close>

definition signed_balance :: "account \<Rightarrow> int" where
  "signed_balance a = (if is_negative a then - int (units (balance a)) else int (units (balance a)))"

definition good_account :: "char list \<Rightarrow> account \<Rightarrow> bool" where
  "good_account buf a \<longleftrightarrow> representable (balance a) \<and> currency (balance a) = buf"

lemma good_account_lists [simp]:
  "good_account buf (a\<lparr>out_list := xs\<rparr>) = good_account buf a"
  "good_account buf (a\<lparr>in_list := xs\<rparr>) = good_account buf a"
  "good_account buf (a\<lparr>lp_list := lps\<rparr>) = good_account buf a"
  "signed_balance (a\<lparr>out_list := xs\<rparr>) = signed_balance a"
  "signed_balance (a\<lparr>in_list := xs\<rparr>) = signed_balance a"
  "signed_balance (a\<lparr>lp_list := lps\<rparr>) = signed_balance a"
  by (simp_all add: good_account_def signed_balance_def)

definition delta :: "bool \<Rightarrow> amount \<Rightarrow> int" where
  "delta debit amt = (if debit then - int (units amt) else int (units amt))"

lemma update_balance_exact:
  assumes "good_account buf a" "representable amt" "currency amt = buf"
  shows "if \<bar>signed_balance a + delta debit amt\<bar> \<le> int max_units
         then \<exists>b n. update_balance a amt debit = Done (a\<lparr>balance := b, is_negative := n\<rparr>)
                \<and> good_account buf (a\<lparr>balance := b, is_negative := n\<rparr>)
                \<and> signed_balance (a\<lparr>balance := b, is_negative := n\<rparr>) = signed_balance a + delta debit amt
         else update_balance a amt debit = Abort"
proof -
  have rep: "representable (balance a)" "currency (balance a) = currency amt"
    using assms by (simp_all add: good_account_def)
  have le: "units (balance a) \<le> max_units" "units amt \<le> max_units"
    using rep assms(2) by (simp_all add: representable_def)
  have leg: "legal_currency buf" using assms(2,3) by (simp add: representable_def)
  show ?thesis
  proof (cases "debit = is_negative a")
    case True
    have abs: "\<bar>signed_balance a + delta debit amt\<bar> = int (units (balance a) + units amt)"
      using True by (simp add: signed_balance_def delta_def)
    have id: "a = a\<lparr>is_negative := is_negative a\<rparr>" by simp
    show ?thesis
    proof (cases "units (balance a) + units amt \<le> max_units")
      case le: True
      then have "update_balance a amt debit
          = Done (a\<lparr>balance := mk_amount buf (units (balance a) + units amt), is_negative := is_negative a\<rparr>)"
        using True add_representable [OF rep(1) assms(2) rep(2)] assms(3) rep(2)
        by (simp add: update_balance_def gassert_def)
      moreover have "signed_balance (a\<lparr>balance := mk_amount buf (units (balance a) + units amt),
          is_negative := is_negative a\<rparr>) = signed_balance a + delta debit amt"
        using le True by (simp add: signed_balance_def delta_def)
      ultimately show ?thesis
        using le leg abs
        by (simp add: good_account_def)
          (intro exI [of _ "mk_amount buf (units (balance a) + units amt)"] exI [of _ "is_negative a"],
            simp add: normal_representable)
    next
      case False
      then show ?thesis
        using True add_representable [OF rep(1) assms(2) rep(2)] abs
        by (simp add: update_balance_def gassert_def)
    qed
  next
    case False
    let ?u = "units (balance a)" and ?v = "units amt"
    have "\<bar>signed_balance a + delta debit amt\<bar> \<le> int max_units"
      using False le by (auto simp: signed_balance_def delta_def)
    moreover have "\<exists>b n. update_balance a amt debit = Done (a\<lparr>balance := b, is_negative := n\<rparr>)
        \<and> good_account buf (a\<lparr>balance := b, is_negative := n\<rparr>)
        \<and> signed_balance (a\<lparr>balance := b, is_negative := n\<rparr>) = signed_balance a + delta debit amt"
    proof (cases "?v \<le> ?u")
      case True
      then have "update_balance a amt debit
          = Done (a\<lparr>balance := mk_amount buf (?u - ?v), is_negative := is_negative a\<rparr>)"
        using False cmp_representable [OF rep(1) assms(2) rep(2)]
          subtract_representable [OF rep(1) assms(2) rep(2)] assms(3) rep(2)
        by (simp add: update_balance_def gassert_def)
      moreover have "?u - ?v \<le> max_units" using le by simp
      ultimately show ?thesis
        using False True leg
        by (intro exI [of _ "mk_amount buf (?u - ?v)"] exI [of _ "is_negative a"])
          (auto simp: good_account_def normal_representable signed_balance_def delta_def)
    next
      case lt: False
      then have "update_balance a amt debit
          = Done (a\<lparr>balance := mk_amount buf (?v - ?u), is_negative := \<not> is_negative a\<rparr>)"
        using False cmp_representable [OF rep(1) assms(2) rep(2)]
          subtract_representable [OF assms(2) rep(1) rep(2) [symmetric]] assms(3) rep(2)
        by (simp add: update_balance_def gassert_def)
      moreover have "?v - ?u \<le> max_units" using le by simp
      ultimately show ?thesis
        using False lt leg
        by (intro exI [of _ "mk_amount buf (?v - ?u)"] exI [of _ "\<not> is_negative a"])
          (auto simp: good_account_def normal_representable signed_balance_def delta_def)
    qed
    ultimately show ?thesis by simp
  qed
qed

section \<open>The invariant\<close>

definition cur_buf :: "fakebank \<Rightarrow> char list" where
  "cur_buf h = zero_padded TALER_CURRENCY_LEN (bank_currency h)"

definition is_debit :: "transaction \<Rightarrow> bool" where
  "is_debit t \<longleftrightarrow> subject_type (tx_subject t) = T_DEBIT"

text \<open>Configuration and accounts.\<close>

definition config_inv :: "fakebank \<Rightarrow> bool" where
  "config_inv h \<longleftrightarrow>
     ram_limit h \<noteq> 0 \<and> length (transactions h) = unat (ram_limit h)
     \<and> legal_currency (cur_buf h) \<and> cstr (cur_buf h) = bank_currency h
     \<and> representable (signup_bonus h) \<and> currency (signup_bonus h) = cur_buf h"

definition accounts_inv :: "fakebank \<Rightarrow> bool" where
  "accounts_inv h \<longleftrightarrow>
     finite (dom (accounts h)) \<and> (\<forall>k a. accounts h k = Some a \<longrightarrow> good_account (cur_buf h) a)"

text \<open>The ring buffer and the store point to the same transactions, each at the slot of its row.\<close>

definition ring_inv :: "fakebank \<Rightarrow> bool" where
  "ring_inv h \<longleftrightarrow>
     (\<forall>i p. i < length (transactions h) \<longrightarrow> transactions h ! i = Some p \<longrightarrow>
        (\<exists>t. heap h p = Some t \<and> unat (row_id t) mod length (transactions h) = i))
     \<and> (\<forall>p t. heap h p = Some t \<longrightarrow> Some p \<in> set (transactions h))
     \<and> (\<forall>p. next_ptr h \<le> p \<longrightarrow> heap h p = None)"

text \<open>The lists of the accounts hold the transactions of the store.\<close>

definition lists_inv :: "fakebank \<Rightarrow> bool" where
  "lists_inv h \<longleftrightarrow>
     (\<forall>p t. heap h p = Some t \<longrightarrow> accounts h (debit_account t) \<noteq> None \<and> accounts h (credit_account t) \<noteq> None
        \<and> representable (tx_amount t) \<and> currency (tx_amount t) = cur_buf h)
     \<and> (\<forall>k a. accounts h k = Some a \<longrightarrow>
          distinct (out_list a) \<and> set (out_list a) = {p. \<exists>t. heap h p = Some t \<and> debit_account t = k}
          \<and> distinct (in_list a) \<and> set (in_list a) = {p. \<exists>t. heap h p = Some t \<and> credit_account t = k})"

text \<open>The map of request identifiers holds exactly the debits of the store.\<close>

definition uuid_inv :: "fakebank \<Rightarrow> bool" where
  "uuid_inv h \<longleftrightarrow>
     (\<forall>u p. uuid_map h u = Some p \<longleftrightarrow> (\<exists>t. heap h p = Some t \<and> is_debit t \<and> request_uid t = u))"

definition bank_inv :: "fakebank \<Rightarrow> bool" where
  "bank_inv h \<longleftrightarrow> config_inv h \<and> accounts_inv h \<and> ring_inv h \<and> lists_inv h \<and> uuid_inv h"

lemmas bank_inv_defs = bank_inv_def config_inv_def accounts_inv_def ring_inv_def lists_inv_def uuid_inv_def

section \<open>One transaction\<close>

text \<open>
  How \<^verbatim>\<open>TALER_FAKEBANK_transact_\<close> changes an account: the new transaction is appended to the lists
  of its accounts, the old one of the slot disappears, and the balances move.
\<close>

definition moved :: "tptr \<Rightarrow> tptr option \<Rightarrow> bytes \<Rightarrow> bytes \<Rightarrow> amount \<Rightarrow> bytes \<Rightarrow> account \<Rightarrow> account \<Rightarrow> bool" where
  "moved p old d c amt k a a' \<longleftrightarrow>
     out_list a' = filter (\<lambda>q. Some q \<noteq> old) (out_list a @ (if k = d then [p] else []))
     \<and> in_list a' = filter (\<lambda>q. Some q \<noteq> old) (in_list a @ (if k = c then [p] else []))
     \<and> signed_balance a' = signed_balance a + (if k = d then delta True amt else 0)
                                            + (if k = c then delta False amt else 0)
     \<and> lp_list a' = lp_list a \<and> account_name a' = account_name a \<and> receiver_name a' = receiver_name a
     \<and> payto_uri a' = payto_uri a \<and> password a' = password a"

definition accounts_moved ::
  "char list \<Rightarrow> tptr \<Rightarrow> tptr option \<Rightarrow> bytes \<Rightarrow> bytes \<Rightarrow> amount \<Rightarrow> (bytes \<rightharpoonup> account) \<Rightarrow> (bytes \<rightharpoonup> account) \<Rightarrow> bool" where
  "accounts_moved buf p old d c amt m m' \<longleftrightarrow>
     (\<forall>k. m' k = None \<longleftrightarrow> m k = None)
     \<and> (\<forall>k a. m k = Some a \<longrightarrow> (\<exists>a'. m' k = Some a' \<and> good_account buf a' \<and> moved p old d c amt k a a'))"

lemma accounts_moved_None: "accounts_moved buf p old d c amt m m' \<Longrightarrow> m' k = None \<longleftrightarrow> m k = None"
  by (simp add: accounts_moved_def)

lemma accounts_moved_dom: "accounts_moved buf p old d c amt m m' \<Longrightarrow> dom m' = dom m"
  by (simp add: accounts_moved_def dom_def)

lemma accounts_moved_Some:
  assumes "accounts_moved buf p old d c amt m m'" "m k = Some a"
  obtains a' where "m' k = Some a'" "good_account buf a'" "moved p old d c amt k a a'"
  using assms unfolding accounts_moved_def by blast

lemma accounts_moved_back:
  assumes "accounts_moved buf p old d c amt m m'" "m' k = Some a'"
  obtains a where "m k = Some a" "good_account buf a'" "moved p old d c amt k a a'"
proof -
  obtain a where a: "m k = Some a" using assms accounts_moved_None [OF assms(1), of k] by fastforce
  with assms(1) show ?thesis by (elim accounts_moved_Some) (use assms(2) that a in auto)
qed

text \<open>The range condition of a move.\<close>

definition in_range :: "fakebank \<Rightarrow> bytes \<Rightarrow> bytes \<Rightarrow> amount \<Rightarrow> bool" where
  "in_range h d c amt \<longleftrightarrow>
     (\<forall>a. accounts h d = Some a \<longrightarrow> \<bar>signed_balance a + delta True amt\<bar> \<le> int max_units)
     \<and> (d \<noteq> c \<longrightarrow> (\<forall>a. accounts h c = Some a \<longrightarrow> \<bar>signed_balance a + delta False amt\<bar> \<le> int max_units))"

lemma with_account_Done:
  "accounts h k = Some a \<Longrightarrow> f a = Done a' \<Longrightarrow>
   with_account k f h = Done (h\<lparr>accounts := (accounts h)(k \<mapsto> a')\<rparr>)"
  by (simp add: with_account_def)

lemma with_account_Abort: "accounts h k = Some a \<Longrightarrow> f a = Abort \<Longrightarrow> with_account k f h = Abort"
  by (simp add: with_account_def)

lemma filter_id: "x \<notin> set xs \<Longrightarrow> filter (\<lambda>y. y \<noteq> x) xs = xs"
  by (auto simp: filter_id_conv)

lemma remove1_filter: "distinct xs \<Longrightarrow> remove1 x xs = filter (\<lambda>y. y \<noteq> x) xs"
  by (induction xs) (auto simp: filter_id)

lemma two_balances:
  assumes acc: "accounts h d = Some ad" "accounts h c = Some ac"
    and goods: "\<forall>k a. accounts h k = Some a \<longrightarrow> good_account buf a"
    and amt: "representable amt" "currency amt = buf"
  shows "if in_range h d c amt
         then \<exists>m. obind (with_account d (\<lambda>a. update_balance (a\<lparr>out_list := out_list a @ [p]\<rparr>) amt True) h)
                    (with_account c (\<lambda>a. update_balance (a\<lparr>in_list := in_list a @ [p]\<rparr>) amt False))
                  = Done (h\<lparr>accounts := m\<rparr>)
              \<and> accounts_moved buf p None d c amt (accounts h) m
         else obind (with_account d (\<lambda>a. update_balance (a\<lparr>out_list := out_list a @ [p]\<rparr>) amt True) h)
                (with_account c (\<lambda>a. update_balance (a\<lparr>in_list := in_list a @ [p]\<rparr>) amt False)) = Abort"
    (is "if ?R then \<exists>m. ?run = Done _ \<and> _ else ?run = Abort")
proof -
  have good: "accounts h k = Some a \<Longrightarrow> good_account buf a" for k a using goods by blast
  let ?F = "\<lambda>a. update_balance (a\<lparr>out_list := out_list a @ [p]\<rparr>) amt True"
    and ?G = "\<lambda>a. update_balance (a\<lparr>in_list := in_list a @ [p]\<rparr>) amt False"
  have gd: "good_account buf (ad\<lparr>out_list := out_list ad @ [p]\<rparr>)" using good [OF acc(1)] by simp
  note D = update_balance_exact [OF gd amt, of True]
  show ?thesis
  proof (cases "\<bar>signed_balance ad + delta True amt\<bar> \<le> int max_units")
    case False
    then have "?F ad = Abort" using D by simp
    then have "?run = Abort" using with_account_Abort [of h d ad ?F] acc(1) by simp
    moreover have "\<not> ?R" using False acc(1) by (simp add: in_range_def)
    ultimately show ?thesis by simp
  next
    case True
    then obtain b n where a1: "?F ad = Done (ad\<lparr>out_list := out_list ad @ [p], balance := b, is_negative := n\<rparr>)"
      "good_account buf (ad\<lparr>out_list := out_list ad @ [p], balance := b, is_negative := n\<rparr>)"
      "signed_balance (ad\<lparr>out_list := out_list ad @ [p], balance := b, is_negative := n\<rparr>)
       = signed_balance ad + delta True amt"
      using D by auto
    define a1 where "a1 = ad\<lparr>out_list := out_list ad @ [p], balance := b, is_negative := n\<rparr>"
    note a1 = a1 [folded a1_def]
    define h1 where "h1 = h\<lparr>accounts := (accounts h)(d \<mapsto> a1)\<rparr>"
    have run: "?run = with_account c ?G h1"
      using with_account_Done [of h d ad ?F a1] acc(1) a1(1) by (simp add: h1_def)
    define a2 where "a2 = (if c = d then a1 else ac)"
    have c1: "accounts h1 c = Some a2" using acc(2) by (simp add: h1_def a2_def)
    have g2: "good_account buf (a2\<lparr>in_list := in_list a2 @ [p]\<rparr>)"
      using a1(2) good [OF acc(2)] by (simp add: a2_def)
    note C = update_balance_exact [OF g2 amt, of False]
    have Riff: "?R \<longleftrightarrow> \<bar>signed_balance a2 + delta False amt\<bar> \<le> int max_units"
    proof (cases "c = d")
      case True
      have "\<bar>signed_balance ad\<bar> \<le> int max_units"
        using good [OF acc(1)] by (simp add: signed_balance_def good_account_def representable_def)
      then have "\<bar>signed_balance a2 + delta False amt\<bar> \<le> int max_units"
        using a1(3) True by (simp add: a2_def delta_def)
      with True \<open>\<bar>signed_balance ad + delta True amt\<bar> \<le> int max_units\<close> acc show ?thesis
        by (simp add: in_range_def)
    next
      case False
      with acc \<open>\<bar>signed_balance ad + delta True amt\<bar> \<le> int max_units\<close> show ?thesis
        by (auto simp: in_range_def a2_def)
    qed
    show ?thesis
    proof (cases ?R)
      case False
      then have "?G a2 = Abort" using C Riff by simp
      then show ?thesis using run with_account_Abort [OF c1, of ?G] False by simp
    next
      case R: True
      then obtain b' n' where
        a3: "?G a2 = Done (a2\<lparr>in_list := in_list a2 @ [p], balance := b', is_negative := n'\<rparr>)"
        "good_account buf (a2\<lparr>in_list := in_list a2 @ [p], balance := b', is_negative := n'\<rparr>)"
        "signed_balance (a2\<lparr>in_list := in_list a2 @ [p], balance := b', is_negative := n'\<rparr>)
         = signed_balance a2 + delta False amt"
        using C Riff by auto
      define a3 where "a3 = a2\<lparr>in_list := in_list a2 @ [p], balance := b', is_negative := n'\<rparr>"
      note a3 = a3 [folded a3_def]
      let ?m = "(accounts h)(d \<mapsto> a1, c \<mapsto> a3)"
      have "?run = Done (h\<lparr>accounts := ?m\<rparr>)"
        using run with_account_Done [OF c1, of ?G, OF a3(1)] by (simp add: h1_def)
      moreover have "\<forall>k. ?m k = None \<longleftrightarrow> accounts h k = None" using acc by auto
      moreover have "\<exists>a'. ?m k = Some a' \<and> good_account buf a' \<and> moved p None d c amt k a a'"
        if k: "accounts h k = Some a" for k a
      proof -
        consider "k = c" | "k \<noteq> c" "k = d" | "k \<noteq> c" "k \<noteq> d" by blast
        then show ?thesis
        proof cases
          case 1
          with k acc a1(3) a3 show ?thesis
            by (cases "c = d") (auto simp: moved_def a1_def a2_def a3_def)
        next
          case 2
          with k acc a1 show ?thesis by (auto simp: moved_def a1_def)
        next
          case 3
          with k good [OF k] show ?thesis by (auto simp: moved_def)
        qed
      qed
      ultimately show ?thesis using R by (auto simp: accounts_moved_def intro!: exI [of _ ?m])
    qed
  qed
qed

text \<open>Removing the old entry of a slot filters it out of all lists.\<close>

definition unlinked :: "tptr \<Rightarrow> account \<Rightarrow> account" where
  "unlinked q a = a\<lparr>out_list := filter (\<lambda>x. x \<noteq> q) (out_list a), in_list := filter (\<lambda>x. x \<noteq> q) (in_list a)\<rparr>"

lemma evict_Some:
  assumes q: "heap h q = Some t" and acc: "accounts h (debit_account t) \<noteq> None" "accounts h (credit_account t) \<noteq> None"
    and listss: "\<forall>k a. accounts h k = Some a \<longrightarrow> distinct (out_list a) \<and> distinct (in_list a)
          \<and> (q \<in> set (out_list a) \<longrightarrow> k = debit_account t) \<and> (q \<in> set (in_list a) \<longrightarrow> k = credit_account t)"
    and uid: "is_debit t \<Longrightarrow> uuid_map h (request_uid t) = Some q"
  shows "evict (Some q) h = Done (h\<lparr>accounts := (\<lambda>k. map_option (unlinked q) (accounts h k)),
           uuid_map := (if is_debit t then (uuid_map h)(request_uid t := None) else uuid_map h),
           heap := (heap h)(q := None)\<rparr>)"
proof -
  have lists: "distinct (out_list a) \<and> distinct (in_list a)
      \<and> (q \<in> set (out_list a) \<longrightarrow> k = debit_account t) \<and> (q \<in> set (in_list a) \<longrightarrow> k = credit_account t)"
    if "accounts h k = Some a" for k a using listss that by blast
  let ?d = "debit_account t" and ?c = "credit_account t"
  obtain ad where ad: "accounts h ?d = Some ad" using acc(1) by blast
  define m1 where "m1 = (accounts h)(?d \<mapsto> ad\<lparr>out_list := remove1 q (out_list ad)\<rparr>)"
  obtain ac where ac: "m1 ?c = Some ac" using acc(2) by (cases "?c = ?d") (auto simp: m1_def)
  define m2 where "m2 = m1(?c \<mapsto> ac\<lparr>in_list := remove1 q (in_list ac)\<rparr>)"
  have m2: "m2 = (\<lambda>k. map_option (unlinked q) (accounts h k))"
  proof
    fix k
    show "m2 k = map_option (unlinked q) (accounts h k)"
    proof (cases "accounts h k")
      case None
      then show ?thesis using ac ad by (auto simp: m2_def m1_def split: if_splits)
    next
      case (Some a)
      have f: "filter (\<lambda>x. x \<noteq> q) (out_list a) = (if k = ?d then remove1 q (out_list a) else out_list a)"
        "filter (\<lambda>x. x \<noteq> q) (in_list a) = (if k = ?c then remove1 q (in_list a) else in_list a)"
        using lists [OF Some] by (auto simp: remove1_filter filter_id)
      show ?thesis
        using Some ac ad by (auto simp: m2_def m1_def unlinked_def f split: if_splits)
    qed
  qed
  have "with_account ?d (\<lambda>a. Done (a\<lparr>out_list := remove1 q (out_list a)\<rparr>)) h = Done (h\<lparr>accounts := m1\<rparr>)"
    using with_account_Done [OF ad] by (simp add: m1_def)
  moreover have "with_account ?c (\<lambda>a. Done (a\<lparr>in_list := remove1 q (in_list a)\<rparr>)) (h\<lparr>accounts := m1\<rparr>)
      = Done (h\<lparr>accounts := m2\<rparr>)"
    using with_account_Done [of "h\<lparr>accounts := m1\<rparr>" ?c ac] ac by (simp add: m2_def)
  ultimately show ?thesis
    using q uid by (simp add: evict_def m2 is_debit_def)
qed

text \<open>
  The state in which \<^verbatim>\<open>TALER_FAKEBANK_transact_\<close> is called: one new transaction, not yet linked
  anywhere, has been allocated in a state that satisfies the invariant.
\<close>

definition fresh_tx :: "fakebank \<Rightarrow> fakebank \<Rightarrow> tptr \<Rightarrow> transaction \<Rightarrow> bool" where
  "fresh_tx h0 h p t \<longleftrightarrow>
     p = next_ptr h0 \<and> heap h = (heap h0)(p \<mapsto> t) \<and> next_ptr h = Suc p
     \<and> transactions h = transactions h0 \<and> accounts h = accounts h0 \<and> uuid_map h = uuid_map h0
     \<and> ram_limit h = ram_limit h0 \<and> bank_currency h = bank_currency h0 \<and> signup_bonus h = signup_bonus h0
     \<and> serial_counter h = serial_counter h0"

definition slot_of :: "fakebank \<Rightarrow> nat" where
  "slot_of h = unat ((serial_counter h + 1) mod ram_limit h)"

definition old_of :: "fakebank \<Rightarrow> tptr option" where
  "old_of h = transactions h ! slot_of h"

text \<open>The map of request identifiers after the old entry of the slot is gone.\<close>

definition uuid_after :: "fakebank \<Rightarrow> bytes \<rightharpoonup> tptr" where
  "uuid_after h = (\<lambda>u. if uuid_map h u = old_of h then None else uuid_map h u)"

definition after_transact :: "fakebank \<Rightarrow> tptr \<Rightarrow> transaction \<Rightarrow> (bytes \<rightharpoonup> account) \<Rightarrow> fakebank" where
  "after_transact h p t m = h\<lparr>
     serial_counter := serial_counter h + 1,
     transactions := (transactions h)[slot_of h := Some p],
     heap := (\<lambda>q. if Some q = old_of h then None else ((heap h)(p \<mapsto> t\<lparr>row_id := serial_counter h + 1\<rparr>)) q),
     uuid_map := uuid_after h, accounts := m\<rparr>"

lemma slot_less: "config_inv h \<Longrightarrow> slot_of h < length (transactions h)"
  unfolding config_inv_def slot_of_def by (simp add: unat_mod) (metis mod_less_divisor unat_gt_0)

lemma old_entry:
  assumes inv: "bank_inv h" and old: "old_of h = Some q"
  obtains t where "heap h q = Some t" "q < next_ptr h"
    "accounts h (debit_account t) \<noteq> None" "accounts h (credit_account t) \<noteq> None"
    "uuid_after h = (if is_debit t then (uuid_map h)(request_uid t := None) else uuid_map h)"
    "is_debit t \<Longrightarrow> uuid_map h (request_uid t) = Some q"
proof -
  have i: "config_inv h" "ring_inv h" "lists_inv h" "uuid_inv h" using inv by (simp_all add: bank_inv_def)
  obtain t where t: "heap h q = Some t"
    using i(2) slot_less [OF i(1)] old unfolding ring_inv_def old_of_def by blast
  have "q < next_ptr h" using t i(2) unfolding ring_inv_def by (metis not_le option.distinct(1))
  moreover have "uuid_after h = (if is_debit t then (uuid_map h)(request_uid t := None) else uuid_map h)"
    using i(4) t old by (auto simp: uuid_after_def uuid_inv_def fun_eq_iff)
  ultimately show ?thesis
    using that [OF t] i(3,4) t by (auto simp: lists_inv_def uuid_inv_def)
qed

text \<open>Where the lists stand after the two balance updates, with the old entry still linked.\<close>

lemma moved_lists:
  assumes inv: "bank_inv h" and acc: "accounts h k = Some a" and mv: "moved (next_ptr h) None d c amt k a a'"
  shows "distinct (out_list a') \<and> distinct (in_list a')"
    and "heap h q = Some t \<Longrightarrow> q \<in> set (out_list a') \<Longrightarrow> k = debit_account t"
    and "heap h q = Some t \<Longrightarrow> q \<in> set (in_list a') \<Longrightarrow> k = credit_account t"
proof -
  have i: "ring_inv h" "lists_inv h" using inv by (simp_all add: bank_inv_def)
  have new: "heap h (next_ptr h) = None" using i(1) by (simp add: ring_inv_def)
  then have "next_ptr h \<notin> set (out_list a)" "next_ptr h \<notin> set (in_list a)"
    using i(2) acc by (auto simp: lists_inv_def)
  then show "distinct (out_list a') \<and> distinct (in_list a')"
    "heap h q = Some t \<Longrightarrow> q \<in> set (out_list a') \<Longrightarrow> k = debit_account t"
    "heap h q = Some t \<Longrightarrow> q \<in> set (in_list a') \<Longrightarrow> k = credit_account t"
    using mv i(2) acc new by (auto simp: moved_def lists_inv_def split: if_splits)
qed

lemma evict_moved:
  assumes inv: "bank_inv h0" and new: "fresh_tx h0 h p t"
    and m: "accounts_moved (cur_buf h0) p None d c amt (accounts h0) m"
    and h1: "h1 = h\<lparr>serial_counter := serial_counter h + 1, transactions := (transactions h)[slot_of h := Some p],
       heap := (heap h)(p \<mapsto> t\<lparr>row_id := serial_counter h + 1\<rparr>)\<rparr>"
  shows "\<exists>m'. evict (old_of h) (h1\<lparr>accounts := m\<rparr>) = Done (after_transact h p t m')
          \<and> accounts_moved (cur_buf h0) p (old_of h) d c amt (accounts h0) m'"
proof (cases "old_of h")
  case None
  have "h1\<lparr>accounts := m\<rparr> = after_transact h p t m"
    by (rule fakebank.equality) (auto simp: None h1 after_transact_def uuid_after_def fun_eq_iff)
  then show ?thesis using m None by (auto simp: evict_def)
next
  case (Some q)
  note fr = new [unfolded fresh_tx_def]
  have old: "old_of h0 = Some q" "uuid_after h = uuid_after h0"
    using Some fr by (auto simp: old_of_def slot_of_def uuid_after_def fun_eq_iff)
  obtain tq where tq: "heap h0 q = Some tq" "q < next_ptr h0"
    "accounts h0 (debit_account tq) \<noteq> None" "accounts h0 (credit_account tq) \<noteq> None"
    "uuid_after h0 = (if is_debit tq then (uuid_map h0)(request_uid tq := None) else uuid_map h0)"
    "is_debit tq \<Longrightarrow> uuid_map h0 (request_uid tq) = Some q"
    using old_entry [OF inv old(1)] by blast
  have m2: "m k = None \<longleftrightarrow> accounts h0 k = None" for k using m by (simp add: accounts_moved_def)
  let ?h = "h1\<lparr>accounts := m\<rparr>"
  have lists: "\<forall>k a'. accounts ?h k = Some a' \<longrightarrow> distinct (out_list a') \<and> distinct (in_list a')
      \<and> (q \<in> set (out_list a') \<longrightarrow> k = debit_account tq) \<and> (q \<in> set (in_list a') \<longrightarrow> k = credit_account tq)"
  proof (intro allI impI)
    fix k a' assume k: "accounts ?h k = Some a'"
    then have "m k = Some a'" by simp
    then obtain a where a: "accounts h0 k = Some a" "moved (next_ptr h0) None d c amt k a a'"
      using m fr by (auto elim: accounts_moved_back)
    from moved_lists [OF inv a] tq(1)
    show "distinct (out_list a') \<and> distinct (in_list a')
      \<and> (q \<in> set (out_list a') \<longrightarrow> k = debit_account tq) \<and> (q \<in> set (in_list a') \<longrightarrow> k = credit_account tq)"
      by blast
  qed
  have ev: "evict (Some q) ?h = Done (?h\<lparr>accounts := (\<lambda>k. map_option (unlinked q) (accounts ?h k)),
      uuid_map := (if is_debit tq then (uuid_map ?h)(request_uid tq := None) else uuid_map ?h),
      heap := (heap ?h)(q := None)\<rparr>)"
    using tq m2 fr by (intro evict_Some [OF _ _ _ lists]) (auto simp: h1)
  have "\<dots> = Done (after_transact h p t (\<lambda>k. map_option (unlinked q) (m k)))"
    by (rule arg_cong [where f = Done], rule fakebank.equality)
      (use tq(5) old(2) Some fr in \<open>auto simp: h1 after_transact_def fun_eq_iff\<close>)
  moreover have "accounts_moved (cur_buf h0) p (Some q) d c amt (accounts h0) (\<lambda>k. map_option (unlinked q) (m k))"
    using m unfolding accounts_moved_def by (fastforce simp: moved_def unlinked_def)
  ultimately show ?thesis using ev Some by auto
qed

lemma transact_spec:
  assumes inv: "bank_inv h0" and new: "fresh_tx h0 h p t"
    and acc: "accounts h0 (debit_account t) \<noteq> None" "accounts h0 (credit_account t) \<noteq> None"
    and amt: "representable (tx_amount t)" "currency (tx_amount t) = cur_buf h0"
  shows "if in_range h0 (debit_account t) (credit_account t) (tx_amount t)
         then \<exists>m. TALER_FAKEBANK_transact h p = Done (after_transact h p t m)
              \<and> accounts_moved (cur_buf h0) p (old_of h) (debit_account t) (credit_account t) (tx_amount t)
                  (accounts h0) m
         else TALER_FAKEBANK_transact h p = Abort"
proof -
  let ?row = "serial_counter h + 1" and ?d = "debit_account t" and ?c = "credit_account t"
  define h1 where "h1 = h\<lparr>serial_counter := ?row, transactions := (transactions h)[slot_of h := Some p],
     heap := (heap h)(p \<mapsto> t\<lparr>row_id := ?row\<rparr>)\<rparr>"
  note fr = new [unfolded fresh_tx_def]
  have h0: "config_inv h0" "accounts_inv h0" using inv by (simp_all add: bank_inv_def)
  have slot: "slot_of h < length (transactions h)" "ram_limit h \<noteq> 0"
    using slot_less [OF h0(1)] fr h0(1) by (simp_all add: slot_of_def config_inv_def)
  have run: "TALER_FAKEBANK_transact h p =
      obind (obind (with_account ?d (\<lambda>a. update_balance (a\<lparr>out_list := out_list a @ [p]\<rparr>) (tx_amount t) True) h1)
        (with_account ?c (\<lambda>a. update_balance (a\<lparr>in_list := in_list a @ [p]\<rparr>) (tx_amount t) False)))
      (evict (old_of h))"
    using fr slot by (simp add: TALER_FAKEBANK_transact_def Let_def h1_def slot_of_def old_of_def obind_assoc)
  have acc1: "accounts h1 = accounts h0" using fr by (simp add: h1_def)
  obtain ad ac where da: "accounts h1 ?d = Some ad" "accounts h1 ?c = Some ac" using acc acc1 by auto
  have good: "\<forall>k a. accounts h1 k = Some a \<longrightarrow> good_account (cur_buf h0) a"
    using h0(2) acc1 by (simp add: accounts_inv_def)
  have range: "in_range h1 ?d ?c (tx_amount t) = in_range h0 ?d ?c (tx_amount t)"
    using acc1 by (simp add: in_range_def)
  note two = two_balances [where p = p, OF da good amt, unfolded range acc1]
  show ?thesis
  proof (cases "in_range h0 ?d ?c (tx_amount t)")
    case False
    then show ?thesis using two run by simp
  next
    case True
    then obtain m where m: "TALER_FAKEBANK_transact h p = evict (old_of h) (h1\<lparr>accounts := m\<rparr>)"
      "accounts_moved (cur_buf h0) p None ?d ?c (tx_amount t) (accounts h0) m"
      using two run by auto
    from evict_moved [OF inv new m(2) h1_def] m(1) True show ?thesis by auto
  qed
qed

section \<open>The invariant is kept\<close>

text \<open>The new entry of the map of request identifiers is made after the transaction.\<close>

definition registered :: "fakebank \<Rightarrow> tptr \<Rightarrow> transaction \<Rightarrow> (bytes \<rightharpoonup> account) \<Rightarrow> fakebank" where
  "registered h p t m = (after_transact h p t m)\<lparr>uuid_map :=
     (if is_debit t then (uuid_after h)(request_uid t \<mapsto> p) else uuid_after h)\<rparr>"

lemma registered_sel:
  "transactions (registered h p t m) = (transactions h)[slot_of h := Some p]"
  "heap (registered h p t m) =
     (\<lambda>q. if Some q = old_of h then None else ((heap h)(p \<mapsto> t\<lparr>row_id := serial_counter h + 1\<rparr>)) q)"
  "accounts (registered h p t m) = m"
  "next_ptr (registered h p t m) = next_ptr h"
  "uuid_map (registered h p t m) = (if is_debit t then (uuid_after h)(request_uid t \<mapsto> p) else uuid_after h)"
  "ram_limit (registered h p t m) = ram_limit h" "bank_currency (registered h p t m) = bank_currency h"
  "signup_bonus (registered h p t m) = signup_bonus h" "rpubs (registered h p t m) = rpubs h"
  "wops (registered h p t m) = wops h" "serial_counter (registered h p t m) = serial_counter h + 1"
  "hostname (registered h p t m) = hostname h"
  by (simp_all add: registered_def after_transact_def)

lemma new_not_old: "bank_inv h0 \<Longrightarrow> fresh_tx h0 h p t \<Longrightarrow> Some p \<noteq> old_of h"
proof
  assume "bank_inv h0" "fresh_tx h0 h p t" "Some p = old_of h"
  then have "old_of h0 = Some (next_ptr h0)"
    by (auto simp: fresh_tx_def old_of_def slot_of_def)
  with \<open>bank_inv h0\<close> obtain t where "next_ptr h0 < next_ptr h0" by (elim old_entry) auto
  then show False by simp
qed

lemma registered_ring:
  assumes inv: "bank_inv h0" and new: "fresh_tx h0 h p t"
  shows "ring_inv (registered h p t m)"
proof -
  note fr = new [unfolded fresh_tx_def]
  have i: "config_inv h0" "ring_inv h0" using inv by (simp_all add: bank_inv_def)
  let ?n = "length (transactions h0)" and ?s = "slot_of h"
  have s: "?s < ?n" using slot_less [OF i(1)] fr by (simp add: slot_of_def)
  have row: "unat (serial_counter h + 1) mod ?n = ?s"
    using i(1) fr by (simp add: slot_of_def config_inv_def unat_mod)
  have po: "Some p \<noteq> old_of h" by (rule new_not_old [OF inv new])
  have old: "old_of h = transactions h0 ! ?s" using fr by (simp add: old_of_def)
  have R: "\<exists>t. heap h0 q = Some t \<and> unat (row_id t) mod ?n = j" if "j < ?n" "transactions h0 ! j = Some q" for j q
    using i(2) that by (simp add: ring_inv_def)
  have inj: "j = ?s" if "j < ?n" "transactions h0 ! j = Some q" "old_of h = Some q" for j q
    using R [OF that(1,2)] R [OF s, of q] that(3) old by auto
  have newp: "heap h0 p = None" using i(2) fr by (simp add: ring_inv_def)
  have "\<exists>t'. heap (registered h p t m) q = Some t' \<and> unat (row_id t') mod ?n = j"
    if "j < ?n" "(transactions h0)[?s := Some p] ! j = Some q" for j q
  proof (cases "j = ?s")
    case True
    then show ?thesis using that s po row by (auto simp: registered_sel)
  next
    case False
    then have q: "transactions h0 ! j = Some q" using that by simp
    have "Some q \<noteq> old_of h" using inj [OF that(1) q] False by auto
    moreover have "q \<noteq> p" using R [OF that(1) q] newp by auto
    ultimately show ?thesis using R [OF that(1) q] fr by (auto simp: registered_sel)
  qed
  moreover have "Some q \<in> set ((transactions h0)[?s := Some p])"
    if hq: "heap (registered h p t m) q = Some t'" for q t'
  proof (cases "q = p")
    case True
    then show ?thesis using s by (simp add: set_update_memI)
  next
    case False
    with hq have q: "heap h0 q = Some t'" "Some q \<noteq> transactions h0 ! ?s"
      using fr old by (auto simp: registered_sel split: if_splits)
    then have "Some q \<in> set (transactions h0)" using i(2) unfolding ring_inv_def by blast
    then obtain j where "j < ?n" "transactions h0 ! j = Some q" by (auto simp: in_set_conv_nth)
    moreover from this q have "j \<noteq> ?s" by auto
    ultimately show ?thesis by (metis length_list_update nth_list_update_neq nth_mem)
  qed
  moreover have "heap (registered h p t m) q = None" if "next_ptr h \<le> q" for q
    using i(2) fr that by (auto simp: registered_sel ring_inv_def)
  ultimately show ?thesis using fr by (simp add: ring_inv_def registered_sel(1,4))
qed

lemma registered_lists:
  assumes inv: "bank_inv h0" and new: "fresh_tx h0 h p t"
    and acc: "accounts h0 (debit_account t) \<noteq> None" "accounts h0 (credit_account t) \<noteq> None"
    and amt: "representable (tx_amount t)" "currency (tx_amount t) = cur_buf h0"
    and mv: "accounts_moved (cur_buf h0) p (old_of h) (debit_account t) (credit_account t) amt (accounts h0) m"
  shows "lists_inv (registered h p t m)"
proof -
  note fr = new [unfolded fresh_tx_def]
  have i: "ring_inv h0" "lists_inv h0" using inv by (simp_all add: bank_inv_def)
  have po: "Some p \<noteq> old_of h" by (rule new_not_old [OF inv new])
  have newp: "heap h0 p = None" using i(1) fr by (simp add: ring_inv_def)
  have dom: "m k = None \<longleftrightarrow> accounts h0 k = None" for k using mv by (simp add: accounts_moved_def)
  have heap: "heap (registered h p t m) q = Some t' \<longleftrightarrow> Some q \<noteq> old_of h
      \<and> (if q = p then t' = t\<lparr>row_id := serial_counter h + 1\<rparr> else heap h0 q = Some t')" for q t'
    using fr by (auto simp: registered_sel)
  have cur: "cur_buf (registered h p t m) = cur_buf h0" using fr by (simp add: cur_buf_def registered_sel)
  have "m (debit_account t') \<noteq> None \<and> m (credit_account t') \<noteq> None
      \<and> representable (tx_amount t') \<and> currency (tx_amount t') = cur_buf h0"
    if "heap (registered h p t m) q = Some t'" for q t'
    using that acc amt i(2) dom by (auto simp: heap lists_inv_def split: if_splits)
  moreover have "distinct (out_list a') \<and> set (out_list a') = {q. \<exists>t'. heap (registered h p t m) q = Some t' \<and> debit_account t' = k}
      \<and> distinct (in_list a') \<and> set (in_list a') = {q. \<exists>t'. heap (registered h p t m) q = Some t' \<and> credit_account t' = k}"
    if k: "m k = Some a'" for k a'
  proof -
    obtain a where a: "accounts h0 k = Some a"
      and mv': "moved p (old_of h) (debit_account t) (credit_account t) amt k a a'"
      using mv k by (elim accounts_moved_back)
    have L: "distinct (out_list a)" "set (out_list a) = {q. \<exists>t. heap h0 q = Some t \<and> debit_account t = k}"
      "distinct (in_list a)" "set (in_list a) = {q. \<exists>t. heap h0 q = Some t \<and> credit_account t = k}"
      using i(2) a by (simp_all add: lists_inv_def)
    then have "p \<notin> set (out_list a)" "p \<notin> set (in_list a)" using newp by auto
    then show ?thesis
      using mv' L po newp unfolding moved_def heap by (auto split: if_splits)
  qed
  ultimately show ?thesis by (simp add: lists_inv_def registered_sel(3) cur)
qed

lemma registered_uuid:
  assumes inv: "bank_inv h0" and new: "fresh_tx h0 h p t"
    and uid: "is_debit t \<Longrightarrow> uuid_after h (request_uid t) = None"
  shows "uuid_inv (registered h p t m)"
proof -
  note fr = new [unfolded fresh_tx_def]
  have i: "ring_inv h0" "uuid_inv h0" using inv by (simp_all add: bank_inv_def)
  have po: "Some p \<noteq> old_of h" by (rule new_not_old [OF inv new])
  have newp: "heap h0 p = None" using i(1) fr by (simp add: ring_inv_def)
  have "uuid_after h u = Some q \<longleftrightarrow> Some q \<noteq> old_of h \<and> uuid_map h0 u = Some q" for u q
    using fr by (auto simp: uuid_after_def)
  then have after: "uuid_after h u = Some q \<longleftrightarrow> Some q \<noteq> old_of h
      \<and> (\<exists>t. heap h0 q = Some t \<and> is_debit t \<and> request_uid t = u)" for u q
    using i(2) unfolding uuid_inv_def by blast
  have [simp]: "is_debit (t\<lparr>row_id := r\<rparr>) = is_debit t" for r by (simp add: is_debit_def)
  have clash: "Some q = old_of h"
    if "is_debit t" "heap h0 q = Some t'" "is_debit t'" "request_uid t' = request_uid t" for q t'
    using uid [OF that(1)] after [of "request_uid t" q] that by auto
  show ?thesis
    unfolding uuid_inv_def registered_sel
    using clash po newp fr after by (auto split: if_splits)
qed

lemma registered_inv:
  assumes inv: "bank_inv h0" and new: "fresh_tx h0 h p t"
    and acc: "accounts h0 (debit_account t) \<noteq> None" "accounts h0 (credit_account t) \<noteq> None"
    and amt: "representable (tx_amount t)" "currency (tx_amount t) = cur_buf h0"
    and mv: "accounts_moved (cur_buf h0) p (old_of h) (debit_account t) (credit_account t) amt (accounts h0) m"
    and uid: "is_debit t \<Longrightarrow> uuid_after h (request_uid t) = None"
  shows "bank_inv (registered h p t m)"
proof -
  note fr = new [unfolded fresh_tx_def]
  have i: "config_inv h0" "accounts_inv h0" using inv by (simp_all add: bank_inv_def)
  have cur: "cur_buf (registered h p t m) = cur_buf h0" using fr by (simp add: cur_buf_def registered_sel)
  have "config_inv (registered h p t m)"
    using i(1) fr unfolding config_inv_def cur by (simp add: registered_sel)
  moreover have "accounts_inv (registered h p t m)"
  proof -
    have "dom m = dom (accounts h0)" using mv by (rule accounts_moved_dom)
    moreover have "good_account (cur_buf h0) a'" if "m k = Some a'" for k a'
      using mv that by (elim accounts_moved_back)
    ultimately show ?thesis using i(2) by (simp add: accounts_inv_def cur registered_sel)
  qed
  ultimately show ?thesis
    using registered_ring [OF inv new] registered_lists [OF inv new acc amt mv] registered_uuid [OF inv new uid]
    by (simp add: bank_inv_def)
qed

text \<open>Fields the invariant does not look at, and changes to accounts that keep their lists.\<close>

lemma bank_inv_frame [simp]:
  "bank_inv (h\<lparr>resumed := r\<rparr>) = bank_inv h"
  "bank_inv (h\<lparr>rpubs := rp\<rparr>) = bank_inv h"
  "bank_inv (h\<lparr>wops := w\<rparr>) = bank_inv h"
  "bank_inv (h\<lparr>resumed := r, accounts := m\<rparr>) = bank_inv (h\<lparr>accounts := m\<rparr>)"
  by (simp_all add: bank_inv_defs cur_buf_def)

lemma inv_accounts_frame [simp]:
  "config_inv (h\<lparr>accounts := m\<rparr>) = config_inv h" "ring_inv (h\<lparr>accounts := m\<rparr>) = ring_inv h"
  "uuid_inv (h\<lparr>accounts := m\<rparr>) = uuid_inv h" "cur_buf (h\<lparr>accounts := m\<rparr>) = cur_buf h"
  by (simp_all add: config_inv_def ring_inv_def uuid_inv_def cur_buf_def)

definition same_lists :: "char list \<Rightarrow> account \<Rightarrow> account \<Rightarrow> bool" where
  "same_lists buf a a' \<longleftrightarrow> out_list a' = out_list a \<and> in_list a' = in_list a \<and> good_account buf a'"

lemma bank_inv_update:
  assumes "bank_inv h" "accounts h k = Some a" "same_lists (cur_buf h) a a'"
  shows "bank_inv (h\<lparr>accounts := (accounts h)(k \<mapsto> a')\<rparr>)"
proof -
  let ?h = "h\<lparr>accounts := (accounts h)(k \<mapsto> a')\<rparr>"
  have "config_inv ?h" "ring_inv ?h" "uuid_inv ?h" "accounts_inv ?h"
    using assms by (simp_all add: bank_inv_def accounts_inv_def same_lists_def)
  moreover have "lists_inv ?h"
    using assms by (auto simp: bank_inv_def lists_inv_def same_lists_def)
  ultimately show ?thesis by (simp add: bank_inv_def)
qed

lemma bank_inv_new_account:
  assumes "bank_inv h" "accounts h k = None" "out_list a = []" "in_list a = []" "good_account (cur_buf h) a"
  shows "bank_inv (h\<lparr>accounts := (accounts h)(k \<mapsto> a)\<rparr>)"
proof -
  let ?h = "h\<lparr>accounts := (accounts h)(k \<mapsto> a)\<rparr>"
  have "config_inv ?h" "ring_inv ?h" "uuid_inv ?h" "accounts_inv ?h"
    using assms by (simp_all add: bank_inv_def accounts_inv_def)
  moreover have "debit_account t \<noteq> k" "credit_account t \<noteq> k" if "heap h p = Some t" for p t
    using assms(1,2) that unfolding bank_inv_def lists_inv_def by (metis option.distinct(1))+
  then have "lists_inv ?h"
    using assms by (auto simp: bank_inv_def lists_inv_def)
  ultimately show ?thesis by (simp add: bank_inv_def)
qed

end
