(* ===== verification/Fakebank_Transfers.thy ===== *)
theory Fakebank_Transfers
  imports Fakebank_Ledger
begin

text \<open>
  The transfer functions of \<open>Fakebank\<close> refine an abstract ledger, which maps every account to a
  signed number of units: a transfer moves units from one account to another. They keep the
  invariant of \<open>Fakebank_Ledger\<close>, and the only assertion that can fail in them is the one on the
  range of a balance.
\<close>

section \<open>The abstract ledger\<close>

type_synonym abs_ledger = "bytes \<Rightarrow> int"

definition ledger :: "fakebank \<Rightarrow> abs_ledger" where
  "ledger h k = (case accounts h k of None \<Rightarrow> 0 | Some a \<Rightarrow> signed_balance a)"

definition move :: "bytes \<Rightarrow> bytes \<Rightarrow> nat \<Rightarrow> abs_ledger \<Rightarrow> abs_ledger" where
  "move d c u L = (\<lambda>k. L k - (if k = d then int u else 0) + (if k = c then int u else 0))"

definition move_ok :: "bytes \<Rightarrow> bytes \<Rightarrow> nat \<Rightarrow> abs_ledger \<Rightarrow> bool" where
  "move_ok d c u L \<longleftrightarrow> \<bar>L d - int u\<bar> \<le> int max_units \<and> (d \<noteq> c \<longrightarrow> \<bar>L c + int u\<bar> \<le> int max_units)"

lemma ledger_frame [simp]:
  "ledger (h\<lparr>resumed := r\<rparr>) = ledger h" "ledger (h\<lparr>rpubs := rp\<rparr>) = ledger h"
  "ledger (h\<lparr>wops := w\<rparr>) = ledger h" "ledger (h\<lparr>uuid_map := um\<rparr>) = ledger h"
  by (simp_all add: ledger_def fun_eq_iff)

lemma in_range_ledger:
  assumes "accounts h d \<noteq> None" "accounts h c \<noteq> None"
  shows "in_range h d c amt \<longleftrightarrow> move_ok d c (units amt) (ledger h)"
  using assms by (auto simp: in_range_def move_ok_def ledger_def delta_def)

lemma ledger_moved:
  assumes "accounts_moved buf p old d c amt (accounts h) m" "accounts h d \<noteq> None" "accounts h c \<noteq> None"
    and "accounts h' = m"
  shows "ledger h' = move d c (units amt) (ledger h)"
proof
  fix k
  show "ledger h' k = move d c (units amt) (ledger h) k"
  proof (cases "accounts h k")
    case None
    then have "m k = None" "k \<noteq> d" "k \<noteq> c" using accounts_moved_None [OF assms(1), of k] assms(2,3) by auto
    then show ?thesis using None assms(4) by (simp add: ledger_def move_def)
  next
    case (Some a)
    from assms(1) this obtain a' where "m k = Some a'" "moved p old d c amt k a a'"
      by (rule accounts_moved_Some)
    then show ?thesis using Some assms(4) by (simp add: ledger_def move_def moved_def delta_def)
  qed
qed

text \<open>The total of all accounts; a move does not change it.\<close>

definition total :: "fakebank \<Rightarrow> int" where
  "total h = (\<Sum>k\<in>dom (accounts h). ledger h k)"

lemma sum_move:
  assumes "finite K" "d \<in> K" "c \<in> K"
  shows "(\<Sum>k\<in>K. move d c u L k) = (\<Sum>k\<in>K. L k)"
  using assms by (simp add: move_def sum.distrib sum_subtractf sum.delta)

section \<open>Lookups and notifications\<close>

text \<open>
  Names and passwords under a change of the accounts: those of old accounts stay, a new account
  is found under the hash of its name and has no password.
\<close>

fun stays :: "(string \<Rightarrow> bytes) \<Rightarrow> bytes \<Rightarrow> account option \<Rightarrow> account option \<Rightarrow> bool" where
  "stays hash k None None = True"
| "stays hash k None (Some a') = (hash (account_name a') = k \<and> password a' = None)"
| "stays hash k (Some a) None = False"
| "stays hash k (Some a) (Some a') = (account_name a' = account_name a \<and> password a' = password a)"

definition named :: "(string \<Rightarrow> bytes) \<Rightarrow> (bytes \<rightharpoonup> account) \<Rightarrow> (bytes \<rightharpoonup> account) \<Rightarrow> bool" where
  "named hash m m' \<longleftrightarrow> (\<forall>k. stays hash k (m k) (m' k))"

lemma stays_refl: "stays hash k x x"
  by (cases x) simp_all

lemma stays_trans: "stays hash k x y \<Longrightarrow> stays hash k y z \<Longrightarrow> stays hash k x z"
  by (cases x; cases y; cases z) auto

lemma named_refl: "named hash m m"
  by (simp add: named_def stays_refl)

lemma named_trans: "named hash m1 m2 \<Longrightarrow> named hash m2 m3 \<Longrightarrow> named hash m1 m3"
  unfolding named_def by (meson stays_trans)

lemma named_update: "stays hash k (m k) (Some a') \<Longrightarrow> named hash m (m(k \<mapsto> a'))"
  by (simp add: named_def stays_refl)

lemma named_dom:
  assumes "named hash m m'"
  shows "dom m \<subseteq> dom m'"
proof
  fix k assume "k \<in> dom m"
  moreover have "stays hash k (m k) (m' k)" using assms by (simp add: named_def)
  ultimately show "k \<in> dom m'" by (cases "m' k") auto
qed

lemma named_moved:
  assumes "accounts_moved buf p old d c amt m m'"
  shows "named hash m m'"
  unfolding named_def
proof
  fix k show "stays hash k (m k) (m' k)"
  proof (cases "m k")
    case None
    then show ?thesis using accounts_moved_None [OF assms, of k] by simp
  next
    case (Some a)
    with assms obtain a' where "m' k = Some a'" "moved p old d c amt k a a'" by (rule accounts_moved_Some)
    then show ?thesis using Some by (simp add: moved_def)
  qed
qed

text \<open>What an operation that only creates empty accounts may change.\<close>

definition opened :: "(string \<Rightarrow> bytes) \<Rightarrow> fakebank \<Rightarrow> fakebank \<Rightarrow> bool" where
  "opened hash h h' \<longleftrightarrow>
     (\<exists>m. h' = h\<lparr>accounts := m\<rparr> \<and> named hash (accounts h) m \<and> finite (dom m))
     \<and> ledger h' = ledger h \<and> (\<forall>k a. accounts h k = Some a \<longrightarrow> accounts h' k = Some a)"

lemma opened_refl: "bank_inv h \<Longrightarrow> opened hash h h"
  by (auto simp: opened_def bank_inv_def accounts_inv_def named_refl intro!: exI [of _ "accounts h"])

lemma opened_trans: "opened hash h1 h2 \<Longrightarrow> opened hash h2 h3 \<Longrightarrow> opened hash h1 h3"
  unfolding opened_def by (fastforce elim: named_trans)

lemma lookup_account_new:
  assumes inv: "bank_inv h"
  shows "\<exists>h'. TALER_FAKEBANK_lookup_account hash h name (Some rn) = Done (Some (hash name), h')
          \<and> bank_inv h' \<and> opened hash h h' \<and> accounts h' (hash name) \<noteq> None"
proof (cases "accounts h (hash name)")
  case (Some a)
  then show ?thesis using inv opened_refl [OF inv] by (simp add: TALER_FAKEBANK_lookup_account_def Let_def)
next
  case None
  let ?b = "\<lparr>value = 0, fraction = 0, currency = cur_buf h\<rparr> :: amount"
  let ?a = "new_account h name rn ?b"
  let ?h = "h\<lparr>accounts := (accounts h)(hash name \<mapsto> ?a)\<rparr>"
  have c: "legal_currency (cur_buf h)" "cstr (cur_buf h) = bank_currency h"
    using inv by (simp_all add: bank_inv_def config_inv_def)
  have run: "TALER_FAKEBANK_lookup_account hash h name (Some rn) = Done (Some (hash name), ?h)"
    using set_zero_legal [OF c(1), of zero_memory_amount] None
    by (simp add: TALER_FAKEBANK_lookup_account_def Let_def c(2))
  have good: "good_account (cur_buf h) ?a" and zero: "signed_balance ?a = 0"
    using c(1) by (simp_all add: good_account_def new_account_def signed_balance_def representable_def units_def)
  have "bank_inv ?h" using bank_inv_new_account [OF inv None _ _ good] by (simp add: new_account_def)
  moreover have "opened hash h ?h"
    using inv None zero
    by (auto simp: new_account_def opened_def bank_inv_def accounts_inv_def ledger_def fun_eq_iff
        intro!: exI [of _ "(accounts h)(hash name \<mapsto> ?a)"] named_update)
  ultimately show ?thesis using run by auto
qed

lemma opened_sel:
  assumes "opened hash h h'"
  shows "heap h' = heap h" "rpubs h' = rpubs h" "uuid_map h' = uuid_map h" "wops h' = wops h"
    "serial_counter h' = serial_counter h" "cur_buf h' = cur_buf h" "bank_currency h' = bank_currency h"
    "ledger h' = ledger h" "next_ptr h' = next_ptr h" "transactions h' = transactions h" "ram_limit h' = ram_limit h"
  using assms by (auto simp: opened_def cur_buf_def)

lemma lookup_pair_spec:
  assumes inv: "bank_inv h"
  shows "\<exists>h'. lookup_pair hash h debit credit = Done (hash debit, hash credit, h')
          \<and> bank_inv h' \<and> opened hash h h' \<and> accounts h' (hash debit) \<noteq> None \<and> accounts h' (hash credit) \<noteq> None"
proof -
  obtain h1 where h1: "TALER_FAKEBANK_lookup_account hash h debit (Some debit) = Done (Some (hash debit), h1)"
    "bank_inv h1" "opened hash h h1" "accounts h1 (hash debit) \<noteq> None"
    using lookup_account_new [OF inv, of hash debit debit] by blast
  obtain h2 where h2: "TALER_FAKEBANK_lookup_account hash h1 credit (Some credit) = Done (Some (hash credit), h2)"
    "bank_inv h2" "opened hash h1 h2" "accounts h2 (hash credit) \<noteq> None"
    using lookup_account_new [OF h1(2), of hash credit credit] by blast
  have "accounts h2 (hash debit) \<noteq> None" using h1(4) h2(3) by (auto simp: opened_def)
  then show ?thesis using h1 h2 opened_trans [OF h1(3) h2(3)] by (simp add: lookup_pair_def)
qed

text \<open>A notification touches the pollers of an account only.\<close>

lemma lp_trigger_spec:
  assumes inv: "bank_inv h" and k: "accounts h k \<noteq> None"
  shows "\<exists>m r. TALER_FAKEBANK_lp_trigger w k h = Done (h\<lparr>accounts := m, resumed := r\<rparr>)
          \<and> bank_inv (h\<lparr>accounts := m\<rparr>) \<and> ledger (h\<lparr>accounts := m\<rparr>) = ledger h \<and> dom m = dom (accounts h)
          \<and> named hash (accounts h) m"
proof -
  obtain a where a: "accounts h k = Some a" using k by blast
  let ?a = "a\<lparr>lp_list := filter (\<lambda>lp. \<not> w lp) (lp_list a)\<rparr>"
  have "good_account (cur_buf h) a" using inv a by (simp add: bank_inv_def accounts_inv_def)
  then have "bank_inv (h\<lparr>accounts := (accounts h)(k \<mapsto> ?a)\<rparr>)"
    by (intro bank_inv_update [OF inv a]) (simp add: same_lists_def)
  moreover have "ledger (h\<lparr>accounts := (accounts h)(k \<mapsto> ?a)\<rparr>) = ledger h"
    using a by (simp add: ledger_def fun_eq_iff)
  ultimately show ?thesis
    using a by (intro exI [of _ "(accounts h)(k \<mapsto> ?a)"] exI [of _ "resumed h @ map lp_conn (filter w (lp_list a))"])
      (auto simp: TALER_FAKEBANK_lp_trigger_def intro!: named_update)
qed

lemma notify_transaction_spec:
  assumes inv: "bank_inv h" and t: "heap h p = Some t"
  shows "\<exists>m r. TALER_FAKEBANK_notify_transaction h p = Done (h\<lparr>accounts := m, resumed := r\<rparr>)
          \<and> bank_inv (h\<lparr>accounts := m\<rparr>) \<and> ledger (h\<lparr>accounts := m\<rparr>) = ledger h \<and> dom m = dom (accounts h)
          \<and> named hash (accounts h) m"
proof -
  have acc: "accounts h (debit_account t) \<noteq> None" "accounts h (credit_account t) \<noteq> None"
    using inv t by (simp_all add: bank_inv_def lists_inv_def)
  obtain m r where 1: "TALER_FAKEBANK_lp_trigger (\<lambda>lp. lp_kind lp = LP_DEBIT) (debit_account t) h
      = Done (h\<lparr>accounts := m, resumed := r\<rparr>)" "bank_inv (h\<lparr>accounts := m\<rparr>)"
    "ledger (h\<lparr>accounts := m\<rparr>) = ledger h" "dom m = dom (accounts h)" "named hash (accounts h) m"
    using lp_trigger_spec [OF inv acc(1)] by blast
  let ?h = "h\<lparr>accounts := m, resumed := r\<rparr>"
  have inv1: "bank_inv ?h" using 1(2) bank_inv_frame(1) [where h = "h\<lparr>accounts := m\<rparr>" and r = r] by simp
  have "credit_account t \<in> dom m" using acc(2) unfolding 1(4) by blast
  then have c1: "accounts ?h (credit_account t) \<noteq> None" by auto
  obtain m' r' where 2: "TALER_FAKEBANK_lp_trigger (\<lambda>lp. lp_kind lp = LP_CREDIT) (credit_account t) ?h
      = Done (?h\<lparr>accounts := m', resumed := r'\<rparr>)" "bank_inv (?h\<lparr>accounts := m'\<rparr>)"
    "ledger (?h\<lparr>accounts := m'\<rparr>) = ledger ?h" "dom m' = dom (accounts ?h)" "named hash (accounts ?h) m'"
    using lp_trigger_spec [OF inv1 c1] by blast
  have "bank_inv (h\<lparr>accounts := m'\<rparr>)"
    using 2(2) by simp
  moreover have "ledger (h\<lparr>accounts := m'\<rparr>) = ledger h"
    using 2(3) 1(3) by (simp add: ledger_def fun_eq_iff)
  ultimately show ?thesis
    using t 1 2 named_trans [OF 1(5), of m']
    by (intro exI [of _ m'] exI [of _ r']) (simp add: TALER_FAKEBANK_notify_transaction_def)
qed

section \<open>Transfers refine moves\<close>

text \<open>The effect of a transfer that is booked.\<close>

definition booked :: "(string \<Rightarrow> bytes) \<Rightarrow> transaction \<Rightarrow> fakebank \<Rightarrow> fakebank \<Rightarrow> bool" where
  "booked hash t h h' \<longleftrightarrow>
     bank_inv h' \<and> ledger h' = move (debit_account t) (credit_account t) (units (tx_amount t)) (ledger h)
     \<and> named hash (accounts h) (accounts h')
     \<and> debit_account t \<in> dom (accounts h') \<and> credit_account t \<in> dom (accounts h')
     \<and> serial_counter h' = serial_counter h + 1 \<and> wops h' = wops h
     \<and> bank_currency h' = bank_currency h \<and> signup_bonus h' = signup_bonus h
     \<and> heap h' (next_ptr h) = Some (t\<lparr>row_id := serial_counter h + 1\<rparr>)
     \<and> (\<forall>q x. heap h' q = Some x \<longrightarrow> q \<noteq> next_ptr h \<longrightarrow> heap h q = Some x)"

lemma total_superset:
  assumes "finite K" "dom (accounts h) \<subseteq> K"
  shows "total h = (\<Sum>k\<in>K. ledger h k)"
  unfolding total_def using assms
  by (intro sum.mono_neutral_left) (auto simp: ledger_def domIff)

lemma bank_inv_finite: "bank_inv h \<Longrightarrow> finite (dom (accounts h))"
  by (simp add: bank_inv_def accounts_inv_def)

lemma booked_total:
  assumes b: "booked hash t h h'"
  shows "total h' = total h"
proof -
  let ?K = "dom (accounts h')"
  have "finite ?K" "dom (accounts h) \<subseteq> ?K" using b named_dom [of hash "accounts h" "accounts h'"]
    by (simp_all add: booked_def bank_inv_finite)
  then show ?thesis
    using total_superset [of ?K h] b
      sum_move [of ?K "debit_account t" "credit_account t" "units (tx_amount t)" "ledger h"]
    by (simp add: total_def booked_def)
qed

lemma opened_total: "opened hash h h' \<Longrightarrow> total h' = total h"
proof -
  assume o: "opened hash h h'"
  then have fin: "finite (dom (accounts h'))" "dom (accounts h) \<subseteq> dom (accounts h')"
    using named_dom by (auto simp: opened_def)
  then show ?thesis using total_superset [OF fin] opened_sel(8) [OF o] by (simp add: total_def)
qed

text \<open>
  Allocation, transaction and notification, shared by the three transfer functions; \<open>reg\<close> is
  what happens between the transaction and the notification.
\<close>

lemma book_spec:
  assumes inv: "bank_inv h" and new: "fresh_tx h h2 p t" and w: "wops h2 = wops h"
    and acc: "accounts h (debit_account t) \<noteq> None" "accounts h (credit_account t) \<noteq> None"
    and amt: "representable (tx_amount t)" "currency (tx_amount t) = cur_buf h"
    and uid: "is_debit t \<longrightarrow> uuid_map h (request_uid t) = None"
  shows "if move_ok (debit_account t) (credit_account t) (units (tx_amount t)) (ledger h)
         then \<exists>h3 t' h5. TALER_FAKEBANK_transact h2 p = Done h3
              \<and> (is_debit t \<longrightarrow> uuid_map h3 (request_uid t) = None)
              \<and> heap h3 p = Some t' \<and> row_id t' = serial_counter h + 1
              \<and> TALER_FAKEBANK_notify_transaction
                  (if is_debit t then h3\<lparr>uuid_map := (uuid_map h3)(request_uid t \<mapsto> p)\<rparr> else h3) p = Done h5
              \<and> booked hash t h h5
              \<and> rpubs h5 = rpubs h2
              \<and> uuid_map h5 = (if is_debit t then (uuid_after h)(request_uid t \<mapsto> p) else uuid_after h)
              \<and> heap h5 p = Some (t\<lparr>row_id := serial_counter h + 1\<rparr>)
         else TALER_FAKEBANK_transact h2 p = Abort"
proof (cases "move_ok (debit_account t) (credit_account t) (units (tx_amount t)) (ledger h)")
  case False
  then show ?thesis
    using transact_spec [OF inv new acc amt] in_range_ledger [OF acc] by simp
next
  case True
  note fr = new [unfolded fresh_tx_def]
  let ?t = "t\<lparr>row_id := serial_counter h + 1\<rparr>"
  obtain m where m: "TALER_FAKEBANK_transact h2 p = Done (after_transact h2 p t m)"
    "accounts_moved (cur_buf h) p (old_of h2) (debit_account t) (credit_account t) (tx_amount t) (accounts h) m"
    using transact_spec [OF inv new acc amt] in_range_ledger [OF acc] True by auto
  have ua: "uuid_after h2 = uuid_after h"
    using fr by (auto simp: uuid_after_def old_of_def slot_of_def fun_eq_iff)
  have free: "is_debit t \<Longrightarrow> uuid_after h2 (request_uid t) = None"
    using uid fr by (auto simp: uuid_after_def)
  have po: "Some p \<noteq> old_of h2" by (rule new_not_old [OF inv new])
  define h4 where "h4 = registered h2 p t m"
  have inv4: "bank_inv h4" unfolding h4_def by (rule registered_inv [OF inv new acc amt m(2) free])
  have hp: "heap h4 p = Some ?t" using po fr by (simp add: h4_def registered_sel)
  obtain m' r where n: "TALER_FAKEBANK_notify_transaction h4 p = Done (h4\<lparr>accounts := m', resumed := r\<rparr>)"
    "bank_inv (h4\<lparr>accounts := m'\<rparr>)" "ledger (h4\<lparr>accounts := m'\<rparr>) = ledger h4" "dom m' = dom (accounts h4)" "named hash (accounts h4) m'"
    using notify_transaction_spec [OF inv4 hp] by blast
  let ?h5 = "h4\<lparr>accounts := m', resumed := r\<rparr>"
  have h4: "h4 = (if is_debit t then (after_transact h2 p t m)\<lparr>uuid_map := (uuid_map (after_transact h2 p t m))(request_uid t \<mapsto> p)\<rparr>
      else after_transact h2 p t m)"
    by (simp add: h4_def registered_def after_transact_def)
  have "bank_inv ?h5" using n(2) bank_inv_frame(1) [where h = "h4\<lparr>accounts := m'\<rparr>" and r = r] by simp
  moreover have "ledger ?h5 = move (debit_account t) (credit_account t) (units (tx_amount t)) (ledger h)"
    using n(3) ledger_moved [OF m(2) acc, of h4] by (simp add: h4_def registered_sel ledger_def)
  moreover have "dom m' = dom (accounts h)"
    using n(4) accounts_moved_dom [OF m(2)] by (simp add: h4_def registered_sel)
  moreover have "named hash (accounts h) m'"
    using n(5) named_trans [OF named_moved [OF m(2)], of hash m'] by (simp add: h4_def registered_sel)
  moreover have "heap ?h5 q = Some x \<Longrightarrow> q \<noteq> next_ptr h \<Longrightarrow> heap h q = Some x" for q x
    using fr by (auto simp: h4_def registered_sel split: if_splits)
  ultimately have "booked hash t h ?h5"
    using acc fr w hp by (auto simp: booked_def h4_def registered_sel)
  moreover have "rpubs ?h5 = rpubs h2 \<and> heap ?h5 p = Some ?t
      \<and> uuid_map ?h5 = (if is_debit t then (uuid_after h)(request_uid t \<mapsto> p) else uuid_after h)"
    using hp ua by (simp add: h4_def registered_sel)
  moreover have "heap (after_transact h2 p t m) p = Some ?t" using po fr by (simp add: after_transact_def)
  moreover have "is_debit t \<longrightarrow> uuid_map (after_transact h2 p t m) (request_uid t) = None"
    using free by (simp add: after_transact_def)
  ultimately show ?thesis
    using True m(1) n(1) h4
    by (intro if_P [THEN iffD2], simp)
      (intro exI [of _ "after_transact h2 p t m"] exI [of _ ?t] exI [of _ ?h5], simp)
qed

lemma alloc_fresh:
  assumes "alloc_tx h t = (p, h2)"
  shows "fresh_tx h h2 p t" "fresh_tx h (h2\<lparr>rpubs := rp\<rparr>) p t" "wops h2 = wops h" "rpubs h2 = rpubs h" "p = next_ptr h"
  using assms by (auto simp: alloc_tx_def fresh_tx_def)

lemma opened_booked:
  assumes o: "opened hash h h1" and b: "booked hash t h1 h'"
  shows "booked hash t h h'"
proof -
  have "named hash (accounts h) (accounts h1)" "signup_bonus h1 = signup_bonus h"
    using o by (auto simp: opened_def)
  then show ?thesis using b opened_sel [OF o] by (auto simp: booked_def elim: named_trans)
qed

lemma currency_assert:
  assumes "bank_inv h" "currency amt = cur_buf h"
  shows "strcaseeq (cstr (currency amt)) (bank_currency h)"
  using assms by (simp add: bank_inv_def config_inv_def)

text \<open>The end of a transfer that is not a debit.\<close>

definition reply_booked :: "64 word \<Rightarrow> fakebank \<Rightarrow> tptr \<Rightarrow> (transfer_result \<times> fakebank) outcome" where
  "reply_booked now h p = obind (TALER_FAKEBANK_transact h p) (\<lambda>h4. obind (deref (heap h4) p)
     (\<lambda>t'. obind (TALER_FAKEBANK_notify_transaction h4 p)
       (\<lambda>h5. Done ((GNUNET_OK, Some (row_id t', now)), h5))))"

lemma reply_booked_spec:
  assumes o: "opened hash h h1" "bank_inv h1" and new: "fresh_tx h1 h3 p t" "wops h3 = wops h1" and nd: "\<not> is_debit t"
    and acc: "accounts h1 (debit_account t) \<noteq> None" "accounts h1 (credit_account t) \<noteq> None"
    and amt: "representable (tx_amount t)" "currency (tx_amount t) = cur_buf h"
  shows "if move_ok (debit_account t) (credit_account t) (units (tx_amount t)) (ledger h)
         then \<exists>h'. reply_booked now h3 p = Done ((GNUNET_OK, Some (serial_counter h + 1, now)), h')
              \<and> booked hash t h h' \<and> rpubs h' = rpubs h3
         else reply_booked now h3 p = Abort"
proof -
  note sel = opened_sel [OF o(1)]
  have "currency (tx_amount t) = cur_buf h1" using amt(2) sel by simp
  note book = book_spec [OF o(2) new acc amt(1) this, unfolded sel]
  show ?thesis
    using book nd opened_booked [OF o(1)] by (fastforce simp: reply_booked_def)
qed

text \<open>The transactions the three transfer functions book, without their row.\<close>

definition credit_tx :: "(string \<Rightarrow> bytes) \<Rightarrow> 64 word \<Rightarrow> string \<Rightarrow> string \<Rightarrow> amount \<Rightarrow> bytes \<Rightarrow> transaction" where
  "credit_tx hash now debit credit amt pub =
     \<lparr>tx_amount = amt, debit_account = hash debit, credit_account = hash credit, request_uid = [],
      tx_date = now, row_id = 0, tx_subject = Subject_credit pub, tx_unchecked = True\<rparr>"

definition auth_tx :: "(string \<Rightarrow> bytes) \<Rightarrow> 64 word \<Rightarrow> string \<Rightarrow> string \<Rightarrow> amount \<Rightarrow> bytes \<Rightarrow> transaction" where
  "auth_tx hash now debit credit amt pub = (credit_tx hash now debit credit amt pub)\<lparr>tx_subject := Subject_auth pub\<rparr>"

definition debit_tx ::
  "(string \<Rightarrow> bytes) \<Rightarrow> 64 word \<Rightarrow> string \<Rightarrow> string \<Rightarrow> amount \<Rightarrow> bytes \<Rightarrow> string \<Rightarrow> bytes \<Rightarrow> transaction" where
  "debit_tx hash now debit credit amt subj url uid =
     (credit_tx hash now debit credit amt [])\<lparr>request_uid := uid, tx_subject := Subject_debit subj url\<rparr>"

lemmas tx_defs = credit_tx_def auth_tx_def debit_tx_def

lemma admin_transfer_spec:
  assumes inv: "bank_inv h" and amt: "representable amt" "currency amt = cur_buf h"
  shows "if rpubs h pub \<noteq> None
         then \<exists>h'. TALER_FAKEBANK_make_admin_transfer hash now h debit credit amt pub = Done ((GNUNET_NO, None), h')
              \<and> bank_inv h' \<and> opened hash h h'
         else if move_ok (hash debit) (hash credit) (units amt) (ledger h)
         then \<exists>h'. TALER_FAKEBANK_make_admin_transfer hash now h debit credit amt pub
                = Done ((GNUNET_OK, Some (serial_counter h + 1, now)), h')
              \<and> booked hash (credit_tx hash now debit credit amt pub) h h'
              \<and> rpubs h' = (rpubs h)(pub \<mapsto> next_ptr h)
         else TALER_FAKEBANK_make_admin_transfer hash now h debit credit amt pub = Abort"
proof -
  obtain h1 where h1: "lookup_pair hash h debit credit = Done (hash debit, hash credit, h1)" "bank_inv h1"
    "opened hash h h1" "accounts h1 (hash debit) \<noteq> None" "accounts h1 (hash credit) \<noteq> None"
    using lookup_pair_spec [OF inv] by blast
  note sel = opened_sel [OF h1(3)]
  define t where "t = credit_tx hash now debit credit amt pub"
  obtain p h2 where al: "alloc_tx h1 t = (p, h2)" by fastforce
  let ?h3 = "h2\<lparr>rpubs := (rpubs h2)(pub \<mapsto> p)\<rparr>"
  have "rpubs ?h3 = (rpubs h)(pub \<mapsto> next_ptr h)" "wops ?h3 = wops h1"
    using alloc_fresh [OF al] sel by simp_all
  moreover have "TALER_FAKEBANK_make_admin_transfer hash now h debit credit amt pub =
      (if rpubs h pub \<noteq> None then Done ((GNUNET_NO, None), h1) else reply_booked now ?h3 p)"
    using currency_assert [OF inv amt(2)] h1(1) sel(2) al
    by (simp add: TALER_FAKEBANK_make_admin_transfer_def Let_def t_def tx_defs reply_booked_def)
  moreover note reply_booked_spec [OF h1(3,2) alloc_fresh(2) [OF al], of "(rpubs h2)(pub \<mapsto> p)" now]
  ultimately show ?thesis
    using h1(2-5) amt by (auto simp: t_def tx_defs is_debit_def)
qed

lemma kycauth_transfer_spec:
  assumes inv: "bank_inv h" and amt: "representable amt" "currency amt = cur_buf h"
  shows "if move_ok (hash debit) (hash credit) (units amt) (ledger h)
         then \<exists>h'. TALER_FAKEBANK_make_kycauth_transfer hash now h debit credit amt pub
                = Done ((GNUNET_OK, Some (serial_counter h + 1, now)), h')
              \<and> booked hash (auth_tx hash now debit credit amt pub) h h' \<and> rpubs h' = rpubs h
         else TALER_FAKEBANK_make_kycauth_transfer hash now h debit credit amt pub = Abort"
proof -
  obtain h1 where h1: "lookup_pair hash h debit credit = Done (hash debit, hash credit, h1)" "bank_inv h1"
    "opened hash h h1" "accounts h1 (hash debit) \<noteq> None" "accounts h1 (hash credit) \<noteq> None"
    using lookup_pair_spec [OF inv] by blast
  note sel = opened_sel [OF h1(3)]
  define t where "t = auth_tx hash now debit credit amt pub"
  obtain p h2 where al: "alloc_tx h1 t = (p, h2)" by fastforce
  have "TALER_FAKEBANK_make_kycauth_transfer hash now h debit credit amt pub = reply_booked now h2 p"
    using currency_assert [OF inv amt(2)] h1(1) al
    by (simp add: TALER_FAKEBANK_make_kycauth_transfer_def Let_def t_def tx_defs reply_booked_def)
  moreover note reply_booked_spec [OF h1(3,2) alloc_fresh(1,3) [OF al], of now]
  ultimately show ?thesis
    using h1(4,5) amt alloc_fresh(4) [OF al] sel(2) by (auto simp: t_def tx_defs is_debit_def)
qed

text \<open>The details a repeated request has to agree with.\<close>

definition same_details :: "transaction \<Rightarrow> bytes \<Rightarrow> bytes \<Rightarrow> amount \<Rightarrow> bytes \<Rightarrow> bool" where
  "same_details t d c amt subj \<longleftrightarrow>
     debit_account t = d \<and> credit_account t = c \<and> units amt = units (tx_amount t) \<and> wtid (tx_subject t) = subj"

lemma transfer_repeated:
  assumes inv: "bank_inv h" and amt: "representable amt" "currency amt = cur_buf h" and url: "length url < MAX_URL_LEN"
    and uid: "uuid_map h uid = Some p" "heap h p = Some t"
  shows "\<exists>h'. TALER_FAKEBANK_make_transfer hash now nonce h debit credit amt subj url (Some uid)
           = Done (if same_details t (hash debit) (hash credit) amt subj
                   then (GNUNET_OK, Some (row_id t, tx_date t)) else (GNUNET_SYSERR, None), h')
         \<and> bank_inv h' \<and> opened hash h h'"
proof -
  obtain h1 where h1: "lookup_pair hash h debit credit = Done (hash debit, hash credit, h1)" "bank_inv h1"
    "opened hash h h1" "accounts h1 (hash debit) \<noteq> None" "accounts h1 (hash credit) \<noteq> None"
    using lookup_pair_spec [OF inv] by blast
  note sel = opened_sel [OF h1(3)]
  have deb: "subject_type (tx_subject t) = T_DEBIT"
    using inv uid by (auto simp: bank_inv_def uuid_inv_def is_debit_def)
  have t: "representable (tx_amount t)" "currency amt = currency (tx_amount t)"
    using inv uid(2) amt(2) by (simp_all add: bank_inv_def lists_inv_def)
  have "check_request_uid h1 uid (hash debit) (hash credit) amt subj
      = Done (Some (if same_details t (hash debit) (hash credit) amt subj
                    then (GNUNET_OK, Some (row_id t, tx_date t)) else (GNUNET_SYSERR, None)))"
    using uid sel deb cmp_representable [OF amt(1) t]
    by (auto simp: check_request_uid_def same_details_def)
  then show ?thesis
    using h1 currency_assert [OF inv amt(2)] url by (simp add: TALER_FAKEBANK_make_transfer_def)
qed

lemma transfer_spec:
  assumes inv: "bank_inv h" and amt: "representable amt" "currency amt = cur_buf h" and url: "length url < MAX_URL_LEN"
    and u: "u = (case uid_opt of None \<Rightarrow> nonce | Some uid \<Rightarrow> uid)" and free: "uuid_map h u = None"
  shows "if move_ok (hash debit) (hash credit) (units amt) (ledger h)
         then \<exists>h' p t. TALER_FAKEBANK_make_transfer hash now nonce h debit credit amt subj url uid_opt
                = Done ((GNUNET_OK, Some (serial_counter h + 1, now)), h')
              \<and> booked hash (debit_tx hash now debit credit amt subj url u) h h' \<and> rpubs h' = rpubs h
              \<and> uuid_map h' u = Some p \<and> heap h' p = Some t \<and> same_details t (hash debit) (hash credit) amt subj
              \<and> row_id t = serial_counter h + 1 \<and> tx_date t = now
         else TALER_FAKEBANK_make_transfer hash now nonce h debit credit amt subj url uid_opt = Abort"
proof -
  obtain h1 where h1: "lookup_pair hash h debit credit = Done (hash debit, hash credit, h1)" "bank_inv h1"
    "opened hash h h1" "accounts h1 (hash debit) \<noteq> None" "accounts h1 (hash credit) \<noteq> None"
    using lookup_pair_spec [OF inv] by blast
  note sel = opened_sel [OF h1(3)]
  define t where "t = debit_tx hash now debit credit amt subj url u"
  obtain p h2 where al: "alloc_tx h1 t = (p, h2)" by fastforce
  have t: "debit_account t = hash debit" "credit_account t = hash credit" "tx_amount t = amt" "is_debit t"
    "request_uid t = u" by (simp_all add: t_def tx_defs is_debit_def)
  have prev: "(case uid_opt of None \<Rightarrow> Done None
      | Some uid \<Rightarrow> check_request_uid h1 uid (hash debit) (hash credit) amt subj) = Done None"
    using free u sel by (auto simp: check_request_uid_def split: option.splits)
  have run: "TALER_FAKEBANK_make_transfer hash now nonce h debit credit amt subj url uid_opt =
      obind (TALER_FAKEBANK_transact h2 p) (\<lambda>h3. gassert (uuid_map h3 u = None)
        (obind (deref (heap h3) p) (\<lambda>t'. obind
          (TALER_FAKEBANK_notify_transaction (h3\<lparr>uuid_map := (uuid_map h3)(u \<mapsto> p)\<rparr>) p)
          (\<lambda>h5. Done ((GNUNET_OK, Some (row_id t', now)), h5)))))"
    using currency_assert [OF inv amt(2)] h1(1) prev url al
    by (simp add: TALER_FAKEBANK_make_transfer_def Let_def u [symmetric] t_def tx_defs)
  have "currency (tx_amount t) = cur_buf h1" "representable (tx_amount t)" using amt sel t by simp_all
  moreover have "is_debit t \<longrightarrow> uuid_map h1 (request_uid t) = None" using free sel t by simp
  ultimately have book: "if move_ok (hash debit) (hash credit) (units amt) (ledger h)
      then \<exists>h3 t' h5. TALER_FAKEBANK_transact h2 p = Done h3 \<and> uuid_map h3 u = None \<and> heap h3 p = Some t'
           \<and> row_id t' = serial_counter h + 1
           \<and> TALER_FAKEBANK_notify_transaction (h3\<lparr>uuid_map := (uuid_map h3)(u \<mapsto> p)\<rparr>) p = Done h5
           \<and> booked hash t h1 h5 \<and> rpubs h5 = rpubs h2
           \<and> uuid_map h5 u = Some p \<and> heap h5 p = Some (t\<lparr>row_id := serial_counter h + 1\<rparr>)
      else TALER_FAKEBANK_transact h2 p = Abort"
    using book_spec [OF h1(2) alloc_fresh(1,3) [OF al]] h1(4,5) t sel by (simp split: if_splits) fastforce
  show ?thesis
  proof (cases "move_ok (hash debit) (hash credit) (units amt) (ledger h)")
    case True
    with book obtain h3 t' h5 where r: "TALER_FAKEBANK_transact h2 p = Done h3" "uuid_map h3 u = None"
      "heap h3 p = Some t'" "row_id t' = serial_counter h + 1"
      "TALER_FAKEBANK_notify_transaction (h3\<lparr>uuid_map := (uuid_map h3)(u \<mapsto> p)\<rparr>) p = Done h5"
      "booked hash t h1 h5" "rpubs h5 = rpubs h2"
      "uuid_map h5 u = Some p" "heap h5 p = Some (t\<lparr>row_id := serial_counter h + 1\<rparr>)"
      by auto
    then show ?thesis
      using True run opened_booked [OF h1(3) r(6)] alloc_fresh(4) [OF al] sel(2)
      by (auto simp: same_details_def t_def tx_defs)
  next
    case False
    then show ?thesis using book run by simp
  qed
qed

end
