(* ===== verification/Amount_Format.thy ===== *)
theory Amount_Format
  imports Taler_Amount
begin

text \<open>
  The string and wire formats of \<^verbatim>\<open>src/src/util/amount.c\<close>: parsing (\<^verbatim>\<open>TALER_string_to_amount\<close>),
  printing (\<^verbatim>\<open>TALER_amount_to_string\<close>, \<^verbatim>\<open>TALER_amount2s\<close>) and the network byte order struct.
  Shown: every successfully parsed amount is normalised, printing and parsing are inverse, the
  static buffer of \<^verbatim>\<open>TALER_amount2s\<close> is large enough, and the byte order conversions round-trip.
\<close>

unbundle bit_operations_syntax

section \<open>Parsing\<close>

text \<open>The loop over the digits after the dot; \<open>b\<close> is the weight of the next digit.\<close>

fun parse_fraction :: "amount \<Rightarrow> 32 word \<Rightarrow> string \<Rightarrow> generic_return \<times> amount" where
  "parse_fraction a b [] = (GNUNET_OK, a)"
| "parse_fraction a b (c # cs) =
     (if b = 0 then (GNUNET_SYSERR, invalidate)
      else if \<not> c_isdigit c then (GNUNET_SYSERR, invalidate)
      else parse_fraction (a\<lparr>fraction := fraction a + of_nat (digit_val c) * b\<rparr>) (b div 10) cs)"

text \<open>The loop over the digits before the dot.\<close>

fun parse_value :: "amount \<Rightarrow> string \<Rightarrow> generic_return \<times> amount" where
  "parse_value a [] = (GNUNET_OK, a)"
| "parse_value a (c # cs) =
     (if c = CHR ''.'' then
        (if cs = [] then (GNUNET_SYSERR, invalidate)
         else parse_fraction a (frac_base32 div 10) cs)
      else if \<not> c_isdigit c then (GNUNET_SYSERR, invalidate)
      else let n = of_nat (digit_val c)
      in if value a * 10 < value a \<or> value a * 10 + n < value a
            \<or> value a > max_value64 \<or> value a * 10 + n > max_value64
         then (GNUNET_SYSERR, invalidate)
         else parse_value (a\<lparr>value := value a * 10 + n\<rparr>) cs)"

definition TALER_string_to_amount :: "string \<Rightarrow> amount \<Rightarrow> generic_return \<times> amount" where
  "TALER_string_to_amount str amount =
     (let s = dropWhile c_isspace (cstr str);
          cur = takeWhile (\<lambda>c. c \<noteq> CHR '':'') s
      in if s = [] then (GNUNET_SYSERR, invalidate)
         else if CHR '':'' \<notin> set s \<or> cur = [] \<or> length cur \<ge> TALER_CURRENCY_LEN
         then (GNUNET_SYSERR, invalidate)
         else let a = amount\<lparr>currency := zero_padded TALER_CURRENCY_LEN cur\<rparr>
         in if TALER_check_currency (cstr (currency a)) \<noteq> GNUNET_OK then (GNUNET_SYSERR, a)
            else let v = drop (length cur + 1) s
            in if v = [] then (GNUNET_SYSERR, invalidate)
               else parse_value (a\<lparr>value := 0, fraction := 0\<rparr>) v)"

section \<open>Printing\<close>

text \<open>The loop of \<^verbatim>\<open>amount_to_tail\<close>, with the number of digits it may still write.\<close>

fun amount_tail_loop :: "nat \<Rightarrow> 32 word \<Rightarrow> string" where
  "amount_tail_loop 0 n = []"
| "amount_tail_loop (Suc i) n =
     (if n = 0 then []
      else char_of (code CHR ''0'' + unat (n div (frac_base32 div 10)))
           # amount_tail_loop i ((n * 10) mod frac_base32))"

definition amount_to_tail :: "amount \<Rightarrow> string" where
  "amount_to_tail a = amount_tail_loop TALER_AMOUNT_FRAC_LEN (fraction a)"

definition TALER_amount_to_string :: "amount \<Rightarrow> string option" where
  "TALER_amount_to_string a =
     (if TALER_amount_is_valid a \<noteq> GNUNET_YES then None
      else let norm = snd (TALER_amount_normalize a)
      in if fraction norm \<noteq> 0
         then Some (cstr (currency norm) @ '':'' @ decimal (unat (value norm)) @ ''.''
                    @ amount_to_tail norm)
         else Some (cstr (currency norm) @ '':'' @ decimal (unat (value norm))))"

text \<open>
  \<^verbatim>\<open>TALER_amount2s\<close> prints into a static buffer with \<^verbatim>\<open>GNUNET_snprintf\<close>, which aborts when the
  text and its terminating NUL do not fit.
\<close>

definition amount2s_buffer_size :: nat where
  "amount2s_buffer_size = TALER_AMOUNT_FRAC_LEN + TALER_CURRENCY_LEN + 3 + 24"

definition TALER_amount2s :: "amount \<Rightarrow> string option outcome" where
  "TALER_amount2s a =
     (if TALER_amount_is_valid a \<noteq> GNUNET_YES then Done None
      else let norm = snd (TALER_amount_normalize a);
               text = (if fraction norm \<noteq> 0
                       then cstr (currency norm) @ '':'' @ decimal (unat (value norm)) @ ''.''
                            @ amount_to_tail norm
                       else cstr (currency norm) @ '':'' @ decimal (unat (value norm)))
      in gassert (length text < amount2s_buffer_size) (Done (Some text)))"

section \<open>Network byte order\<close>

record amount_nbo =
  nbo_value :: "64 word"
  nbo_fraction :: "32 word"
  nbo_currency :: "char list"

text \<open>
  \<^verbatim>\<open>htonl\<close> on a little-endian host exchanges the bytes. The 64-bit conversions
  \<^verbatim>\<open>GNUNET_htonll\<close> and \<^verbatim>\<open>GNUNET_ntohll\<close> are functions of the GNUnet library and parameters here.
\<close>

definition bswap32 :: "32 word \<Rightarrow> 32 word" where
  "bswap32 w = push_bit 24 w OR push_bit 8 (w AND push_bit 8 (mask 8))
               OR drop_bit 8 (w AND push_bit 16 (mask 8)) OR drop_bit 24 w"

definition TALER_amount_hton :: "(64 word \<Rightarrow> 64 word) \<Rightarrow> amount \<Rightarrow> amount_nbo outcome" where
  "TALER_amount_hton htonll d =
     gassert (TALER_amount_is_valid d = GNUNET_YES)
       (Done \<lparr>nbo_value = htonll (value d), nbo_fraction = bswap32 (fraction d),
              nbo_currency = currency d\<rparr>)"

definition TALER_amount_ntoh :: "(64 word \<Rightarrow> 64 word) \<Rightarrow> amount_nbo \<Rightarrow> amount outcome" where
  "TALER_amount_ntoh ntohll dn =
     (let res = \<lparr>value = ntohll (nbo_value dn), fraction = bswap32 (nbo_fraction dn),
                 currency = nbo_currency dn\<rparr>
      in gassert (TALER_amount_is_valid res = GNUNET_YES) (Done res))"

definition TALER_string_to_amount_nbo ::
  "(64 word \<Rightarrow> 64 word) \<Rightarrow> string \<Rightarrow> amount \<Rightarrow> amount_nbo \<Rightarrow> (generic_return \<times> amount_nbo) outcome" where
  "TALER_string_to_amount_nbo htonll str stack amount_nbo =
     (let (r, a) = TALER_string_to_amount str stack
      in if r \<noteq> GNUNET_OK then Done (GNUNET_SYSERR, amount_nbo)
         else obind (TALER_amount_hton htonll a) (\<lambda>n. Done (GNUNET_OK, n)))"

definition test_valid_nbo :: "amount_nbo \<Rightarrow> generic_return" where
  "test_valid_nbo a = (if nbo_currency a ! 0 \<noteq> NUL then GNUNET_YES else GNUNET_NO)"

definition TALER_amount_cmp_currency_nbo :: "amount_nbo \<Rightarrow> amount_nbo \<Rightarrow> generic_return" where
  "TALER_amount_cmp_currency_nbo a1 a2 =
     (if test_valid_nbo a1 = GNUNET_NO \<or> test_valid_nbo a2 = GNUNET_NO then GNUNET_SYSERR
      else if strcaseeq (cstr (nbo_currency a1)) (cstr (nbo_currency a2)) then GNUNET_YES
      else GNUNET_NO)"

definition TALER_amount_cmp_nbo ::
  "(64 word \<Rightarrow> 64 word) \<Rightarrow> amount_nbo \<Rightarrow> amount_nbo \<Rightarrow> int outcome" where
  "TALER_amount_cmp_nbo ntohll a1 a2 =
     obind (TALER_amount_ntoh ntohll a1)
       (\<lambda>h1. obind (TALER_amount_ntoh ntohll a2) (\<lambda>h2. TALER_amount_cmp h1 h2))"

section \<open>Parsed amounts are normal\<close>

lemma parse_fraction_normal:
  assumes "parse_fraction a b cs = (GNUNET_OK, a')" "b = of_nat (10 ^ k div 10)" "k \<le> 8"
    and "unat (fraction a) + 10 ^ k \<le> TALER_AMOUNT_FRAC_BASE"
  shows "value a' = value a \<and> currency a' = currency a
         \<and> unat (fraction a') < TALER_AMOUNT_FRAC_BASE"
  using assms
proof (induction cs arbitrary: a b k)
  case Nil
  have "0 < (10 :: nat) ^ k" by simp
  then have "unat (fraction a) < TALER_AMOUNT_FRAC_BASE" using Nil.prems(4) by linarith
  then show ?case using Nil.prems(1) by simp
next
  case (Cons c cs)
  from Cons.prems have b: "b \<noteq> 0" and c: "c_isdigit c" by (auto split: if_splits)
  from b Cons.prems(2) obtain j where k: "k = Suc j" by (cases k) auto
  define f where "f = fraction a + of_nat (digit_val c) * b"
  have d: "digit_val c < 10" using c by (rule digit_val_less)
  have j: "(10 :: nat) ^ j \<le> 10 ^ 7" using Cons.prems(3) k by (intro power_increasing) simp_all
  have bn: "b = of_nat (10 ^ j)" using Cons.prems(2) k by simp
  have bu: "unat b = 10 ^ j"
    unfolding bn using j by (intro unat_of_nat_exact) simp
  have le: "digit_val c * 10 ^ j + 10 ^ j \<le> 10 ^ k"
    using d k mult_le_mono1 [of "digit_val c + 1" 10 "10 ^ j"] by simp
  have "unat (of_nat (digit_val c) * b) = digit_val c * 10 ^ j"
    unfolding bn of_nat_mult [symmetric]
    using d mult_le_mono [of "digit_val c" 10 "10 ^ j" "10 ^ 7"] j
    by (intro unat_of_nat_exact) simp
  then have f: "unat f = unat (fraction a) + digit_val c * 10 ^ j"
    unfolding f_def using Cons.prems(4) le
    by (subst unat_add_exact) (simp_all add: amount_consts)
  have "b div 10 = of_nat (10 ^ j div 10)"
    by (rule word_eq_of_natI) (simp add: unat_div bu)
  moreover have "parse_fraction (a\<lparr>fraction := f\<rparr>) (b div 10) cs = (GNUNET_OK, a')"
    using Cons.prems(1) b c by (simp add: f_def)
  moreover have "unat (fraction (a\<lparr>fraction := f\<rparr>)) + 10 ^ j \<le> TALER_AMOUNT_FRAC_BASE"
    using Cons.prems(4) le by (simp add: f)
  ultimately show ?case using Cons.IH [of "a\<lparr>fraction := f\<rparr>" "b div 10" j] k Cons.prems(3) by simp
qed


lemma bit_bswap32:
  "bit (bswap32 w) n \<longleftrightarrow> n < 32 \<and> bit w (if n < 8 then n + 24 else if n < 16 then n + 8
                                          else if n < 24 then n - 8 else n - 24)"
  by (auto simp: bswap32_def bit_or_iff bit_and_iff bit_push_bit_iff bit_drop_bit_eq bit_mask_iff
      not_less not_le add.commute dest: bit_imp_le_length)

lemma bswap32_bswap32 [simp]: "bswap32 (bswap32 w) = w"
  by (rule bit_word_eqI) (auto simp: bit_bswap32)

lemma bswap32_inj: "bswap32 v = bswap32 w \<longleftrightarrow> v = w"
  by (metis bswap32_bswap32)

lemma unat_digit_step:
  assumes "unat v \<le> TALER_AMOUNT_MAX_VALUE" "d < 10"
  shows "unat (v * 10 :: 64 word) = unat v * 10"
    and "unat (v * 10 + of_nat d) = 10 * unat v + d"
proof -
  show m: "unat (v * 10) = unat v * 10"
    using assms(1) by (subst unat_mult_exact) (simp_all add: amount_consts)
  have "unat (of_nat d :: 64 word) = d" using assms(2) by (simp add: unat_of_nat)
  then show "unat (v * 10 + of_nat d) = 10 * unat v + d"
    using assms m by (subst unat_add_exact) (simp_all add: amount_consts)
qed

text \<open>
  As long as the value is within bounds the four tests of the loop reduce to one: the next
  value must not exceed the maximum.
\<close>

lemma parse_value_digit:
  assumes "c_isdigit c" "unat (value a) \<le> TALER_AMOUNT_MAX_VALUE"
  shows "parse_value a (c # cs) =
         (if 10 * unat (value a) + digit_val c \<le> TALER_AMOUNT_MAX_VALUE
          then parse_value (a\<lparr>value := of_nat (10 * unat (value a) + digit_val c)\<rparr>) cs
          else (GNUNET_SYSERR, invalidate))"
proof -
  have d: "digit_val c < 10" using assms(1) by (rule digit_val_less)
  note step = unat_digit_step [OF assms(2) d]
  have "value a * 10 + of_nat (digit_val c) = of_nat (10 * unat (value a) + digit_val c)"
    using step(2) by (rule word_eq_of_natI)
  moreover have "c \<noteq> CHR ''.''" using assms(1) c_isdigit_not_special by blast
  moreover have "\<not> value a * 10 < value a" "\<not> value a * 10 + of_nat (digit_val c) < value a"
    "\<not> max_value64 < value a"
    using assms(2) by (simp_all add: word_less_nat_alt step word_nat)
  moreover have "max_value64 < value a * 10 + of_nat (digit_val c)
      \<longleftrightarrow> \<not> 10 * unat (value a) + digit_val c \<le> TALER_AMOUNT_MAX_VALUE"
    by (simp add: word_less_nat_alt step word_nat not_le)
  ultimately show ?thesis using assms(1) by (simp add: Let_def mult.commute)
qed

lemma parse_value_normal:
  assumes "parse_value a cs = (GNUNET_OK, a')" "unat (value a) \<le> TALER_AMOUNT_MAX_VALUE"
    and "fraction a = 0"
  shows "currency a' = currency a \<and> unat (value a') \<le> TALER_AMOUNT_MAX_VALUE
         \<and> unat (fraction a') < TALER_AMOUNT_FRAC_BASE"
  using assms
proof (induction cs arbitrary: a)
  case Nil
  then show ?case by (simp add: amount_consts)
next
  case (Cons c cs)
  show ?case
  proof (cases "c = CHR ''.''")
    case True
    with Cons.prems have "parse_fraction a (frac_base32 div 10) cs = (GNUNET_OK, a')"
      by (auto split: if_splits)
    moreover have "frac_base32 div 10 = of_nat (10 ^ 8 div 10)"
      by (simp add: amount_consts)
    ultimately show ?thesis
      using parse_fraction_normal [of a _ cs a' 8] Cons.prems by (simp add: amount_consts)
  next
    case False
    with Cons.prems have d: "c_isdigit c" by (auto split: if_splits)
    define v where "v = 10 * unat (value a) + digit_val c"
    from Cons.prems(1) have v: "v \<le> TALER_AMOUNT_MAX_VALUE"
      and rec: "parse_value (a\<lparr>value := of_nat v\<rparr>) cs = (GNUNET_OK, a')"
      unfolding parse_value_digit [OF d Cons.prems(2)] v_def [symmetric] by (auto split: if_splits)
    have "unat (of_nat v :: 64 word) = v"
      using v by (intro unat_of_nat_exact) (simp add: amount_consts)
    then show ?thesis using Cons.IH [OF rec] v Cons.prems(3) by simp
  qed
qed

lemma string_to_amount_normal:
  assumes "TALER_string_to_amount str x = (GNUNET_OK, a)"
  shows "normal a"
proof -
  define s where "s = dropWhile c_isspace (cstr str)"
  define cur where "cur = takeWhile (\<lambda>c. c \<noteq> CHR '':'') s"
  define a0 where "a0 = x\<lparr>currency := zero_padded TALER_CURRENCY_LEN cur, value := 0, fraction := 0\<rparr>"
  from assms have chk: "TALER_check_currency (cstr (zero_padded TALER_CURRENCY_LEN cur)) = GNUNET_OK"
    and ne: "cur \<noteq> []" "length cur < TALER_CURRENCY_LEN"
    and pv: "parse_value a0 (drop (length cur + 1) s) = (GNUNET_OK, a)"
    by (auto simp: TALER_string_to_amount_def Let_def s_def [symmetric] cur_def [symmetric] a0_def
        split: if_splits)
  have a0: "unat (value a0) \<le> TALER_AMOUNT_MAX_VALUE" "fraction a0 = 0"
    "currency a0 = zero_padded TALER_CURRENCY_LEN cur"
    by (simp_all add: a0_def)
  have "currency a = zero_padded TALER_CURRENCY_LEN cur"
    and "unat (value a) \<le> TALER_AMOUNT_MAX_VALUE" "unat (fraction a) < TALER_AMOUNT_FRAC_BASE"
    using parse_value_normal [OF pv a0(1,2)] a0(3) by simp_all
  moreover have "is_cstring cur"
    by (auto simp: is_cstring_def cur_def s_def cstr_def dest!: set_takeWhileD set_dropWhileD)
  then have "legal_currency (zero_padded TALER_CURRENCY_LEN cur)"
    using chk ne(1) check_currency_legal by simp
  ultimately show ?thesis
    by (simp add: normal_def representable_def units_def) (simp add: amount_consts)
qed

section \<open>Printing and parsing are inverse\<close>

lemma tail_step:
  assumes "k < 8" "rem < 10 ^ Suc k"
  defines "n \<equiv> of_nat (rem * 10 ^ (8 - Suc k)) :: 32 word"
  shows "unat (n div (frac_base32 div 10)) = rem div 10 ^ k"
    and "(n * 10) mod frac_base32 = of_nat (rem mod 10 ^ k * 10 ^ (8 - k))"
    and "n = 0 \<longleftrightarrow> rem = 0"
proof -
  have p: "(10 :: nat) ^ (8 - Suc k) * 10 ^ k = 10 ^ 7" "(10 :: nat) ^ (8 - k) = 10 * 10 ^ (8 - Suc k)"
    "(10 :: nat) ^ (8 - k) * 10 ^ k = 10 ^ 8"
    using assms(1) by (simp_all flip: power_add power_Suc)
  have pos: "0 < (10 :: nat) ^ (8 - Suc k)" "0 < (10 :: nat) ^ (8 - k)" by simp_all
  have "rem * 10 ^ (8 - Suc k) < 10 ^ Suc k * 10 ^ (8 - Suc k)"
    using assms(2) pos(1) by (simp only: mult_less_mono1)
  also have "\<dots> = 10 ^ 8" using p(1) by (simp add: mult.commute)
  finally have lt: "rem * 10 ^ (8 - Suc k) < 10 ^ 8" .
  have un: "unat n = rem * 10 ^ (8 - Suc k)"
    unfolding n_def using lt by (intro unat_of_nat_exact) simp
  have b: "unat (frac_base32 div 10) = 10 ^ 7" by (simp add: amount_consts)
  have "rem * 10 ^ (8 - Suc k) div 10 ^ 7 = rem div 10 ^ k"
    using div_mult_mult1 [of "10 ^ (8 - Suc k)" rem "10 ^ k"] pos(1)
    by (simp only: p(1) [symmetric] mult.commute)
  then show "unat (n div (frac_base32 div 10)) = rem div 10 ^ k"
    unfolding unat_div [of n] un b .
  have n10: "unat (n * 10) = rem * 10 ^ (8 - k)"
    using lt by (subst unat_mult_exact) (simp_all add: un p(2))
  have "rem * 10 ^ (8 - k) mod 10 ^ 8 = rem mod 10 ^ k * 10 ^ (8 - k)"
    using mult_mod_right [of "10 ^ (8 - k)" rem "10 ^ k"] unfolding p(3)
    by (simp only: mult.commute)
  then show "(n * 10) mod frac_base32 = of_nat (rem mod 10 ^ k * 10 ^ (8 - k))"
    by (intro word_eq_of_natI) (simp only: unat_mod n10 unat_bounds, simp add: amount_consts)
  show "n = 0 \<longleftrightarrow> rem = 0" by (simp add: unat_0_iff [symmetric] un)
qed

lemma parse_fraction_tail:
  assumes "k \<le> 8" "rem < 10 ^ k"
  shows "parse_fraction a (of_nat (10 ^ k div 10)) (amount_tail_loop k (of_nat (rem * 10 ^ (8 - k))))
         = (GNUNET_OK, a\<lparr>fraction := fraction a + of_nat rem\<rparr>)"
  using assms
proof (induction k arbitrary: rem a)
  case 0
  then show ?case by simp
next
  case (Suc k)
  let ?n = "of_nat (rem * 10 ^ (8 - Suc k)) :: 32 word"
  have "k < 8" using Suc.prems(1) by simp
  note step = tail_step [OF this Suc.prems(2)]
  show ?case
  proof (cases "rem = 0")
    case True
    then show ?thesis by simp
  next
    case False
    define d where "d = rem div 10 ^ k"
    have d: "d < 10" using Suc.prems(2) by (simp add: d_def less_mult_imp_div_less)
    have tail: "amount_tail_loop (Suc k) ?n
        = digit_char d # amount_tail_loop k (of_nat (rem mod 10 ^ k * 10 ^ (8 - k)))"
      using False step by (simp add: digit_char_def d_def)
    have b: "of_nat (10 ^ Suc k div 10) = (of_nat (10 ^ k) :: 32 word)" by simp
    have kb: "(10 :: nat) ^ k \<le> 10 ^ 7" using \<open>k < 8\<close> by (intro power_increasing) simp_all
    then have bu: "unat (of_nat (10 ^ k) :: 32 word) = 10 ^ k"
      by (intro unat_of_nat_exact) simp
    then have b0: "(of_nat (10 ^ k) :: 32 word) \<noteq> 0"
      by (metis unat_0 power_not_zero zero_neq_numeral)
    have bd: "(of_nat (10 ^ k) :: 32 word) div 10 = of_nat (10 ^ k div 10)"
      by (rule word_eq_of_natI) (simp add: unat_div bu del: of_nat_power)
    have sum: "of_nat d * (of_nat (10 ^ k) :: 32 word) + of_nat (rem mod 10 ^ k) = of_nat rem"
      unfolding of_nat_mult [symmetric] of_nat_add [symmetric] d_def div_mult_mod_eq ..
    let ?a = "a\<lparr>fraction := fraction a + of_nat d * of_nat (10 ^ k)\<rparr>"
    have IH: "parse_fraction ?a (of_nat (10 ^ k div 10))
                (amount_tail_loop k (of_nat (rem mod 10 ^ k * 10 ^ (8 - k))))
              = (GNUNET_OK, ?a\<lparr>fraction := fraction ?a + of_nat (rem mod 10 ^ k)\<rparr>)"
      using \<open>k < 8\<close> by (intro Suc.IH) simp_all
    have "parse_fraction a (of_nat (10 ^ Suc k div 10)) (amount_tail_loop (Suc k) ?n)
          = parse_fraction ?a (of_nat (10 ^ k div 10))
              (amount_tail_loop k (of_nat (rem mod 10 ^ k * 10 ^ (8 - k))))"
      unfolding tail b using b0 d bd by (simp del: of_nat_power)
    also note IH
    also have "?a\<lparr>fraction := fraction ?a + of_nat (rem mod 10 ^ k)\<rparr>
               = a\<lparr>fraction := fraction a + of_nat rem\<rparr>"
      using sum by (simp add: add.assoc del: of_nat_power)
    finally show ?thesis .
  qed
qed

lemma foldl_digits_ge: "x \<le> foldl (\<lambda>v c. 10 * v + digit_val c) x ds"
proof (induction ds arbitrary: x)
  case (Cons d ds)
  have "x \<le> 10 * x + digit_val d" by simp
  also note Cons.IH [of "10 * x + digit_val d"]
  finally show ?case by simp
qed simp

lemma parse_value_digits:
  assumes "list_all c_isdigit ds"
    and "foldl (\<lambda>v c. 10 * v + digit_val c) (unat (value a)) ds \<le> TALER_AMOUNT_MAX_VALUE"
  shows "parse_value a (ds @ rest) =
         parse_value (a\<lparr>value := of_nat (foldl (\<lambda>v c. 10 * v + digit_val c) (unat (value a)) ds)\<rparr>) rest"
  using assms
proof (induction ds arbitrary: a)
  case Nil
  then show ?case by simp
next
  case (Cons d ds)
  define v where "v = 10 * unat (value a) + digit_val d"
  have v: "v \<le> TALER_AMOUNT_MAX_VALUE"
    using Cons.prems(2) foldl_digits_ge [of v ds] by (simp add: v_def)
  then have a: "unat (value a) \<le> TALER_AMOUNT_MAX_VALUE" by (simp add: v_def)
  have "unat (of_nat v :: 64 word) = v"
    using v by (intro unat_of_nat_exact) (simp add: amount_consts)
  moreover have "parse_value a ((d # ds) @ rest) = parse_value (a\<lparr>value := of_nat v\<rparr>) (ds @ rest)"
    using Cons.prems(1) v parse_value_digit [OF _ a, of d "ds @ rest"]
    by (simp add: v_def [symmetric] del: parse_value.simps)
  ultimately show ?case
    using Cons.IH [of "a\<lparr>value := of_nat v\<rparr>"] Cons.prems by (simp add: v_def [symmetric])
qed

lemma parse_value_decimal:
  assumes "v \<le> TALER_AMOUNT_MAX_VALUE" "value a = 0"
  shows "parse_value a (decimal v @ rest) = parse_value (a\<lparr>value := of_nat v\<rparr>) rest"
  using parse_value_digits [OF decimal_digits, of a v rest] assms digits_value_decimal [of v]
  by (simp add: digits_value_def)

text \<open>The text of a normal amount and how it splits at the colon and the dot.\<close>

definition amount_text :: "char list \<Rightarrow> nat \<Rightarrow> string" where
  "amount_text cur u =
     cstr cur @ '':'' @ decimal (u div TALER_AMOUNT_FRAC_BASE)
     @ (if u mod TALER_AMOUNT_FRAC_BASE = 0 then []
        else ''.'' @ amount_tail_loop TALER_AMOUNT_FRAC_LEN (of_nat (u mod TALER_AMOUNT_FRAC_BASE)))"

lemma mk_amount_fraction_0:
  "u \<le> max_units \<Longrightarrow> fraction (mk_amount cur u) = 0 \<longleftrightarrow> u mod TALER_AMOUNT_FRAC_BASE = 0"
  by (simp add: unat_0_iff [symmetric] mk_amount_nat)

lemma to_string_representable:
  assumes "representable a"
  shows "TALER_amount_to_string a = Some (amount_text (currency a) (units a))"
proof -
  obtain r where norm: "TALER_amount_normalize a = (r, mk_amount (currency a) (units a))"
    using normalizeE [OF assms] by blast
  have u: "units a \<le> max_units" using assms by (simp add: representable_def)
  then show ?thesis
    by (simp add: TALER_amount_to_string_def representable_valid assms norm Let_def
        mk_amount_fraction_0 mk_amount_nat amount_text_def amount_to_tail_def)
      (simp add: mk_amount_def)
qed

lemma tail_digits:
  assumes "k \<le> 8" "rem < 10 ^ k"
  shows "list_all c_isdigit (amount_tail_loop k (of_nat (rem * 10 ^ (8 - k))))
         \<and> length (amount_tail_loop k (of_nat (rem * 10 ^ (8 - k)))) \<le> k"
  using assms
proof (induction k arbitrary: rem)
  case (Suc k)
  then have "k < 8" by simp
  note step = tail_step [OF this Suc.prems(2)]
  have "rem div 10 ^ k < 10" using Suc.prems(2) by (simp add: less_mult_imp_div_less)
  moreover have "list_all c_isdigit (amount_tail_loop k (of_nat (rem mod 10 ^ k * 10 ^ (8 - k))))
      \<and> length (amount_tail_loop k (of_nat (rem mod 10 ^ k * 10 ^ (8 - k)))) \<le> k"
    using \<open>k < 8\<close> by (intro Suc.IH) simp_all
  ultimately show ?case
    unfolding amount_tail_loop.simps step
    using c_isdigit_digit_char [of "rem div 10 ^ k"]
    by (cases "rem = 0") (simp_all add: digit_char_def)
qed simp

lemma text_tail:
  assumes "r < TALER_AMOUNT_FRAC_BASE"
  shows "list_all c_isdigit (amount_tail_loop TALER_AMOUNT_FRAC_LEN (of_nat r))"
    and "length (amount_tail_loop TALER_AMOUNT_FRAC_LEN (of_nat r)) \<le> 8"
    and "parse_fraction a (frac_base32 div 10) (amount_tail_loop TALER_AMOUNT_FRAC_LEN (of_nat r))
         = (GNUNET_OK, a\<lparr>fraction := fraction a + of_nat r\<rparr>)"
  using tail_digits [of 8 r] parse_fraction_tail [of 8 r a] assms
  by (simp_all add: TALER_AMOUNT_FRAC_LEN_def amount_consts)

lemma amount_tail_nonempty: "n \<noteq> 0 \<Longrightarrow> 0 < k \<Longrightarrow> amount_tail_loop k n \<noteq> []"
  by (cases k) simp_all

lemma legal_currency_chars:
  assumes "legal_currency cur"
  obtains c cs where "cstr cur = c # cs" "c_isupper c" "list_all c_isupper (cstr cur)"
    "length (cstr cur) < TALER_CURRENCY_LEN" "cur = zero_padded TALER_CURRENCY_LEN (cstr cur)"
  using assms by (cases "cstr cur") (auto simp: legal_currency_def)

lemma c_isupper_not_special: "c_isupper c \<Longrightarrow> c \<noteq> NUL \<and> c \<noteq> CHR '':'' \<and> \<not> c_isspace c"
  by (auto simp: c_isupper_def c_isspace_def)

lemma amount_text_cstring:
  assumes "legal_currency cur"
  shows "is_cstring (amount_text cur u)"
proof -
  have digits: "list_all c_isdigit ds \<Longrightarrow> NUL \<notin> set ds" for ds
    by (auto simp: list_all_iff dest: c_isdigit_not_special)
  have "NUL \<notin> set (cstr cur)" using is_cstring_cstr by (simp add: is_cstring_def)
  then show ?thesis
    using digits [OF decimal_digits] digits [OF text_tail(1) [OF units_mod_less]]
    by (simp add: amount_text_def is_cstring_def)
qed

lemma string_to_amount_split:
  assumes leg: "legal_currency cur" and str: "cstr str = cstr cur @ CHR '':'' # rest" and "rest \<noteq> []"
  shows "TALER_string_to_amount str x
         = parse_value \<lparr>value = 0, fraction = 0, currency = cur\<rparr> rest"
proof -
  obtain c cs where cur: "cstr cur = c # cs" "c_isupper c" "list_all c_isupper (cstr cur)"
    "length (cstr cur) < TALER_CURRENCY_LEN" "cur = zero_padded TALER_CURRENCY_LEN (cstr cur)"
    by (rule legal_currency_chars [OF leg])
  have drop: "dropWhile c_isspace (cstr cur @ CHR '':'' # rest) = cstr cur @ CHR '':'' # rest"
    using cur(1,2) c_isupper_not_special by simp
  have take: "takeWhile (\<lambda>c. c \<noteq> CHR '':'') (cstr cur @ CHR '':'' # rest) = cstr cur"
    using cur(3) c_isupper_not_special by (subst takeWhile_append2) (auto simp: list_all_iff)
  have eq: "x\<lparr>currency := cur, value := 0, fraction := 0\<rparr> = \<lparr>value = 0, fraction = 0, currency = cur\<rparr>"
    by (cases x) simp
  show ?thesis
    unfolding TALER_string_to_amount_def Let_def str drop take cur(5) [symmetric]
    using cur(1,4) legal_currency_check [OF leg] assms(3) by (simp add: eq)
qed

lemma string_to_amount_text:
  assumes leg: "legal_currency cur" and u: "u \<le> max_units"
  shows "TALER_string_to_amount (amount_text cur u) x = (GNUNET_OK, mk_amount cur u)"
proof -
  let ?B = TALER_AMOUNT_FRAC_BASE
  let ?tail = "if u mod ?B = 0 then []
               else ''.'' @ amount_tail_loop TALER_AMOUNT_FRAC_LEN (of_nat (u mod ?B))"
  let ?a0 = "\<lparr>value = 0, fraction = 0, currency = cur\<rparr>"
  have "cstr (amount_text cur u) = amount_text cur u"
    using amount_text_cstring [OF leg, of u]
    by (auto simp: cstr_def is_cstring_def takeWhile_eq_all_conv)
  then have "TALER_string_to_amount (amount_text cur u) x
             = parse_value ?a0 (decimal (u div ?B) @ ?tail)"
    by (intro string_to_amount_split [OF leg]) (simp_all add: amount_text_def)
  also have "\<dots> = parse_value (?a0\<lparr>value := of_nat (u div ?B)\<rparr>) ?tail"
    by (rule parse_value_decimal) (use u units_div_le in simp_all)
  also have "\<dots> = (GNUNET_OK, mk_amount cur u)"
  proof (cases "u mod ?B = 0")
    case True
    then show ?thesis by (simp add: mk_amount_def)
  next
    case False
    then have "amount_tail_loop TALER_AMOUNT_FRAC_LEN (of_nat (u mod ?B)) \<noteq> []"
      using mk_amount_fraction_0 [OF u]
      by (intro amount_tail_nonempty) (simp_all add: TALER_AMOUNT_FRAC_LEN_def mk_amount_def)
    then show ?thesis
      using False text_tail(3) [OF units_mod_less [of u]] by (simp add: mk_amount_def)
  qed
  finally show ?thesis .
qed

lemma amount2s_via_to_string:
  "TALER_amount2s a =
     (case TALER_amount_to_string a of
        None \<Rightarrow> Done None
      | Some t \<Rightarrow> gassert (length t < amount2s_buffer_size) (Done (Some t)))"
  by (simp add: TALER_amount2s_def TALER_amount_to_string_def Let_def)

lemma length_amount_text:
  assumes leg: "legal_currency cur" and u: "u \<le> max_units"
  shows "length (amount_text cur u) \<le> 37"
proof -
  have "length (cstr cur) < 12"
    using leg by (simp add: legal_currency_def TALER_CURRENCY_LEN_def)
  moreover have "u div TALER_AMOUNT_FRAC_BASE < 10 ^ 16"
    using u by (simp add: units_div_le amount_consts)
  then have "length (decimal (u div TALER_AMOUNT_FRAC_BASE)) \<le> 16"
    by (rule length_decimal_le) simp
  ultimately show ?thesis
    using text_tail(2) [OF units_mod_less [of u]] by (simp add: amount_text_def)
qed

section \<open>Properties\<close>

text \<open>
  C3: parsing undoes printing: the string \<^verbatim>\<open>TALER_amount_to_string\<close> returns for a representable
  amount is parsed by \<^verbatim>\<open>TALER_string_to_amount\<close> without error, into the normalised amount with
  the same currency and the same number of units, whatever the output parameter held before.
\<close>

theorem amount_print_parse:
  assumes "representable a"
  shows "\<exists>s. TALER_amount_to_string a = Some s
             \<and> TALER_string_to_amount s x = (GNUNET_OK, mk_amount (currency a) (units a))"
  using to_string_representable [OF assms] string_to_amount_text assms
  by (simp add: representable_def)

lemma amount_tail_loop_numeral:
  "amount_tail_loop (numeral k) n =
     (if n = 0 then []
      else char_of (code CHR ''0'' + unat (n div (frac_base32 div 10)))
           # amount_tail_loop (pred_numeral k) ((n * 10) mod frac_base32))"
  by (simp add: numeral_eq_Suc)

lemma amount_text_sample: "amount_text EUR 450000000 = ''EUR:4.5''"
proof -
  have "cstr EUR = ''EUR''" by (simp add: EUR_def is_cstring_def)
  moreover have "decimal 4 = ''4''" by (simp add: decimal.simps digit_char_def char_of_def bit_0)
  moreover have "amount_tail_loop 8 50000000 = ''5''"
    by (simp add: amount_tail_loop_numeral amount_consts char_of_def bit_0)
  ultimately show ?thesis
    by (simp add: amount_text_def amount_consts TALER_AMOUNT_FRAC_LEN_def)
qed

theorem amount_print_parse_witness:
  "TALER_amount_to_string (eur 450000000) = Some ''EUR:4.5''
   \<and> TALER_string_to_amount ''EUR:4.5'' invalidate = (GNUNET_OK, eur 450000000)"
proof -
  have u: "450000000 \<le> max_units" by (simp add: amount_consts)
  then have "TALER_amount_to_string (eur 450000000) = Some ''EUR:4.5''"
    by (simp add: to_string_representable amount_text_sample)
  then show ?thesis
    using amount_print_parse [of "eur 450000000" invalidate] u by (simp add: eur_eqI)
qed

text \<open>
  Whenever \<^verbatim>\<open>TALER_string_to_amount\<close> reports success, the amount it leaves in its output
  parameter has a legal currency, a value of at most \<^verbatim>\<open>TALER_AMOUNT_MAX_VALUE\<close> and a fraction
  below the base: no accepted string overflows.
\<close>

lemma amount_parse_normal:
  assumes "TALER_string_to_amount str x = (GNUNET_OK, a)"
  shows "normal a"
  by (rule string_to_amount_normal [OF assms])

text \<open>
  The static buffer of \<^verbatim>\<open>TALER_amount2s\<close> is large enough: for a representable amount the
  function does not abort and returns the same text as \<^verbatim>\<open>TALER_amount_to_string\<close>.
\<close>

lemma amount2s_fits:
  assumes "representable a"
  shows "TALER_amount2s a = Done (TALER_amount_to_string a)"
proof -
  have str: "TALER_amount_to_string a = Some (amount_text (currency a) (units a))"
    by (rule to_string_representable [OF assms])
  have "length (amount_text (currency a) (units a)) < amount2s_buffer_size"
    using length_amount_text [of "currency a" "units a"] assms
    by (simp add: representable_def amount2s_buffer_size_def TALER_AMOUNT_FRAC_LEN_def amount_consts)
  then show ?thesis by (simp add: amount2s_via_to_string str)
qed

text \<open>
  Conversion to network byte order and back returns the same amount, for every pair of
  64-bit conversions of which the second undoes the first.
\<close>

lemma amount_hton_ntoh:
  assumes "TALER_amount_is_valid a = GNUNET_OK" and ntohll_htonll: "\<And>w. ntohll (htonll w) = w"
  shows "obind (TALER_amount_hton htonll a) (TALER_amount_ntoh ntohll) = Done a"
  using assms by (cases a) (simp add: TALER_amount_hton_def TALER_amount_ntoh_def)

end
