(* ===== verification/Json_Helper.thy ===== *)
theory Json_Helper
  imports Amount_Format Payto
begin

text \<open>
  Field parsers of \<^verbatim>\<open>src/src/json/json_helper.c\<close> for amounts, full payto URIs and web URLs, with
  the URL checks of \<^verbatim>\<open>src/src/util/url.c\<close>. A parser gets the value of a JSON string; \<open>None\<close> is
  \<^verbatim>\<open>GNUNET_SYSERR\<close>. How the string is found in a JSON object is left to the callers, since
  the JSON library is not part of the sources.
\<close>

definition parse_amount :: "string option \<Rightarrow> string \<Rightarrow> amount \<Rightarrow> amount option" where
  "parse_amount cur str r =
     (case TALER_string_to_amount str r of
        (ret, a) \<Rightarrow>
          if ret \<noteq> GNUNET_OK then None
          else case cur of
                 None \<Rightarrow> Some a
               | Some c \<Rightarrow> if strcaseeq c (cstr (currency a)) then Some a else None)"

definition parse_full_payto_uri :: "string \<Rightarrow> string option" where
  "parse_full_payto_uri str = (if TALER_payto_validate str \<noteq> None then None else Some str)"

definition URL_CHARACTERS :: string where
  "URL_CHARACTERS = ''abcdefghijklmnopqrstuvwxyzABCDEFGHIJKLMNOPQRSTUVWXYZ0123456789/:;&?-.,=_~%+#''"

fun TALER_url_valid_charset :: "string \<Rightarrow> bool" where
  "TALER_url_valid_charset [] = True"
| "TALER_url_valid_charset (c # cs) = (if c \<notin> set URL_CHARACTERS then False else TALER_url_valid_charset cs)"

definition TALER_is_web_url :: "string \<Rightarrow> bool" where
  "TALER_is_web_url url =
     (if \<not> strncaseeq url ''https://'' (length ''https://'') \<and> \<not> strncaseeq url ''http://'' (length ''http://'')
      then False
      else if \<not> TALER_url_valid_charset url then False else True)"

definition parse_web_url :: "string \<Rightarrow> string option" where
  "parse_web_url str = (if \<not> TALER_is_web_url str then None else Some str)"

lemma parse_amount_normal: "parse_amount cur str r = Some a \<Longrightarrow> normal a"
  by (auto simp: parse_amount_def intro: string_to_amount_normal split: prod.splits if_splits option.splits)

end
