(* ===== verification/Fakebank_Requests.thy ===== *)
theory Fakebank_Requests
  imports Fakebank Json_Helper
begin

text \<open>
  The HTTP requests of the fakebank that change its state, and those that read accounts and
  withdrawal operations: \<^verbatim>\<open>fakebank_bank_*.c\<close>, \<^verbatim>\<open>fakebank_tbi_post_withdrawal_operation.c\<close>,
  \<^verbatim>\<open>fakebank_twg_transfer.c\<close> and \<^verbatim>\<open>fakebank_twg_admin_add_*.c\<close> of \<^verbatim>\<open>src/src/bank-lib\<close>, over the
  field parsers of \<open>Json_Helper\<close>. The upload and the JSON syntax are
  libraries: a handler gets the result of the upload and the raw fields. A reply is a value;
  its free-text detail is left out. \<open>queued\<close> says whether the server could queue the reply to
  a malformed body.
\<close>

section \<open>Replies and uploads\<close>

datatype error_code =
    TALER_EC_BANK_UNKNOWN_ACCOUNT
  | TALER_EC_BANK_TRANSACTION_NOT_FOUND
  | TALER_EC_BANK_POST_WITHDRAWAL_OPERATION_REQUIRED
  | TALER_EC_BANK_CONFIRM_ABORT_CONFLICT
  | TALER_EC_BANK_ABORT_CONFIRM_CONFLICT
  | TALER_EC_BANK_DUPLICATE_RESERVE_PUB_SUBJECT
  | TALER_EC_BANK_WITHDRAWAL_OPERATION_RESERVE_SELECTION_CONFLICT
  | TALER_EC_BANK_TRANSFER_REQUEST_UID_REUSED
  | TALER_EC_BANK_REGISTER_CONFLICT
  | TALER_EC_GENERIC_PAYTO_URI_MALFORMED
  | TALER_EC_GENERIC_CURRENCY_MISMATCH
  | TALER_EC_GENERIC_ALLOCATION_FAILURE
  | TALER_EC_GENERIC_ENDPOINT_UNKNOWN

datatype reply =
    MHD_NO
  | MHD_YES
  | Reply_error nat error_code
  | Reply_no_content
  | Reply_transfer "64 word" "64 word"
  | Reply_withdraw_uri string bytes
  | Reply_status bool string
  | Reply_account string string amount
  | Reply_withdrawal bool bool bool string "bytes option" "string option" "amount option"

datatype 'json post_result =
    GNUNET_JSON_PR_OUT_OF_MEMORY
  | GNUNET_JSON_PR_CONTINUE
  | GNUNET_JSON_PR_REQUEST_TOO_LARGE
  | GNUNET_JSON_PR_JSON_INVALID
  | GNUNET_JSON_PR_SUCCESS 'json

text \<open>The \<^verbatim>\<open>switch\<close> on the upload that opens every handler.\<close>

definition on_upload :: "fakebank \<Rightarrow> 'json post_result \<Rightarrow> ('json \<Rightarrow> (reply \<times> fakebank) outcome) \<Rightarrow> (reply \<times> fakebank) outcome" where
  "on_upload h pr k =
     (case pr of
        GNUNET_JSON_PR_OUT_OF_MEMORY \<Rightarrow> Done (MHD_NO, h)
      | GNUNET_JSON_PR_CONTINUE \<Rightarrow> Done (MHD_YES, h)
      | GNUNET_JSON_PR_REQUEST_TOO_LARGE \<Rightarrow> Done (MHD_NO, h)
      | GNUNET_JSON_PR_JSON_INVALID \<Rightarrow> Done (MHD_NO, h)
      | GNUNET_JSON_PR_SUCCESS json \<Rightarrow> k json)"

text \<open>\<^verbatim>\<open>return (GNUNET_NO == ret) ? MHD_YES : MHD_NO\<close> after a failed \<^verbatim>\<open>TALER_MHD_parse_json_data\<close>.\<close>

definition bad_body :: "bool \<Rightarrow> reply" where
  "bad_body queued = (if queued then MHD_YES else MHD_NO)"

text \<open>A field for an amount of the currency of the bank, and its optional form.\<close>

definition amount_field :: "fakebank \<Rightarrow> string \<Rightarrow> amount option" where
  "amount_field h str = parse_amount (Some (bank_currency h)) str zero_memory_amount"

definition optional_amount_field :: "fakebank \<Rightarrow> string option \<Rightarrow> amount option option" where
  "optional_amount_field h s =
     (case s of
        None \<Rightarrow> Some None
      | Some str \<Rightarrow> map_option Some (amount_field h str))"

section \<open>Withdrawal operations\<close>

definition set_wo :: "fakebank \<Rightarrow> bytes \<Rightarrow> withdrawal_operation \<Rightarrow> fakebank" where
  "set_wo h sh wo = h\<lparr>wops := map_option (\<lambda>m. m(sh \<mapsto> wo)) (wops h)\<rparr>"

definition new_wo :: "bytes \<Rightarrow> amount option \<Rightarrow> withdrawal_operation" where
  "new_wo acc amt =
     \<lparr>wo_debit_account = acc, wo_exchange_account = None, wo_row_id = 0, wo_amount = amt,
      wo_reserve_pub = replicate 32 NUL, wo_timestamp = 0, wo_aborted = False,
      wo_confirmation_done = False, wo_selection_done = False\<rparr>"

text \<open>
  The loop that draws identifiers until one is not in use; \<open>rnd i\<close> is the \<open>i\<close>-th random block.
  \<open>None\<close> is a loop that does not end.
\<close>

partial_function (option) wopid_loop :: "(bytes \<rightharpoonup> withdrawal_operation) \<Rightarrow> (nat \<Rightarrow> bytes) \<Rightarrow> nat \<Rightarrow> bytes option" where
  "wopid_loop m rnd i = (if m (rnd i) = None then Some (rnd i) else wopid_loop m rnd (Suc i))"

definition do_post_account_withdrawals ::
  "(string \<Rightarrow> bytes) \<Rightarrow> (bytes \<Rightarrow> string) \<Rightarrow> (nat \<Rightarrow> bytes) \<Rightarrow> fakebank \<Rightarrow> string \<Rightarrow> amount option
   \<Rightarrow> (reply \<times> fakebank) outcome option" where
  "do_post_account_withdrawals hash data_to_string rnd h name amt =
     (case TALER_FAKEBANK_lookup_account hash h name None of
        Abort \<Rightarrow> Some Abort
      | Done (acc, h1) \<Rightarrow>
          (case acc of
             None \<Rightarrow> Some (Done (Reply_error 404 TALER_EC_BANK_UNKNOWN_ACCOUNT, h1))
           | Some k \<Rightarrow>
               let m = (case wops h1 of None \<Rightarrow> Map.empty | Some m \<Rightarrow> m)
               in map_option
                    (\<lambda>wopid. Done
                       (Reply_withdraw_uri
                          (''taler+http://withdraw/'' @ hostname h1 @ '':'' @ decimal (port h1)
                           @ ''/taler-integration/'' @ data_to_string wopid) wopid,
                        h1\<lparr>wops := Some (m(wopid \<mapsto> new_wo k amt))\<rparr>))
                    (wopid_loop m rnd 0)))"

definition TALER_FAKEBANK_bank_post_account_withdrawals ::
  "(string \<Rightarrow> bytes) \<Rightarrow> (bytes \<Rightarrow> string) \<Rightarrow> (nat \<Rightarrow> bytes) \<Rightarrow> bool \<Rightarrow> fakebank \<Rightarrow> string
   \<Rightarrow> string option option post_result \<Rightarrow> (reply \<times> fakebank) outcome option" where
  "TALER_FAKEBANK_bank_post_account_withdrawals hash data_to_string rnd queued h name pr =
     (case pr of
        GNUNET_JSON_PR_SUCCESS body \<Rightarrow>
          (case Option.bind body (optional_amount_field h) of
             None \<Rightarrow> Some (Done (bad_body queued, h))
           | Some amt \<Rightarrow> do_post_account_withdrawals hash data_to_string rnd h name amt)
      | _ \<Rightarrow> Some (on_upload h pr (\<lambda>body. Done (MHD_YES, h))))"

text \<open>
  \<^verbatim>\<open>do_post_withdrawal\<close>. The check for a reserve key in use looks at the key stored in the
  operation, which is all zero before the first selection, not at the key of the request.
\<close>

definition do_post_withdrawal ::
  "(string \<Rightarrow> bytes) \<Rightarrow> (string \<Rightarrow> bytes option) \<Rightarrow> fakebank \<Rightarrow> string \<Rightarrow> bytes \<Rightarrow> string \<Rightarrow> amount option
   \<Rightarrow> (reply \<times> fakebank) outcome" where
  "do_post_withdrawal hash string_to_data h wopid reserve_pub exchange_payto_uri amt =
     (case TALER_FAKEBANK_lookup_withdrawal_operation string_to_data h wopid of
        None \<Rightarrow> Done (Reply_error 404 TALER_EC_BANK_TRANSACTION_NOT_FOUND, h)
      | Some (sh, wo) \<Rightarrow>
          if wo_selection_done wo \<and> wo_reserve_pub wo \<noteq> reserve_pub
          then Done (Reply_error 409 TALER_EC_BANK_WITHDRAWAL_OPERATION_RESERVE_SELECTION_CONFLICT, h)
          else if rpubs h (wo_reserve_pub wo) \<noteq> None
          then Done (Reply_error 409 TALER_EC_BANK_DUPLICATE_RESERVE_PUB_SUBJECT, h)
          else case TALER_xtalerbank_account_from_payto exchange_payto_uri of
                 None \<Rightarrow> Done (Reply_error 400 TALER_EC_GENERIC_PAYTO_URI_MALFORMED, h)
               | Some credit_name \<Rightarrow>
                   obind (TALER_FAKEBANK_lookup_account hash h credit_name None)
                     (\<lambda>(acc, h1). case acc of
                        None \<Rightarrow> Done (Reply_error 404 TALER_EC_BANK_UNKNOWN_ACCOUNT, h1)
                      | Some k \<Rightarrow>
                          if wo_exchange_account wo \<noteq> None \<and> wo_exchange_account wo \<noteq> Some k
                          then Done (Reply_error 409 TALER_EC_BANK_WITHDRAWAL_OPERATION_RESERVE_SELECTION_CONFLICT, h1)
                          else obind
                            (case (wo_amount wo, amt) of
                               (Some a, Some b) \<Rightarrow> TALER_amount_cmp a b
                             | _ \<Rightarrow> Done 0)
                            (\<lambda>c. if c \<noteq> 0
                               then Done (Reply_error 409 TALER_EC_BANK_WITHDRAWAL_OPERATION_RESERVE_SELECTION_CONFLICT, h1)
                               else case (case wo_amount wo of None \<Rightarrow> amt | Some a \<Rightarrow> Some a) of
                                 None \<Rightarrow> Done (Reply_error 400 TALER_EC_BANK_POST_WITHDRAWAL_OPERATION_REQUIRED, h1)
                               | Some a \<Rightarrow>
                                   Done (Reply_status (wo_confirmation_done wo)
                                           (if wo_aborted wo then ''aborted''
                                            else if wo_confirmation_done wo then ''confirmed''
                                            else ''selected''),
                                         set_wo h1 sh (wo\<lparr>wo_amount := Some a, wo_exchange_account := Some k,
                                           wo_reserve_pub := reserve_pub, wo_selection_done := True\<rparr>)))))"

record post_withdrawal_body =
  pw_reserve_pub :: bytes
  pw_selected_exchange :: string
  pw_amount :: "string option"

definition TALER_FAKEBANK_tbi_post_withdrawal ::
  "(string \<Rightarrow> bytes) \<Rightarrow> (string \<Rightarrow> bytes option) \<Rightarrow> bool \<Rightarrow> fakebank \<Rightarrow> string
   \<Rightarrow> post_withdrawal_body option post_result \<Rightarrow> (reply \<times> fakebank) outcome" where
  "TALER_FAKEBANK_tbi_post_withdrawal hash string_to_data queued h wopid pr =
     on_upload h pr
       (\<lambda>json. case json of
          None \<Rightarrow> Done (bad_body queued, h)
        | Some b \<Rightarrow>
            (case (parse_full_payto_uri (pw_selected_exchange b), optional_amount_field h (pw_amount b)) of
               (Some uri, Some amt) \<Rightarrow> do_post_withdrawal hash string_to_data h wopid (pw_reserve_pub b) uri amt
             | _ \<Rightarrow> Done (bad_body queued, h)))"

text \<open>
  \<^verbatim>\<open>bank_withdrawals_confirm\<close> takes the lock twice. The first section checks the operation and
  fixes its amount; \<open>Inr\<close> is the operation to transfer, \<open>Inl\<close> an early reply.
\<close>

definition confirm_check ::
  "(string \<Rightarrow> bytes) \<Rightarrow> (string \<Rightarrow> bytes option) \<Rightarrow> fakebank \<Rightarrow> string \<Rightarrow> string \<Rightarrow> amount option
   \<Rightarrow> ((reply + bytes) \<times> fakebank) outcome" where
  "confirm_check hash string_to_data h account withdrawal_id amt =
     obind (TALER_FAKEBANK_lookup_account hash h account None)
       (\<lambda>(acc, h1). case acc of
          None \<Rightarrow> Done (Inl (Reply_error 404 TALER_EC_BANK_UNKNOWN_ACCOUNT), h1)
        | Some k \<Rightarrow>
            (case TALER_FAKEBANK_lookup_withdrawal_operation string_to_data h1 withdrawal_id of
               None \<Rightarrow> Done (Inl (Reply_error 404 TALER_EC_BANK_TRANSACTION_NOT_FOUND), h1)
             | Some (sh, wo) \<Rightarrow>
                 if k \<noteq> wo_debit_account wo
                 then Done (Inl (Reply_error 404 TALER_EC_BANK_TRANSACTION_NOT_FOUND), h1)
                 else if wo_exchange_account wo = None
                 then Done (Inl (Reply_error 400 TALER_EC_BANK_POST_WITHDRAWAL_OPERATION_REQUIRED), h1)
                 else obind
                   (case (wo_amount wo, amt) of
                      (Some a, Some b) \<Rightarrow> TALER_amount_cmp b a
                    | _ \<Rightarrow> Done 0)
                   (\<lambda>c. if c \<noteq> 0
                      then Done (Inl (Reply_error 409 TALER_EC_BANK_CONFIRM_ABORT_CONFLICT), h1)
                      else case (case wo_amount wo of None \<Rightarrow> amt | Some a \<Rightarrow> Some a) of
                        None \<Rightarrow> Done (Inl (Reply_error 409 TALER_EC_BANK_CONFIRM_ABORT_CONFLICT), h1)
                      | Some a \<Rightarrow>
                          let h2 = set_wo h1 sh (wo\<lparr>wo_amount := Some a\<rparr>)
                          in if wo_aborted wo
                             then Done (Inl (Reply_error 409 TALER_EC_BANK_CONFIRM_ABORT_CONFLICT), h2)
                             else Done (Inr sh, h2))))"

text \<open>The second section: the transfer without the lock, and the confirmation under it again.\<close>

definition confirm_transfer ::
  "(string \<Rightarrow> bytes) \<Rightarrow> 64 word \<Rightarrow> fakebank \<Rightarrow> bytes \<Rightarrow> (reply \<times> fakebank) outcome" where
  "confirm_transfer hash now h sh =
     (case Option.bind (wops h) (\<lambda>m. m sh) of
        None \<Rightarrow> Abort
      | Some wo \<Rightarrow>
          (case (wo_exchange_account wo, wo_amount wo) of
             (Some ek, Some amt) \<Rightarrow>
               obind (deref (accounts h) (wo_debit_account wo))
                 (\<lambda>da. obind (deref (accounts h) ek)
                   (\<lambda>ea. obind (TALER_FAKEBANK_make_admin_transfer hash now h (account_name da)
                              (account_name ea) amt (wo_reserve_pub wo))
                     (\<lambda>((ret, res), h1).
                        case res of
                          None \<Rightarrow> Done (Reply_error 409 TALER_EC_BANK_DUPLICATE_RESERVE_PUB_SUBJECT, h1)
                        | Some (row, ts) \<Rightarrow>
                            let wo' = wo\<lparr>wo_row_id := row, wo_timestamp := ts, wo_confirmation_done := True\<rparr>
                            in obind (TALER_FAKEBANK_notify_withdrawal (set_wo h1 sh wo') sh wo')
                                 (\<lambda>h2. Done (Reply_no_content, h2)))))
           | _ \<Rightarrow> Abort))"

definition bank_withdrawals_confirm ::
  "(string \<Rightarrow> bytes) \<Rightarrow> (string \<Rightarrow> bytes option) \<Rightarrow> 64 word \<Rightarrow> fakebank \<Rightarrow> string \<Rightarrow> string \<Rightarrow> amount option
   \<Rightarrow> (reply \<times> fakebank) outcome" where
  "bank_withdrawals_confirm hash string_to_data now h account withdrawal_id amt =
     obind (confirm_check hash string_to_data h account withdrawal_id amt)
       (\<lambda>(r, h1). case r of
          Inl rep \<Rightarrow> Done (rep, h1)
        | Inr sh \<Rightarrow> confirm_transfer hash now h1 sh)"

definition bank_withdrawals_abort ::
  "(string \<Rightarrow> bytes) \<Rightarrow> (string \<Rightarrow> bytes option) \<Rightarrow> fakebank \<Rightarrow> string \<Rightarrow> string \<Rightarrow> (reply \<times> fakebank) outcome" where
  "bank_withdrawals_abort hash string_to_data h account withdrawal_id =
     obind (TALER_FAKEBANK_lookup_account hash h account None)
       (\<lambda>(acc, h1). case acc of
          None \<Rightarrow> Done (Reply_error 404 TALER_EC_BANK_UNKNOWN_ACCOUNT, h1)
        | Some k \<Rightarrow>
            (case TALER_FAKEBANK_lookup_withdrawal_operation string_to_data h1 withdrawal_id of
               None \<Rightarrow> Done (Reply_error 404 TALER_EC_BANK_TRANSACTION_NOT_FOUND, h1)
             | Some (sh, wo) \<Rightarrow>
                 if k \<noteq> wo_debit_account wo
                 then Done (Reply_error 404 TALER_EC_BANK_TRANSACTION_NOT_FOUND, h1)
                 else if wo_confirmation_done wo
                 then Done (Reply_error 409 TALER_EC_BANK_ABORT_CONFIRM_CONFLICT, h1)
                 else let wo' = wo\<lparr>wo_aborted := True\<rparr>
                      in obind (TALER_FAKEBANK_notify_withdrawal (set_wo h1 sh wo') sh wo')
                           (\<lambda>h2. Done (Reply_no_content, h2))))"

text \<open>
  \<open>upload = None\<close> is a request without a body; the body of a confirmation may hold an amount
  (\<open>Some None\<close>: it holds none).
\<close>

definition TALER_FAKEBANK_bank_withdrawals_id_op ::
  "(string \<Rightarrow> bytes) \<Rightarrow> (string \<Rightarrow> bytes option) \<Rightarrow> 64 word \<Rightarrow> bool \<Rightarrow> fakebank \<Rightarrow> string \<Rightarrow> string \<Rightarrow> string
   \<Rightarrow> string option option post_result option \<Rightarrow> (reply \<times> fakebank) outcome" where
  "TALER_FAKEBANK_bank_withdrawals_id_op hash string_to_data now queued h account withdrawal_id op upload =
     (let run = (\<lambda>json.
            if op = ''/confirm'' then
              (case json of
                 None \<Rightarrow> bank_withdrawals_confirm hash string_to_data now h account withdrawal_id None
               | Some body \<Rightarrow>
                   (case Option.bind body (optional_amount_field h) of
                      None \<Rightarrow> Done (bad_body queued, h)
                    | Some amt \<Rightarrow> bank_withdrawals_confirm hash string_to_data now h account withdrawal_id amt))
            else if op = ''/abort''
            then bank_withdrawals_abort hash string_to_data h account withdrawal_id
            else Done (Reply_error 404 TALER_EC_GENERIC_ENDPOINT_UNKNOWN, h))
      in case upload of
           None \<Rightarrow> run None
         | Some pr \<Rightarrow> on_upload h pr (\<lambda>body. run (Some body)))"

section \<open>Transfers and registration\<close>

record transfer_body =
  tb_request_uid :: bytes
  tb_amount :: string
  tb_exchange_base_url :: string
  tb_wtid :: bytes
  tb_credit_account :: string

definition TALER_FAKEBANK_handle_transfer ::
  "(string \<Rightarrow> bytes) \<Rightarrow> 64 word \<Rightarrow> bool \<Rightarrow> fakebank \<Rightarrow> string \<Rightarrow> transfer_body option post_result
   \<Rightarrow> (reply \<times> fakebank) outcome" where
  "TALER_FAKEBANK_handle_transfer hash now queued h account pr =
     on_upload h pr
       (\<lambda>json. case json of
          None \<Rightarrow> Done (bad_body queued, h)
        | Some b \<Rightarrow>
            (case (amount_field h (tb_amount b), parse_full_payto_uri (tb_credit_account b)) of
               (Some amt, Some uri) \<Rightarrow>
                 (case TALER_xtalerbank_account_from_payto uri of
                    None \<Rightarrow> Done (Reply_error 400 TALER_EC_GENERIC_PAYTO_URI_MALFORMED, h)
                  | Some credit \<Rightarrow>
                      obind (TALER_FAKEBANK_make_transfer hash now [] h account credit amt (tb_wtid b)
                               (tb_exchange_base_url b) (Some (tb_request_uid b)))
                        (\<lambda>((ret, res), h1). case res of
                           None \<Rightarrow> Done (Reply_error 409 TALER_EC_BANK_TRANSFER_REQUEST_UID_REUSED, h1)
                         | Some (row, ts) \<Rightarrow> Done (Reply_transfer row ts, h1)))
             | _ \<Rightarrow> Done (bad_body queued, h)))"

record incoming_body =
  ib_pub :: bytes
  ib_debit_account :: string
  ib_amount :: string

text \<open>The two handlers for incoming transfers share all but the transfer and the last error.\<close>

definition incoming_request ::
  "(string \<Rightarrow> amount \<Rightarrow> bytes \<Rightarrow> (transfer_result \<times> fakebank) outcome) \<Rightarrow> reply \<Rightarrow> bool \<Rightarrow> fakebank
   \<Rightarrow> incoming_body option post_result \<Rightarrow> (reply \<times> fakebank) outcome" where
  "incoming_request transfer failed queued h pr =
     on_upload h pr
       (\<lambda>json. case json of
          None \<Rightarrow> Done (bad_body queued, h)
        | Some b \<Rightarrow>
            (case (parse_full_payto_uri (ib_debit_account b), amount_field h (ib_amount b)) of
               (Some uri, Some amt) \<Rightarrow>
                 if \<not> strcaseeq (cstr (currency amt)) (bank_currency h)
                 then Done (Reply_error 409 TALER_EC_GENERIC_CURRENCY_MISMATCH, h)
                 else (case TALER_xtalerbank_account_from_payto uri of
                         None \<Rightarrow> Done (Reply_error 400 TALER_EC_GENERIC_PAYTO_URI_MALFORMED, h)
                       | Some debit \<Rightarrow>
                           obind (transfer debit amt (ib_pub b))
                             (\<lambda>((ret, res), h1). case res of
                                None \<Rightarrow> Done (failed, h1)
                              | Some (row, ts) \<Rightarrow> Done (Reply_transfer row ts, h1)))
             | _ \<Rightarrow> Done (bad_body queued, h)))"

definition TALER_FAKEBANK_twg_admin_add_incoming ::
  "(string \<Rightarrow> bytes) \<Rightarrow> 64 word \<Rightarrow> bool \<Rightarrow> fakebank \<Rightarrow> string \<Rightarrow> incoming_body option post_result
   \<Rightarrow> (reply \<times> fakebank) outcome" where
  "TALER_FAKEBANK_twg_admin_add_incoming hash now queued h account pr =
     incoming_request (\<lambda>debit. TALER_FAKEBANK_make_admin_transfer hash now h debit account)
       (Reply_error 409 TALER_EC_BANK_DUPLICATE_RESERVE_PUB_SUBJECT) queued h pr"

definition TALER_FAKEBANK_twg_admin_add_kycauth ::
  "(string \<Rightarrow> bytes) \<Rightarrow> 64 word \<Rightarrow> bool \<Rightarrow> fakebank \<Rightarrow> string \<Rightarrow> incoming_body option post_result
   \<Rightarrow> (reply \<times> fakebank) outcome" where
  "TALER_FAKEBANK_twg_admin_add_kycauth hash now queued h account pr =
     incoming_request (\<lambda>debit. TALER_FAKEBANK_make_kycauth_transfer hash now h debit account)
       (Reply_error 500 TALER_EC_GENERIC_ALLOCATION_FAILURE) queued h pr"

record register_body =
  rb_username :: string
  rb_password :: string

text \<open>
  \<^verbatim>\<open>strcmp (password, acc->password)\<close> on an account without a password compares with \<^verbatim>\<open>NULL\<close>: \<open>Abort\<close>.
\<close>

definition TALER_FAKEBANK_bank_testing_register ::
  "(string \<Rightarrow> bytes) \<Rightarrow> bool \<Rightarrow> fakebank \<Rightarrow> register_body option post_result \<Rightarrow> (reply \<times> fakebank) outcome" where
  "TALER_FAKEBANK_bank_testing_register hash queued h pr =
     on_upload h pr
       (\<lambda>json. case json of
          None \<Rightarrow> Done (bad_body queued, h)
        | Some b \<Rightarrow>
            obind (TALER_FAKEBANK_lookup_account hash h (rb_username b) None)
              (\<lambda>(acc, h1). case acc of
                 Some k \<Rightarrow>
                   obind (deref (accounts h1) k)
                     (\<lambda>a. case password a of
                        None \<Rightarrow> Abort
                      | Some pw \<Rightarrow>
                          if rb_password b \<noteq> pw
                          then Done (Reply_error 409 TALER_EC_BANK_REGISTER_CONFLICT, h1)
                          else Done (Reply_no_content, h1))
               | None \<Rightarrow>
                   obind (TALER_FAKEBANK_lookup_account hash h1 (rb_username b) (Some (rb_username b)))
                     (\<lambda>(acc', h2). case acc' of
                        None \<Rightarrow> Abort
                      | Some k \<Rightarrow>
                          obind (with_account k
                                   (\<lambda>a. Done (a\<lparr>password := Some (rb_password b), balance := signup_bonus h2\<rparr>)) h2)
                            (\<lambda>h3. Done (Reply_no_content, h3)))))"

section \<open>Reading requests\<close>

definition TALER_FAKEBANK_bank_get_accounts ::
  "(string \<Rightarrow> bytes) \<Rightarrow> fakebank \<Rightarrow> string \<Rightarrow> reply outcome" where
  "TALER_FAKEBANK_bank_get_accounts hash h name =
     obind (TALER_FAKEBANK_lookup_account hash h name None)
       (\<lambda>(acc, h1). case acc of
          None \<Rightarrow> Done (Reply_error 404 TALER_EC_BANK_UNKNOWN_ACCOUNT)
        | Some k \<Rightarrow>
            obind (deref (accounts h1) k)
              (\<lambda>a. Done (Reply_account (payto_uri a) (if is_negative a then ''debit'' else ''credit'') (balance a))))"

text \<open>
  The replies read \<^verbatim>\<open>wo->exchange_account->payto_uri\<close>, which is a \<^verbatim>\<open>NULL\<close> pointer before an
  exchange was selected: \<open>Abort\<close>. Only one of the two replies names the currency.
\<close>

definition withdrawal_reply :: "fakebank \<Rightarrow> string option \<Rightarrow> withdrawal_operation \<Rightarrow> reply outcome" where
  "withdrawal_reply h cur wo =
     (case wo_exchange_account wo of
        None \<Rightarrow> Abort
      | Some k \<Rightarrow>
          obind (deref (accounts h) k)
            (\<lambda>a. Done (Reply_withdrawal (wo_aborted wo) (wo_selection_done wo) (wo_confirmation_done wo)
                   (payto_uri a) (if wo_selection_done wo then Some (wo_reserve_pub wo) else None) cur (wo_amount wo))))"

definition TALER_FAKEBANK_bank_get_withdrawals ::
  "(string \<Rightarrow> bytes option) \<Rightarrow> fakebank \<Rightarrow> string \<Rightarrow> reply outcome" where
  "TALER_FAKEBANK_bank_get_withdrawals string_to_data h withdrawal_id =
     (case TALER_FAKEBANK_lookup_withdrawal_operation string_to_data h withdrawal_id of
        None \<Rightarrow> Done (Reply_error 404 TALER_EC_BANK_TRANSACTION_NOT_FOUND)
      | Some (sh, wo) \<Rightarrow> withdrawal_reply h (Some (bank_currency h)) wo)"

definition TALER_FAKEBANK_bank_account_withdrawals ::
  "(string \<Rightarrow> bytes) \<Rightarrow> (string \<Rightarrow> bytes option) \<Rightarrow> fakebank \<Rightarrow> string \<Rightarrow> string \<Rightarrow> reply outcome" where
  "TALER_FAKEBANK_bank_account_withdrawals hash string_to_data h name withdrawal_id =
     (case TALER_FAKEBANK_lookup_withdrawal_operation string_to_data h withdrawal_id of
        None \<Rightarrow> Done (Reply_error 404 TALER_EC_BANK_TRANSACTION_NOT_FOUND)
      | Some (sh, wo) \<Rightarrow>
          obind (TALER_FAKEBANK_lookup_account hash h name None)
            (\<lambda>(acc, h1). case acc of
               None \<Rightarrow> Done (Reply_error 404 TALER_EC_BANK_UNKNOWN_ACCOUNT)
             | Some k \<Rightarrow>
                 if wo_debit_account wo \<noteq> k
                 then Done (Reply_error 404 TALER_EC_BANK_TRANSACTION_NOT_FOUND)
                 else withdrawal_reply h1 None wo))"

end
