(* ===== verification/Fakebank_Runs.thy ===== *)
theory Fakebank_Runs
  imports Fakebank_Transfers Fakebank_Requests
begin

text \<open>
  The bank under sequences of requests. The invariant of a whole bank adds to \<open>bank_inv\<close> that
  accounts are found under the hash of their name, that withdrawal operations refer to accounts
  and amounts of the bank, that a reserve key is bound to the one transaction that credited it,
  and that the balances add up to the bonuses paid on registration.
\<close>

section \<open>The invariant of the whole bank\<close>

definition amount_ok :: "fakebank \<Rightarrow> amount \<Rightarrow> bool" where
  "amount_ok h a \<longleftrightarrow> representable a \<and> currency a = cur_buf h"

definition names_inv :: "(string \<Rightarrow> bytes) \<Rightarrow> fakebank \<Rightarrow> bool" where
  "names_inv hash h \<longleftrightarrow> (\<forall>k a. accounts h k = Some a \<longrightarrow> hash (account_name a) = k)"

definition rpubs_inv :: "fakebank \<Rightarrow> bool" where
  "rpubs_inv h \<longleftrightarrow>
     (\<forall>p t pub. heap h p = Some t \<longrightarrow> tx_subject t = Subject_credit pub \<longrightarrow> rpubs h pub = Some p)"

text \<open>
  A withdrawal operation: its accounts exist, its amount is one of the bank, a selection has
  fixed both, and a confirmed operation is a selected one whose reserve key is in use.
\<close>

definition wo_ok :: "fakebank \<Rightarrow> withdrawal_operation \<Rightarrow> bool" where
  "wo_ok h wo \<longleftrightarrow>
     accounts h (wo_debit_account wo) \<noteq> None
     \<and> (\<forall>k. wo_exchange_account wo = Some k \<longrightarrow> accounts h k \<noteq> None)
     \<and> (\<forall>a. wo_amount wo = Some a \<longrightarrow> amount_ok h a)
     \<and> (wo_selection_done wo \<longleftrightarrow> wo_exchange_account wo \<noteq> None)
     \<and> (wo_selection_done wo \<longrightarrow> wo_amount wo \<noteq> None)
     \<and> (wo_confirmation_done wo \<longrightarrow> wo_selection_done wo \<and> rpubs h (wo_reserve_pub wo) \<noteq> None)"

definition wop :: "fakebank \<Rightarrow> bytes \<rightharpoonup> withdrawal_operation" where
  "wop h sh = Option.bind (wops h) (\<lambda>m. m sh)"

definition wops_inv :: "fakebank \<Rightarrow> bool" where
  "wops_inv h \<longleftrightarrow> (\<forall>sh wo. wop h sh = Some wo \<longrightarrow> wo_ok h wo)"

definition customers :: "fakebank \<Rightarrow> bytes set" where
  "customers h = {k. \<exists>a. accounts h k = Some a \<and> password a \<noteq> None}"

definition bonus_inv :: "fakebank \<Rightarrow> bool" where
  "bonus_inv h \<longleftrightarrow> total h = int (units (signup_bonus h)) * int (card (customers h))"

definition full_inv :: "(string \<Rightarrow> bytes) \<Rightarrow> fakebank \<Rightarrow> bool" where
  "full_inv hash h \<longleftrightarrow> bank_inv h \<and> names_inv hash h \<and> rpubs_inv h \<and> wops_inv h \<and> bonus_inv h"

section \<open>What a transfer may do\<close>

text \<open>
  The contract the requests rely on. A transfer either opens accounts only, or books one
  transaction; a credit binds its reserve key, which was free before.
\<close>

definition entered :: "transaction \<Rightarrow> fakebank \<Rightarrow> fakebank \<Rightarrow> bool" where
  "entered t h h' \<longleftrightarrow>
     (case tx_subject t of
        Subject_credit pub \<Rightarrow> rpubs h pub = None \<and> rpubs h' = (rpubs h)(pub \<mapsto> next_ptr h)
      | _ \<Rightarrow> rpubs h' = rpubs h)"

definition settled :: "(string \<Rightarrow> bytes) \<Rightarrow> fakebank \<Rightarrow> fakebank \<Rightarrow> bool" where
  "settled hash h h' \<longleftrightarrow>
     bank_inv h' \<and> (opened hash h h' \<or> (\<exists>t. booked hash t h h' \<and> entered t h h'))"

lemma named_names:
  assumes "named hash (accounts h) (accounts h')" "names_inv hash h"
  shows "names_inv hash h'"
  unfolding names_inv_def
proof (intro allI impI)
  fix k a' assume a': "accounts h' k = Some a'"
  have "stays hash k (accounts h k) (accounts h' k)" using assms(1) by (simp add: named_def)
  then show "hash (account_name a') = k"
    using assms(2) a' by (cases "accounts h k") (auto simp: names_inv_def)
qed

lemma named_customers:
  assumes "named hash (accounts h) (accounts h')"
  shows "customers h' = customers h"
proof -
  have "k \<in> customers h' \<longleftrightarrow> k \<in> customers h" for k
  proof -
    have "stays hash k (accounts h k) (accounts h' k)" using assms by (simp add: named_def)
    then show ?thesis by (cases "accounts h k"; cases "accounts h' k") (auto simp: customers_def)
  qed
  then show ?thesis by blast
qed

text \<open>The fields every transfer leaves alone, and the two that only grow.\<close>

lemma settled_sel:
  assumes "settled hash h h'"
  shows "bank_inv h'" "wops h' = wops h" "bank_currency h' = bank_currency h" "signup_bonus h' = signup_bonus h"
    "named hash (accounts h) (accounts h')" "total h' = total h" "rpubs h \<subseteq>\<^sub>m rpubs h'"
proof -
  consider (o) "opened hash h h'" | (b) t where "booked hash t h h'" "entered t h h'"
    using assms by (auto simp: settled_def)
  then have "wops h' = wops h \<and> bank_currency h' = bank_currency h \<and> signup_bonus h' = signup_bonus h
      \<and> named hash (accounts h) (accounts h') \<and> total h' = total h \<and> rpubs h \<subseteq>\<^sub>m rpubs h'"
  proof cases
    case o
    then have "named hash (accounts h) (accounts h') \<and> signup_bonus h' = signup_bonus h"
      by (auto simp: opened_def)
    then show ?thesis using opened_sel [OF o] opened_total [OF o] by simp
  next
    case b
    have "rpubs h \<subseteq>\<^sub>m rpubs h'"
      using b(2) by (auto simp: entered_def map_le_def split: subject.splits)
    then show ?thesis using b(1) booked_total [OF b(1)] by (simp add: booked_def)
  qed
  then show "wops h' = wops h" "bank_currency h' = bank_currency h" "signup_bonus h' = signup_bonus h"
    "named hash (accounts h) (accounts h')" "total h' = total h" "rpubs h \<subseteq>\<^sub>m rpubs h'" by simp_all
  show "bank_inv h'" using assms by (simp add: settled_def)
qed

lemma wo_ok_mono:
  assumes "wo_ok h wo" "dom (accounts h) \<subseteq> dom (accounts h')" "bank_currency h' = bank_currency h"
    "rpubs h \<subseteq>\<^sub>m rpubs h'"
  shows "wo_ok h' wo"
proof -
  have "accounts h k \<noteq> None \<Longrightarrow> accounts h' k \<noteq> None" for k using assms(2) by blast
  moreover have "rpubs h pub \<noteq> None \<Longrightarrow> rpubs h' pub \<noteq> None" for pub
    using assms(4) by (metis domIff map_le_def)
  ultimately show ?thesis using assms(1,3) by (auto simp: wo_ok_def amount_ok_def cur_buf_def)
qed

lemma settled_rpubs:
  assumes "settled hash h h'" "rpubs_inv h"
  shows "rpubs_inv h'"
proof -
  consider (o) "opened hash h h'" | (b) t where "booked hash t h h'" "entered t h h'"
    using assms(1) by (auto simp: settled_def)
  then show ?thesis
  proof cases
    case o
    then show ?thesis using assms(2) opened_sel [OF o] by (simp add: rpubs_inv_def)
  next
    case b
    show ?thesis
      unfolding rpubs_inv_def
    proof (intro allI impI)
      fix p x pub assume x: "heap h' p = Some x" "tx_subject x = Subject_credit pub"
      show "rpubs h' pub = Some p"
      proof (cases "p = next_ptr h")
        case True
        then have "tx_subject t = Subject_credit pub" using x b(1) by (auto simp: booked_def)
        then show ?thesis using b(2) True by (simp add: entered_def)
      next
        case False
        then have "rpubs h pub = Some p" using x b(1) assms(2) by (auto simp: booked_def rpubs_inv_def)
        then show ?thesis using b(2) by (auto simp: entered_def split: subject.splits)
      qed
    qed
  qed
qed

lemma settled_inv:
  assumes s: "settled hash h h'" and inv: "full_inv hash h"
  shows "full_inv hash h'"
proof -
  note sel = settled_sel [OF s]
  have "wops_inv h'"
    using inv wo_ok_mono [OF _ named_dom [OF sel(5)] sel(3,7)] sel(2)
    by (auto simp: full_inv_def wops_inv_def wop_def)
  moreover have "bonus_inv h'"
    using inv sel named_customers [OF sel(5)] by (simp add: full_inv_def bonus_inv_def)
  ultimately show ?thesis
    using inv sel(1) named_names [OF sel(5)] settled_rpubs [OF s] by (simp add: full_inv_def)
qed

lemma settled_refl: "bank_inv h \<Longrightarrow> settled hash h h"
  by (simp add: settled_def opened_refl)

text \<open>Amounts that were read from a request are amounts of the bank.\<close>

lemma amount_field_ok:
  assumes inv: "bank_inv h" and f: "amount_field h str = Some a"
  shows "amount_ok h a"
proof -
  have a: "TALER_string_to_amount str zero_memory_amount = (GNUNET_OK, a)"
    "strcaseeq (bank_currency h) (cstr (currency a))"
    using f by (auto simp: amount_field_def parse_amount_def split: prod.splits if_splits)
  have n: "representable a" "legal_currency (currency a)"
    using string_to_amount_normal [OF a(1)] normal_representable by (simp_all add: representable_def)
  have c: "legal_currency (cur_buf h)" "cstr (cur_buf h) = bank_currency h"
    using inv by (simp_all add: bank_inv_def config_inv_def)
  then have "cur_buf h = currency a"
    using a(2) legal_currency_eq [OF c(1) n(2)] by simp
  then show ?thesis using n by (simp add: amount_ok_def)
qed

lemma optional_amount_field_ok:
  "bank_inv h \<Longrightarrow> optional_amount_field h s = Some amt \<Longrightarrow> \<forall>a. amt = Some a \<longrightarrow> amount_ok h a"
  by (auto simp: optional_amount_field_def amount_field_ok split: option.splits)

locale transfer_contract =
  fixes hash :: "string \<Rightarrow> bytes"
    and transfer :: "fakebank \<Rightarrow> string \<Rightarrow> string \<Rightarrow> amount \<Rightarrow> bytes \<Rightarrow> (transfer_result \<times> fakebank) outcome"
  assumes settles: "bank_inv h \<Longrightarrow> amount_ok h amt \<Longrightarrow> transfer h debit credit amt key = Done (r, h')
      \<Longrightarrow> settled hash h h'"
    and result: "bank_inv h \<Longrightarrow> amount_ok h amt \<Longrightarrow> transfer h debit credit amt key = Done ((ret, res), h')
      \<Longrightarrow> ret = GNUNET_OK \<longleftrightarrow> res \<noteq> None"
begin

lemma incoming_settled:
  assumes inv: "bank_inv h"
    and run: "incoming_request (\<lambda>debit. transfer h debit account) failed queued h pr = Done (rep, h')"
  shows "settled hash h h'"
  using run inv settled_refl [OF inv] settles [OF inv amount_field_ok [OF inv]]
  by (auto simp: incoming_request_def on_upload_def obind_Done split: post_result.splits option.splits if_splits prod.splits)

end

lemma booked_settled: "booked hash t h h' \<Longrightarrow> entered t h h' \<Longrightarrow> settled hash h h'"
  by (auto simp: settled_def booked_def)

lemma opened_settled: "bank_inv h' \<Longrightarrow> opened hash h h' \<Longrightarrow> settled hash h h'"
  by (simp add: settled_def)

lemma entered_tx:
  "rpubs h pub = None \<Longrightarrow> rpubs h' = (rpubs h)(pub \<mapsto> next_ptr h) \<Longrightarrow> entered (credit_tx hash now debit credit amt pub) h h'"
  "rpubs h' = rpubs h \<Longrightarrow> entered (auth_tx hash now debit credit amt pub) h h'"
  "rpubs h' = rpubs h \<Longrightarrow> entered (debit_tx hash now debit credit amt pub url uid) h h'"
  by (simp_all add: entered_def tx_defs)

interpretation admin: transfer_contract hash
  "\<lambda>h debit credit amt pub. TALER_FAKEBANK_make_admin_transfer hash now h debit credit amt pub" for hash now
proof (unfold_locales, goal_cases)
  case (1 h amt debit credit pub r h')
  then have amt: "representable amt" "currency amt = cur_buf h" by (simp_all add: amount_ok_def)
  show ?case
    using admin_transfer_spec [OF 1(1) amt, of pub hash now debit credit] 1(3)
    by (auto intro: opened_settled booked_settled entered_tx split: if_splits)
next
  case (2 h amt debit credit pub ret res h')
  then have amt: "representable amt" "currency amt = cur_buf h" by (simp_all add: amount_ok_def)
  show ?case
    using admin_transfer_spec [OF 2(1) amt, of pub hash now debit credit] 2(3) by (auto split: if_splits)
qed

interpretation kycauth: transfer_contract hash
  "\<lambda>h debit credit amt pub. TALER_FAKEBANK_make_kycauth_transfer hash now h debit credit amt pub" for hash now
proof (unfold_locales, goal_cases)
  case (1 h amt debit credit pub r h')
  then have amt: "representable amt" "currency amt = cur_buf h" by (simp_all add: amount_ok_def)
  show ?case
    using kycauth_transfer_spec [OF 1(1) amt, of hash debit credit now pub] 1(3)
    by (auto intro: booked_settled entered_tx split: if_splits)
next
  case (2 h amt debit credit pub ret res h')
  then have amt: "representable amt" "currency amt = cur_buf h" by (simp_all add: amount_ok_def)
  show ?case
    using kycauth_transfer_spec [OF 2(1) amt, of hash debit credit now pub] 2(3) by (auto split: if_splits)
qed

text \<open>A transfer with a request identifier, in every case.\<close>

lemma transfer_cases:
  assumes inv: "bank_inv h" and amt: "amount_ok h amt"
    and run: "TALER_FAKEBANK_make_transfer hash now nonce h debit credit amt subj url (Some uid) = Done ((ret, res), h')"
  shows "settled hash h h' \<and> (ret = GNUNET_OK \<longleftrightarrow> res \<noteq> None)"
proof -
  have a: "representable amt" "currency amt = cur_buf h" using amt by (simp_all add: amount_ok_def)
  have url: "length url < MAX_URL_LEN"
    using run by (cases "length url < MAX_URL_LEN")
      (auto simp: TALER_FAKEBANK_make_transfer_def gassert_def split: if_splits)
  show ?thesis
  proof (cases "uuid_map h uid")
    case None
    show ?thesis
      using transfer_spec [OF inv a url, where u = uid and uid_opt = "Some uid" and nonce = nonce and hash = hash
          and debit = debit and credit = credit and now = now and subj = subj] None run
      by (auto intro: booked_settled entered_tx split: if_splits)
  next
    case (Some p)
    then obtain t where t: "heap h p = Some t" using inv by (auto simp: bank_inv_def uuid_inv_def)
    show ?thesis
      using transfer_repeated [OF inv a url Some t, of hash now nonce debit credit subj] run
      by (auto intro: opened_settled split: if_splits)
  qed
qed

interpretation debit: transfer_contract hash
  "\<lambda>h debit credit amt subj. TALER_FAKEBANK_make_transfer hash now nonce h debit credit amt subj url (Some uid)"
  for hash now nonce url uid
proof (unfold_locales, goal_cases)
  case (1 h amt debit credit subj r h')
  then show ?case using transfer_cases [of h amt hash now nonce debit credit subj url uid "fst r" "snd r" h'] by simp
next
  case (2 h amt debit credit subj ret res h')
  then show ?case using transfer_cases by blast
qed

section \<open>One request\<close>

text \<open>
  How a withdrawal operation may change: its account stays, a selection and an amount stay once
  they are made, and neither flag is ever taken back.
\<close>

definition wo_le :: "withdrawal_operation \<Rightarrow> withdrawal_operation \<Rightarrow> bool" where
  "wo_le wo wo' \<longleftrightarrow>
     wo_debit_account wo' = wo_debit_account wo
     \<and> (wo_selection_done wo \<longrightarrow> wo_selection_done wo' \<and> wo_reserve_pub wo' = wo_reserve_pub wo
          \<and> wo_exchange_account wo' = wo_exchange_account wo)
     \<and> (wo_amount wo \<noteq> None \<longrightarrow> wo_amount wo' = wo_amount wo)
     \<and> (wo_aborted wo \<longrightarrow> wo_aborted wo') \<and> (wo_confirmation_done wo \<longrightarrow> wo_confirmation_done wo')"

definition wops_le :: "fakebank \<Rightarrow> fakebank \<Rightarrow> bool" where
  "wops_le h h' \<longleftrightarrow> (\<forall>sh wo. wop h sh = Some wo \<longrightarrow> (\<exists>wo'. wop h' sh = Some wo' \<and> wo_le wo wo'))"

lemma wo_le_refl: "wo_le wo wo"
  by (simp add: wo_le_def)

lemma wo_le_trans: "wo_le w1 w2 \<Longrightarrow> wo_le w2 w3 \<Longrightarrow> wo_le w1 w3"
  by (auto simp: wo_le_def)

lemma wops_le_trans: "wops_le h1 h2 \<Longrightarrow> wops_le h2 h3 \<Longrightarrow> wops_le h1 h3"
  unfolding wops_le_def by (meson wo_le_trans)

lemma wops_le_same: "wops h' = wops h \<Longrightarrow> wops_le h h'"
  by (auto simp: wops_le_def wop_def wo_le_refl)

text \<open>Stored transactions never change: they stay as they are until they leave the ring buffer.\<close>

definition kept :: "fakebank \<Rightarrow> fakebank \<Rightarrow> bool" where
  "kept h h' \<longleftrightarrow>
     next_ptr h \<le> next_ptr h' \<and> (\<forall>q x. heap h' q = Some x \<longrightarrow> q < next_ptr h \<longrightarrow> heap h q = Some x)"

lemma kept_same: "heap h' = heap h \<Longrightarrow> next_ptr h' = next_ptr h \<Longrightarrow> kept h h'"
  by (simp add: kept_def)

lemma kept_trans: "kept h1 h2 \<Longrightarrow> kept h2 h3 \<Longrightarrow> kept h1 h3"
  unfolding kept_def by (meson order_less_le_trans order_trans)

lemma booked_kept:
  assumes "booked hash t h h'"
  shows "kept h h'"
proof -
  have "heap h' (next_ptr h) \<noteq> None" "\<forall>p. next_ptr h' \<le> p \<longrightarrow> heap h' p = None"
    using assms by (auto simp: booked_def bank_inv_def ring_inv_def)
  then have "next_ptr h \<le> next_ptr h'" by (metis nat_le_linear)
  then show ?thesis using assms by (auto simp: kept_def booked_def)
qed

lemma settled_kept: "settled hash h h' \<Longrightarrow> kept h h'"
  by (auto simp: settled_def opened_sel intro: kept_same booked_kept)

definition advance :: "(string \<Rightarrow> bytes) \<Rightarrow> fakebank \<Rightarrow> fakebank \<Rightarrow> bool" where
  "advance hash h h' \<longleftrightarrow>
     full_inv hash h' \<and> rpubs h \<subseteq>\<^sub>m rpubs h' \<and> wops_le h h' \<and> dom (accounts h) \<subseteq> dom (accounts h')
     \<and> bank_currency h' = bank_currency h \<and> signup_bonus h' = signup_bonus h
     \<and> kept h h'"

lemma advance_refl: "full_inv hash h \<Longrightarrow> advance hash h h"
  by (simp add: advance_def wops_le_same kept_same)

lemma advance_trans: "advance hash h1 h2 \<Longrightarrow> advance hash h2 h3 \<Longrightarrow> advance hash h1 h3"
  unfolding advance_def by (auto intro: map_le_trans wops_le_trans kept_trans)

lemma settled_advance: "full_inv hash h \<Longrightarrow> settled hash h h' \<Longrightarrow> advance hash h h'"
  using settled_inv [of hash h h'] settled_sel [of hash h h']
  by (simp add: advance_def wops_le_same named_dom settled_kept)

text \<open>A request handled in one go makes no operation both aborted and confirmed.\<close>

definition tame :: "fakebank \<Rightarrow> fakebank \<Rightarrow> bool" where
  "tame h h' \<longleftrightarrow> (\<forall>sh wo'. wop h' sh = Some wo' \<longrightarrow> wo_aborted wo' \<and> wo_confirmation_done wo' \<longrightarrow>
     (\<exists>wo. wop h sh = Some wo \<and> wo_aborted wo \<and> wo_confirmation_done wo))"

definition orderly :: "(string \<Rightarrow> bytes) \<Rightarrow> fakebank \<Rightarrow> fakebank \<Rightarrow> bool" where
  "orderly hash h h' \<longleftrightarrow> advance hash h h' \<and> tame h h'"

lemma tame_same: "wop h' = wop h \<Longrightarrow> tame h h'"
  by (simp add: tame_def)

lemma orderly_refl: "full_inv hash h \<Longrightarrow> orderly hash h h"
  by (simp add: orderly_def advance_refl tame_same)

lemma orderly_trans: "orderly hash h1 h2 \<Longrightarrow> orderly hash h2 h3 \<Longrightarrow> orderly hash h1 h3"
  unfolding orderly_def tame_def by (meson advance_trans)

lemma settled_orderly: "full_inv hash h \<Longrightarrow> settled hash h h' \<Longrightarrow> orderly hash h h'"
  using settled_advance [of hash h h'] settled_sel(2) [of hash h h']
  by (simp add: orderly_def tame_same wop_def fun_eq_iff)

lemma full_bank: "full_inv hash h \<Longrightarrow> bank_inv h"
  by (simp add: full_inv_def)

lemma set_wo_sel [simp]:
  "accounts (set_wo h sh wo) = accounts h" "rpubs (set_wo h sh wo) = rpubs h" "heap (set_wo h sh wo) = heap h"
  "next_ptr (set_wo h sh wo) = next_ptr h"
  "bank_currency (set_wo h sh wo) = bank_currency h" "signup_bonus (set_wo h sh wo) = signup_bonus h"
  "bank_inv (set_wo h sh wo) = bank_inv h" "ledger (set_wo h sh wo) = ledger h" "total (set_wo h sh wo) = total h"
  "customers (set_wo h sh wo) = customers h"
  by (simp_all add: set_wo_def total_def customers_def)

lemma wop_set_wo: "wop h sh = Some wo \<Longrightarrow> wop (set_wo h sh wo') = (wop h)(sh \<mapsto> wo')"
  by (cases "wops h") (auto simp: wop_def set_wo_def fun_eq_iff)

lemma wop_ok: "full_inv hash h \<Longrightarrow> wop h sh = Some wo \<Longrightarrow> wo_ok h wo"
  by (simp add: full_inv_def wops_inv_def)

lemma set_wo_advance:
  assumes inv: "full_inv hash h" and wo: "wop h sh = Some wo" "wo_le wo wo'" "wo_ok h wo'"
  shows "advance hash h (set_wo h sh wo')"
proof -
  have ok: "wo_ok (set_wo h sh wo') w \<longleftrightarrow> wo_ok h w" for w
    by (simp add: wo_ok_def amount_ok_def cur_buf_def)
  have "wops_inv (set_wo h sh wo')"
    using inv wo by (auto simp: full_inv_def wops_inv_def wop_set_wo ok)
  then have "full_inv hash (set_wo h sh wo')"
    using inv by (simp add: full_inv_def names_inv_def rpubs_inv_def bonus_inv_def)
  then show ?thesis
    using wo by (auto simp: advance_def wops_le_def wop_set_wo wo_le_refl kept_same)
qed

lemma set_wo_orderly:
  assumes "full_inv hash h" "wop h sh = Some wo" "wo_le wo wo'" "wo_ok h wo'"
    and "wo_aborted wo' \<and> wo_confirmation_done wo' \<longrightarrow> wo_aborted wo \<and> wo_confirmation_done wo"
  shows "orderly hash h (set_wo h sh wo')"
  using set_wo_advance [OF assms(1-4)] assms(2,5) by (auto simp: orderly_def tame_def wop_set_wo)

lemma lp_trigger_advance:
  assumes inv: "full_inv hash h" and run: "TALER_FAKEBANK_lp_trigger w k h = Done h'"
  shows "advance hash h h'" "wops h' = wops h" "ledger h' = ledger h" "rpubs h' = rpubs h"
proof -
  have k: "accounts h k \<noteq> None" using run by (auto simp: TALER_FAKEBANK_lp_trigger_def split: option.splits)
  obtain m r where h': "h' = h\<lparr>accounts := m, resumed := r\<rparr>" "bank_inv (h\<lparr>accounts := m\<rparr>)"
    "ledger (h\<lparr>accounts := m\<rparr>) = ledger h" "dom m = dom (accounts h)" "named hash (accounts h) m"
    using lp_trigger_spec [OF full_bank [OF inv] k, of w hash] run by auto
  have n: "named hash (accounts h) (accounts h')" using h' by simp
  have "bank_inv h'" using h' bank_inv_frame(1) [where h = "h\<lparr>accounts := m\<rparr>" and r = r] by simp
  moreover have "total h' = total h" using h' by (simp add: total_def ledger_def fun_eq_iff)
  moreover have "wops_inv h'"
    using inv wo_ok_mono [OF _ named_dom [OF n]] h'(1) by (auto simp: full_inv_def wops_inv_def wop_def)
  ultimately have "full_inv hash h'"
    using inv h'(1) named_names [OF n] named_customers [OF n]
    by (simp add: full_inv_def bonus_inv_def rpubs_inv_def)
  then show "advance hash h h'" "wops h' = wops h" "ledger h' = ledger h" "rpubs h' = rpubs h"
    using h' by (simp_all add: advance_def wops_le_same ledger_def fun_eq_iff kept_same)
qed

lemma lookup_None:
  "TALER_FAKEBANK_lookup_account hash h name None
   = Done (if accounts h (hash name) = None then None else Some (hash name), h)"
  by (auto simp: TALER_FAKEBANK_lookup_account_def Let_def split: option.splits)

lemma lookup_wop:
  "TALER_FAKEBANK_lookup_withdrawal_operation s2d h wopid = Some (sh, wo) \<longleftrightarrow> s2d wopid = Some sh \<and> wop h sh = Some wo"
  by (auto simp: TALER_FAKEBANK_lookup_withdrawal_operation_def wop_def split: option.splits)

lemmas request_splits = post_result.splits option.splits if_splits prod.splits sum.splits

lemma transfer_orderly:
  assumes inv: "full_inv hash h" and run: "TALER_FAKEBANK_handle_transfer hash now queued h account pr = Done (rep, h')"
  shows "orderly hash h h'"
proof (rule settled_orderly [OF inv])
  note b = full_bank [OF inv]
  show "settled hash h h'"
    using run settled_refl [OF b] debit.settles [OF b amount_field_ok [OF b]]
    by (auto simp: TALER_FAKEBANK_handle_transfer_def on_upload_def obind_Done split: request_splits)
qed

lemma incoming_orderly:
  assumes inv: "full_inv hash h"
  shows "TALER_FAKEBANK_twg_admin_add_incoming hash now queued h account pr = Done (rep, h') \<Longrightarrow> orderly hash h h'"
    "TALER_FAKEBANK_twg_admin_add_kycauth hash now queued h account pr = Done (rep, h') \<Longrightarrow> orderly hash h h'"
  unfolding TALER_FAKEBANK_twg_admin_add_incoming_def TALER_FAKEBANK_twg_admin_add_kycauth_def
  by (blast intro: settled_orderly [OF inv] admin.incoming_settled [OF full_bank [OF inv]]
      kycauth.incoming_settled [OF full_bank [OF inv]])+

lemma wopid_loop_free: "wopid_loop m rnd i = Some w \<Longrightarrow> m w = None"
  by (rule wopid_loop.raw_induct [where P = "\<lambda>m rnd i w. m w = None"]) (auto split: if_splits)

lemma wopid_loop_returns: "m (rnd (i + n)) = None \<Longrightarrow> (\<forall>j<n. m (rnd (i + j)) \<noteq> None) \<Longrightarrow> wopid_loop m rnd i = Some (rnd (i + n))"
proof (induction n arbitrary: i)
  case 0
  then show ?case by (subst wopid_loop.simps) simp
next
  case (Suc n)
  have "m (rnd (Suc i + n)) = None" "\<forall>j<n. m (rnd (Suc i + j)) \<noteq> None"
    using Suc.prems by (auto dest: spec [of _ "Suc _"])
  moreover have "m (rnd i) \<noteq> None" using Suc.prems(2) by force
  ultimately show ?case using Suc.IH [of "Suc i"] by (subst wopid_loop.simps) auto
qed

lemma wopid_loop_diverges: "\<forall>n. m (rnd n) \<noteq> None \<Longrightarrow> wopid_loop m rnd i = None"
proof (rule ccontr)
  assume all: "\<forall>n. m (rnd n) \<noteq> None" and "wopid_loop m rnd i \<noteq> None"
  then obtain w where "wopid_loop m rnd i = Some w" by blast
  then have "\<exists>n. w = rnd n"
    by (rule wopid_loop.raw_induct [where P = "\<lambda>m rnd i w. \<exists>n. w = rnd n", rotated]) (auto split: if_splits)
  then obtain n where "w = rnd n" ..
  moreover have "m w = None" by (rule wopid_loop_free) fact
  ultimately show False using all by metis
qed

lemma new_withdrawal_orderly:
  assumes inv: "full_inv hash h" and amt: "\<forall>a. amt = Some a \<longrightarrow> amount_ok h a"
    and run: "do_post_account_withdrawals hash d2s rnd h name amt = Some (Done (rep, h'))"
  shows "orderly hash h h'"
proof (cases "accounts h (hash name)")
  case None
  then show ?thesis using run orderly_refl [OF inv]
    by (simp add: do_post_account_withdrawals_def lookup_None)
next
  case (Some a)
  define m where "m = (case wops h of None \<Rightarrow> Map.empty | Some m \<Rightarrow> m)"
  have m: "wop h = m" by (auto simp: m_def wop_def fun_eq_iff split: option.splits)
  obtain wopid where id: "wopid_loop m rnd 0 = Some wopid" and
    h': "h' = h\<lparr>wops := Some (m(wopid \<mapsto> new_wo (hash name) amt))\<rparr>"
    using run Some by (auto simp: do_post_account_withdrawals_def lookup_None Let_def m_def)
  have free: "m wopid = None" using id by (rule wopid_loop_free)
  have wop': "wop h' = m(wopid \<mapsto> new_wo (hash name) amt)" by (simp add: h' wop_def fun_eq_iff)
  have ok: "wo_ok h' w \<longleftrightarrow> wo_ok h w" for w
    by (simp add: h' wo_ok_def amount_ok_def cur_buf_def)
  have "wo_ok h (new_wo (hash name) amt)" using Some amt by (simp add: wo_ok_def new_wo_def)
  then have "wops_inv h'" using inv by (auto simp: full_inv_def wops_inv_def wop' ok m)
  then have "full_inv hash h'"
    using inv by (simp add: full_inv_def names_inv_def rpubs_inv_def bonus_inv_def h' total_def customers_def)
  moreover have "wops_le h h'" using free by (auto simp: wops_le_def wop' m wo_le_refl)
  moreover have "tame h h'" by (simp add: tame_def wop' m new_wo_def)
  ultimately show ?thesis by (simp add: orderly_def advance_def h' kept_same)
qed

lemma post_withdrawals_orderly:
  assumes inv: "full_inv hash h"
    and run: "TALER_FAKEBANK_bank_post_account_withdrawals hash d2s rnd queued h name pr = Some (Done (rep, h'))"
  shows "orderly hash h h'"
  using run orderly_refl [OF inv]
  by (auto simp: TALER_FAKEBANK_bank_post_account_withdrawals_def on_upload_def bind_eq_Some_conv split: request_splits
      intro: new_withdrawal_orderly [OF inv optional_amount_field_ok [OF full_bank [OF inv]]])

text \<open>Selecting an exchange and a reserve key.\<close>

lemma select_orderly:
  assumes inv: "full_inv hash h" and amt: "\<forall>a. amt = Some a \<longrightarrow> amount_ok h a"
    and run: "do_post_withdrawal hash s2d h wopid pub uri amt = Done (rep, h')"
  shows "orderly hash h h'"
proof (cases "h' = h")
  case True
  then show ?thesis using orderly_refl [OF inv] by simp
next
  case False
  note run' = run [unfolded do_post_withdrawal_def lookup_None]
  obtain sh wo where L: "TALER_FAKEBANK_lookup_withdrawal_operation s2d h wopid = Some (sh, wo)"
    using run' False by (auto split: option.splits)
  then have wo: "wop h sh = Some wo" by (simp add: lookup_wop)
  have sel: "wo_selection_done wo \<longrightarrow> wo_reserve_pub wo = pub" "rpubs h (wo_reserve_pub wo) = None"
    using run' False L by (auto split: if_splits)
  obtain name where name: "TALER_xtalerbank_account_from_payto uri = Some name"
    using run' False L sel by (auto split: option.splits)
  let ?k = "hash name"
  have k: "accounts h ?k \<noteq> None" using run' False L sel name by (auto split: if_splits)
  have ex: "wo_exchange_account wo \<noteq> None \<longrightarrow> wo_exchange_account wo = Some ?k"
    using run' False L sel name k by (auto split: if_splits)
  obtain a where a: "(case wo_amount wo of None \<Rightarrow> amt | Some a \<Rightarrow> Some a) = Some a"
    and h': "h' = set_wo h sh (wo\<lparr>wo_amount := Some a, wo_exchange_account := Some ?k,
          wo_reserve_pub := pub, wo_selection_done := True\<rparr>)"
    using run' False L sel name k ex
    by (cases "case wo_amount wo of None \<Rightarrow> amt | Some a \<Rightarrow> Some a") (auto simp: obind_Done split: if_splits)
  have ok: "wo_ok h wo" by (rule wop_ok [OF inv wo])
  have "amount_ok h a" using a amt ok by (auto simp: wo_ok_def split: option.splits)
  moreover have "\<not> wo_confirmation_done wo" using ok sel(2) by (auto simp: wo_ok_def)
  ultimately show ?thesis
    unfolding h' using sel ok k ex a
    by (intro set_wo_orderly [OF inv wo]) (auto simp: wo_le_def wo_ok_def split: option.splits)
qed

lemma tbi_post_orderly:
  assumes inv: "full_inv hash h"
    and run: "TALER_FAKEBANK_tbi_post_withdrawal hash s2d queued h wopid pr = Done (rep, h')"
  shows "orderly hash h h'"
  using run orderly_refl [OF inv]
  by (auto simp: TALER_FAKEBANK_tbi_post_withdrawal_def on_upload_def split: request_splits
      intro: select_orderly [OF inv optional_amount_field_ok [OF full_bank [OF inv]]])

text \<open>
  Confirming: the first section leaves a selected operation with an amount, the second never
  follows a dangling pointer and aborts only when a balance leaves its range.
\<close>

lemma confirm_check_orderly:
  assumes inv: "full_inv hash h" and amt: "\<forall>a. amt = Some a \<longrightarrow> amount_ok h a"
    and run: "confirm_check hash s2d h account wid amt = Done (r, h')"
  shows "orderly hash h h'"
    and "r = Inr sh \<Longrightarrow> \<exists>wo. wop h' sh = Some wo \<and> wo_selection_done wo \<and> \<not> wo_aborted wo
           \<and> wo_debit_account wo = hash account"
proof -
  note run' = run [unfolded confirm_check_def lookup_None]
  have "orderly hash h h' \<and> (\<forall>sh. r = Inr sh \<longrightarrow> (\<exists>wo. wop h' sh = Some wo \<and> wo_selection_done wo
      \<and> \<not> wo_aborted wo \<and> wo_debit_account wo = hash account))"
  proof (cases "h' = h \<and> (\<exists>rep. r = Inl rep)")
    case True
    then show ?thesis using orderly_refl [OF inv] by auto
  next
    case False
    have acc: "accounts h (hash account) \<noteq> None" using run' False by (auto split: if_splits)
    obtain sh wo where L: "TALER_FAKEBANK_lookup_withdrawal_operation s2d h wid = Some (sh, wo)"
      using run' False acc by (auto split: option.splits)
    then have wo: "wop h sh = Some wo" by (simp add: lookup_wop)
    have d: "hash account = wo_debit_account wo" "wo_exchange_account wo \<noteq> None"
      using run' False acc L by (auto split: if_splits)
    obtain a where a: "(case wo_amount wo of None \<Rightarrow> amt | Some a \<Rightarrow> Some a) = Some a"
      and h': "h' = set_wo h sh (wo\<lparr>wo_amount := Some a\<rparr>)" "\<forall>s. r = Inr s \<longrightarrow> s = sh \<and> \<not> wo_aborted wo"
      using run' False acc L d
      by (cases "case wo_amount wo of None \<Rightarrow> amt | Some a \<Rightarrow> Some a")
        (auto simp: obind_Done Let_def split: if_splits)
    have ok: "wo_ok h wo" by (rule wop_ok [OF inv wo])
    have "amount_ok h a" using a amt ok by (auto simp: wo_ok_def split: option.splits)
    then have "orderly hash h h'"
      unfolding h' using ok a
      by (intro set_wo_orderly [OF inv wo]) (auto simp: wo_le_def wo_ok_def split: option.splits)
    moreover have "wo_selection_done wo" using ok d by (simp add: wo_ok_def)
    ultimately show ?thesis using h' wo d by (auto simp: wop_set_wo)
  qed
  then show "orderly hash h h'"
    and "r = Inr sh \<Longrightarrow> \<exists>wo. wop h' sh = Some wo \<and> wo_selection_done wo \<and> \<not> wo_aborted wo
           \<and> wo_debit_account wo = hash account" by blast+
qed

lemma set_wo_notify:
  assumes inv: "full_inv hash h" and wo: "wop h sh = Some wo" "wo_le wo wo'" "wo_ok h wo'"
  shows "\<exists>h'. TALER_FAKEBANK_notify_withdrawal (set_wo h sh wo') sh wo' = Done h' \<and> advance hash h h'
           \<and> wop h' = (wop h)(sh \<mapsto> wo') \<and> ledger h' = ledger h \<and> rpubs h' = rpubs h"
proof -
  note adv = set_wo_advance [OF inv wo]
  then have inv': "full_inv hash (set_wo h sh wo')" by (simp add: advance_def)
  have "accounts (set_wo h sh wo') (wo_debit_account wo') \<noteq> None" using wo(3) by (simp add: wo_ok_def)
  then obtain h' where run: "TALER_FAKEBANK_notify_withdrawal (set_wo h sh wo') sh wo' = Done h'"
    using lp_trigger_spec [OF full_bank [OF inv']] unfolding TALER_FAKEBANK_notify_withdrawal_def by blast
  note t = lp_trigger_advance [OF inv' run [unfolded TALER_FAKEBANK_notify_withdrawal_def]]
  then have "wop h' = (wop h)(sh \<mapsto> wo')" using wop_set_wo [OF wo(1)] by (simp add: wop_def fun_eq_iff)
  moreover have "ledger h' = ledger h" "rpubs h' = rpubs h" using t(3,4) by simp_all
  ultimately show ?thesis using run advance_trans [OF adv t(1)] by blast
qed

lemma confirm_transfer_spec:
  assumes inv: "full_inv hash h" and wo: "wop h sh = Some wo"
    and sel: "wo_exchange_account wo = Some ek" "wo_amount wo = Some amt"
  shows "if rpubs h (wo_reserve_pub wo) \<noteq> None
         then \<exists>h'. confirm_transfer hash now h sh = Done (Reply_error 409 TALER_EC_BANK_DUPLICATE_RESERVE_PUB_SUBJECT, h')
              \<and> advance hash h h' \<and> ledger h' = ledger h \<and> wop h' = wop h
         else if move_ok (wo_debit_account wo) ek (units amt) (ledger h)
         then \<exists>h'. confirm_transfer hash now h sh = Done (Reply_no_content, h')
              \<and> advance hash h h' \<and> ledger h' = move (wo_debit_account wo) ek (units amt) (ledger h)
              \<and> wop h' = (wop h)(sh \<mapsto> wo\<lparr>wo_row_id := serial_counter h + 1, wo_timestamp := now,
                                       wo_confirmation_done := True\<rparr>)
         else confirm_transfer hash now h sh = Abort"
proof -
  have ok: "wo_ok h wo" by (rule wop_ok [OF inv wo])
  then obtain da ea where acc: "accounts h (wo_debit_account wo) = Some da" "accounts h ek = Some ea"
    using sel by (auto simp: wo_ok_def)
  then have names: "hash (account_name da) = wo_debit_account wo" "hash (account_name ea) = ek"
    using inv by (simp_all add: full_inv_def names_inv_def)
  have amt: "representable amt" "currency amt = cur_buf h" using ok sel by (simp_all add: wo_ok_def amount_ok_def)
  let ?tr = "TALER_FAKEBANK_make_admin_transfer hash now h (account_name da) (account_name ea) amt (wo_reserve_pub wo)"
  let ?tx = "credit_tx hash now (account_name da) (account_name ea) amt (wo_reserve_pub wo)"
  let ?wo = "wo\<lparr>wo_row_id := serial_counter h + 1, wo_timestamp := now, wo_confirmation_done := True\<rparr>"
  note spec = admin_transfer_spec [OF full_bank [OF inv] amt, of "wo_reserve_pub wo" hash now "account_name da"
      "account_name ea", unfolded names]
  have run: "confirm_transfer hash now h sh = obind ?tr
     (\<lambda>((ret, res), h1). case res of
        None \<Rightarrow> Done (Reply_error 409 TALER_EC_BANK_DUPLICATE_RESERVE_PUB_SUBJECT, h1)
      | Some (row, ts) \<Rightarrow>
          let wo' = wo\<lparr>wo_row_id := row, wo_timestamp := ts, wo_confirmation_done := True\<rparr>
          in obind (TALER_FAKEBANK_notify_withdrawal (set_wo h1 sh wo') sh wo') (\<lambda>h2. Done (Reply_no_content, h2)))"
    using wo acc sel by (simp add: confirm_transfer_def wop_def)
  consider (dup) "rpubs h (wo_reserve_pub wo) \<noteq> None"
    | (ok) "rpubs h (wo_reserve_pub wo) = None" "move_ok (wo_debit_account wo) ek (units amt) (ledger h)"
    | (range) "rpubs h (wo_reserve_pub wo) = None" "\<not> move_ok (wo_debit_account wo) ek (units amt) (ledger h)"
    by blast
  then show ?thesis
  proof cases
    case dup
    then obtain h1 where h1: "?tr = Done ((GNUNET_NO, None), h1)" "bank_inv h1" "opened hash h h1"
      using spec by auto
    then show ?thesis
      using dup run opened_sel [OF h1(3)] settled_advance [OF inv opened_settled [OF h1(2,3)]] by (simp add: wop_def fun_eq_iff)
  next
    case ok
    then obtain h1 where h1: "?tr = Done ((GNUNET_OK, Some (serial_counter h + 1, now)), h1)"
      "booked hash ?tx h h1" "rpubs h1 = (rpubs h)(wo_reserve_pub wo \<mapsto> next_ptr h)"
      using spec by auto
    have adv: "advance hash h h1"
      by (rule settled_advance [OF inv booked_settled [OF h1(2) entered_tx(1) [OF ok(1) h1(3)]]])
    have inv1: "full_inv hash h1" and wop1: "wop h1 = wop h"
      using adv h1(2) by (simp_all add: advance_def booked_def wop_def fun_eq_iff)
    have "wo_ok h1 wo" using wop_ok [OF inv1] wo wop1 by simp
    then have "wo_ok h1 ?wo" using sel h1(3) by (simp add: wo_ok_def)
    then obtain h2 where h2: "TALER_FAKEBANK_notify_withdrawal (set_wo h1 sh ?wo) sh ?wo = Done h2"
      "advance hash h1 h2" "wop h2 = (wop h1)(sh \<mapsto> ?wo)" "ledger h2 = ledger h1"
      using set_wo_notify [OF inv1, of sh wo ?wo] wo wop1 by (auto simp: wo_le_def)
    have "ledger h1 = move (wo_debit_account wo) ek (units amt) (ledger h)"
      using h1(2) names by (simp add: booked_def tx_defs)
    then show ?thesis
      using ok run h1(1) h2 advance_trans [OF adv h2(2)] wop1 by simp
  next
    case range
    then show ?thesis using spec run by simp
  qed
qed

lemma confirm_transfer_advance:
  assumes inv: "full_inv hash h" and run: "confirm_transfer hash now h sh = Done (rep, h')"
  shows "advance hash h h'"
proof -
  obtain wo ek amt where wo: "wop h sh = Some wo" "wo_exchange_account wo = Some ek" "wo_amount wo = Some amt"
    using run by (auto simp: confirm_transfer_def wop_def split: option.splits)
  show ?thesis using confirm_transfer_spec [OF inv wo, of now] run by (auto split: if_splits)
qed

lemma confirm_orderly:
  assumes inv: "full_inv hash h" and amt: "\<forall>a. amt = Some a \<longrightarrow> amount_ok h a"
    and run: "bank_withdrawals_confirm hash s2d now h account wid amt = Done (rep, h')"
  shows "orderly hash h h'"
proof -
  obtain r h1 where c: "confirm_check hash s2d h account wid amt = Done (r, h1)"
    "(case r of Inl rp \<Rightarrow> Done (rp, h1) | Inr sh \<Rightarrow> confirm_transfer hash now h1 sh) = Done (rep, h')"
    using run by (auto simp: bank_withdrawals_confirm_def obind_Done)
  note o = confirm_check_orderly(1) [OF inv amt c(1)]
  then have inv1: "full_inv hash h1" by (simp add: orderly_def advance_def)
  show ?thesis
  proof (cases r)
    case (Inl rp)
    then show ?thesis using c(2) o by simp
  next
    case (Inr sh)
    then obtain wo where wo: "wop h1 sh = Some wo" "wo_selection_done wo" "\<not> wo_aborted wo"
      using confirm_check_orderly(2) [OF inv amt c(1)] by blast
    then obtain ek a where sel: "wo_exchange_account wo = Some ek" "wo_amount wo = Some a"
      using wop_ok [OF inv1 wo(1)] by (auto simp: wo_ok_def)
    have "orderly hash h1 h'"
      using confirm_transfer_spec [OF inv1 wo(1) sel, of now] c(2) Inr wo(3)
      by (auto simp: orderly_def tame_def split: if_splits)
    then show ?thesis by (rule orderly_trans [OF o])
  qed
qed

text \<open>The two sections and the abort, run forward on an operation of the account.\<close>

lemma confirm_check_runs:
  assumes "accounts h (hash account) \<noteq> None" "s2d wid = Some sh" "wop h sh = Some wo"
    "wo_debit_account wo = hash account" "wo_exchange_account wo = Some ek" "wo_amount wo = Some amt" "\<not> wo_aborted wo"
  shows "confirm_check hash s2d h account wid None = Done (Inr sh, set_wo h sh (wo\<lparr>wo_amount := Some amt\<rparr>))"
proof -
  have "TALER_FAKEBANK_lookup_withdrawal_operation s2d h wid = Some (sh, wo)" using assms by (simp add: lookup_wop)
  then show ?thesis using assms by (simp add: confirm_check_def lookup_None Let_def)
qed

lemma abort_runs:
  assumes inv: "full_inv hash h" and "s2d wid = Some sh" and wo: "wop h sh = Some wo"
    and "wo_debit_account wo = hash account" "\<not> wo_confirmation_done wo"
  shows "\<exists>h'. bank_withdrawals_abort hash s2d h account wid = Done (Reply_no_content, h') \<and> advance hash h h'
           \<and> wop h' = (wop h)(sh \<mapsto> wo\<lparr>wo_aborted := True\<rparr>) \<and> ledger h' = ledger h \<and> rpubs h' = rpubs h"
proof -
  have ok: "wo_ok h wo" by (rule wop_ok [OF inv wo])
  let ?wo = "wo\<lparr>wo_aborted := True\<rparr>"
  have L: "TALER_FAKEBANK_lookup_withdrawal_operation s2d h wid = Some (sh, wo)" using assms by (simp add: lookup_wop)
  have acc: "accounts h (hash account) \<noteq> None" using ok assms(4) by (simp add: wo_ok_def)
  have "wo_ok h ?wo" using ok by (auto simp: wo_ok_def)
  then obtain h' where h': "TALER_FAKEBANK_notify_withdrawal (set_wo h sh ?wo) sh ?wo = Done h'" "advance hash h h'"
    "wop h' = (wop h)(sh \<mapsto> ?wo)" "ledger h' = ledger h" "rpubs h' = rpubs h"
    using set_wo_notify [OF inv wo, of ?wo] by (auto simp: wo_le_def)
  then have "bank_withdrawals_abort hash s2d h account wid = Done (Reply_no_content, h')"
    using L acc assms(4,5) by (simp add: bank_withdrawals_abort_def lookup_None Let_def)
  then show ?thesis using h' by blast
qed

lemma abort_orderly:
  assumes inv: "full_inv hash h" and run: "bank_withdrawals_abort hash s2d h account wid = Done (rep, h')"
  shows "orderly hash h h'"
proof (cases "h' = h")
  case True
  then show ?thesis using orderly_refl [OF inv] by simp
next
  case False
  note run' = run [unfolded bank_withdrawals_abort_def lookup_None]
  have acc: "accounts h (hash account) \<noteq> None" using run' False by (auto split: if_splits)
  obtain sh wo where L: "TALER_FAKEBANK_lookup_withdrawal_operation s2d h wid = Some (sh, wo)"
    using run' False acc by (auto split: option.splits)
  then have wo: "wop h sh = Some wo" by (simp add: lookup_wop)
  have c: "\<not> wo_confirmation_done wo" using run' False acc L by (auto split: if_splits)
  let ?wo = "wo\<lparr>wo_aborted := True\<rparr>"
  have n: "TALER_FAKEBANK_notify_withdrawal (set_wo h sh ?wo) sh ?wo = Done h'"
    using run' False acc L c by (auto simp: obind_Done Let_def split: if_splits)
  moreover have "wo_ok h ?wo" using wop_ok [OF inv wo] by (auto simp: wo_ok_def)
  ultimately have "advance hash h h'" "wop h' = (wop h)(sh \<mapsto> ?wo)"
    using set_wo_notify [OF inv wo, of ?wo] by (auto simp: wo_le_def)
  then show ?thesis using c by (simp add: orderly_def tame_def)
qed

lemma id_op_orderly:
  assumes inv: "full_inv hash h"
    and run: "TALER_FAKEBANK_bank_withdrawals_id_op hash s2d now queued h account wid op upload = Done (rep, h')"
  shows "orderly hash h h'"
  using run orderly_refl [OF inv] abort_orderly [OF inv] confirm_orderly [OF inv, of None]
  by (auto simp: TALER_FAKEBANK_bank_withdrawals_id_op_def on_upload_def Let_def bind_eq_Some_conv split: request_splits
      intro: confirm_orderly [OF inv optional_amount_field_ok [OF full_bank [OF inv]]])

text \<open>Registering pays the bonus to a new account.\<close>

lemma total_update:
  assumes "bank_inv h" "accounts h k = Some a"
  shows "total (h\<lparr>accounts := (accounts h)(k \<mapsto> a')\<rparr>) = total h - signed_balance a + signed_balance a'"
proof -
  let ?h = "h\<lparr>accounts := (accounts h)(k \<mapsto> a')\<rparr>" and ?D = "dom (accounts h)"
  have D: "finite ?D" "k \<in> ?D" using assms by (auto simp: bank_inv_finite)
  have dom: "dom (accounts ?h) = ?D" using D(2) by auto
  have rest: "sum (ledger ?h) (?D - {k}) = sum (ledger h) (?D - {k})"
    by (rule sum.cong) (simp_all add: ledger_def)
  have k: "ledger ?h k = signed_balance a'" "ledger h k = signed_balance a"
    using assms(2) by (simp_all add: ledger_def)
  show ?thesis
    unfolding total_def dom sum.remove [OF D, of "ledger ?h"] sum.remove [OF D, of "ledger h"] rest k by simp
qed

lemma register_new:
  assumes inv: "full_inv hash h" and new: "accounts h k = None" "k = hash name"
    and h2: "bank_inv h2" "opened hash h h2" "accounts h2 k = Some a" "signed_balance a = 0" "\<not> is_negative a"
    and h3: "h3 = h2\<lparr>accounts := (accounts h2)(k \<mapsto> a\<lparr>password := Some pw, balance := signup_bonus h2\<rparr>)\<rparr>"
  shows "orderly hash h h3"
proof -
  let ?a = "a\<lparr>password := Some pw, balance := signup_bonus h2\<rparr>"
  have s: "settled hash h h2" by (rule opened_settled [OF h2(1,2)])
  note inv2 = settled_inv [OF s inv] and sel = settled_sel [OF s]
  have good: "good_account (cur_buf h2) ?a"
    using h2(1) by (simp add: good_account_def bank_inv_def config_inv_def)
  then have b3: "bank_inv h3" unfolding h3 by (intro bank_inv_update [OF h2(1,3)]) (simp add: same_lists_def)
  have dom: "dom (accounts h3) = dom (accounts h2)" using h2(3) h3 by auto
  have bal: "signed_balance ?a = int (units (signup_bonus h2))" using h2(5) by (simp add: signed_balance_def)
  have "k \<notin> customers h2" using named_customers [OF sel(5)] new(1) by (simp add: customers_def)
  moreover have "finite (customers h2)"
    by (rule finite_subset [OF _ bank_inv_finite [OF h2(1)]]) (auto simp: customers_def)
  moreover have "customers h3 = insert k (customers h2)" by (auto simp: customers_def h3)
  ultimately have "bonus_inv h3"
    using inv2 total_update [OF h2(1,3), of ?a] h2(4) bal h3 by (simp add: full_inv_def bonus_inv_def algebra_simps)
  moreover have "wops_inv h3"
    using inv2 wo_ok_mono [of h2 _ h3] dom h3 by (auto simp: full_inv_def wops_inv_def wop_def)
  moreover have "names_inv hash h3" "rpubs_inv h3"
    using inv2 h2(3) by (auto simp: full_inv_def names_inv_def rpubs_inv_def h3)
  ultimately have "full_inv hash h3" using b3 by (simp add: full_inv_def)
  then have "advance hash h2 h3" using dom by (simp add: advance_def h3 wops_le_same kept_same)
  moreover have "tame h2 h3" by (rule tame_same) (simp add: wop_def h3 fun_eq_iff)
  ultimately show ?thesis
    using settled_orderly [OF inv s] orderly_trans [of hash h h2 h3] by (simp add: orderly_def)
qed

lemma register_orderly:
  assumes inv: "full_inv hash h" and run: "TALER_FAKEBANK_bank_testing_register hash queued h pr = Done (rep, h')"
  shows "orderly hash h h'"
proof (cases "h' = h")
  case True
  then show ?thesis using orderly_refl [OF inv] by simp
next
  case False
  note run' = run [unfolded TALER_FAKEBANK_bank_testing_register_def on_upload_def lookup_None]
  obtain b where b: "pr = GNUNET_JSON_PR_SUCCESS (Some b)"
    using run' False by (auto split: post_result.splits option.splits)
  let ?n = "rb_username b"
  have new: "accounts h (hash ?n) = None" using run' False b by (auto split: option.splits if_splits)
  obtain h2 where h2: "TALER_FAKEBANK_lookup_account hash h ?n (Some ?n) = Done (Some (hash ?n), h2)"
    "bank_inv h2" "opened hash h h2"
    using lookup_account_new [OF full_bank [OF inv]] by blast
  then obtain bal where a: "accounts h2 (hash ?n) = Some (new_account h ?n ?n bal)"
    using new by (auto simp: TALER_FAKEBANK_lookup_account_def Let_def gassert_def split: prod.splits if_splits)
  have "ledger h2 (hash ?n) = ledger h (hash ?n)" using opened_sel [OF h2(3)] by simp
  then have zero: "signed_balance (new_account h ?n ?n bal) = 0" using a new by (simp add: ledger_def)
  show ?thesis
    using run' b new h2(1) a
    by (intro register_new [OF inv new refl h2(2,3) a zero, of h' "rb_password b"])
      (auto simp: with_account_def new_account_def)
qed

section \<open>Sequences of requests\<close>

text \<open>
  The requests that change the bank, with what the environment contributes: the time \<open>now\<close>, the
  random blocks and whether an error reply could be queued. \<open>None\<close> is a request that never
  returns.
\<close>

datatype request =
    Transfer "64 word" bool string "transfer_body option post_result"
  | Add_incoming "64 word" bool string "incoming_body option post_result"
  | Add_kycauth "64 word" bool string "incoming_body option post_result"
  | Register bool "register_body option post_result"
  | Withdraw "nat \<Rightarrow> bytes" bool string "string option option post_result"
  | Select bool string "post_withdrawal_body option post_result"
  | Id_op "64 word" bool string string string "string option option post_result option"

record crypto =
  hash_of :: "string \<Rightarrow> bytes"
  to_string :: "bytes \<Rightarrow> string"
  of_string :: "string \<Rightarrow> bytes option"

fun serve :: "crypto \<Rightarrow> request \<Rightarrow> fakebank \<Rightarrow> (reply \<times> fakebank) outcome option" where
  "serve C (Transfer now q account pr) h = Some (TALER_FAKEBANK_handle_transfer (hash_of C) now q h account pr)"
| "serve C (Add_incoming now q account pr) h = Some (TALER_FAKEBANK_twg_admin_add_incoming (hash_of C) now q h account pr)"
| "serve C (Add_kycauth now q account pr) h = Some (TALER_FAKEBANK_twg_admin_add_kycauth (hash_of C) now q h account pr)"
| "serve C (Register q pr) h = Some (TALER_FAKEBANK_bank_testing_register (hash_of C) q h pr)"
| "serve C (Withdraw rnd q name pr) h = TALER_FAKEBANK_bank_post_account_withdrawals (hash_of C) (to_string C) rnd q h name pr"
| "serve C (Select q wopid pr) h = Some (TALER_FAKEBANK_tbi_post_withdrawal (hash_of C) (of_string C) q h wopid pr)"
| "serve C (Id_op now q account wid op upload) h =
     Some (TALER_FAKEBANK_bank_withdrawals_id_op (hash_of C) (of_string C) now q h account wid op upload)"

lemma serve_orderly:
  assumes "full_inv (hash_of C) h" "serve C r h = Some (Done (rep, h'))"
  shows "orderly (hash_of C) h h'"
  using assms
  by (cases r) (auto intro: transfer_orderly incoming_orderly register_orderly post_withdrawals_orderly
      tbi_post_orderly id_op_orderly)

text \<open>
  One thread: requests are handled one after the other. Several threads: a confirmation is
  two critical sections, and other requests may run between them. \<open>P\<close> lists the operations whose
  confirmation has passed the check and not yet transferred.
\<close>

inductive run :: "crypto \<Rightarrow> fakebank \<Rightarrow> fakebank \<Rightarrow> bool" for C where
  run_refl: "run C h h"
| run_step: "run C h h1 \<Longrightarrow> serve C r h1 = Some (Done (rep, h2)) \<Longrightarrow> run C h h2"

inductive step :: "crypto \<Rightarrow> fakebank \<times> bytes list \<Rightarrow> fakebank \<times> bytes list \<Rightarrow> bool" for C where
  step_serve: "serve C r h = Some (Done (rep, h')) \<Longrightarrow> step C (h, P) (h', P)"
| step_check: "optional_amount_field h field = Some amt
    \<Longrightarrow> confirm_check (hash_of C) (of_string C) h account wid amt = Done (Inr sh, h')
    \<Longrightarrow> step C (h, P) (h', sh # P)"
| step_transfer: "sh \<in> set P \<Longrightarrow> confirm_transfer (hash_of C) now h sh = Done (rep, h')
    \<Longrightarrow> step C (h, P) (h', remove1 sh P)"

inductive steps :: "crypto \<Rightarrow> fakebank \<times> bytes list \<Rightarrow> fakebank \<times> bytes list \<Rightarrow> bool" for C where
  steps_refl: "steps C s s"
| steps_step: "steps C s s1 \<Longrightarrow> step C s1 s2 \<Longrightarrow> steps C s s2"

inductive_cases step_cases: "step C (h, P) (h', P')"

lemma run_trans: "run C h2 h3 \<Longrightarrow> run C h1 h2 \<Longrightarrow> run C h1 h3"
  by (induction rule: run.induct) (auto intro: run_step)

lemma run_steps: "run C h h' \<Longrightarrow> steps C (h, P) (h', P)"
  by (induction rule: run.induct) (auto intro: steps_refl steps_step step_serve)

lemma run_orderly:
  assumes "run C h h'" "full_inv (hash_of C) h"
  shows "orderly (hash_of C) h h'"
  using assms
proof (induction rule: run.induct)
  case (run_refl h)
  then show ?case by (rule orderly_refl)
next
  case (run_step h h1 r rep h2)
  then have "full_inv (hash_of C) h1" by (simp add: orderly_def advance_def)
  then show ?case using run_step orderly_trans serve_orderly by blast
qed

text \<open>The operations between the two sections of a confirmation are selected ones.\<close>

definition pending_ok :: "fakebank \<Rightarrow> bytes list \<Rightarrow> bool" where
  "pending_ok h P \<longleftrightarrow> (\<forall>sh\<in>set P. \<exists>wo. wop h sh = Some wo \<and> wo_selection_done wo)"

lemma pending_advance:
  assumes "pending_ok h P" "advance hash h h'"
  shows "pending_ok h' P"
  unfolding pending_ok_def
proof
  fix sh assume "sh \<in> set P"
  then obtain wo where "wop h sh = Some wo" "wo_selection_done wo" using assms(1) by (auto simp: pending_ok_def)
  then show "\<exists>wo. wop h' sh = Some wo \<and> wo_selection_done wo"
    using assms(2) unfolding advance_def wops_le_def wo_le_def by blast
qed

lemma step_advance:
  assumes "step C (h, P) (h', P')" "full_inv (hash_of C) h" "pending_ok h P"
  shows "advance (hash_of C) h h' \<and> pending_ok h' P'"
  using assms(1)
proof (cases rule: step_cases [consumes 1, case_names step_serve step_check step_transfer])
  case (step_serve r rep)
  then have a: "advance (hash_of C) h h'" using serve_orderly [OF assms(2)] by (simp add: orderly_def)
  then show ?thesis using pending_advance [OF assms(3) a] step_serve by simp
next
  case (step_check field amt account wid sh)
  note c = confirm_check_orderly [OF assms(2) optional_amount_field_ok [OF full_bank [OF assms(2)]]]
  have "advance (hash_of C) h h'" using c(1) step_check by (simp add: orderly_def)
  moreover have "\<exists>wo. wop h' sh = Some wo \<and> wo_selection_done wo" using c(2) step_check by blast
  ultimately show ?thesis using pending_advance [OF assms(3)] step_check by (auto simp: pending_ok_def)
next
  case (step_transfer sh now rep)
  then have a: "advance (hash_of C) h h'" using confirm_transfer_advance [OF assms(2)] by blast
  then have "pending_ok h' P" by (rule pending_advance [OF assms(3)])
  then have "pending_ok h' P'" using step_transfer set_remove1_subset [of sh P] by (auto simp: pending_ok_def)
  then show ?thesis using a by blast
qed

lemma steps_advance:
  assumes "steps C s s'" "full_inv (hash_of C) (fst s)" "pending_ok (fst s) (snd s)"
  shows "advance (hash_of C) (fst s) (fst s') \<and> pending_ok (fst s') (snd s')"
  using assms
proof (induction rule: steps.induct)
  case (steps_refl s)
  then show ?case by (simp add: advance_refl)
next
  case (steps_step s s1 s2)
  then have 1: "advance (hash_of C) (fst s) (fst s1)" "pending_ok (fst s1) (snd s1)" by simp_all
  have "advance (hash_of C) (fst s1) (fst s2) \<and> pending_ok (fst s2) (snd s2)"
    using step_advance [of C "fst s1" "snd s1" "fst s2" "snd s2"] steps_step(2) 1 by (simp add: advance_def)
  then show ?case using advance_trans [OF 1(1)] by blast
qed

section \<open>The start\<close>

lemma start_inv:
  assumes start: "TALER_FAKEBANK_start3 host prt cur limit bonus = Done (Some h)"
    and "limit \<noteq> 0" "representable bonus"
  shows "full_inv hash h" "wop h = Map.empty" "signup_bonus h = bonus" "pending_ok h []"
proof -
  have h: "h = \<lparr>transactions = replicate (unat limit) None, heap = Map.empty, next_ptr = 0, rpubs = Map.empty,
      wops = None, accounts = Map.empty, uuid_map = Map.empty, signup_bonus = bonus,
      serial_counter = 0, ram_limit = limit, bank_currency = cur, hostname = host, port = prt, resumed = []\<rparr>"
    and cur: "cstr (currency bonus) = cur"
    using start by (auto simp: TALER_FAKEBANK_start3_def gassert_def split: if_splits)
  have leg: "legal_currency (currency bonus)" using assms(3) by (simp add: representable_def)
  then have buf: "currency bonus = cur_buf h" using cur by (simp add: legal_currency_def cur_buf_def h)
  have "config_inv h" using assms(2,3) leg cur by (simp add: config_inv_def h buf [symmetric]) (simp add: buf h)
  moreover have "accounts_inv h" "ring_inv h" "lists_inv h" "uuid_inv h"
    by (auto simp: accounts_inv_def ring_inv_def lists_inv_def uuid_inv_def h)
  moreover have "total h = 0" "customers h = {}" by (simp_all add: total_def customers_def h)
  ultimately show "full_inv hash h"
    by (simp add: full_inv_def bank_inv_def names_inv_def rpubs_inv_def wops_inv_def bonus_inv_def wop_def h)
  show "wop h = Map.empty" "signup_bonus h = bonus" "pending_ok h []"
    by (simp_all add: wop_def h fun_eq_iff pending_ok_def)
qed

lemma started_steps:
  assumes "TALER_FAKEBANK_start3 host prt cur limit bonus = Done (Some h0)" "limit \<noteq> 0" "representable bonus"
    and "steps C (h0, []) (h, P)"
  shows "full_inv (hash_of C) h" "signup_bonus h = bonus" "pending_ok h P"
  using steps_advance [OF assms(4)] start_inv [OF assms(1-3)] by (simp_all add: advance_def)

end
