(* ===== verification/Fakebank_Properties.thy ===== *)
theory Fakebank_Properties
  imports Fakebank_Runs
begin

text \<open>
  The properties of the fakebank: transfers against the abstract ledger, repeated transfers,
  the invariants of every reachable bank, the life of a withdrawal operation, and the requests
  that make the server abort. The samples use a hash that is the identity and a bank with
  two slots for transactions.
\<close>

section \<open>Samples\<close>

definition sample_crypto :: crypto where
  "sample_crypto = \<lparr>hash_of = (\<lambda>s. s), to_string = (\<lambda>b. b), of_string = Some\<rparr>"

definition sample_bank :: fakebank where
  "sample_bank =
     \<lparr>transactions = replicate 2 None, heap = Map.empty, next_ptr = 0, rpubs = Map.empty,
      wops = None, accounts = Map.empty, uuid_map = Map.empty, signup_bonus = eur 100000000,
      serial_counter = 0, ram_limit = 2, bank_currency = ''EUR'', hostname = ''localhost'', port = 8082,
      resumed = []\<rparr>"

lemma sample_crypto_sel [simp]:
  "hash_of sample_crypto = (\<lambda>s. s)" "to_string sample_crypto = (\<lambda>b. b)" "of_string sample_crypto = Some"
  by (simp_all add: sample_crypto_def)

lemma cstr_EUR [simp]: "cstr EUR = ''EUR''"
  by (simp add: EUR_def cstr_def zero_padded_def amount_consts)

lemma sample_start: "TALER_FAKEBANK_start3 ''localhost'' 8082 ''EUR'' 2 (eur 100000000) = Done (Some sample_bank)"
  by (simp add: TALER_FAKEBANK_start3_def sample_bank_def amount_consts)

lemma sample_inv: "full_inv hash sample_bank"
  by (rule start_inv(1) [OF sample_start]) (simp_all add: amount_consts)

lemma sample_bank_sel [simp]:
  "rpubs sample_bank = Map.empty" "uuid_map sample_bank = Map.empty" "serial_counter sample_bank = 0"
  "ledger sample_bank = (\<lambda>k. 0)" "next_ptr sample_bank = 0" "cur_buf sample_bank = EUR"
  "bank_inv sample_bank"
  using full_bank [OF sample_inv]
  by (simp_all add: sample_bank_def ledger_def fun_eq_iff cur_buf_def EUR_def)

lemma sample_amount [simp]: "n \<le> max_units \<Longrightarrow> amount_ok sample_bank (eur n)"
  by (simp add: amount_ok_def)

lemma sample_le [simp]: "100000000 \<le> max_units" "500000000 \<le> max_units" "int 500000000 \<le> int max_units"
  by (simp_all add: amount_consts)

definition alice_uri :: string where
  "alice_uri = ''payto://x-taler-bank/b/alice?receiver-name=A''"

lemma receiver_name_A: "payto_key_loop ''?receiver-name=A'' ''receiver-name='' = Some ''A''"
  by (subst payto_key_loop.simps) (simp add: Let_def strncaseeq_def strchr_def)

lemma alice_user: "account_loop ''alice?receiver-name=A'' None n = ''alice?receiver-name=A''"
  by (subst account_loop.simps) simp

lemma alice_xtalerbank: "validate_payto_xtalerbank alice_uri = None"
proof -
  have "payto_get_key alice_uri ''receiver-name='' = Some ''A''"
    using receiver_name_A by (simp add: alice_uri_def payto_get_key_def strchr_def)
  then show ?thesis
    using alice_user unfolding validate_payto_xtalerbank_def
    by (simp add: strchr_def Let_def alice_uri_def strncaseeq_def c_tolower_def c_isdigit_def c_islower_def c_isupper_def)
qed

lemma alice_payto:
  "parse_full_payto_uri alice_uri = Some alice_uri"
  "TALER_xtalerbank_account_from_payto alice_uri = Some ''alice''"
proof -
  have "allowed_loop 0 alice_uri = None" by (simp add: alice_uri_def ALLOWED_CHARACTERS_def)
  moreover have "validate_payto_iban alice_uri = None"
    by (simp add: alice_uri_def validate_payto_iban_def strncaseeq_def c_tolower_def c_isupper_def)
  ultimately have "TALER_payto_validate alice_uri = None"
    unfolding TALER_payto_validate_def using alice_xtalerbank
    by simp (simp add: alice_uri_def PAYTO_def strchr_def strncaseeq_def)
  then show "parse_full_payto_uri alice_uri = Some alice_uri" by (simp add: parse_full_payto_uri_def)
  show "TALER_xtalerbank_account_from_payto alice_uri = Some ''alice''"
    using xtalerbank_account [of XTALERBANK_PREFIX "''b''" "''alice?receiver-name=A''"]
    by (simp add: alice_uri_def after_strrchr_def)
qed

lemma sample_amount_field: "amount_field sample_bank (amount_text EUR 500000000) = Some (eur 500000000)"
  using string_to_amount_text [OF legal_EUR, of 500000000 zero_memory_amount]
  by (simp add: amount_field_def parse_amount_def eur_def [symmetric]) (simp add: sample_bank_def)

definition sample_incoming :: request where
  "sample_incoming = Add_incoming 7 True ''exchange'' (GNUNET_JSON_PR_SUCCESS
     (Some \<lparr>ib_pub = ''key'', ib_debit_account = alice_uri, ib_amount = amount_text EUR 500000000\<rparr>))"

lemma sample_incoming_served:
  "\<exists>h. serve sample_crypto sample_incoming sample_bank = Some (Done (Reply_transfer 1 7, h))
     \<and> heap h 0 = Some ((credit_tx (\<lambda>s. s) 7 ''alice'' ''exchange'' (eur 500000000) ''key'')\<lparr>row_id := 1\<rparr>)"
  using admin_transfer_spec [of sample_bank "eur 500000000" "''key''" "\<lambda>s. s" 7 "''alice''" "''exchange''"]
    sample_amount_field
  by (auto simp: sample_incoming_def TALER_FAKEBANK_twg_admin_add_incoming_def incoming_request_def on_upload_def
      alice_payto move_ok_def booked_def) (simp_all add: sample_bank_def)

definition sample_register :: request where
  "sample_register = Register True (GNUNET_JSON_PR_SUCCESS (Some \<lparr>rb_username = ''alice'', rb_password = ''pw''\<rparr>))"

definition alice_bank :: fakebank where
  "alice_bank = sample_bank\<lparr>accounts := [''alice'' \<mapsto>
     (new_account sample_bank ''alice'' ''alice'' (eur 100000000))\<lparr>password := Some ''pw''\<rparr>]\<rparr>"

lemma sample_register_served: "serve sample_crypto sample_register sample_bank = Some (Done (Reply_no_content, alice_bank))"
  using set_zero_legal [OF legal_EUR, of zero_memory_amount]
  by (simp add: sample_register_def TALER_FAKEBANK_bank_testing_register_def on_upload_def lookup_None)
    (simp add: TALER_FAKEBANK_lookup_account_def sample_bank_def alice_bank_def with_account_def new_account_def Let_def)

section \<open>Transfers\<close>

text \<open>
  C7: \<^verbatim>\<open>TALER_FAKEBANK_make_admin_transfer_\<close> refines the move of the abstract ledger. In a bank that
  satisfies the invariant, for an amount of its currency: a reserve key in use is refused and
  at most empty accounts are opened; otherwise the units of the amount move from the debit
  to the credit account, the transaction gets the next row, the reserve key is bound to it, and
  the invariant holds again; the function aborts exactly when the move would take a balance
  out of the range of an amount.
\<close>

theorem fakebank_admin_transfer_refines:
  assumes "bank_inv h" "amount_ok h amt"
  shows "if rpubs h pub \<noteq> None
         then \<exists>h'. TALER_FAKEBANK_make_admin_transfer hash now h debit credit amt pub = Done ((GNUNET_NO, None), h')
              \<and> bank_inv h' \<and> ledger h' = ledger h \<and> heap h' = heap h
         else if move_ok (hash debit) (hash credit) (units amt) (ledger h)
         then \<exists>h'. TALER_FAKEBANK_make_admin_transfer hash now h debit credit amt pub
                = Done ((GNUNET_OK, Some (serial_counter h + 1, now)), h')
              \<and> bank_inv h' \<and> ledger h' = move (hash debit) (hash credit) (units amt) (ledger h)
              \<and> heap h' (next_ptr h) = Some \<lparr>tx_amount = amt, debit_account = hash debit, credit_account = hash credit,
                  request_uid = [], tx_date = now, row_id = serial_counter h + 1,
                  tx_subject = Subject_credit pub, tx_unchecked = True\<rparr>
              \<and> rpubs h' = (rpubs h)(pub \<mapsto> next_ptr h)
         else TALER_FAKEBANK_make_admin_transfer hash now h debit credit amt pub = Abort"
proof -
  have amt: "representable amt" "currency amt = cur_buf h" using assms(2) by (simp_all add: amount_ok_def)
  show ?thesis
    using admin_transfer_spec [OF assms(1) amt, of pub hash now debit credit]
    by (auto simp: booked_def tx_defs dest: opened_sel split: if_splits)
qed

theorem fakebank_admin_transfer_refines_witness:
  "\<exists>h'. TALER_FAKEBANK_make_admin_transfer (\<lambda>s. s) 7 sample_bank ''alice'' ''bob'' (eur 500000000) ''key''
      = Done ((GNUNET_OK, Some (1, 7)), h') \<and> ledger h' ''alice'' = - 500000000 \<and> ledger h' ''bob'' = 500000000"
  using fakebank_admin_transfer_refines [of sample_bank "eur 500000000" "''key''" "\<lambda>s. s" 7 "''alice''" "''bob''"]
  by (auto simp: move_ok_def move_def)

text \<open>
  A transfer with an identifier, seen again in a later bank. While its transaction is in the
  ring buffer the identifier is bound to it.
\<close>

lemma transfer_later:
  assumes inv: "full_inv (hash_of C) h" "pending_ok h P" and amt: "amount_ok h amt" and free: "uuid_map h uid = None"
    and run: "TALER_FAKEBANK_make_transfer (hash_of C) now nonce h debit credit amt subj url (Some uid) = Done (res, h1)"
    and later: "steps C (h1, P) (h2, P2)"
  shows "res = (GNUNET_OK, Some (serial_counter h + 1, now))" "full_inv (hash_of C) h2" "cur_buf h2 = cur_buf h"
    and "heap h2 (next_ptr h) \<noteq> None \<Longrightarrow> uuid_map h2 uid = Some (next_ptr h)
         \<and> heap h2 (next_ptr h) = Some ((debit_tx (hash_of C) now debit credit amt subj url uid)\<lparr>row_id := serial_counter h + 1\<rparr>)"
proof -
  let ?t = "(debit_tx (hash_of C) now debit credit amt subj url uid)\<lparr>row_id := serial_counter h + 1\<rparr>"
  have a: "representable amt" "currency amt = cur_buf h" using amt by (simp_all add: amount_ok_def)
  have url: "length url < MAX_URL_LEN"
    using run by (auto simp: TALER_FAKEBANK_make_transfer_def gassert_def split: if_splits)
  have b: "res = (GNUNET_OK, Some (serial_counter h + 1, now))"
    "booked (hash_of C) (debit_tx (hash_of C) now debit credit amt subj url uid) h h1"
    using transfer_spec [OF full_bank [OF inv(1)] a url, where u = uid and uid_opt = "Some uid" and nonce = nonce
        and hash = "hash_of C" and debit = debit and credit = credit and now = now and subj = subj] free run
    by (auto split: if_splits)
  then show "res = (GNUNET_OK, Some (serial_counter h + 1, now))" by simp
  have "settled (hash_of C) h h1"
    using transfer_cases [OF full_bank [OF inv(1)] amt, of "hash_of C" now nonce debit credit subj url uid
        "fst res" "snd res" h1] run by simp
  then have adv1: "advance (hash_of C) h h1" by (rule settled_advance [OF inv(1)])
  have adv2: "advance (hash_of C) h1 h2"
    using steps_advance [OF later] adv1 pending_advance [OF inv(2) adv1] by (simp add: advance_def)
  show "full_inv (hash_of C) h2" "cur_buf h2 = cur_buf h"
    using adv1 adv2 by (simp_all add: advance_def cur_buf_def)
  assume here: "heap h2 (next_ptr h) \<noteq> None"
  have t1: "heap h1 (next_ptr h) = Some ?t" using b(2) by (simp add: booked_def)
  then have "next_ptr h < next_ptr h1"
    using full_bank [of "hash_of C" h1] adv1
    by (force simp: advance_def bank_inv_def ring_inv_def not_le [symmetric])
  then have t2: "heap h2 (next_ptr h) = Some ?t" using here t1 adv2 by (auto simp: advance_def kept_def)
  moreover have "is_debit ?t" "request_uid ?t = uid" by (simp_all add: tx_defs is_debit_def)
  ultimately have "uuid_map h2 uid = Some (next_ptr h)"
    using adv2 by (auto simp: advance_def full_inv_def bank_inv_def uuid_inv_def)
  then show "uuid_map h2 uid = Some (next_ptr h) \<and> heap h2 (next_ptr h) = Some ?t" using t2 by simp
qed

text \<open>
  C8: transfers are idempotent in their request identifier for as long as the first transfer is
  in the ring buffer. After a transfer with a new identifier succeeded in a reachable bank,
  and after any further requests and interleaved confirmations: while the transaction is still
  stored, a request with the same identifier books nothing and leaves all balances alone; it
  gets the row and date of the first transfer if accounts, amount and subject agree, and an
  error otherwise. (The exchange URL is not compared.) Once the transaction has been evicted and
  the identifier is free again, the same request is booked a second time if the balances stay
  in range.
\<close>

theorem fakebank_transfer_idempotent:
  assumes "TALER_FAKEBANK_start3 host prt cur limit bonus = Done (Some h0)" "limit \<noteq> 0" "representable bonus"
    and "steps C (h0, []) (h, P)" "amount_ok h amt" "uuid_map h uid = None"
    and "TALER_FAKEBANK_make_transfer (hash_of C) now nonce h debit credit amt subj url (Some uid) = Done (res, h1)"
    and "steps C (h1, P) (h2, P2)" "amount_ok h amt2" "length url2 < MAX_URL_LEN"
  shows "res = (GNUNET_OK, Some (serial_counter h + 1, now))
       \<and> (heap h2 (next_ptr h) \<noteq> None
          \<longrightarrow> (\<exists>h3. TALER_FAKEBANK_make_transfer (hash_of C) now2 nonce2 h2 debit2 credit2 amt2 subj2 url2 (Some uid)
                = Done (if hash_of C debit2 = hash_of C debit \<and> hash_of C credit2 = hash_of C credit
                           \<and> units amt2 = units amt \<and> subj2 = subj
                        then res else (GNUNET_SYSERR, None), h3)
              \<and> bank_inv h3 \<and> ledger h3 = ledger h2 \<and> heap h3 = heap h2))
       \<and> (uuid_map h2 uid = None \<and> move_ok (hash_of C debit2) (hash_of C credit2) (units amt2) (ledger h2)
          \<longrightarrow> (\<exists>h3. TALER_FAKEBANK_make_transfer (hash_of C) now2 nonce2 h2 debit2 credit2 amt2 subj2 url2 (Some uid)
                = Done ((GNUNET_OK, Some (serial_counter h2 + 1, now2)), h3)
              \<and> ledger h3 = move (hash_of C debit2) (hash_of C credit2) (units amt2) (ledger h2)))"
proof -
  note s = started_steps [OF assms(1-4)]
  note l = transfer_later [OF s(1,3) assms(5-8)]
  have a: "representable amt2" "currency amt2 = cur_buf h2" using assms(9) l(3) by (simp_all add: amount_ok_def)
  have repeated: "\<exists>h3. TALER_FAKEBANK_make_transfer (hash_of C) now2 nonce2 h2 debit2 credit2 amt2 subj2 url2 (Some uid)
      = Done (if hash_of C debit2 = hash_of C debit \<and> hash_of C credit2 = hash_of C credit
                 \<and> units amt2 = units amt \<and> subj2 = subj
              then res else (GNUNET_SYSERR, None), h3)
      \<and> bank_inv h3 \<and> ledger h3 = ledger h2 \<and> heap h3 = heap h2" if "heap h2 (next_ptr h) \<noteq> None"
    using transfer_repeated [OF full_bank [OF l(2)] a assms(10) l(4) [OF that, THEN conjunct1]
        l(4) [OF that, THEN conjunct2], of "hash_of C" now2 nonce2 debit2 credit2 subj2] l(1)
    by (auto simp: same_details_def tx_defs dest: opened_sel)
  have again: "\<exists>h3. TALER_FAKEBANK_make_transfer (hash_of C) now2 nonce2 h2 debit2 credit2 amt2 subj2 url2 (Some uid)
      = Done ((GNUNET_OK, Some (serial_counter h2 + 1, now2)), h3)
      \<and> ledger h3 = move (hash_of C debit2) (hash_of C credit2) (units amt2) (ledger h2)"
    if "uuid_map h2 uid = None" "move_ok (hash_of C debit2) (hash_of C credit2) (units amt2) (ledger h2)"
    using transfer_spec [OF full_bank [OF l(2)] a assms(10), where u = uid and uid_opt = "Some uid" and nonce = nonce2
        and hash = "hash_of C" and debit = debit2 and credit = credit2 and now = now2 and subj = subj2] that
    by (auto simp: booked_def tx_defs)
  show ?thesis using l(1) repeated again by blast
qed

theorem fakebank_transfer_idempotent_witness:
  "\<exists>h1 h2. TALER_FAKEBANK_make_transfer (\<lambda>s. s) 7 [] sample_bank ''alice'' ''bob'' (eur 500000000) ''wtid'' ''url'' (Some ''uid'')
       = Done ((GNUNET_OK, Some (1, 7)), h1)
     \<and> TALER_FAKEBANK_make_transfer (\<lambda>s. s) 9 [] h1 ''alice'' ''bob'' (eur 500000000) ''wtid'' ''url'' (Some ''uid'')
       = Done ((GNUNET_OK, Some (1, 7)), h2) \<and> ledger h2 = ledger h1"
proof -
  have "\<exists>r h1. TALER_FAKEBANK_make_transfer (\<lambda>s. s) 7 [] sample_bank ''alice'' ''bob'' (eur 500000000) ''wtid'' ''url''
      (Some ''uid'') = Done (r, h1)"
    using transfer_spec [where h = sample_bank and amt = "eur 500000000" and url = "''url''" and u = "''uid''"
        and uid_opt = "Some ''uid''" and nonce = "[]" and hash = "\<lambda>s. s" and debit = "''alice''"
        and credit = "''bob''" and now = 7 and subj = "''wtid''"]
    by (auto simp: move_ok_def MAX_URL_LEN_def)
  then obtain r h1 where run: "TALER_FAKEBANK_make_transfer (\<lambda>s. s) 7 [] sample_bank ''alice'' ''bob'' (eur 500000000)
      ''wtid'' ''url'' (Some ''uid'') = Done (r, h1)" by blast
  have stored: "heap h1 0 \<noteq> None"
    using transfer_spec [where h = sample_bank and amt = "eur 500000000" and url = "''url''" and u = "''uid''"
        and uid_opt = "Some ''uid''" and nonce = "[]" and hash = "\<lambda>s. s" and debit = "''alice''"
        and credit = "''bob''" and now = 7 and subj = "''wtid''"] run
    by (auto simp: move_ok_def MAX_URL_LEN_def booked_def)
  show ?thesis
    using fakebank_transfer_idempotent [OF sample_start _ _ steps_refl, where C = sample_crypto
        and amt = "eur 500000000" and uid = "''uid''" and now = 7 and nonce = "[]" and debit = "''alice''" and credit = "''bob''"
        and subj = "''wtid''" and url = "''url''" and ?h2.0 = h1 and ?P2.0 = "[]" and ?h1.0 = h1 and res = r
        and ?amt2.0 = "eur 500000000" and ?url2.0 = "''url''" and ?now2.0 = 9 and ?nonce2.0 = "[]" and ?debit2.0 = "''alice''"
        and ?credit2.0 = "''bob''" and ?subj2.0 = "''wtid''"] run stored
    by (auto simp: MAX_URL_LEN_def steps_refl)
qed

section \<open>Reachable banks\<close>

text \<open>
  C9: every bank that is reachable from a started one satisfies the invariant, whatever the
  requests are and however the two sections of confirmations interleave: the ring buffer, the
  store, the lists of the accounts and the map of request identifiers agree with each other, every account is
  found under the hash of its name, and every withdrawal operation refers to accounts and
  amounts of the bank.
\<close>

theorem fakebank_reachable_invariant:
  assumes "TALER_FAKEBANK_start3 host prt cur limit bonus = Done (Some h0)" "limit \<noteq> 0" "representable bonus"
    and "steps C (h0, []) (h, P)"
  shows "bank_inv h \<and> names_inv (hash_of C) h \<and> wops_inv h"
  using started_steps(1) [OF assms] by (simp add: full_inv_def)

lemma sample_steps:
  "steps sample_crypto (sample_bank, []) (alice_bank, [])" "run sample_crypto sample_bank alice_bank"
  by (rule steps_step [OF steps_refl step_serve [OF sample_register_served]],
      rule run_step [OF run_refl sample_register_served])

theorem fakebank_reachable_invariant_witness: "bank_inv alice_bank"
  using fakebank_reachable_invariant [OF sample_start _ _ sample_steps(1)] by simp

text \<open>
  C10: money is only created by registration: in every reachable bank the signed balances of
  all accounts add up to the bonus times the number of accounts that were registered.
\<close>

theorem fakebank_money_conserved:
  assumes "TALER_FAKEBANK_start3 host prt cur limit bonus = Done (Some h0)" "limit \<noteq> 0" "representable bonus"
    and "steps C (h0, []) (h, P)"
  shows "total h = int (units bonus) * int (card {k. \<exists>a. accounts h k = Some a \<and> password a \<noteq> None})"
  using started_steps(1,2) [OF assms] by (simp add: full_inv_def bonus_inv_def customers_def)

theorem fakebank_money_conserved_witness: "total alice_bank = 100000000"
proof -
  have "{k. \<exists>a. accounts alice_bank k = Some a \<and> password a \<noteq> None} = {''alice''}"
    by (auto simp: alice_bank_def)
  then show ?thesis using fakebank_money_conserved [OF sample_start _ _ sample_steps(1)] by simp
qed

text \<open>
  C11: a reserve key is credited at most once in the life of a bank: two incoming transactions
  with the same reserve key, seen at any two moments of a run, are the same transaction, also
  when the first one has left the ring buffer in between.
\<close>

theorem fakebank_reserve_credited_once:
  assumes "TALER_FAKEBANK_start3 host prt cur limit bonus = Done (Some h0)" "limit \<noteq> 0" "representable bonus"
    and "steps C (h0, []) (h1, P1)" "steps C (h1, P1) (h2, P2)"
    and "heap h1 p = Some t1" "tx_subject t1 = Subject_credit pub"
    and "heap h2 q = Some t2" "tx_subject t2 = Subject_credit pub"
  shows "p = q"
proof -
  note s1 = started_steps [OF assms(1-4)]
  have adv: "advance (hash_of C) h1 h2" using steps_advance [OF assms(5)] s1 by simp
  have "rpubs h1 pub = Some p" using s1(1) assms(6,7) by (simp add: full_inv_def rpubs_inv_def)
  then have "rpubs h2 pub = Some p" using adv by (auto simp: advance_def map_le_def dom_def)
  moreover have "rpubs h2 pub = Some q"
    using adv assms(8,9) by (simp add: advance_def full_inv_def rpubs_inv_def)
  ultimately show ?thesis by simp
qed

theorem fakebank_reserve_credited_once_witness:
  "\<exists>h. steps sample_crypto (sample_bank, []) (h, [])
     \<and> {p. \<exists>t. heap h p = Some t \<and> tx_subject t = Subject_credit ''key''} = {0}"
proof -
  obtain h where s: "serve sample_crypto sample_incoming sample_bank = Some (Done (Reply_transfer 1 7, h))"
    and t: "heap h 0 = Some ((credit_tx (\<lambda>s. s) 7 ''alice'' ''exchange'' (eur 500000000) ''key'')\<lparr>row_id := 1\<rparr>)"
    using sample_incoming_served by blast
  have st: "steps sample_crypto (sample_bank, []) (h, [])"
    by (rule steps_step [OF steps_refl step_serve [OF s]])
  have "p = 0" if "heap h p = Some u" "tx_subject u = Subject_credit ''key''" for p u
    by (rule fakebank_reserve_credited_once [OF sample_start _ _ st steps_refl that t]) (simp_all add: tx_defs)
  then show ?thesis using st t by (intro exI [of _ h]) (auto simp: tx_defs)
qed

text \<open>
  C12: when requests are handled one after the other, no withdrawal operation is ever both
  aborted and confirmed, and once an operation is confirmed or aborted it stays so, with the
  reserve key, the exchange and the amount that were selected.
\<close>

theorem fakebank_withdrawal_exclusive:
  assumes "TALER_FAKEBANK_start3 host prt cur limit bonus = Done (Some h0)" "limit \<noteq> 0" "representable bonus"
    and "run C h0 h1" "run C h1 h2" "wop h1 sh = Some wo"
  shows "\<not> (wo_aborted wo \<and> wo_confirmation_done wo)
       \<and> (\<exists>wo'. wop h2 sh = Some wo'
            \<and> (wo_aborted wo \<longrightarrow> wo_aborted wo' \<and> \<not> wo_confirmation_done wo')
            \<and> (wo_confirmation_done wo \<longrightarrow> wo_confirmation_done wo' \<and> \<not> wo_aborted wo')
            \<and> (wo_selection_done wo \<longrightarrow> wo_reserve_pub wo' = wo_reserve_pub wo
                 \<and> wo_exchange_account wo' = wo_exchange_account wo \<and> wo_amount wo' = wo_amount wo))"
proof -
  note s = start_inv [OF assms(1-3)]
  have o1: "orderly (hash_of C) h0 h1" by (rule run_orderly [OF assms(4) s(1)])
  then have inv1: "full_inv (hash_of C) h1" by (simp add: orderly_def advance_def)
  have o2: "orderly (hash_of C) h1 h2" by (rule run_orderly [OF assms(5) inv1])
  have none: "\<not> (wo_aborted w \<and> wo_confirmation_done w)" if "orderly (hash_of C) h0 h" "wop h sh = Some w" for h w
    using that s(2) by (auto simp: orderly_def tame_def)
  obtain wo' where wo': "wop h2 sh = Some wo'" "wo_le wo wo'"
    using o2 assms(6) unfolding orderly_def advance_def wops_le_def by blast
  have "\<not> (wo_aborted wo' \<and> wo_confirmation_done wo')"
    using none [OF orderly_trans [OF o1 o2] wo'(1)] .
  moreover have "wo_selection_done wo \<longrightarrow> wo_amount wo \<noteq> None"
    using wop_ok [OF inv1 assms(6)] by (auto simp: wo_ok_def)
  ultimately show ?thesis using none [OF o1 assms(6)] wo' by (auto simp: wo_le_def)
qed

text \<open>A run in which alice asks for a withdrawal and aborts it.\<close>

definition asked_bank :: fakebank where
  "asked_bank = alice_bank\<lparr>wops := Some [''w'' \<mapsto> new_wo ''alice'' None]\<rparr>"

lemma sample_withdraw_served:
  "do_post_account_withdrawals (\<lambda>s. s) (\<lambda>b. b) (\<lambda>_. ''w'') alice_bank ''alice'' None
   = Some (Done (Reply_withdraw_uri (''taler+http://withdraw/'' @ ''localhost'' @ '':'' @ decimal 8082
       @ ''/taler-integration/'' @ ''w'') ''w'', asked_bank))"
proof -
  have "wopid_loop Map.empty (\<lambda>_. ''w'') 0 = Some ''w''" by (subst wopid_loop.simps) simp
  then show ?thesis
    by (simp add: do_post_account_withdrawals_def lookup_None asked_bank_def Let_def)
      (simp add: alice_bank_def sample_bank_def)
qed

lemma asked_run: "run sample_crypto sample_bank asked_bank"
proof (rule run_step [OF sample_steps(2)])
  show "serve sample_crypto (Withdraw (\<lambda>_. ''w'') True ''alice'' (GNUNET_JSON_PR_SUCCESS (Some None))) alice_bank
      = Some (Done (Reply_withdraw_uri (''taler+http://withdraw/'' @ ''localhost'' @ '':'' @ decimal 8082
       @ ''/taler-integration/'' @ ''w'') ''w'', asked_bank))"
    using sample_withdraw_served
    by (simp add: TALER_FAKEBANK_bank_post_account_withdrawals_def optional_amount_field_def)
qed

theorem fakebank_withdrawal_exclusive_witness:
  "\<exists>h wo. run sample_crypto sample_bank h \<and> wop h ''w'' = Some wo \<and> wo_aborted wo \<and> \<not> wo_confirmation_done wo"
proof -
  have inv: "full_inv (\<lambda>s. s) asked_bank"
    using run_orderly [OF asked_run] sample_inv by (simp add: orderly_def advance_def)
  have wo: "wop asked_bank ''w'' = Some (new_wo ''alice'' None)" by (simp add: asked_bank_def wop_def)
  obtain h where h: "bank_withdrawals_abort (\<lambda>s. s) Some asked_bank ''alice'' ''w'' = Done (Reply_no_content, h)"
    "wop h ''w'' = Some ((new_wo ''alice'' None)\<lparr>wo_aborted := True\<rparr>)"
    using abort_runs [OF inv, of Some "''w''" "''w''" "new_wo ''alice'' None" "''alice''"] wo by (auto simp: new_wo_def)
  have "run sample_crypto asked_bank h"
  proof (rule run_step [OF run_refl])
    show "serve sample_crypto (Id_op 7 True ''alice'' ''w'' ''/abort'' None) asked_bank
        = Some (Done (Reply_no_content, h))"
      using h(1) by (simp add: TALER_FAKEBANK_bank_withdrawals_id_op_def)
  qed
  then have r: "run sample_crypto sample_bank h"
    by (rule run_trans [OF _ asked_run])
  show ?thesis
    using fakebank_withdrawal_exclusive [OF sample_start _ _ r run_refl h(2)] r h(2) by auto
qed

text \<open>
  C13: how a confirmation that has passed its check ends. In every reachable state, for an
  operation whose confirmation is between its two critical sections: it has an exchange and an
  amount, and the second section has exactly three outcomes. If the reserve key is free and the
  balances stay in range, the section is enabled, moves the amount and marks the operation
  confirmed. If the key has been used in the meantime, it ends with the conflict reply and
  moves nothing. If the key is free and a balance would leave its range, it aborts.
\<close>

theorem fakebank_confirm_completes:
  assumes "TALER_FAKEBANK_start3 host prt cur limit bonus = Done (Some h0)" "limit \<noteq> 0" "representable bonus"
    and "steps C (h0, []) (h, P)" "sh \<in> set P"
  shows "\<exists>wo ek amt. wop h sh = Some wo \<and> wo_exchange_account wo = Some ek \<and> wo_amount wo = Some amt
     \<and> (if rpubs h (wo_reserve_pub wo) \<noteq> None
         then \<exists>h'. confirm_transfer (hash_of C) now h sh
                = Done (Reply_error 409 TALER_EC_BANK_DUPLICATE_RESERVE_PUB_SUBJECT, h') \<and> ledger h' = ledger h
         else if move_ok (wo_debit_account wo) ek (units amt) (ledger h)
         then \<exists>h' wo'. confirm_transfer (hash_of C) now h sh = Done (Reply_no_content, h')
              \<and> step C (h, P) (h', remove1 sh P) \<and> wop h' sh = Some wo' \<and> wo_confirmation_done wo'
              \<and> ledger h' = move (wo_debit_account wo) ek (units amt) (ledger h)
         else confirm_transfer (hash_of C) now h sh = Abort)"
proof -
  note s = started_steps [OF assms(1-4)]
  obtain wo where wo: "wop h sh = Some wo" "wo_selection_done wo" using s(3) assms(5) by (auto simp: pending_ok_def)
  obtain ek amt where sel: "wo_exchange_account wo = Some ek" "wo_amount wo = Some amt"
    using wop_ok [OF s(1) wo(1)] wo(2) by (auto simp: wo_ok_def)
  show ?thesis
    using confirm_transfer_spec [OF s(1) wo(1) sel, of now] step_transfer [OF assms(5)] wo(1) sel
    by (intro exI [of _ wo] exI [of _ ek] exI [of _ amt]) (fastforce split: if_splits)
qed

text \<open>The run goes on: alice selects an exchange, and a confirmation passes its check.\<close>

definition selected_wo :: withdrawal_operation where
  "selected_wo = (new_wo ''alice'' None)\<lparr>wo_amount := Some (eur 500000000), wo_exchange_account := Some ''alice'',
     wo_reserve_pub := ''key'', wo_selection_done := True\<rparr>"

definition selected_bank :: fakebank where
  "selected_bank = set_wo asked_bank ''w'' selected_wo"

lemma sample_select_served:
  "serve sample_crypto (Select True ''w'' (GNUNET_JSON_PR_SUCCESS (Some \<lparr>pw_reserve_pub = ''key'',
      pw_selected_exchange = alice_uri, pw_amount = Some (amount_text EUR 500000000)\<rparr>))) asked_bank
   = Some (Done (Reply_status False ''selected'', selected_bank))"
proof -
  have field: "optional_amount_field asked_bank (Some (amount_text EUR 500000000)) = Some (Some (eur 500000000))"
    using sample_amount_field
    by (simp add: optional_amount_field_def amount_field_def asked_bank_def alice_bank_def)
  have lk: "TALER_FAKEBANK_lookup_withdrawal_operation Some asked_bank ''w'' = Some (''w'', new_wo ''alice'' None)"
    by (simp add: lookup_wop asked_bank_def wop_def)
  have st: "rpubs asked_bank = Map.empty" "accounts asked_bank ''alice'' \<noteq> None"
    by (simp_all add: asked_bank_def alice_bank_def)
  have wo: "wo_selection_done (new_wo ''alice'' None) = False" "wo_exchange_account (new_wo ''alice'' None) = None"
    "wo_amount (new_wo ''alice'' None) = None" "wo_aborted (new_wo ''alice'' None) = False"
    "wo_confirmation_done (new_wo ''alice'' None) = False" by (simp_all add: new_wo_def)
  show ?thesis
    using field lk st wo
    by (simp add: TALER_FAKEBANK_tbi_post_withdrawal_def on_upload_def alice_payto do_post_withdrawal_def
        lookup_None selected_bank_def selected_wo_def)
qed

lemma selected_facts:
  "full_inv (\<lambda>s. s) selected_bank" "wop selected_bank = [''w'' \<mapsto> selected_wo]" "rpubs selected_bank = Map.empty"
  "accounts selected_bank ''alice'' \<noteq> None" "move_ok ''alice'' ''alice'' 500000000 (ledger selected_bank)"
proof -
  have "run sample_crypto sample_bank selected_bank" by (rule run_step [OF asked_run sample_select_served])
  then show "full_inv (\<lambda>s. s) selected_bank"
    using run_orderly sample_inv by (fastforce simp: orderly_def advance_def)
  show "wop selected_bank = [''w'' \<mapsto> selected_wo]"
    by (simp add: selected_bank_def set_wo_def asked_bank_def wop_def fun_eq_iff)
  show "rpubs selected_bank = Map.empty" "accounts selected_bank ''alice'' \<noteq> None"
    by (simp_all add: selected_bank_def asked_bank_def alice_bank_def)
  have "ledger selected_bank ''alice'' = 100000000"
    by (simp add: selected_bank_def asked_bank_def alice_bank_def ledger_def new_account_def signed_balance_def)
  then show "move_ok ''alice'' ''alice'' 500000000 (ledger selected_bank)"
    by (simp add: move_ok_def amount_consts)
qed

lemma selected_steps: "steps sample_crypto (sample_bank, []) (selected_bank, [])"
  using run_steps [OF asked_run] steps_step step_serve [OF sample_select_served] by blast

lemma selected_wo_sel [simp]:
  "wo_debit_account selected_wo = ''alice''" "wo_exchange_account selected_wo = Some ''alice''"
  "wo_amount selected_wo = Some (eur 500000000)" "wo_reserve_pub selected_wo = ''key''"
  "\<not> wo_aborted selected_wo" "\<not> wo_confirmation_done selected_wo" "wo_selection_done selected_wo"
  by (simp_all add: selected_wo_def new_wo_def)

lemma checked_steps: "steps sample_crypto (sample_bank, []) (set_wo selected_bank ''w'' selected_wo, [''w''])"
proof (rule steps_step [OF selected_steps step_check])
  show "optional_amount_field selected_bank None = Some None" by (simp add: optional_amount_field_def)
  have same: "selected_wo\<lparr>wo_amount := Some (eur 500000000)\<rparr> = selected_wo" by (simp add: selected_wo_def)
  show "confirm_check (hash_of sample_crypto) (of_string sample_crypto) selected_bank ''alice'' ''w'' None
      = Done (Inr ''w'', set_wo selected_bank ''w'' selected_wo)"
    using confirm_check_runs [where hash = "\<lambda>s. s" and s2d = Some and account = "''alice''" and wid = "''w''"
        and h = selected_bank and wo = selected_wo and sh = "''w''" and ek = "''alice''" and amt = "eur 500000000",
        unfolded same] selected_facts by simp
qed

theorem fakebank_confirm_completes_witness:
  "\<exists>h wo. confirm_transfer (\<lambda>s. s) 7 (set_wo selected_bank ''w'' selected_wo) ''w'' = Done (Reply_no_content, h)
     \<and> wop h ''w'' = Some wo \<and> wo_confirmation_done wo"
proof -
  have "wop (set_wo selected_bank ''w'' selected_wo) ''w'' = Some selected_wo"
    using wop_set_wo [of selected_bank "''w''" selected_wo selected_wo] selected_facts(2) by simp
  then show ?thesis
    using fakebank_confirm_completes [OF sample_start _ _ checked_steps, of "''w''" 7] selected_facts(3,5)
    by auto
qed

text \<open>
  C14: with several threads, a withdrawal operation can end up both aborted and confirmed. From
  any state with a selected operation that is neither, the check of a confirmation, an abort
  that is answered with success, and the transfer of the confirmation are possible in this
  order; the money has then moved although the abort was acknowledged.
\<close>

theorem fakebank_confirm_abort_race:
  assumes "full_inv (hash_of C) h" "of_string C wid = Some sh" "wop h sh = Some wo"
    and "wo_debit_account wo = hash_of C account" "wo_exchange_account wo = Some ek" "wo_amount wo = Some amt"
    and "\<not> wo_aborted wo" "\<not> wo_confirmation_done wo" "rpubs h (wo_reserve_pub wo) = None"
    and "move_ok (wo_debit_account wo) ek (units amt) (ledger h)"
  shows "\<exists>h1 h2 h3 wo'. step C (h, P) (h1, sh # P)
     \<and> serve C (Id_op now q account wid ''/abort'' None) h1 = Some (Done (Reply_no_content, h2))
     \<and> step C (h1, sh # P) (h2, sh # P) \<and> step C (h2, sh # P) (h3, P)
     \<and> wop h3 sh = Some wo' \<and> wo_aborted wo' \<and> wo_confirmation_done wo'
     \<and> ledger h3 = move (wo_debit_account wo) ek (units amt) (ledger h)"
proof -
  let ?wo1 = "wo\<lparr>wo_amount := Some amt\<rparr>" and ?wo2 = "wo\<lparr>wo_aborted := True\<rparr>"
  let ?h1 = "set_wo h sh ?wo1"
  have same: "?wo1 = wo" using assms(6) by simp
  have ok: "wo_ok h wo" by (rule wop_ok [OF assms(1,3)])
  have acc: "accounts h (hash_of C account) \<noteq> None" using ok assms(4) by (simp add: wo_ok_def)
  have s1: "step C (h, P) (?h1, sh # P)"
    by (rule step_check [of h None None, OF _ confirm_check_runs [where hash = "hash_of C" and s2d = "of_string C"
            and account = account and wid = wid, OF acc assms(2-7)]])
      (simp add: optional_amount_field_def)
  have inv1: "full_inv (hash_of C) ?h1"
    using set_wo_advance [OF assms(1,3), of ?wo1] ok unfolding same by (simp add: advance_def wo_le_refl)
  have wop1: "wop ?h1 sh = Some wo" using wop_set_wo [OF assms(3), of ?wo1] same by simp
  obtain h2 where h2: "bank_withdrawals_abort (hash_of C) (of_string C) ?h1 account wid = Done (Reply_no_content, h2)"
    "advance (hash_of C) ?h1 h2" "wop h2 = (wop ?h1)(sh \<mapsto> ?wo2)" "ledger h2 = ledger ?h1" "rpubs h2 = rpubs ?h1"
    using abort_runs [where s2d = "of_string C" and wid = wid and account = account, OF inv1 assms(2) wop1 assms(4,8)]
    by blast
  have s2: "serve C (Id_op now q account wid ''/abort'' None) ?h1 = Some (Done (Reply_no_content, h2))"
    using h2(1) by (simp add: TALER_FAKEBANK_bank_withdrawals_id_op_def)
  have inv2: "full_inv (hash_of C) h2" and wop2: "wop h2 sh = Some ?wo2" using h2 by (simp_all add: advance_def)
  obtain h3 where h3: "confirm_transfer (hash_of C) now h2 sh = Done (Reply_no_content, h3)"
    "ledger h3 = move (wo_debit_account wo) ek (units amt) (ledger h2)"
    "wop h3 sh = Some (?wo2\<lparr>wo_row_id := serial_counter h2 + 1, wo_timestamp := now, wo_confirmation_done := True\<rparr>)"
    using confirm_transfer_spec [OF inv2 wop2, of ek amt now] assms(5,6,9,10) h2(4,5) by auto
  have "step C (h2, sh # P) (h3, P)" using step_transfer [of sh "sh # P" C now h2, OF _ h3(1)] by simp
  then show ?thesis
    using s1 s2 step_serve [OF s2, of "sh # P"] h3 h2(4) by (intro exI [of _ ?h1] exI [of _ h2] exI [of _ h3]) auto
qed

theorem fakebank_confirm_abort_race_witness:
  "\<exists>h3 wo. steps sample_crypto (sample_bank, []) (h3, []) \<and> wop h3 ''w'' = Some wo
     \<and> wo_aborted wo \<and> wo_confirmation_done wo"
proof -
  obtain h1 h2 h3 wo where r: "step sample_crypto (selected_bank, []) (h1, [''w''])"
    "step sample_crypto (h1, [''w'']) (h2, [''w''])" "step sample_crypto (h2, [''w'']) (h3, [])"
    "wop h3 ''w'' = Some wo" "wo_aborted wo" "wo_confirmation_done wo"
    using fakebank_confirm_abort_race [of sample_crypto selected_bank "''w''" "''w''" selected_wo "''alice''" "''alice''"
        "eur 500000000" "[]" 7 True] selected_facts by auto
  have "steps sample_crypto (sample_bank, []) (h3, [])"
    by (rule steps_step [OF steps_step [OF steps_step [OF selected_steps r(1)] r(2)] r(3)])
  then show ?thesis using r by blast
qed

section \<open>Creating and reading withdrawal operations\<close>

text \<open>
  C15: the loop that draws identifiers for a new withdrawal operation ends exactly when some
  drawn block is not in use; the request then stores a fresh operation under the first such block
  and leaves all others alone. If every block is in use the request never returns.
\<close>

theorem fakebank_withdrawal_id_loop:
  assumes "accounts h (hash name) \<noteq> None"
  shows "if \<exists>n. wop h (rnd n) = None
         then let w = rnd (LEAST n. wop h (rnd n) = None)
              in \<exists>uri h'. do_post_account_withdrawals hash d2s rnd h name amt = Some (Done (Reply_withdraw_uri uri w, h'))
                   \<and> wop h' = (wop h)(w \<mapsto> new_wo (hash name) amt)
         else do_post_account_withdrawals hash d2s rnd h name amt = None"
proof -
  define m where "m = (case wops h of None \<Rightarrow> Map.empty | Some m \<Rightarrow> m)"
  have m: "wop h = m" by (auto simp: m_def wop_def fun_eq_iff split: option.splits)
  show ?thesis
  proof (cases "\<exists>n. wop h (rnd n) = None")
    case True
    let ?n = "LEAST n. wop h (rnd n) = None"
    have "wop h (rnd ?n) = None" using True by (rule LeastI_ex)
    moreover have "\<forall>j<?n. wop h (rnd j) \<noteq> None" using not_less_Least by blast
    ultimately have "wopid_loop m rnd 0 = Some (rnd ?n)"
      using wopid_loop_returns [of m rnd 0 ?n] m by simp
    then show ?thesis
      using True assms by (simp add: do_post_account_withdrawals_def lookup_None m_def [symmetric] Let_def)
        (simp add: m [symmetric] wop_def fun_eq_iff)
  next
    case False
    then have "wopid_loop m rnd 0 = None" using m by (intro wopid_loop_diverges) simp
    then show ?thesis
      using False assms by (auto simp: do_post_account_withdrawals_def lookup_None m_def [symmetric] Let_def)
  qed
qed

theorem fakebank_withdrawal_id_loop_witness:
  "\<exists>uri h. do_post_account_withdrawals (\<lambda>s. s) (\<lambda>b. b) (\<lambda>_. ''v'') asked_bank ''alice'' None
     = Some (Done (Reply_withdraw_uri uri ''v'', h))"
proof -
  have "accounts asked_bank ''alice'' \<noteq> None" "wop asked_bank ''v'' = None"
    by (simp_all add: asked_bank_def alice_bank_def wop_def)
  then show ?thesis
    using fakebank_withdrawal_id_loop [of asked_bank "\<lambda>s. s" "''alice''" "\<lambda>_. ''v''" "\<lambda>b. b" None] by (auto simp: Let_def)
qed

text \<open>
  The status of a withdrawal operation for which no exchange was selected yet cannot be read:
  the request dereferences the missing account. This holds for every operation right after
  its creation.
\<close>

lemma fakebank_get_pending_aborts:
  assumes "do_post_account_withdrawals hash d2s rnd h name amt = Some (Done (Reply_withdraw_uri uri w, h'))"
    and "s2d wid = Some w"
  shows "TALER_FAKEBANK_bank_get_withdrawals s2d h' wid = Abort
       \<and> TALER_FAKEBANK_bank_account_withdrawals hash s2d h' name wid = Abort"
proof -
  have acc: "accounts h (hash name) \<noteq> None" "accounts h' = accounts h" "wop h' w = Some (new_wo (hash name) amt)"
    using assms(1) by (auto simp: do_post_account_withdrawals_def lookup_None Let_def wop_def split: if_splits)
  then have "TALER_FAKEBANK_lookup_withdrawal_operation s2d h' wid = Some (w, new_wo (hash name) amt)"
    using assms(2) by (simp add: lookup_wop)
  then show ?thesis
    using acc by (simp add: TALER_FAKEBANK_bank_get_withdrawals_def TALER_FAKEBANK_bank_account_withdrawals_def
        lookup_None withdrawal_reply_def new_wo_def)
qed

text \<open>
  An account that a transfer has opened cannot be registered afterwards: the request compares
  the password with a pointer that was never set.
\<close>

lemma fakebank_register_opened_aborts:
  assumes "bank_inv h" "amount_ok h amt" "accounts h (hash credit) = None"
    and "TALER_FAKEBANK_make_admin_transfer hash now h debit credit amt pub = Done ((GNUNET_OK, res), h')"
  shows "TALER_FAKEBANK_bank_testing_register hash q h'
           (GNUNET_JSON_PR_SUCCESS (Some \<lparr>rb_username = credit, rb_password = pw\<rparr>)) = Abort"
proof -
  have amt: "representable amt" "currency amt = cur_buf h" using assms(2) by (simp_all add: amount_ok_def)
  have "booked hash (credit_tx hash now debit credit amt pub) h h'"
    using admin_transfer_spec [OF assms(1) amt, of pub hash now debit credit] assms(4) by (auto split: if_splits)
  then have b: "named hash (accounts h) (accounts h')" "hash credit \<in> dom (accounts h')"
    by (simp_all add: booked_def tx_defs)
  then obtain a where a: "accounts h' (hash credit) = Some a" by blast
  have "stays hash (hash credit) (accounts h (hash credit)) (accounts h' (hash credit))"
    using b(1) by (simp add: named_def)
  then have "password a = None" using a assms(3) by simp
  then show ?thesis
    using a by (simp add: TALER_FAKEBANK_bank_testing_register_def on_upload_def lookup_None)
qed

end
