(* ===== verification/Fakebank_History.thy ===== *)
theory Fakebank_History
  imports Fakebank_Ledger
begin

text \<open>
  The histories that the fakebank reports: \<^verbatim>\<open>fakebank_twg_history.c\<close> (debits and credits of an account of the
  exchange), \<^verbatim>\<open>fakebank_tbr_get_history.c\<close> (credits of a merchant), \<^verbatim>\<open>fakebank_twg_get_transfers.c\<close> and the
  arguments they share (\<^verbatim>\<open>fakebank_common_parser.c\<close>), over the ledger. The three histories are the same
  request with other lists, accounts and entries. A request starts at a given row or at an end of
  the list of the account, reports up to a number of transactions in one of the two directions, and is
  suspended when there is nothing to report yet. Two loops follow pointers and may not end in a broken ledger:
  they are partial functions, whose result \<open>None\<close> is a loop that does not end.
\<close>

section \<open>Arguments\<close>

record history_args =
  ha_start_idx :: "64 word"
  ha_delta :: int
  ha_lp_timeout :: "64 word"
  ha_have_start :: bool

text \<open>
  \<^verbatim>\<open>sscanf (s, "%lld%c", ...)\<close> and \<^verbatim>\<open>sscanf (s, "%llu%c", ...)\<close> with one item: a number that ends the text.
  Numbers out of range are cut to the range, as by \<^verbatim>\<open>strtoll\<close> and \<^verbatim>\<open>strtoull\<close>; a sign before an unsigned
  number negates it.
\<close>

definition scan_number :: "string \<Rightarrow> (bool \<times> nat) option" where
  "scan_number s =
     (let b = dropWhile c_isspace s;
          ds = (if take 1 b = ''-'' \<or> take 1 b = ''+'' then drop 1 b else b)
      in if ds = [] \<or> \<not> list_all c_isdigit ds then None else Some (take 1 b = ''-'', digits_value ds))"

definition sscanf_lld :: "string \<Rightarrow> int option" where
  "sscanf_lld s = map_option (\<lambda>(neg, n). if neg then max (- (2 ^ 63)) (- int n) else min (2 ^ 63 - 1) (int n)) (scan_number s)"

definition sscanf_llu :: "string \<Rightarrow> 64 word option" where
  "sscanf_llu s =
     map_option (\<lambda>(neg, n). if 2 ^ 64 \<le> n then - 1 else if neg then - of_nat n else of_nat n) (scan_number s)"

text \<open>\<^verbatim>\<open>GNUNET_TIME_relative_multiply\<close> of one millisecond, which is forever on overflow.\<close>

definition milliseconds :: "64 word \<Rightarrow> 64 word" where
  "milliseconds n = (if 2 ^ 64 \<le> 1000 * unat n then - 1 else 1000 * n)"

text \<open>\<open>Inl\<close> names the argument that the reply complains about.\<close>

definition TALER_FAKEBANK_common_parse_history_args :: "(string \<Rightarrow> string option) \<Rightarrow> string + history_args" where
  "TALER_FAKEBANK_common_parse_history_args get =
     (case Option.bind (get ''delta'') sscanf_lld of
        None \<Rightarrow> Inl ''delta''
      | Some d \<Rightarrow>
          (case (case get ''long_poll_ms'' of None \<Rightarrow> Some 0 | Some s \<Rightarrow> sscanf_llu s) of
             None \<Rightarrow> Inl ''long_poll_ms''
           | Some lp \<Rightarrow>
               (case (case get ''start'' of None \<Rightarrow> Some (if 0 < d then 0 else - 1) | Some s \<Rightarrow> sscanf_llu s) of
                  None \<Rightarrow> Inl ''start''
                | Some start \<Rightarrow>
                    if d = 0 then Inl ''delta''
                    else Inr \<lparr>ha_start_idx = start, ha_delta = d, ha_lp_timeout = milliseconds lp,
                              ha_have_start = get ''start'' \<noteq> None\<rparr>)))"

section \<open>Following the lists\<close>

text \<open>\<^verbatim>\<open>next\<close> and \<^verbatim>\<open>prev\<close> of an element of a doubly linked list.\<close>

definition next_of :: "'a list \<Rightarrow> 'a \<Rightarrow> 'a option" where
  "next_of xs p = (case dropWhile (\<lambda>q. q \<noteq> p) xs of _ # q # _ \<Rightarrow> Some q | _ \<Rightarrow> None)"

definition in_step :: "fakebank \<Rightarrow> bool \<Rightarrow> tptr \<Rightarrow> tptr option outcome" where
  "in_step h back p =
     obind (deref (heap h) p)
       (\<lambda>t. obind (deref (accounts h) (credit_account t))
         (\<lambda>a. Done (next_of (if back then rev (in_list a) else in_list a) p)))"

definition out_step :: "fakebank \<Rightarrow> bool \<Rightarrow> tptr \<Rightarrow> tptr option outcome" where
  "out_step h back p =
     obind (deref (heap h) p)
       (\<lambda>t. obind (deref (accounts h) (debit_account t))
         (\<lambda>a. Done (next_of (if back then rev (out_list a) else out_list a) p)))"

definition first_of :: "'a list \<Rightarrow> 'a option" where
  "first_of xs = (case xs of [] \<Rightarrow> None | x # _ \<Rightarrow> Some x)"

section \<open>Entries\<close>

datatype history_entry =
    Entry_outgoing "64 word" "64 word" amount string string bytes
  | Entry_transfer "64 word" "64 word" amount string
  | Entry_reserve "64 word" "64 word" amount string bytes
  | Entry_kycauth "64 word" "64 word" amount string bytes
  | Entry_revenue "64 word" "64 word" amount string string

text \<open>\<open>None\<close> is an unexpected type of transaction, which is skipped. A WAD is such a type for each history.\<close>

definition credit_payto :: "account \<Rightarrow> string" where
  "credit_payto a = ''payto://x-taler-bank/localhost/'' @ account_name a @ ''?receiver-name='' @ receiver_name a"

definition debit_entry :: "fakebank \<Rightarrow> transaction \<Rightarrow> history_entry option outcome" where
  "debit_entry h t =
     (case tx_subject t of
        Subject_debit w url \<Rightarrow>
          obind (deref (accounts h) (credit_account t))
            (\<lambda>a. Done (Some (Entry_outgoing (row_id t) (tx_date t) (tx_amount t) (credit_payto a) url w)))
      | _ \<Rightarrow> Done None)"

definition transfer_entry :: "fakebank \<Rightarrow> transaction \<Rightarrow> history_entry option outcome" where
  "transfer_entry h t =
     (case tx_subject t of
        Subject_debit w url \<Rightarrow>
          obind (deref (accounts h) (credit_account t))
            (\<lambda>a. Done (Some (Entry_transfer (row_id t) (tx_date t) (tx_amount t) (credit_payto a))))
      | _ \<Rightarrow> Done None)"

definition credit_entry :: "fakebank \<Rightarrow> transaction \<Rightarrow> history_entry option outcome" where
  "credit_entry h t =
     (case tx_subject t of
        Subject_credit pub \<Rightarrow>
          obind (deref (accounts h) (debit_account t))
            (\<lambda>a. Done (Some (Entry_reserve (row_id t) (tx_date t) (tx_amount t) (payto_uri a) pub)))
      | Subject_auth pub \<Rightarrow>
          obind (deref (accounts h) (debit_account t))
            (\<lambda>a. Done (Some (Entry_kycauth (row_id t) (tx_date t) (tx_amount t) (payto_uri a) pub)))
      | _ \<Rightarrow> Done None)"

definition revenue_entry :: "(bytes \<Rightarrow> string) \<Rightarrow> fakebank \<Rightarrow> transaction \<Rightarrow> history_entry option outcome" where
  "revenue_entry data_to_string h t =
     (case tx_subject t of
        Subject_debit w url \<Rightarrow>
          obind (deref (accounts h) (debit_account t))
            (\<lambda>a. Done (Some (Entry_revenue (row_id t) (tx_date t) (tx_amount t) (payto_uri a)
                               (data_to_string w @ '' '' @ url))))
      | _ \<Rightarrow> Done None)"

section \<open>The loops\<close>

text \<open>
  The loop that reports: \<open>nxt\<close> is the step after a reported transaction, \<open>skp\<close> the one after a skipped one.
  Both go back when the number that is left is negative.
\<close>

partial_function (option) report_loop ::
  "fakebank \<Rightarrow> (fakebank \<Rightarrow> bool \<Rightarrow> tptr \<Rightarrow> tptr option outcome) \<Rightarrow> (fakebank \<Rightarrow> bool \<Rightarrow> tptr \<Rightarrow> tptr option outcome)
   \<Rightarrow> (fakebank \<Rightarrow> transaction \<Rightarrow> history_entry option outcome) \<Rightarrow> int \<Rightarrow> tptr option \<Rightarrow> history_entry list
   \<Rightarrow> (int \<times> history_entry list) outcome option" where
  "report_loop h nxt skp shw d pos acc =
     (case pos of
        None \<Rightarrow> Some (Done (d, acc))
      | Some p \<Rightarrow>
          if d = 0 then Some (Done (d, acc))
          else case obind (deref (heap h) p) (shw h) of
                 Abort \<Rightarrow> Some Abort
               | Done None \<Rightarrow>
                   (case skp h (d < 0) p of
                      Abort \<Rightarrow> Some Abort
                    | Done pos' \<Rightarrow> report_loop h nxt skp shw d pos' acc)
               | Done (Some e) \<Rightarrow>
                   (let d' = (if 0 < d then d - 1 else d + 1)
                    in if d' = 0 then Some (Done (d', acc @ [e]))
                       else (case nxt h (d' < 0) p of
                               Abort \<Rightarrow> Some Abort
                             | Done pos' \<Rightarrow> report_loop h nxt skp shw d' pos' (acc @ [e]))))"

definition ring_get :: "fakebank \<Rightarrow> 64 word \<Rightarrow> tptr option outcome" where
  "ring_get h row =
     gassert (ram_limit h \<noteq> 0 \<and> unat (row mod ram_limit h) < length (transactions h))
       (Done (transactions h ! unat (row mod ram_limit h)))"

text \<open>
  The scan of the ring buffer for a transaction of the account, from the one given as start. The result is the
  transaction, whether the start was met again, and whether the start itself is of the account.
\<close>

partial_function (option) scan_ring ::
  "fakebank \<Rightarrow> (transaction \<Rightarrow> bytes) \<Rightarrow> bytes \<Rightarrow> 64 word \<Rightarrow> 64 word \<Rightarrow> tptr option \<Rightarrow> bool \<Rightarrow> bool
   \<Rightarrow> (tptr option \<times> bool \<times> bool) outcome option" where
  "scan_ring h side acc start dir pos overflow skip =
     (case pos of
        None \<Rightarrow> Some (Done (None, overflow, skip))
      | Some p \<Rightarrow>
          if overflow then Some (Done (Some p, overflow, skip))
          else case deref (heap h) p of
                 Abort \<Rightarrow> Some Abort
               | Done t \<Rightarrow>
                   if side t = acc then Some (Done (Some p, overflow, skip))
                   else (case ring_get h (row_id t + dir) of
                           Abort \<Rightarrow> Some Abort
                         | Done None \<Rightarrow> Some (Done (None, overflow, False))
                         | Done (Some q) \<Rightarrow>
                             (case deref (heap h) q of
                                Abort \<Rightarrow> Some Abort
                              | Done t' \<Rightarrow> scan_ring h side acc start dir (Some q) (row_id t' = start) False)))"

section \<open>The requests\<close>

text \<open>
  What the three histories differ in: the list and the side of the account, the test of the start for
  \<^verbatim>\<open>NULL\<close> before it is read (missing for the debits), the steps, the entries and the kind of long poller.
\<close>

record history_kind =
  hk_list :: "account \<Rightarrow> tptr list"
  hk_side :: "transaction \<Rightarrow> bytes"
  hk_null_checked :: bool
  hk_next :: "fakebank \<Rightarrow> bool \<Rightarrow> tptr \<Rightarrow> tptr option outcome"
  hk_skip :: "fakebank \<Rightarrow> bool \<Rightarrow> tptr \<Rightarrow> tptr option outcome"
  hk_entry :: "fakebank \<Rightarrow> transaction \<Rightarrow> history_entry option outcome"
  hk_lp :: lp_type

definition debit_kind :: history_kind where
  "debit_kind = \<lparr>hk_list = out_list, hk_side = debit_account, hk_null_checked = False, hk_next = out_step,
     hk_skip = in_step, hk_entry = debit_entry, hk_lp = LP_DEBIT\<rparr>"

definition credit_kind :: history_kind where
  "credit_kind = \<lparr>hk_list = in_list, hk_side = credit_account, hk_null_checked = True, hk_next = in_step,
     hk_skip = in_step, hk_entry = credit_entry, hk_lp = LP_CREDIT\<rparr>"

definition revenue_kind :: "(bytes \<Rightarrow> string) \<Rightarrow> history_kind" where
  "revenue_kind data_to_string = \<lparr>hk_list = in_list, hk_side = credit_account, hk_null_checked = True, hk_next = in_step,
     hk_skip = in_step, hk_entry = revenue_entry data_to_string, hk_lp = LP_CREDIT\<rparr>"

text \<open>Where a history begins: at a transaction or the end of a list, or nowhere, with the flag \<^verbatim>\<open>overflow\<close>.\<close>

datatype history_start = From "tptr option" | Missing bool

definition list_start :: "history_kind \<Rightarrow> account \<Rightarrow> int \<Rightarrow> tptr option" where
  "list_start K a d = first_of (if d < 0 then rev (hk_list K a) else hk_list K a)"

definition row_scan ::
  "history_kind \<Rightarrow> fakebank \<Rightarrow> bytes \<Rightarrow> 64 word \<Rightarrow> int \<Rightarrow> (tptr option \<times> bool \<times> bool) outcome option" where
  "row_scan K h acc start d =
     (case ring_get h start of
        Abort \<Rightarrow> Some Abort
      | Done pos \<Rightarrow>
          (case (case pos of
                   None \<Rightarrow> if hk_null_checked K then Done False else Abort
                 | Some p \<Rightarrow> obind (deref (heap h) p) (\<lambda>t. Done (row_id t \<noteq> start))) of
             Abort \<Rightarrow> Some Abort
           | Done overflow \<Rightarrow>
               scan_ring h (hk_side K) acc start (if d < 0 then ram_limit h - 1 else 1) pos overflow True))"

text \<open>The range excludes the start itself.\<close>

definition after_start :: "history_kind \<Rightarrow> fakebank \<Rightarrow> int \<Rightarrow> bool \<Rightarrow> tptr \<Rightarrow> history_start outcome" where
  "after_start K h d skip p =
     (if skip then obind (hk_next K h (d < 0) p) (\<lambda>q. Done (From q)) else Done (From (Some p)))"

definition row_start :: "history_kind \<Rightarrow> fakebank \<Rightarrow> bytes \<Rightarrow> 64 word \<Rightarrow> int \<Rightarrow> history_start outcome option" where
  "row_start K h acc start d =
     (case row_scan K h acc start d of
        None \<Rightarrow> None
      | Some Abort \<Rightarrow> Some Abort
      | Some (Done (None, overflow, skip)) \<Rightarrow> Some (Done (Missing overflow))
      | Some (Done (Some p, overflow, skip)) \<Rightarrow>
          Some (if overflow then Done (Missing True) else after_start K h d skip p))"

text \<open>The list of transfers does not look at the flag, but at the account of the transaction.\<close>

definition transfers_start :: "history_kind \<Rightarrow> fakebank \<Rightarrow> bytes \<Rightarrow> 64 word \<Rightarrow> int \<Rightarrow> history_start outcome option" where
  "transfers_start K h acc start d =
     (case row_scan K h acc start d of
        None \<Rightarrow> None
      | Some Abort \<Rightarrow> Some Abort
      | Some (Done (None, overflow, skip)) \<Rightarrow> Some (Done (Missing overflow))
      | Some (Done (Some p, overflow, skip)) \<Rightarrow>
          Some (obind (deref (heap h) p)
            (\<lambda>t. if hk_side K t \<noteq> acc then Done (Missing overflow) else after_start K h d skip p)))"

record history_context =
  hc_timeout :: nat
  hc_args :: history_args
  hc_acc :: bytes

datatype history_reply =
    History_malformed string
  | History_unknown_account
  | History_gone
  | History_closed
  | History_suspended history_context
  | History_no_content
  | History_list string "history_entry list"

text \<open>\<^verbatim>\<open>TALER_FAKEBANK_start_lp_\<close>: the heap of timeouts and its timer are left out.\<close>

definition TALER_FAKEBANK_start_lp :: "nat \<Rightarrow> lp_type \<Rightarrow> bytes \<Rightarrow> fakebank \<Rightarrow> fakebank outcome" where
  "TALER_FAKEBANK_start_lp conn kind acc h =
     with_account acc (\<lambda>a. Done (a\<lparr>lp_list := \<lparr>lp_kind = kind, lp_wo = None, lp_conn = conn\<rparr> # lp_list a\<rparr>)) h"

definition history_suspend :: "history_kind \<Rightarrow> nat \<Rightarrow> fakebank \<Rightarrow> history_context \<Rightarrow> (history_reply \<times> fakebank) outcome" where
  "history_suspend K conn h hc =
     obind (TALER_FAKEBANK_start_lp conn (hk_lp K) (hc_acc hc) h) (\<lambda>h'. Done (History_suspended hc, h'))"

text \<open>The part of the handler after the arguments, which a resumed request enters again.\<close>

definition history_continue ::
  "history_kind \<Rightarrow> bool \<Rightarrow> nat \<Rightarrow> nat \<Rightarrow> fakebank \<Rightarrow> history_context \<Rightarrow> (history_reply \<times> fakebank) outcome option" where
  "history_continue K in_shutdown now conn h hc =
     (let ha = hc_args hc
      in case deref (accounts h) (hc_acc hc) of
           Abort \<Rightarrow> Some Abort
         | Done a \<Rightarrow>
             (case (if \<not> ha_have_start ha then Some (Done (From (list_start K a (ha_delta ha))))
                    else row_start K h (hc_acc hc) (ha_start_idx ha) (ha_delta ha)) of
                None \<Rightarrow> None
              | Some Abort \<Rightarrow> Some Abort
              | Some (Done (Missing overflow)) \<Rightarrow>
                  Some (if ha_lp_timeout ha = 0 \<and> 0 < ha_delta ha
                        then Done (if overflow then History_gone else History_no_content, h)
                        else if in_shutdown then Done (History_no_content, h)
                        else history_suspend K conn h hc)
              | Some (Done (From pos)) \<Rightarrow>
                  (case report_loop h (hk_next K) (hk_skip K) (hk_entry K) (ha_delta ha) pos [] of
                     None \<Rightarrow> None
                   | Some Abort \<Rightarrow> Some Abort
                   | Some (Done (d, es)) \<Rightarrow>
                       Some (if es = [] \<and> \<not> in_shutdown \<and> now < hc_timeout hc \<and> 0 < d
                             then history_suspend K conn h hc
                             else if es = [] then Done (History_no_content, h)
                             else Done (History_list (payto_uri a) es, h)))))"

definition history_request ::
  "history_kind \<Rightarrow> (string \<Rightarrow> bytes) \<Rightarrow> (string \<Rightarrow> string option) \<Rightarrow> bool \<Rightarrow> nat \<Rightarrow> nat \<Rightarrow> fakebank \<Rightarrow> string
   \<Rightarrow> (history_reply \<times> fakebank) outcome option" where
  "history_request K hash get in_shutdown now conn h account =
     (case TALER_FAKEBANK_common_parse_history_args get of
        Inl name \<Rightarrow> Some (Done (History_malformed name, h))
      | Inr ha \<Rightarrow>
          let ha' = ha\<lparr>ha_start_idx := (if ha_start_idx ha = - 1 then serial_counter h else ha_start_idx ha)\<rparr>
          in case TALER_FAKEBANK_lookup_account hash h account None of
               Abort \<Rightarrow> Some Abort
             | Done (None, h1) \<Rightarrow> Some (Done (History_unknown_account, h1))
             | Done (Some k, h1) \<Rightarrow>
                 history_continue K in_shutdown now conn h1
                   \<lparr>hc_timeout = min (now + unat (ha_lp_timeout ha)) (2 ^ 64 - 1), hc_args = ha', hc_acc = k\<rparr>)"

definition TALER_FAKEBANK_twg_get_debit_history ::
  "(string \<Rightarrow> bytes) \<Rightarrow> (string \<Rightarrow> string option) \<Rightarrow> bool \<Rightarrow> nat \<Rightarrow> nat \<Rightarrow> fakebank \<Rightarrow> string
   \<Rightarrow> (history_reply \<times> fakebank) outcome option" where
  "TALER_FAKEBANK_twg_get_debit_history = history_request debit_kind"

definition TALER_FAKEBANK_twg_get_credit_history ::
  "(string \<Rightarrow> bytes) \<Rightarrow> (string \<Rightarrow> string option) \<Rightarrow> bool \<Rightarrow> nat \<Rightarrow> nat \<Rightarrow> fakebank \<Rightarrow> string
   \<Rightarrow> (history_reply \<times> fakebank) outcome option" where
  "TALER_FAKEBANK_twg_get_credit_history = history_request credit_kind"

definition TALER_FAKEBANK_tbr_get_history ::
  "(bytes \<Rightarrow> string) \<Rightarrow> (string \<Rightarrow> bytes) \<Rightarrow> (string \<Rightarrow> string option) \<Rightarrow> bool \<Rightarrow> nat \<Rightarrow> nat \<Rightarrow> fakebank \<Rightarrow> string
   \<Rightarrow> (history_reply \<times> fakebank) outcome option" where
  "TALER_FAKEBANK_tbr_get_history data_to_string = history_request (revenue_kind data_to_string)"

text \<open>
  The list of transfers is a debit history without long polling. \<open>limit\<close> and \<open>offset\<close> are the numbers that
  were parsed from the request, when they are given.
\<close>

definition TALER_FAKEBANK_twg_get_transfers ::
  "(string \<Rightarrow> bytes) \<Rightarrow> int option \<Rightarrow> 64 word option \<Rightarrow> string option \<Rightarrow> fakebank \<Rightarrow> string
   \<Rightarrow> (history_reply \<times> fakebank) outcome option" where
  "TALER_FAKEBANK_twg_get_transfers hash limit_arg offset_arg status h account =
     (let limit = (case limit_arg of None \<Rightarrow> -20 | Some l \<Rightarrow> l);
          offset = (case offset_arg of None \<Rightarrow> if 0 < limit then 0 else - 1 | Some x \<Rightarrow> x);
          start = (if offset = - 1 then serial_counter h else offset);
          K = debit_kind\<lparr>hk_entry := transfer_entry\<rparr>
      in if (case status of None \<Rightarrow> False | Some s \<Rightarrow> \<not> strcaseeq s ''success'') then Some (Done (History_no_content, h))
         else case TALER_FAKEBANK_lookup_account hash h account None of
                Abort \<Rightarrow> Some Abort
              | Done (None, h1) \<Rightarrow> Some (Done (History_unknown_account, h1))
              | Done (Some k, h1) \<Rightarrow>
                  (case deref (accounts h1) k of
                     Abort \<Rightarrow> Some Abort
                   | Done a \<Rightarrow>
                       (case (if offset = 0 \<or> offset = - 1 then Some (Done (From (list_start K a limit)))
                              else transfers_start K h1 k start limit) of
                          None \<Rightarrow> None
                        | Some Abort \<Rightarrow> Some Abort
                        | Some (Done (Missing overflow)) \<Rightarrow> Some (Done (History_closed, h1))
                        | Some (Done (From pos)) \<Rightarrow>
                            (case report_loop h1 (hk_next K) (hk_skip K) (hk_entry K) limit pos [] of
                               None \<Rightarrow> None
                             | Some Abort \<Rightarrow> Some Abort
                             | Some (Done (d, es)) \<Rightarrow>
                                 Some (Done (if es = [] then History_no_content else History_list (payto_uri a) es, h1))))))"

section \<open>What the loop reports\<close>

definition visible :: "fakebank \<Rightarrow> (fakebank \<Rightarrow> transaction \<Rightarrow> history_entry option outcome) \<Rightarrow> tptr \<Rightarrow> history_entry option" where
  "visible h shw p = (case obind (deref (heap h) p) (shw h) of Done (Some e) \<Rightarrow> Some e | _ \<Rightarrow> None)"

definition report :: "fakebank \<Rightarrow> (fakebank \<Rightarrow> transaction \<Rightarrow> history_entry option outcome) \<Rightarrow> tptr list \<Rightarrow> history_entry list" where
  "report h shw ps = List.map_filter (visible h shw) ps"

lemma next_of_append: "p \<notin> set pre \<Longrightarrow> next_of (pre @ p # xs) p = first_of xs"
proof -
  assume "p \<notin> set pre"
  then have "dropWhile (\<lambda>q. q \<noteq> p) (pre @ p # xs) = p # xs"
    by (subst dropWhile_append2) auto
  then show ?thesis by (cases xs) (simp_all add: next_of_def first_of_def)
qed

lemma report_simps [simp]:
  "report h shw [] = []"
  "report h shw (p # ps) = (case visible h shw p of None \<Rightarrow> report h shw ps | Some e \<Rightarrow> e # report h shw ps)"
  by (simp_all add: report_def List.map_filter_def split: option.split)

text \<open>A walk along a list in one direction, over transactions of the store that have entries or are skipped.\<close>

definition walk_ok ::
  "fakebank \<Rightarrow> (fakebank \<Rightarrow> bool \<Rightarrow> tptr \<Rightarrow> tptr option outcome) \<Rightarrow> (fakebank \<Rightarrow> bool \<Rightarrow> tptr \<Rightarrow> tptr option outcome)
   \<Rightarrow> (fakebank \<Rightarrow> transaction \<Rightarrow> history_entry option outcome) \<Rightarrow> bool \<Rightarrow> tptr list \<Rightarrow> bool" where
  "walk_ok h nxt skp shw back L \<longleftrightarrow> distinct L
     \<and> (\<forall>p\<in>set L. nxt h back p = Done (next_of L p) \<and> obind (deref (heap h) p) (shw h) \<noteq> Abort
          \<and> (visible h shw p = None \<longrightarrow> skp h back p = Done (next_of L p)))"

definition left_over :: "int \<Rightarrow> nat \<Rightarrow> int" where
  "left_over d n = (if 0 < d then d - int n else d + int n)"

lemma report_loop_exact:
  assumes "walk_ok h nxt skp shw back (pre @ xs)" "d \<noteq> 0" "back = (d < 0)"
  shows "report_loop h nxt skp shw d (first_of xs) acc
     = Some (Done (left_over d (length (take (nat \<bar>d\<bar>) (report h shw xs))), acc @ take (nat \<bar>d\<bar>) (report h shw xs)))"
  using assms
proof (induction xs arbitrary: pre d acc)
  case Nil
  then show ?case by (subst report_loop.simps) (simp add: first_of_def left_over_def)
next
  case (Cons p xs)
  have p: "p \<in> set (pre @ p # xs)" "next_of (pre @ p # xs) p = first_of xs"
    using Cons.prems(1) by (auto simp: walk_ok_def next_of_append)
  note ok = Cons.prems(1)[unfolded walk_ok_def, THEN conjunct2, rule_format, OF p(1), unfolded p(2)]
  have rest: "walk_ok h nxt skp shw back ((pre @ [p]) @ xs)" using Cons.prems(1) by simp
  have first: "first_of (p # xs) = Some p" by (simp add: first_of_def)
  show ?case
  proof (cases "visible h shw p")
    case None
    with ok have "obind (deref (heap h) p) (shw h) = Done None" "skp h (d < 0) p = Done (first_of xs)"
      using Cons.prems(3) by (auto simp: visible_def split: outcome.splits option.splits)
    with Cons.IH[OF rest Cons.prems(2,3)] None Cons.prems(2) show ?thesis
      unfolding first by (subst report_loop.simps) (simp del: deref.simps)
  next
    case (Some e)
    then have e: "obind (deref (heap h) p) (shw h) = Done (Some e)"
      by (auto simp: visible_def split: outcome.splits option.splits)
    define d' where "d' = (if 0 < d then d - 1 else d + 1)"
    have n: "nat \<bar>d\<bar> = Suc (nat \<bar>d'\<bar>)" using Cons.prems(2) by (auto simp: d'_def)
    show ?thesis
    proof (cases "d' = 0")
      case True
      with e Some n Cons.prems(2) show ?thesis
        unfolding first by (subst report_loop.simps) (auto simp: Let_def d'_def left_over_def simp del: deref.simps)
    next
      case False
      then have way: "back = (d' < 0)" using Cons.prems(3) by (auto simp: d'_def)
      have "left_over d (Suc m) = left_over d' m" for m
        using False Cons.prems(2) by (auto simp: left_over_def d'_def)
      moreover have "nxt h (d' < 0) p = Done (first_of xs)" using ok way by simp
      ultimately show ?thesis
        using Cons.IH[OF rest False way, of "acc @ [e]"] e Some n False Cons.prems(2)
        unfolding first by (subst report_loop.simps) (simp add: Let_def d'_def[symmetric] del: deref.simps)
    qed
  qed
qed

section \<open>A history as the specification of its list\<close>

definition directed :: "history_kind \<Rightarrow> account \<Rightarrow> int \<Rightarrow> tptr list" where
  "directed K a d = (if d < 0 then rev (hk_list K a) else hk_list K a)"

definition start_ptr :: "fakebank \<Rightarrow> history_args \<Rightarrow> tptr option" where
  "start_ptr h ha = (case ring_get h (ha_start_idx ha) of Done (Some p) \<Rightarrow> Some p | _ \<Rightarrow> None)"

text \<open>The start is the row of a transaction of the account that is still in the ring buffer.\<close>

definition own_start :: "history_kind \<Rightarrow> fakebank \<Rightarrow> bytes \<Rightarrow> history_args \<Rightarrow> bool" where
  "own_start K h k ha \<longleftrightarrow> (\<exists>p t. ring_get h (ha_start_idx ha) = Done (Some p) \<and> heap h p = Some t
     \<and> row_id t = ha_start_idx ha \<and> hk_side K t = k)"

definition history_spec :: "history_kind \<Rightarrow> fakebank \<Rightarrow> account \<Rightarrow> history_args \<Rightarrow> history_entry list" where
  "history_spec K h a ha =
     take (nat \<bar>ha_delta ha\<bar>) (report h (hk_entry K)
       (if ha_have_start ha then drop 1 (dropWhile (\<lambda>q. Some q \<noteq> start_ptr h ha) (directed K a (ha_delta ha)))
        else directed K a (ha_delta ha)))"

definition history_outcome ::
  "history_kind \<Rightarrow> bool \<Rightarrow> nat \<Rightarrow> nat \<Rightarrow> fakebank \<Rightarrow> account \<Rightarrow> history_context \<Rightarrow> (history_reply \<times> fakebank) outcome" where
  "history_outcome K in_shutdown now conn h a hc =
     (let es = history_spec K h a (hc_args hc)
      in if es \<noteq> [] then Done (History_list (payto_uri a) es, h)
         else if \<not> in_shutdown \<and> now < hc_timeout hc \<and> 0 < ha_delta (hc_args hc) then history_suspend K conn h hc
         else Done (History_no_content, h))"

text \<open>
  What a kind of history relies on: in a bank that satisfies the invariant its steps walk along the list of an
  account that is fit for it, and the list holds the transactions of its side.
\<close>

locale history_source =
  fixes K :: history_kind and fit :: "fakebank \<Rightarrow> account \<Rightarrow> bool"
  assumes walk: "\<lbrakk>bank_inv h; accounts h k = Some a; fit h a\<rbrakk>
      \<Longrightarrow> walk_ok h (hk_next K) (hk_skip K) (hk_entry K) (d < 0) (directed K a d)"
    and member: "\<lbrakk>bank_inv h; accounts h k = Some a; heap h p = Some t; hk_side K t = k\<rbrakk> \<Longrightarrow> p \<in> set (hk_list K a)"
begin

lemma loop:
  assumes "bank_inv h" "accounts h k = Some a" "fit h a" "directed K a d = pre @ xs" "d \<noteq> 0"
  shows "report_loop h (hk_next K) (hk_skip K) (hk_entry K) d (first_of xs) []
     = Some (Done (left_over d (length (take (nat \<bar>d\<bar>) (report h (hk_entry K) xs))), take (nat \<bar>d\<bar>) (report h (hk_entry K) xs)))"
  using report_loop_exact[OF walk[OF assms(1-3), of d, unfolded assms(4)] assms(5) refl, of "[]"] by simp

lemma own_row_start:
  assumes "bank_inv h" "accounts h k = Some a" "fit h a" "own_start K h k ha"
  shows "\<exists>pre xs. directed K a d = pre @ xs \<and> xs = drop 1 (dropWhile (\<lambda>q. Some q \<noteq> start_ptr h ha) (directed K a d))
     \<and> row_start K h k (ha_start_idx ha) d = Some (Done (From (first_of xs)))"
proof -
  from assms(4) obtain p t where p: "ring_get h (ha_start_idx ha) = Done (Some p)" "heap h p = Some t"
      "row_id t = ha_start_idx ha" "hk_side K t = k" unfolding own_start_def by auto
  have start: "start_ptr h ha = Some p" by (simp add: start_ptr_def p(1))
  have "p \<in> set (directed K a d)" using member[OF assms(1,2) p(2,4)] by (simp add: directed_def)
  then obtain pre xs where split: "directed K a d = pre @ p # xs" "p \<notin> set pre"
    by (meson split_list_first)
  have "hk_next K h (d < 0) p = Done (first_of xs)"
    using walk[OF assms(1-3), of d] split by (simp add: walk_ok_def next_of_append)
  moreover have "dropWhile (\<lambda>q. Some q \<noteq> start_ptr h ha) (directed K a d) = p # xs"
    unfolding split start using split(2) by (subst dropWhile_append2) auto
  moreover have "scan_ring h (hk_side K) k start dir (Some p) False True = Some (Done (Some p, False, True))" for start dir
    by (subst scan_ring.simps) (simp add: p)
  then have "row_scan K h k (ha_start_idx ha) d = Some (Done (Some p, False, True))"
    by (simp add: row_scan_def p)
  ultimately show ?thesis
    by (intro exI[of _ "pre @ [p]"] exI[of _ xs]) (simp add: split row_start_def after_start_def)
qed

lemma continue_exact:
  assumes "bank_inv h" "accounts h (hc_acc hc) = Some a" "fit h a" "ha_delta (hc_args hc) \<noteq> 0"
    and "ha_have_start (hc_args hc) \<longrightarrow> own_start K h (hc_acc hc) (hc_args hc)"
  shows "history_continue K in_shutdown now conn h hc = Some (history_outcome K in_shutdown now conn h a hc)"
proof -
  let ?ha = "hc_args hc" and ?d = "ha_delta (hc_args hc)"
  have "\<exists>pre xs. directed K a ?d = pre @ xs
      \<and> (if \<not> ha_have_start ?ha then Some (Done (From (list_start K a ?d)))
         else row_start K h (hc_acc hc) (ha_start_idx ?ha) ?d) = Some (Done (From (first_of xs)))
      \<and> history_spec K h a ?ha = take (nat \<bar>?d\<bar>) (report h (hk_entry K) xs)"
  proof (cases "ha_have_start ?ha")
    case True
    with own_row_start[OF assms(1-3), of ?ha ?d] assms(5) show ?thesis
      by (auto simp: history_spec_def)
  next
    case False
    then show ?thesis
      by (intro exI[of _ "[]"] exI[of _ "directed K a ?d"]) (simp add: list_start_def directed_def history_spec_def)
  qed
  then obtain pre xs where xs: "directed K a ?d = pre @ xs"
      "(if \<not> ha_have_start ?ha then Some (Done (From (list_start K a ?d)))
         else row_start K h (hc_acc hc) (ha_start_idx ?ha) ?d) = Some (Done (From (first_of xs)))"
      "history_spec K h a ?ha = take (nat \<bar>?d\<bar>) (report h (hk_entry K) xs)" by blast
  have "left_over ?d (length ([] :: history_entry list)) = ?d" by (simp add: left_over_def)
  with xs loop[OF assms(1-3) xs(1) assms(4)] show ?thesis
    by (auto simp: history_continue_def history_outcome_def assms(2) Let_def)
qed

end

lemma list_members:
  assumes "bank_inv h" "accounts h k = Some a"
  shows "p \<in> set (in_list a) \<longleftrightarrow> (\<exists>t. heap h p = Some t \<and> credit_account t = k)"
    and "p \<in> set (out_list a) \<longleftrightarrow> (\<exists>t. heap h p = Some t \<and> debit_account t = k)"
    and "distinct (in_list a)" "distinct (out_list a)"
  using assms unfolding bank_inv_def lists_inv_def by auto

lemma entry_not_Abort:
  assumes "bank_inv h" "heap h p = Some t"
  shows "credit_entry h t \<noteq> Abort" "debit_entry h t \<noteq> Abort" "revenue_entry f h t \<noteq> Abort"
proof -
  obtain d c where "accounts h (debit_account t) = Some d" "accounts h (credit_account t) = Some c"
    using assms unfolding bank_inv_def lists_inv_def by fastforce
  then show "credit_entry h t \<noteq> Abort" "debit_entry h t \<noteq> Abort" "revenue_entry f h t \<noteq> Abort"
    by (simp_all add: credit_entry_def debit_entry_def revenue_entry_def split: subject.split)
qed

lemma in_step_walk:
  assumes "bank_inv h" "accounts h k = Some a" "p \<in> set (in_list a)"
  shows "in_step h back p = Done (next_of (if back then rev (in_list a) else in_list a) p)"
  using assms(2,3) by (auto simp: in_step_def list_members[OF assms(1,2)])

lemma out_step_walk:
  assumes "bank_inv h" "accounts h k = Some a" "p \<in> set (out_list a)"
  shows "out_step h back p = Done (next_of (if back then rev (out_list a) else out_list a) p)"
  using assms(2,3) by (auto simp: out_step_def list_members[OF assms(1,2)])

text \<open>Incoming histories fit every account, the outgoing one an account that pays by transfers only.\<close>

definition only_transfers :: "fakebank \<Rightarrow> account \<Rightarrow> bool" where
  "only_transfers h a \<longleftrightarrow> list_all (\<lambda>p. \<forall>t. heap h p = Some t \<longrightarrow> is_debit t) (out_list a)"

interpretation credit: history_source credit_kind "\<lambda>_ _. True"
proof
  fix h k a d
  assume inv: "bank_inv h" and acc: "accounts h k = Some a"
  note lists = list_members[OF inv acc]
  show "walk_ok h (hk_next credit_kind) (hk_skip credit_kind) (hk_entry credit_kind) (d < 0) (directed credit_kind a d)"
    using in_step_walk[OF inv acc] lists(1,3) entry_not_Abort(1)[OF inv]
    by (auto simp: walk_ok_def credit_kind_def directed_def)
qed (auto simp: credit_kind_def list_members)

interpretation revenue: history_source "revenue_kind f" "\<lambda>_ _. True" for f
proof
  fix h k a d
  assume inv: "bank_inv h" and acc: "accounts h k = Some a"
  note lists = list_members[OF inv acc]
  show "walk_ok h (hk_next (revenue_kind f)) (hk_skip (revenue_kind f)) (hk_entry (revenue_kind f)) (d < 0)
      (directed (revenue_kind f) a d)"
    using in_step_walk[OF inv acc] lists(1,3) entry_not_Abort(3)[OF inv]
    by (auto simp: walk_ok_def revenue_kind_def directed_def)
qed (auto simp: revenue_kind_def list_members)

lemma debit_visible:
  "\<lbrakk>bank_inv h; heap h p = Some t; is_debit t\<rbrakk> \<Longrightarrow> visible h debit_entry p \<noteq> None"
  using entry_not_Abort(2)[of h p t]
  by (cases "tx_subject t") (auto simp: visible_def debit_entry_def is_debit_def split: option.splits)

interpretation debit: history_source debit_kind only_transfers
proof
  fix h k a d
  assume inv: "bank_inv h" and acc: "accounts h k = Some a" and only: "only_transfers h a"
  note lists = list_members[OF inv acc]
  have "visible h debit_entry p \<noteq> None \<and> obind (deref (heap h) p) (debit_entry h) \<noteq> Abort"
    if p: "p \<in> set (out_list a)" for p
  proof -
    obtain t where t: "heap h p = Some t" using p lists(2) by auto
    with only p have "is_debit t" by (simp add: only_transfers_def list_all_iff)
    with t show ?thesis using debit_visible[OF inv] entry_not_Abort(2)[OF inv t] by simp
  qed
  then show "walk_ok h (hk_next debit_kind) (hk_skip debit_kind) (hk_entry debit_kind) (d < 0) (directed debit_kind a d)"
    using out_step_walk[OF inv acc] lists(4) by (fastforce simp: walk_ok_def debit_kind_def directed_def simp del: deref.simps)
qed (auto simp: debit_kind_def list_members)

section \<open>Properties\<close>

lemma parse_delta: "TALER_FAKEBANK_common_parse_history_args get = Inr ha \<Longrightarrow> ha_delta ha \<noteq> 0"
  by (auto simp: TALER_FAKEBANK_common_parse_history_args_def split: option.splits if_splits)

text \<open>The context of a new request.\<close>

definition new_context :: "(string \<Rightarrow> bytes) \<Rightarrow> fakebank \<Rightarrow> nat \<Rightarrow> string \<Rightarrow> history_args \<Rightarrow> history_context" where
  "new_context hash h now account ha =
     \<lparr>hc_timeout = min (now + unat (ha_lp_timeout ha)) (2 ^ 64 - 1),
      hc_args = ha\<lparr>ha_start_idx := (if ha_start_idx ha = - 1 then serial_counter h else ha_start_idx ha)\<rparr>,
      hc_acc = hash account\<rparr>"

lemma history_request_known:
  assumes "TALER_FAKEBANK_common_parse_history_args get = Inr ha" "accounts h (hash account) = Some a"
  shows "history_request K hash get in_shutdown now conn h account
       = history_continue K in_shutdown now conn h (new_context hash h now account ha)"
  using assms by (simp add: history_request_def TALER_FAKEBANK_lookup_account_def new_context_def Let_def)

text \<open>
  C32: histories report what the lists hold. In a bank that satisfies the invariant, for a known account and a
  start that is absent or the row of a transaction of the account, the credit and the revenue history
  return, report in order the first transactions of the list of the account after the start, in the
  direction and up to the number that the request gives, leaving out the types they do not report,
  and leave the bank as it is. With nothing to report they suspend the request if it may wait and asks for newer
  transactions, and answer that there is no content otherwise. So does the debit history of an account whose
  outgoing transactions are all transfers.
\<close>

theorem fakebank_history_exact:
  assumes "bank_inv h" "accounts h (hash account) = Some a" "TALER_FAKEBANK_common_parse_history_args get = Inr ha"
    and "hc = new_context hash h now account ha"
  shows "((ha_have_start ha \<longrightarrow> own_start credit_kind h (hash account) (hc_args hc)) \<longrightarrow>
           TALER_FAKEBANK_twg_get_credit_history hash get in_shutdown now conn h account
             = Some (history_outcome credit_kind in_shutdown now conn h a hc)
           \<and> TALER_FAKEBANK_tbr_get_history f hash get in_shutdown now conn h account
             = Some (history_outcome (revenue_kind f) in_shutdown now conn h a hc))
     \<and> (only_transfers h a \<longrightarrow> (ha_have_start ha \<longrightarrow> own_start debit_kind h (hash account) (hc_args hc)) \<longrightarrow>
           TALER_FAKEBANK_twg_get_debit_history hash get in_shutdown now conn h account
             = Some (history_outcome debit_kind in_shutdown now conn h a hc))"
proof -
  have acc: "accounts h (hc_acc hc) = Some a" and d: "ha_delta (hc_args hc) \<noteq> 0"
    and start: "ha_have_start (hc_args hc) = ha_have_start ha" "hc_acc hc = hash account"
    using assms(2,4) parse_delta[OF assms(3)] by (simp_all add: new_context_def)
  have side: "own_start (revenue_kind f) = own_start credit_kind"
    by (simp add: fun_eq_iff own_start_def revenue_kind_def credit_kind_def)
  show ?thesis
    unfolding TALER_FAKEBANK_twg_get_credit_history_def TALER_FAKEBANK_tbr_get_history_def
      TALER_FAKEBANK_twg_get_debit_history_def history_request_known[where hash = hash, OF assms(3,2)] assms(4)[symmetric]
    using credit.continue_exact[OF assms(1) acc _ d] revenue.continue_exact[OF assms(1) acc _ d]
      debit.continue_exact[OF assms(1) acc _ d] start side by simp
qed

section \<open>A bank with a full ring buffer\<close>

text \<open>Two transactions in a ring buffer of two: row 1 credits a reserve of A, row 2 is paid by A to B.\<close>

definition ring_account :: "string \<Rightarrow> tptr list \<Rightarrow> tptr list \<Rightarrow> account" where
  "ring_account name ins outs =
     \<lparr>in_list = ins, out_list = outs, lp_list = [], account_name = name, receiver_name = name,
      payto_uri = ''payto://x-taler-bank/localhost/'' @ name, password = None, balance = eur 0, is_negative = False\<rparr>"

definition ring_credit :: transaction where
  "ring_credit = \<lparr>tx_amount = eur 5, debit_account = ''B'', credit_account = ''A'', request_uid = [], tx_date = 7, row_id = 1,
     tx_subject = Subject_credit ''r'', tx_unchecked = True\<rparr>"

definition ring_auth :: transaction where
  "ring_auth = \<lparr>tx_amount = eur 5, debit_account = ''A'', credit_account = ''B'', request_uid = [], tx_date = 8, row_id = 2,
     tx_subject = Subject_auth ''k'', tx_unchecked = True\<rparr>"

definition ring_bank :: fakebank where
  "ring_bank =
     \<lparr>transactions = [Some 1, Some 0], heap = [0 \<mapsto> ring_credit, 1 \<mapsto> ring_auth], next_ptr = 2, rpubs = [''r'' \<mapsto> 0],
      wops = None, accounts = [''A'' \<mapsto> ring_account ''A'' [0] [1], ''B'' \<mapsto> ring_account ''B'' [1] [0]],
      uuid_map = Map.empty, signup_bonus = eur 0, serial_counter = 2, ram_limit = 2, bank_currency = ''EUR'',
      hostname = ''localhost'', port = 80, resumed = []\<rparr>"

lemma ring_bank_amount: "n \<le> 5 \<Longrightarrow> representable (eur n) \<and> currency (eur n) = cur_buf ring_bank"
proof -
  assume "n \<le> 5"
  then have "n \<le> max_units" by (simp add: amount_consts)
  then show ?thesis by (simp add: ring_bank_def cur_buf_def EUR_def)
qed

lemma ring_bank_inv: "bank_inv ring_bank"
proof -
  note [simp] = ring_bank_def ring_account_def ring_credit_def ring_auth_def
  note amt = ring_bank_amount[of 0] ring_bank_amount[of 5]
  have "config_inv ring_bank"
    using amt legal_EUR by (simp add: config_inv_def cur_buf_def EUR_def amount_consts cstr_def zero_padded_def)
  moreover have "accounts_inv ring_bank"
    using amt by (auto simp: accounts_inv_def good_account_def split: if_splits)
  moreover have "(2 :: nat) mod Suc (Suc 0) = 0" by (simp add: numeral_2_eq_2)
  then have "ring_inv ring_bank"
    by (auto simp: ring_inv_def less_Suc_eq split: if_splits)
  moreover have "lists_inv ring_bank"
    using amt by (auto simp: lists_inv_def split: if_splits)
  moreover have "uuid_inv ring_bank"
    by (auto simp: uuid_inv_def is_debit_def)
  ultimately show ?thesis by (simp add: bank_inv_def)
qed

abbreviation ring_query :: "string \<Rightarrow> string \<Rightarrow> string \<Rightarrow> string option" where
  "ring_query start count \<equiv> [''start'' \<mapsto> start, ''delta'' \<mapsto> count]"

lemma ring_query_parsed:
  "TALER_FAKEBANK_common_parse_history_args (ring_query ''0'' ''1'')
     = Inr \<lparr>ha_start_idx = 0, ha_delta = 1, ha_lp_timeout = 0, ha_have_start = True\<rparr>"
  "TALER_FAKEBANK_common_parse_history_args (ring_query ''2'' ''1'')
     = Inr \<lparr>ha_start_idx = 2, ha_delta = 1, ha_lp_timeout = 0, ha_have_start = True\<rparr>"
  "TALER_FAKEBANK_common_parse_history_args [''delta'' \<mapsto> ''1'']
     = Inr \<lparr>ha_start_idx = 0, ha_delta = 1, ha_lp_timeout = 0, ha_have_start = False\<rparr>"
  by (simp_all add: TALER_FAKEBANK_common_parse_history_args_def sscanf_lld_def sscanf_llu_def scan_number_def
      Let_def c_isspace_def c_isdigit_def digits_value_def digit_val_def milliseconds_def)

theorem fakebank_history_exact_witness:
  "TALER_FAKEBANK_twg_get_credit_history (\<lambda>s. s) [''delta'' \<mapsto> ''1''] False 0 0 ring_bank ''A''
     = Some (Done (History_list ''payto://x-taler-bank/localhost/A''
         [Entry_reserve 1 7 (eur 5) ''payto://x-taler-bank/localhost/B'' ''r''], ring_bank))"
proof -
  have acc: "accounts ring_bank ((\<lambda>s. s) ''A'') = Some (ring_account ''A'' [0] [1])"
    by (simp add: ring_bank_def)
  have "history_spec credit_kind ring_bank (ring_account ''A'' [0] [1])
      \<lparr>ha_start_idx = 0, ha_delta = 1, ha_lp_timeout = 0, ha_have_start = False\<rparr>
      = [Entry_reserve 1 7 (eur 5) ''payto://x-taler-bank/localhost/B'' ''r'']"
    by (simp add: history_spec_def directed_def credit_kind_def visible_def credit_entry_def
        ring_bank_def ring_account_def ring_credit_def)
  then show ?thesis
    using fakebank_history_exact[where hash = "\<lambda>s. s" and account = "''A''",
        OF ring_bank_inv acc ring_query_parsed(3) refl, of 0 False 0]
    by (simp add: history_outcome_def new_context_def Let_def ring_account_def)
qed

text \<open>
  A credit history from a row that is not there yet is suspended again whenever it is resumed, whatever the
  time: a request that waits, or asks for older transactions, is not answered when its timeout is over.
\<close>

lemma credit_poll_not_answered:
  assumes "accounts h (hc_acc hc) = Some a" "ha_have_start (hc_args hc)"
    and "ring_get h (ha_start_idx (hc_args hc)) = Done None"
    and "ha_lp_timeout (hc_args hc) \<noteq> 0 \<or> ha_delta (hc_args hc) < 0"
  shows "history_continue credit_kind False now conn h hc = Some (history_suspend credit_kind conn h hc)"
proof -
  have "scan_ring h side k start dir None False True = Some (Done (None, False, True))" for side k start dir
    by (subst scan_ring.simps) simp
  with assms show ?thesis
    by (auto simp: history_continue_def row_start_def row_scan_def Let_def credit_kind_def)
qed

text \<open>
  C33: a debit history that starts at a row the ring buffer has no entry for, such as row 0 in a bank that
  has not filled its buffer yet, makes the bank read a NULL pointer, whatever timeout and direction are asked for.
  The credit history does not: a request for newer transactions without a timeout is answered that there is no content; any other
  is suspended, unless the bank is shutting down.
\<close>

theorem fakebank_debit_history_crash:
  assumes "TALER_FAKEBANK_common_parse_history_args get = Inr ha" "accounts h (hash account) = Some a"
    and "ha_have_start ha" "ha_start_idx ha \<noteq> - 1" "ring_get h (ha_start_idx ha) = Done None"
  shows "TALER_FAKEBANK_twg_get_debit_history hash get in_shutdown now conn h account = Some Abort
     \<and> (ha_lp_timeout ha = 0 \<and> 0 < ha_delta ha
        \<longrightarrow> TALER_FAKEBANK_twg_get_credit_history hash get in_shutdown now conn h account = Some (Done (History_no_content, h)))
     \<and> (ha_lp_timeout ha \<noteq> 0 \<or> ha_delta ha < 0
        \<longrightarrow> TALER_FAKEBANK_twg_get_credit_history hash get False now conn h account
            = Some (history_suspend credit_kind conn h (new_context hash h now account ha)))"
proof -
  have scan: "scan_ring h side k start dir None False True = Some (Done (None, False, True))" for side k start dir
    by (subst scan_ring.simps) simp
  note known = history_request_known[where hash = hash, OF assms(1,2)]
  note simps = known history_continue_def new_context_def Let_def row_start_def row_scan_def
  have "TALER_FAKEBANK_twg_get_debit_history hash get in_shutdown now conn h account = Some Abort"
    using assms by (simp add: TALER_FAKEBANK_twg_get_debit_history_def simps scan debit_kind_def)
  moreover have "TALER_FAKEBANK_twg_get_credit_history hash get in_shutdown now conn h account
      = Some (Done (History_no_content, h))" if "ha_lp_timeout ha = 0" "0 < ha_delta ha"
    using assms that by (simp add: TALER_FAKEBANK_twg_get_credit_history_def simps scan credit_kind_def)
  moreover have "TALER_FAKEBANK_twg_get_credit_history hash get False now conn h account
      = Some (history_suspend credit_kind conn h (new_context hash h now account ha))"
    if "ha_lp_timeout ha \<noteq> 0 \<or> ha_delta ha < 0"
    using credit_poll_not_answered[of h "new_context hash h now account ha" a now conn] assms(2-5) that
    by (simp add: TALER_FAKEBANK_twg_get_credit_history_def known) (simp add: new_context_def)
  ultimately show ?thesis by blast
qed

theorem fakebank_debit_history_crash_witness:
  "TALER_FAKEBANK_twg_get_debit_history (\<lambda>s. s) (ring_query ''0'' ''1'') False 0 0
     (ring_bank\<lparr>transactions := [None, Some 0], serial_counter := 1\<rparr>) ''A'' = Some Abort"
  using fakebank_debit_history_crash[where hash = "\<lambda>s. s" and account = "''A''" and a = "ring_account ''A'' [0] [1]",
      OF ring_query_parsed(1), of "ring_bank\<lparr>transactions := [None, Some 0], serial_counter := 1\<rparr>"]
  by (simp add: ring_bank_def ring_get_def gassert_def)

text \<open>
  C34: the scan for a transaction of the account runs around the ring buffer. When the start is of another account and
  the slot after it holds an old transaction of the account, a request for one newer transaction is answered
  with the old one.
\<close>

theorem fakebank_credit_history_wraps:
  assumes "TALER_FAKEBANK_common_parse_history_args get = Inr ha" "accounts h (hash account) = Some a"
    and "ha_have_start ha" "ha_start_idx ha \<noteq> - 1" "ha_delta ha = 1"
    and "ring_get h (ha_start_idx ha) = Done (Some q)" "heap h q = Some tq" "row_id tq = ha_start_idx ha"
    and "credit_account tq \<noteq> hash account"
    and "ring_get h (ha_start_idx ha + 1) = Done (Some p)" "heap h p = Some tp" "row_id tp < ha_start_idx ha"
    and "credit_account tp = hash account" "visible h credit_entry p = Some e"
  shows "TALER_FAKEBANK_twg_get_credit_history hash get in_shutdown now conn h account
       = Some (Done (History_list (payto_uri a) [e], h))"
proof -
  let ?start = "ha_start_idx ha" and ?k = "hash account"
  have "scan_ring h credit_account ?k ?start 1 (Some p) False False = Some (Done (Some p, False, False))"
    by (subst scan_ring.simps) (simp add: assms)
  moreover have "(row_id tp = ?start) = False" using assms(12) by simp
  ultimately have scan: "scan_ring h credit_account ?k ?start 1 (Some q) False True = Some (Done (Some p, False, False))"
    using assms by (subst scan_ring.simps) simp
  have "obind (deref (heap h) p) (credit_entry h) = Done (Some e)"
    using assms(14) by (auto simp: visible_def split: outcome.splits option.splits)
  then have loop: "report_loop h in_step in_step credit_entry 1 (Some p) [] = Some (Done (0, [e]))"
    by (subst report_loop.simps) (simp del: deref.simps)
  show ?thesis
    using assms scan loop
    by (simp add: TALER_FAKEBANK_twg_get_credit_history_def history_request_known[where hash = hash, OF assms(1,2)]
        history_continue_def new_context_def Let_def row_start_def row_scan_def after_start_def credit_kind_def)
qed

theorem fakebank_credit_history_wraps_witness:
  "TALER_FAKEBANK_twg_get_credit_history (\<lambda>s. s) (ring_query ''2'' ''1'') False 0 0 ring_bank ''A''
     = Some (Done (History_list ''payto://x-taler-bank/localhost/A''
         [Entry_reserve 1 7 (eur 5) ''payto://x-taler-bank/localhost/B'' ''r''], ring_bank))"
  using fakebank_credit_history_wraps[where hash = "\<lambda>s. s" and account = "''A''" and a = "ring_account ''A'' [0] [1]"
      and q = 1 and tq = ring_auth and p = 0 and tp = ring_credit, OF ring_query_parsed(2), of ring_bank]
  by (simp add: ring_bank_def ring_get_def gassert_def ring_auth_def ring_credit_def ring_account_def visible_def
      credit_entry_def)

end
