(* ===== verification/Fakebank_Checks.thy ===== *)
theory Fakebank_Checks
  imports Fakebank_History
begin

text \<open>
  The checks that tests make of the ledger (\<^verbatim>\<open>fakebank_api_check.c\<close>), and the requests for the status of one
  transfer (\<^verbatim>\<open>fakebank_twg_get_transfers_id.c\<close>) and of a withdrawal operation
  (\<^verbatim>\<open>fakebank_tbi_get_withdrawal_operation.c\<close>). A check takes the newest transaction that matches and was not
  taken by an earlier check. The messages to the log are left out.
\<close>

section \<open>Checks\<close>

text \<open>The loop from the tail of a list to the first transaction that matches, which is marked as checked.\<close>

fun take_match :: "fakebank \<Rightarrow> (transaction \<Rightarrow> bool outcome) \<Rightarrow> tptr list \<Rightarrow> (transaction option \<times> fakebank) outcome" where
  "take_match h m [] = Done (None, h)"
| "take_match h m (p # ps) =
     obind (deref (heap h) p)
       (\<lambda>t. obind (m t)
         (\<lambda>b. if b then Done (Some t, h\<lparr>heap := (heap h)(p \<mapsto> t\<lparr>tx_unchecked := False\<rparr>)\<rparr>) else take_match h m ps))"

text \<open>The conjunctions are evaluated from left to right; amounts are compared only if the rest before agrees.\<close>

definition debit_match :: "bytes \<Rightarrow> amount \<Rightarrow> string \<Rightarrow> transaction \<Rightarrow> bool outcome" where
  "debit_match credit_acc want_amount url t =
     (if tx_unchecked t \<and> credit_acc = credit_account t
      then case tx_subject t of
             Subject_debit w u \<Rightarrow>
               obind (TALER_amount_cmp want_amount (tx_amount t)) (\<lambda>c. Done (c = 0 \<and> strcaseeq url u))
           | _ \<Rightarrow> Done False
      else Done False)"

definition credit_match :: "bytes \<Rightarrow> amount \<Rightarrow> bytes \<Rightarrow> transaction \<Rightarrow> bool outcome" where
  "credit_match debit_acc want_amount reserve_pub t =
     (if tx_unchecked t \<and> debit_acc = debit_account t
      then case tx_subject t of
             Subject_credit pub \<Rightarrow>
               obind (TALER_amount_cmp want_amount (tx_amount t)) (\<lambda>c. Done (c = 0 \<and> reserve_pub = pub))
           | _ \<Rightarrow> Done False
      else Done False)"

definition TALER_FAKEBANK_check_debit ::
  "(string \<Rightarrow> bytes) \<Rightarrow> fakebank \<Rightarrow> amount \<Rightarrow> string \<Rightarrow> string \<Rightarrow> string \<Rightarrow> ((generic_return \<times> bytes option) \<times> fakebank) outcome" where
  "TALER_FAKEBANK_check_debit hash h want_amount want_debit want_credit url =
     gassert (strcaseeq (cstr (currency want_amount)) (bank_currency h))
       (case (accounts h (hash want_debit), accounts h (hash want_credit)) of
          (Some d, Some c) \<Rightarrow>
            obind (take_match h (debit_match (hash want_credit) want_amount url) (rev (out_list d)))
              (\<lambda>(t, h'). Done (case t of
                 None \<Rightarrow> (GNUNET_SYSERR, None)
               | Some t \<Rightarrow> (GNUNET_OK, Some (wtid (tx_subject t))), h'))
        | _ \<Rightarrow> Done ((GNUNET_SYSERR, None), h))"

definition TALER_FAKEBANK_check_credit ::
  "(string \<Rightarrow> bytes) \<Rightarrow> fakebank \<Rightarrow> amount \<Rightarrow> string \<Rightarrow> string \<Rightarrow> bytes \<Rightarrow> (generic_return \<times> fakebank) outcome" where
  "TALER_FAKEBANK_check_credit hash h want_amount want_debit want_credit reserve_pub =
     gassert (strcaseeq (cstr (currency want_amount)) (bank_currency h))
       (case (accounts h (hash want_debit), accounts h (hash want_credit)) of
          (Some d, Some c) \<Rightarrow>
            obind (take_match h (credit_match (hash want_debit) want_amount reserve_pub) (rev (in_list c)))
              (\<lambda>(t, h'). Done (if t = None then GNUNET_SYSERR else GNUNET_OK, h'))
        | _ \<Rightarrow> Done (GNUNET_SYSERR, h))"

fun slots_empty :: "fakebank \<Rightarrow> tptr option list \<Rightarrow> generic_return outcome" where
  "slots_empty h [] = Done GNUNET_OK"
| "slots_empty h (None # ps) = slots_empty h ps"
| "slots_empty h (Some p # ps) =
     obind (deref (heap h) p)
       (\<lambda>t. if tx_unchecked t \<and> subject_type (tx_subject t) \<noteq> T_AUTH then Done GNUNET_SYSERR else slots_empty h ps)"

definition TALER_FAKEBANK_check_empty :: "fakebank \<Rightarrow> generic_return outcome" where
  "TALER_FAKEBANK_check_empty h = slots_empty h (transactions h)"

section \<open>Status of a transfer and of a withdrawal operation\<close>

datatype transfer_status =
    Transfer_malformed
  | Transfer_unknown_account
  | Transfer_closed
  | Transfer_status bytes string "64 word" amount string

text \<open>
  The subject is read as that of a transfer, whatever it is: \<open>raw\<close> is what the memory of another subject reads as.
\<close>

definition TALER_FAKEBANK_twg_get_transfers_id ::
  "(subject \<Rightarrow> bytes \<times> string) \<Rightarrow> (string \<Rightarrow> bytes) \<Rightarrow> fakebank \<Rightarrow> string \<Rightarrow> string \<Rightarrow> transfer_status outcome" where
  "TALER_FAKEBANK_twg_get_transfers_id raw hash h account ident =
     (case sscanf_llu ident of
        None \<Rightarrow> Done Transfer_malformed
      | Some row \<Rightarrow>
          (case accounts h (hash account) of
             None \<Rightarrow> Done Transfer_unknown_account
           | Some acc \<Rightarrow>
               obind (ring_get h row)
                 (\<lambda>slot. case slot of
                    None \<Rightarrow> Abort
                  | Some p \<Rightarrow>
                      obind (deref (heap h) p)
                        (\<lambda>t. if debit_account t \<noteq> hash account then Done Transfer_closed
                             else obind (deref (accounts h) (credit_account t))
                               (\<lambda>c. let (w, url) = (case tx_subject t of Subject_debit w u \<Rightarrow> (w, u) | s \<Rightarrow> raw s)
                                    in Done (Transfer_status w url (tx_date t) (tx_amount t) (credit_payto c)))))))"

record withdrawal_status =
  ws_aborted :: bool
  ws_selection_done :: bool
  ws_transfer_done :: bool
  ws_status :: string
  ws_sender_wire :: string
  ws_amount :: "amount option"

datatype withdrawal_reply =
    Withdrawal_not_found
  | Withdrawal_status withdrawal_status
  | Withdrawal_suspended bytes nat

text \<open>
  \<open>resumed_at\<close> is the context of a request that was suspended: the operation and its timeout. The base URL of the
  suggested exchange and the wire types are constants of the bank and left out.
\<close>

definition TALER_FAKEBANK_tbi_get_withdrawal_operation ::
  "(string \<Rightarrow> bytes option) \<Rightarrow> bool \<Rightarrow> nat \<Rightarrow> nat \<Rightarrow> nat \<Rightarrow> fakebank \<Rightarrow> string \<Rightarrow> (bytes \<times> nat) option
   \<Rightarrow> (withdrawal_reply \<times> fakebank) outcome" where
  "TALER_FAKEBANK_tbi_get_withdrawal_operation string_to_data in_shutdown now lp conn h wopid resumed_at =
     (case (case resumed_at of
              Some ctx \<Rightarrow> Some ctx
            | None \<Rightarrow> map_option (\<lambda>(sh, wo). (sh, min (now + lp) (2 ^ 64 - 1)))
                        (TALER_FAKEBANK_lookup_withdrawal_operation string_to_data h wopid)) of
        None \<Rightarrow> Done (Withdrawal_not_found, h)
      | Some (sh, timeout) \<Rightarrow>
          (case Option.bind (wops h) (\<lambda>m. m sh) of
             None \<Rightarrow> Abort
           | Some wo \<Rightarrow>
               obind (deref (accounts h) (wo_debit_account wo))
                 (\<lambda>a. if timeout < now \<or> in_shutdown \<or> wo_confirmation_done wo \<or> wo_aborted wo
                      then Done (Withdrawal_status
                             \<lparr>ws_aborted = wo_aborted wo, ws_selection_done = wo_selection_done wo,
                              ws_transfer_done = wo_confirmation_done wo,
                              ws_status = (if wo_aborted wo then ''aborted'' else if wo_confirmation_done wo then ''confirmed''
                                           else if wo_selection_done wo then ''selected'' else ''pending''),
                              ws_sender_wire = payto_uri a, ws_amount = wo_amount wo\<rparr>, h)
                      else Done (Withdrawal_suspended sh timeout,
                             h\<lparr>accounts := (accounts h)(wo_debit_account wo \<mapsto>
                               a\<lparr>lp_list := \<lparr>lp_kind = LP_WITHDRAW, lp_wo = Some sh, lp_conn = conn\<rparr> # lp_list a\<rparr>)\<rparr>))))"

section \<open>What the checks take\<close>

definition matching :: "fakebank \<Rightarrow> (transaction \<Rightarrow> bool outcome) \<Rightarrow> tptr list \<Rightarrow> tptr list" where
  "matching h m ps = filter (\<lambda>p. obind (deref (heap h) p) m = Done True) ps"

definition checked :: "fakebank \<Rightarrow> tptr \<Rightarrow> fakebank" where
  "checked h p = h\<lparr>heap := (heap h)(p := map_option (\<lambda>t. t\<lparr>tx_unchecked := False\<rparr>) (heap h p))\<rparr>"

lemma take_match_first:
  assumes "\<forall>p\<in>set ps. obind (deref (heap h) p) m \<noteq> Abort"
  shows "take_match h m ps = Done (case matching h m ps of [] \<Rightarrow> (None, h) | p # _ \<Rightarrow> (heap h p, checked h p))"
  using assms
proof (induction ps)
  case (Cons p ps)
  then obtain t b where t: "heap h p = Some t" "m t = Done b"
    by (cases "heap h p"; cases "obind (deref (heap h) p) m") auto
  with Cons show ?case by (cases b) (simp_all add: matching_def checked_def)
qed (simp add: matching_def)

lemma matching_checked:
  assumes "distinct ps" "matching h m ps = p # qs" "\<And>t. m t = Done True \<Longrightarrow> tx_unchecked t"
  shows "matching (checked h p) m ps = qs"
proof -
  have "distinct (matching h m ps)" using assms(1) by (simp add: matching_def)
  then have p: "p \<notin> set qs" using assms(2) by simp
  have "matching (checked h p) m ps = filter (\<lambda>q. q \<noteq> p) (matching h m ps)"
    unfolding matching_def filter_filter
    by (rule filter_cong) (auto simp: checked_def split: option.split dest!: assms(3))
  with assms(2) p show ?thesis by (simp add: filter_id)
qed

lemma bank_inv_checked:
  assumes "bank_inv h"
  shows "bank_inv (checked h p)"
proof (cases "heap h p")
  case (Some t)
  then have get: "heap (checked h p) q = (if q = p then Some (t\<lparr>tx_unchecked := False\<rparr>) else heap h q)" for q
    by (simp add: checked_def)
  have same: "transactions (checked h p) = transactions h" "accounts (checked h p) = accounts h"
      "next_ptr (checked h p) = next_ptr h" "uuid_map (checked h p) = uuid_map h"
      "config_inv (checked h p) = config_inv h" "accounts_inv (checked h p) = accounts_inv h"
      "cur_buf (checked h p) = cur_buf h"
    by (simp_all add: checked_def config_inv_def accounts_inv_def cur_buf_def)
  have keep: "(\<exists>t'. heap (checked h p) q = Some t' \<and> P t') = (\<exists>t'. heap h q = Some t' \<and> P t')"
    if "\<And>t'. P (t'\<lparr>tx_unchecked := False\<rparr>) = P t'" for q P
    using that Some by (auto simp: get)
  have all: "(\<forall>t'. heap (checked h p) q = Some t' \<longrightarrow> P t') = (\<forall>t'. heap h q = Some t' \<longrightarrow> P t')"
    if "\<And>t'. P (t'\<lparr>tx_unchecked := False\<rparr>) = P t'" for q P
    using that Some by (auto simp: get)
  have none: "heap (checked h p) q = None \<longleftrightarrow> heap h q = None" for q
    using Some by (simp add: get)
  have some: "(\<exists>t'. heap (checked h p) q = Some t') = (\<exists>t'. heap h q = Some t')" for q
    using Some by (simp add: get)
  have "ring_inv (checked h p)"
    using assms unfolding bank_inv_def ring_inv_def by (simp add: same keep none some)
  moreover have "lists_inv (checked h p)"
    using assms unfolding bank_inv_def lists_inv_def by (simp add: same keep all)
  moreover have "uuid_inv (checked h p)"
    using assms unfolding bank_inv_def uuid_inv_def by (simp add: same keep is_debit_def)
  ultimately show ?thesis using assms by (simp add: bank_inv_def same)
qed (simp add: assms checked_def fun_upd_idem)

text \<open>The transactions that a check may still take, newest first.\<close>

definition credit_matches :: "fakebank \<Rightarrow> amount \<Rightarrow> bytes \<Rightarrow> bytes \<Rightarrow> bytes \<Rightarrow> tptr list" where
  "credit_matches h want_amount d c reserve_pub =
     (case accounts h c of None \<Rightarrow> [] | Some a \<Rightarrow> matching h (credit_match d want_amount reserve_pub) (rev (in_list a)))"

lemma credit_match_facts:
  assumes "bank_inv h" "heap h p = Some t" "representable amt" "currency amt = cur_buf h"
  shows "credit_match d amt pub t \<noteq> Abort"
    and "credit_match d amt pub t = Done True \<longleftrightarrow>
           tx_unchecked t \<and> debit_account t = d \<and> tx_subject t = Subject_credit pub \<and> units (tx_amount t) = units amt"
proof -
  have "representable (tx_amount t)" "currency (tx_amount t) = cur_buf h"
    using assms(1,2) unfolding bank_inv_def lists_inv_def by blast+
  then have "TALER_amount_cmp amt (tx_amount t) = Done (sgn (int (units amt) - int (units (tx_amount t))))"
    using assms(3,4) by (auto simp: cmp_representable)
  then show "credit_match d amt pub t \<noteq> Abort"
    and "credit_match d amt pub t = Done True \<longleftrightarrow>
           tx_unchecked t \<and> debit_account t = d \<and> tx_subject t = Subject_credit pub \<and> units (tx_amount t) = units amt"
    by (auto simp: credit_match_def sgn_0_0 split: subject.split)
qed

lemma check_credit_exact:
  assumes "bank_inv h" "representable amt" "currency amt = cur_buf h"
    and "accounts h (hash debit) \<noteq> None" "accounts h (hash credit) \<noteq> None"
  shows "TALER_FAKEBANK_check_credit hash h amt debit credit pub =
     (case credit_matches h amt (hash debit) (hash credit) pub of
        [] \<Rightarrow> Done (GNUNET_SYSERR, h)
      | p # _ \<Rightarrow> Done (GNUNET_OK, checked h p))"
proof -
  obtain d c where acc: "accounts h (hash debit) = Some d" "accounts h (hash credit) = Some c"
    using assms(4,5) by auto
  have cur: "strcaseeq (cstr (currency amt)) (bank_currency h)"
    using assms(1,3) by (simp add: bank_inv_def config_inv_def)
  let ?m = "credit_match (hash debit) amt pub" and ?ps = "rev (in_list c)"
  have heap: "heap h p \<noteq> None" if "p \<in> set ?ps" for p
    using that list_members(1)[OF assms(1) acc(2)] by auto
  have "\<forall>p\<in>set ?ps. obind (deref (heap h) p) ?m \<noteq> Abort"
    using heap credit_match_facts(1)[OF assms(1) _ assms(2,3)] by fastforce
  from take_match_first[OF this] show ?thesis
    using acc cur heap
    by (auto simp: TALER_FAKEBANK_check_credit_def credit_matches_def gassert_def matching_def
        split: list.splits dest!: filter_eq_ConsD)
qed

text \<open>
  A successful check takes one transaction away from those that later checks of the same kind may take and
  keeps the invariant: as many checks succeed as there are bookings.
\<close>

lemma check_credit_takes_one:
  assumes "bank_inv h" "credit_matches h amt d c pub = p # qs"
  shows "credit_matches (checked h p) amt d c pub = qs" "bank_inv (checked h p)"
proof -
  obtain a where a: "accounts h c = Some a" "matching h (credit_match d amt pub) (rev (in_list a)) = p # qs"
    using assms(2) by (auto simp: credit_matches_def split: option.splits)
  have "accounts (checked h p) = accounts h" by (simp add: checked_def)
  moreover have "distinct (rev (in_list a))" using list_members(3)[OF assms(1) a(1)] by simp
  moreover have "tx_unchecked t" if "credit_match d amt pub t = Done True" for t
    using that by (simp add: credit_match_def split: if_splits)
  ultimately show "credit_matches (checked h p) amt d c pub = qs"
    using matching_checked[OF _ a(2)] a(1) by (simp add: credit_matches_def)
  show "bank_inv (checked h p)" by (rule bank_inv_checked[OF assms(1)])
qed

text \<open>The set counts as empty exactly when no booking but those for authentication is unchecked.\<close>

lemma slots_empty_iff:
  assumes "\<forall>p. Some p \<in> set ps \<longrightarrow> heap h p \<noteq> None"
  shows "slots_empty h ps = Done (if \<exists>p t. Some p \<in> set ps \<and> heap h p = Some t \<and> tx_unchecked t
           \<and> subject_type (tx_subject t) \<noteq> T_AUTH then GNUNET_SYSERR else GNUNET_OK)"
  using assms
proof (induction h ps rule: slots_empty.induct)
  case (3 h p ps)
  then obtain t where "heap h p = Some t" by auto
  with 3 show ?case by auto
qed auto

lemma check_empty_exact:
  assumes "bank_inv h"
  shows "TALER_FAKEBANK_check_empty h = Done (if \<exists>p t. heap h p = Some t \<and> tx_unchecked t
           \<and> subject_type (tx_subject t) \<noteq> T_AUTH then GNUNET_SYSERR else GNUNET_OK)"
proof -
  have ring: "Some p \<in> set (transactions h) \<longleftrightarrow> heap h p \<noteq> None" for p
    using assms unfolding bank_inv_def ring_inv_def by (metis in_set_conv_nth not_Some_eq option.distinct(1))
  then have "\<forall>p. Some p \<in> set (transactions h) \<longrightarrow> heap h p \<noteq> None" by blast
  moreover have "(\<exists>p t. Some p \<in> set (transactions h) \<and> heap h p = Some t \<and> tx_unchecked t \<and> subject_type (tx_subject t) \<noteq> T_AUTH)
      = (\<exists>p t. heap h p = Some t \<and> tx_unchecked t \<and> subject_type (tx_subject t) \<noteq> T_AUTH)"
    using ring by (metis option.distinct(1))
  ultimately show ?thesis
    using slots_empty_iff[of "transactions h" h] by (simp only: TALER_FAKEBANK_check_empty_def)
qed

text \<open>
  The status of a transfer: a row without an entry is read through a NULL pointer, and the number of the row is not
  compared, so that a row that left the ring buffer gets the status of the one in its slot.
\<close>

lemma transfer_status_no_entry:
  assumes "sscanf_llu ident = Some row" "accounts h (hash account) \<noteq> None" "ring_get h row = Done None"
  shows "TALER_FAKEBANK_twg_get_transfers_id raw hash h account ident = Abort"
  using assms by (auto simp: TALER_FAKEBANK_twg_get_transfers_id_def)

lemma transfer_status_other_row:
  assumes "sscanf_llu ident = Some row" "sscanf_llu ident' = Some (row + ram_limit h)" "ram_limit h \<noteq> 0"
    and "unat row + unat (ram_limit h) < 2 ^ 64"
  shows "TALER_FAKEBANK_twg_get_transfers_id raw hash h account ident'
       = TALER_FAKEBANK_twg_get_transfers_id raw hash h account ident"
proof -
  have "(row + ram_limit h) mod ram_limit h = row mod ram_limit h"
    using assms(4) by (intro word_unat_eq_iff[THEN iffD2]) (simp add: unat_mod_distrib unat_word_ariths)
  then have "ring_get h (row + ram_limit h) = ring_get h row" by (simp add: ring_get_def)
  with assms(1,2) show ?thesis
    by (simp add: TALER_FAKEBANK_twg_get_transfers_id_def split: option.split)
qed

end
