(* ===== verification/Fee_Sets.thy ===== *)
theory Fee_Sets
  imports Amount_Format
begin

text \<open>
  The sets of fees of an exchange and their conversion and comparison, \<^verbatim>\<open>src/src/util/util.c\<close>: the fees
  of a denomination, the wire fees of an account and the global fees. Byte order conversion asserts that the
  amounts are valid; comparison asserts that both sets are in the same currency.
\<close>

section \<open>Fees in host and in network byte order\<close>

record denom_fee_set =
  fee_withdraw :: amount
  fee_deposit :: amount
  fee_refresh :: amount
  fee_refund :: amount

record wire_fee_set =
  fee_wire :: amount
  fee_closing :: amount

record global_fee_set =
  fee_history :: amount
  fee_account :: amount
  fee_purse :: amount

record denom_fee_set_nbo =
  nbo_withdraw :: amount_nbo
  nbo_deposit :: amount_nbo
  nbo_refresh :: amount_nbo
  nbo_refund :: amount_nbo

record wire_fee_set_nbo =
  nbo_wire :: amount_nbo
  nbo_closing :: amount_nbo

record global_fee_set_nbo =
  nbo_history :: amount_nbo
  nbo_account :: amount_nbo
  nbo_purse :: amount_nbo

definition TALER_denom_fee_set_hton :: "(64 word \<Rightarrow> 64 word) \<Rightarrow> denom_fee_set \<Rightarrow> denom_fee_set_nbo outcome" where
  "TALER_denom_fee_set_hton ll fees =
     obind (TALER_amount_hton ll (fee_withdraw fees)) (\<lambda>w.
     obind (TALER_amount_hton ll (fee_deposit fees)) (\<lambda>d.
     obind (TALER_amount_hton ll (fee_refresh fees)) (\<lambda>r.
     obind (TALER_amount_hton ll (fee_refund fees)) (\<lambda>f.
     Done \<lparr>nbo_withdraw = w, nbo_deposit = d, nbo_refresh = r, nbo_refund = f\<rparr>))))"

definition TALER_denom_fee_set_ntoh :: "(64 word \<Rightarrow> 64 word) \<Rightarrow> denom_fee_set_nbo \<Rightarrow> denom_fee_set outcome" where
  "TALER_denom_fee_set_ntoh ll nbo =
     obind (TALER_amount_ntoh ll (nbo_withdraw nbo)) (\<lambda>w.
     obind (TALER_amount_ntoh ll (nbo_deposit nbo)) (\<lambda>d.
     obind (TALER_amount_ntoh ll (nbo_refresh nbo)) (\<lambda>r.
     obind (TALER_amount_ntoh ll (nbo_refund nbo)) (\<lambda>f.
     Done \<lparr>fee_withdraw = w, fee_deposit = d, fee_refresh = r, fee_refund = f\<rparr>))))"

definition TALER_global_fee_set_hton :: "(64 word \<Rightarrow> 64 word) \<Rightarrow> global_fee_set \<Rightarrow> global_fee_set_nbo outcome" where
  "TALER_global_fee_set_hton ll fees =
     obind (TALER_amount_hton ll (fee_history fees)) (\<lambda>h.
     obind (TALER_amount_hton ll (fee_account fees)) (\<lambda>a.
     obind (TALER_amount_hton ll (fee_purse fees)) (\<lambda>p.
     Done \<lparr>nbo_history = h, nbo_account = a, nbo_purse = p\<rparr>)))"

definition TALER_global_fee_set_ntoh :: "(64 word \<Rightarrow> 64 word) \<Rightarrow> global_fee_set_nbo \<Rightarrow> global_fee_set outcome" where
  "TALER_global_fee_set_ntoh ll nbo =
     obind (TALER_amount_ntoh ll (nbo_history nbo)) (\<lambda>h.
     obind (TALER_amount_ntoh ll (nbo_account nbo)) (\<lambda>a.
     obind (TALER_amount_ntoh ll (nbo_purse nbo)) (\<lambda>p.
     Done \<lparr>fee_history = h, fee_account = a, fee_purse = p\<rparr>)))"

definition TALER_wire_fee_set_hton :: "(64 word \<Rightarrow> 64 word) \<Rightarrow> wire_fee_set \<Rightarrow> wire_fee_set_nbo outcome" where
  "TALER_wire_fee_set_hton ll fees =
     obind (TALER_amount_hton ll (fee_wire fees)) (\<lambda>w.
     obind (TALER_amount_hton ll (fee_closing fees)) (\<lambda>c.
     Done \<lparr>nbo_wire = w, nbo_closing = c\<rparr>))"

definition TALER_wire_fee_set_ntoh :: "(64 word \<Rightarrow> 64 word) \<Rightarrow> wire_fee_set_nbo \<Rightarrow> wire_fee_set outcome" where
  "TALER_wire_fee_set_ntoh ll nbo =
     obind (TALER_amount_ntoh ll (nbo_wire nbo)) (\<lambda>w.
     obind (TALER_amount_ntoh ll (nbo_closing nbo)) (\<lambda>c.
     Done \<lparr>fee_wire = w, fee_closing = c\<rparr>))"

section \<open>Comparison and currency\<close>

definition TALER_global_fee_set_cmp :: "global_fee_set \<Rightarrow> global_fee_set \<Rightarrow> int outcome" where
  "TALER_global_fee_set_cmp f1 f2 =
     obind (TALER_amount_cmp (fee_history f1) (fee_history f2)) (\<lambda>r. if r \<noteq> 0 then Done r else
     obind (TALER_amount_cmp (fee_account f1) (fee_account f2)) (\<lambda>r. if r \<noteq> 0 then Done r else
     obind (TALER_amount_cmp (fee_purse f1) (fee_purse f2)) (\<lambda>r. if r \<noteq> 0 then Done r else Done 0)))"

definition TALER_wire_fee_set_cmp :: "wire_fee_set \<Rightarrow> wire_fee_set \<Rightarrow> int outcome" where
  "TALER_wire_fee_set_cmp f1 f2 =
     obind (TALER_amount_cmp (fee_wire f1) (fee_wire f2)) (\<lambda>r. if r \<noteq> 0 then Done r else
     obind (TALER_amount_cmp (fee_closing f1) (fee_closing f2)) (\<lambda>r. if r \<noteq> 0 then Done r else Done 0))"

definition TALER_denom_fee_check_currency :: "string \<Rightarrow> denom_fee_set \<Rightarrow> generic_return" where
  "TALER_denom_fee_check_currency cur fees =
     (if TALER_amount_is_currency (fee_withdraw fees) cur \<noteq> GNUNET_YES then GNUNET_NO
      else if TALER_amount_is_currency (fee_deposit fees) cur \<noteq> GNUNET_YES then GNUNET_NO
      else if TALER_amount_is_currency (fee_refresh fees) cur \<noteq> GNUNET_YES then GNUNET_NO
      else if TALER_amount_is_currency (fee_refund fees) cur \<noteq> GNUNET_YES then GNUNET_NO
      else GNUNET_OK)"

section \<open>Conversion and comparison are faithful\<close>

lemma hton_inj:
  assumes "inj ll" "TALER_amount_hton ll a = Done x" "TALER_amount_hton ll b = Done x"
  shows "a = b"
  using assms by (auto simp: TALER_amount_hton_def gassert_def bswap32_inj inj_eq split: if_splits)

lemma ntoh_hton:
  assumes "\<And>w. nl (ll w) = w" "TALER_amount_hton ll a = Done n"
  shows "TALER_amount_ntoh nl n = Done a"
  using assms by (cases a) (auto simp: TALER_amount_hton_def TALER_amount_ntoh_def gassert_def split: if_splits)

lemma denom_fee_set_inj:
  assumes "inj ll" "TALER_denom_fee_set_hton ll f = Done x" "TALER_denom_fee_set_hton ll g = Done x"
  shows "f = g"
  using assms(2,3) hton_inj [OF assms(1)] by (cases f; cases g; cases x) (auto simp: TALER_denom_fee_set_hton_def obind_Done)

lemma wire_fee_set_inj:
  assumes "inj ll" "TALER_wire_fee_set_hton ll f = Done x" "TALER_wire_fee_set_hton ll g = Done x"
  shows "f = g"
  using assms(2,3) hton_inj [OF assms(1)] by (cases f; cases g; cases x) (auto simp: TALER_wire_fee_set_hton_def obind_Done)

lemma global_fee_set_inj:
  assumes "inj ll" "TALER_global_fee_set_hton ll f = Done x" "TALER_global_fee_set_hton ll g = Done x"
  shows "f = g"
  using assms(2,3) hton_inj [OF assms(1)] by (cases f; cases g; cases x) (auto simp: TALER_global_fee_set_hton_def obind_Done)

lemma fee_sets_ntoh_hton:
  assumes "\<And>w. nl (ll w) = w"
  shows "TALER_denom_fee_set_hton ll d = Done dn \<Longrightarrow> TALER_denom_fee_set_ntoh nl dn = Done d"
    and "TALER_wire_fee_set_hton ll w = Done wn \<Longrightarrow> TALER_wire_fee_set_ntoh nl wn = Done w"
    and "TALER_global_fee_set_hton ll g = Done gn \<Longrightarrow> TALER_global_fee_set_ntoh nl gn = Done g"
  using ntoh_hton [where nl = nl and ll = ll, OF assms]
  by (auto simp: TALER_denom_fee_set_hton_def TALER_denom_fee_set_ntoh_def TALER_wire_fee_set_hton_def
      TALER_wire_fee_set_ntoh_def TALER_global_fee_set_hton_def TALER_global_fee_set_ntoh_def obind_Done)

text \<open>The comparison orders sets of fees lexicographically by their units.\<close>

definition fees_in :: "string \<Rightarrow> amount list \<Rightarrow> bool" where
  "fees_in cur as \<longleftrightarrow> (\<forall>a \<in> set as. representable a \<and> currency a = cur)"

fun lex_sign :: "(nat \<times> nat) list \<Rightarrow> int" where
  "lex_sign [] = 0"
| "lex_sign ((m, n) # ps) = (if m < n then -1 else if n < m then 1 else lex_sign ps)"

lemma global_fee_set_cmp_lex:
  assumes "fees_in cur [fee_history f, fee_account f, fee_purse f]" "fees_in cur [fee_history g, fee_account g, fee_purse g]"
  shows "TALER_global_fee_set_cmp f g = Done (lex_sign [(units (fee_history f), units (fee_history g)),
           (units (fee_account f), units (fee_account g)), (units (fee_purse f), units (fee_purse g))])"
  using assms by (auto simp: TALER_global_fee_set_cmp_def fees_in_def cmp_representable)

lemma wire_fee_set_cmp_lex:
  assumes "fees_in cur [fee_wire f, fee_closing f]" "fees_in cur [fee_wire g, fee_closing g]"
  shows "TALER_wire_fee_set_cmp f g =
    Done (lex_sign [(units (fee_wire f), units (fee_wire g)), (units (fee_closing f), units (fee_closing g))])"
  using assms by (auto simp: TALER_wire_fee_set_cmp_def fees_in_def cmp_representable)

end
