(* ===== verification/Wallet_Signatures.thy ===== *)
theory Wallet_Signatures
  imports Fee_Sets Payto Age_Restriction
begin

text \<open>
  The EdDSA signatures of the wallet, \<^verbatim>\<open>src/src/util/wallet_signatures.c\<close>, and those of merchant and exchange
  that appear in the history of a coin (\<^verbatim>\<open>merchant_signatures.c\<close>, \<^verbatim>\<open>exchange_signatures.c\<close>). Each
  function fills a packed structure with a purpose and fixed-size fields and signs or verifies
  it; here the structure is a constructor with the fields in the order of the structure,
  paired with its purpose. EdDSA, the hash function and the byte order of 64-bit numbers and
  timestamps are GNUnet: fields of \<open>library\<close>, and signatures are opaque values. The purposes are numbers of a registry outside the
  sources; only their names are used. \<^verbatim>\<open>TALER_amount_hton\<close> asserts that an amount is valid.
\<close>

section \<open>Signed data\<close>

type_synonym octets = "char list"

datatype purpose =
    TALER_SIGNATURE_WALLET_COIN_DEPOSIT
  | TALER_SIGNATURE_WALLET_COIN_LINK
  | TALER_SIGNATURE_WALLET_COIN_RECOUP
  | TALER_SIGNATURE_WALLET_COIN_RECOUP_REFRESH
  | TALER_SIGNATURE_WALLET_COIN_MELT
  | TALER_SIGNATURE_WALLET_RESERVE_WITHDRAW
  | TALER_SIGNATURE_WALLET_RESERVE_AGE_WITHDRAW
  | TALER_SIGNATURE_WALLET_ACCOUNT_SETUP
  | TALER_SIGNATURE_WALLET_RESERVE_HISTORY
  | TALER_SIGNATURE_WALLET_COIN_HISTORY
  | TALER_SIGNATURE_WALLET_PURSE_CREATE
  | TALER_SIGNATURE_WALLET_PURSE_DELETE
  | TALER_SIGNATURE_WALLET_PURSE_STATUS
  | TALER_SIGNATURE_WALLET_PURSE_DEPOSIT
  | TALER_SIGNATURE_WALLET_PURSE_MERGE
  | TALER_SIGNATURE_WALLET_ACCOUNT_MERGE
  | TALER_SIGNATURE_WALLET_RESERVE_OPEN
  | TALER_SIGNATURE_WALLET_RESERVE_OPEN_DEPOSIT
  | TALER_SIGNATURE_WALLET_RESERVE_CLOSE
  | TALER_SIGNATURE_WALLET_RESERVE_ATTEST_DETAILS
  | TALER_SIGNATURE_WALLET_PURSE_ECONTRACT
  | TALER_SIGNATURE_WALLET_TOKEN_USE
  | TALER_SIGNATURE_MERCHANT_REFUND
  | TALER_SIGNATURE_EXCHANGE_CONFIRM_RECOUP
  | TALER_SIGNATURE_EXCHANGE_CONFIRM_RECOUP_REFRESH
  | TALER_SIGNATURE_EXCHANGE_CONFIRM_PURSE_REFUND
  | TALER_SIGNATURE_EXCHANGE_CONFIRM_DEPOSIT
  | TALER_SIGNATURE_EXCHANGE_CONFIRM_REFUND
  | TALER_SIGNATURE_EXCHANGE_CONFIRM_MELT
  | TALER_SIGNATURE_EXCHANGE_CONFIRM_AGE_WITHDRAW
  | TALER_SIGNATURE_EXCHANGE_KEY_SET
  | TALER_SIGNATURE_EXCHANGE_CONFIRM_WIRE_DEPOSIT
  | TALER_SIGNATURE_EXCHANGE_CONFIRM_WIRE
  | TALER_SIGNATURE_EXCHANGE_AFFIRM_DENOM_UNKNOWN
  | TALER_SIGNATURE_EXCHANGE_AFFIRM_DENOM_EXPIRED
  | TALER_SIGNATURE_EXCHANGE_RESERVE_CLOSED
  | TALER_SIGNATURE_EXCHANGE_CONFIRM_PURSE_CREATION
  | TALER_SIGNATURE_EXCHANGE_CONFIRM_PURSE_MERGED
  | TALER_SIGNATURE_EXCHANGE_PURSE_STATUS
  | TALER_SIGNATURE_EXCHANGE_RESERVE_ATTEST_DETAILS
  | TALER_SIGNATURE_MASTER_AML_KEY
  | TALER_SIGNATURE_MASTER_ADD_AUDITOR
  | TALER_SIGNATURE_MASTER_DEL_AUDITOR
  | TALER_SIGNATURE_MASTER_DENOMINATION_KEY_REVOKED
  | TALER_SIGNATURE_MASTER_SIGNING_KEY_REVOKED
  | TALER_SIGNATURE_MASTER_SIGNING_KEY_VALIDITY
  | TALER_SIGNATURE_MASTER_DENOMINATION_KEY_VALIDITY
  | TALER_SIGNATURE_MASTER_ADD_WIRE
  | TALER_SIGNATURE_MASTER_DEL_WIRE
  | TALER_SIGNATURE_MASTER_WIRE_FEES
  | TALER_SIGNATURE_MASTER_GLOBAL_FEES
  | TALER_SIGNATURE_MASTER_EXTENSION
  | TALER_SIGNATURE_MASTER_WIRE_DETAILS
  | TALER_SIGNATURE_MASTER_PARTNER_DETAILS
  | TALER_SIGNATURE_MASTER_DRAIN_PROFIT
  | TALER_SIGNATURE_AUDITOR_EXCHANGE_KEYS
  | TALER_SIGNATURE_MERCHANT_TRACK_TRANSACTION
  | TALER_SIGNATURE_MERCHANT_WIRE_DETAILS
  | TALER_SIGNATURE_MERCHANT_PAYMENT_OK
  | TALER_SIGNATURE_MERCHANT_CONTRACT
  | TALER_SIGNATURE_AML_DECISION
  | TALER_SIGNATURE_AML_QUERY
  | TALER_SIGNATURE_SM_SIGNING_KEY
  | TALER_SIGNATURE_SM_RSA_DENOMINATION_KEY
  | TALER_SIGNATURE_SM_CS_DENOMINATION_KEY
  | TALER_SIGNATURE_KYC_AUTH

datatype exchange_data =
    TALER_DepositConfirmationPS octets octets octets "64 word" "64 word" "64 word" amount_nbo octets octets
  | TALER_RefundConfirmationPS octets octets octets "64 word" amount_nbo
  | TALER_RefreshMeltConfirmationPS octets "32 word"
  | TALER_AgeWithdrawConfirmationPS octets "32 word"
  | TALER_ExchangeKeySetPS "64 word" octets
  | TALER_WireDepositDataPS amount_nbo amount_nbo octets octets octets
  | TALER_ConfirmWirePS octets octets octets octets "64 word" amount_nbo
  | TALER_DenominationUnknownAffirmationPS "64 word" octets
  | TALER_DenominationExpiredAffirmationPS "64 word" octets octets
  | TALER_ReserveCloseConfirmationPS "64 word" amount_nbo amount_nbo octets octets octets
  | TALER_PurseCreateDepositConfirmationPS "64 word" "64 word" amount_nbo amount_nbo octets octets
  | TALER_PurseMergedConfirmationPS "64 word" "64 word" amount_nbo octets octets octets octets
  | TALER_PurseStatusPS "64 word" "64 word" amount_nbo
  | TALER_ExchangeAttestPS "64 word" "64 word" octets octets

datatype master_data =
    TALER_MasterAmlOfficerStatusPS "64 word" octets octets "32 word"
  | TALER_MasterAddAuditorPS "64 word" octets octets
  | TALER_MasterDelAuditorPS "64 word" octets
  | TALER_MasterDenominationKeyRevocationPS octets
  | TALER_MasterSigningKeyRevocationPS octets
  | TALER_ExchangeSigningKeyValidityPS "64 word" "64 word" "64 word" octets
  | TALER_DenominationKeyValidityPS octets "64 word" "64 word" "64 word" "64 word" amount_nbo denom_fee_set_nbo octets
  | TALER_MasterAddWirePS "64 word" octets octets octets octets
  | TALER_MasterDelWirePS "64 word" octets
  | TALER_MasterWireFeePS octets "64 word" "64 word" wire_fee_set_nbo
  | TALER_MasterGlobalFeePS "64 word" "64 word" "64 word" "64 word" global_fee_set_nbo "32 word"
  | TALER_MasterExtensionManifestPS octets
  | TALER_MasterWireDetailsPS octets octets octets octets
  | TALER_PartnerConfigurationPS octets "64 word" "64 word" "64 word" amount_nbo octets
  | TALER_DrainProfitPS octets "64 word" amount_nbo octets octets

datatype party_data =
    TALER_ExchangeKeyValidityPS octets octets "64 word" "64 word" "64 word" "64 word" amount_nbo denom_fee_set_nbo octets
  | TALER_DepositTrackPS octets octets octets
  | TALER_MerchantWireDetailsPS octets
  | TALER_PaymentResponsePS octets
  | TALER_ProposalDataPS octets
  | TALER_AmlDecisionPS "64 word" octets octets octets octets octets "64 word"
  | TALER_AmlQueryPS
  | TALER_SigningKeyAnnouncementPS octets "64 word" "64 word"
  | TALER_DenominationKeyAnnouncementPS octets octets "64 word" "64 word"
  | TALER_KycQueryPS

datatype signed_data =
    TALER_DepositRequestPS octets octets octets octets octets "64 word" "64 word" amount_nbo amount_nbo octets octets
  | TALER_LinkDataPS octets octets octets octets
  | TALER_RecoupRequestPS octets octets
  | TALER_RefreshMeltCoinAffirmationPS octets octets octets amount_nbo amount_nbo
  | TALER_WithdrawRequestPS amount_nbo octets octets
  | TALER_AgeWithdrawRequestPS octets amount_nbo octets "32 word" "8 word"
  | TALER_AccountSetupRequestSignaturePS amount_nbo
  | TALER_ReserveHistoryRequestPS "64 word"
  | TALER_CoinHistoryRequestPS "64 word"
  | TALER_PurseCreatePS "64 word" amount_nbo octets octets "32 word"
  | TALER_PurseDeletePS
  | EccSignaturePurpose
  | TALER_PurseDepositPS amount_nbo octets octets octets octets
  | TALER_PurseMergePS "64 word" octets octets
  | TALER_AccountMergePS "64 word" amount_nbo amount_nbo octets octets "64 word" "32 word" "32 word"
  | TALER_ReserveOpenPS amount_nbo "64 word" "64 word" "32 word"
  | TALER_ReserveOpenDepositPS octets amount_nbo
  | TALER_ReserveClosePS "64 word" octets
  | TALER_ReserveAttestRequestPS "64 word" octets
  | TALER_PurseContractPS octets octets
  | TALER_TokenUseRequestPS octets octets
  | TALER_RefundRequestPS octets octets "64 word" amount_nbo
  | TALER_RecoupConfirmationPS "64 word" amount_nbo octets octets
  | TALER_RecoupRefreshConfirmationPS "64 word" amount_nbo octets octets
  | TALER_CoinPurseRefundConfirmationPS octets octets amount_nbo amount_nbo
  | Exchange_data exchange_data
  | Master_data master_data
  | Party_data party_data

record 's library =
  eddsa_sign :: "octets \<Rightarrow> purpose \<times> signed_data \<Rightarrow> 's"
  eddsa_verify :: "purpose \<Rightarrow> purpose \<times> signed_data \<Rightarrow> 's \<Rightarrow> octets \<Rightarrow> generic_return"
  eddsa_public :: "octets \<Rightarrow> octets"
  sig_bytes :: "'s \<Rightarrow> octets"
  crypto_hash :: "octets \<Rightarrow> octets"
  htonll :: "64 word \<Rightarrow> 64 word"
  timestamp_hton :: "64 word \<Rightarrow> 64 word"
  time_relative_hton :: "64 word \<Rightarrow> 64 word"
  crypto_kdf :: "octets \<Rightarrow> octets \<Rightarrow> octets \<Rightarrow> octets"

text \<open>An optional hash: the field stays zero when the pointer is \<^verbatim>\<open>NULL\<close>.\<close>

definition zeroed :: "nat \<Rightarrow> octets option \<Rightarrow> octets" where
  "zeroed n x = (case x of None \<Rightarrow> replicate n NUL | Some b \<Rightarrow> b)"

named_theorems signatures

abbreviation RESERVE_PAYTO :: string where
  "RESERVE_PAYTO \<equiv> ''payto://taler-reserve''"

section \<open>Signing and verifying\<close>

definition TALER_wallet_deposit_sign ::
  "'s library \<Rightarrow> amount \<Rightarrow> amount \<Rightarrow> octets \<Rightarrow> octets
     \<Rightarrow> octets option \<Rightarrow> octets option \<Rightarrow> octets option \<Rightarrow>
     octets \<Rightarrow> 64 word \<Rightarrow> octets \<Rightarrow> 64 word \<Rightarrow> octets
     \<Rightarrow> 's outcome" where [signatures]:
  "TALER_wallet_deposit_sign L amt fee h_wire h_contract_terms wallet_data_hash h_age_commitment h_policy
       h_denom_pub wallet_timestamp merchant_pub refund_deadline priv =
     obind (TALER_amount_hton (htonll L) amt) (\<lambda>amt_n.
        obind (TALER_amount_hton (htonll L) fee) (\<lambda>fee_n.
        Done (eddsa_sign L priv (TALER_SIGNATURE_WALLET_COIN_DEPOSIT, TALER_DepositRequestPS
           h_contract_terms (zeroed 32 h_age_commitment) (zeroed 64 h_policy) h_wire h_denom_pub
           (timestamp_hton L wallet_timestamp) (timestamp_hton L refund_deadline) amt_n fee_n
           merchant_pub (zeroed 64 wallet_data_hash)))))"

definition TALER_wallet_deposit_verify ::
  "'s library \<Rightarrow> amount \<Rightarrow> amount \<Rightarrow> octets \<Rightarrow> octets
     \<Rightarrow> octets option \<Rightarrow> octets option \<Rightarrow> octets option \<Rightarrow>
     octets \<Rightarrow> 64 word \<Rightarrow> octets \<Rightarrow> 64 word \<Rightarrow> octets
     \<Rightarrow> 's \<Rightarrow> generic_return outcome" where [signatures]:
  "TALER_wallet_deposit_verify L amt fee h_wire h_contract_terms wallet_data_hash h_age_commitment
       h_policy h_denom_pub wallet_timestamp merchant_pub refund_deadline pub sig =
     obind (TALER_amount_hton (htonll L) amt) (\<lambda>amt_n.
        obind (TALER_amount_hton (htonll L) fee) (\<lambda>fee_n.
        Done (if eddsa_verify L TALER_SIGNATURE_WALLET_COIN_DEPOSIT (TALER_SIGNATURE_WALLET_COIN_DEPOSIT,
           TALER_DepositRequestPS h_contract_terms (zeroed 32 h_age_commitment) (zeroed 64 h_policy)
           h_wire h_denom_pub (timestamp_hton L wallet_timestamp) (timestamp_hton L refund_deadline)
           amt_n fee_n merchant_pub (zeroed 64 wallet_data_hash)) sig pub \<noteq> GNUNET_OK then
           GNUNET_SYSERR else GNUNET_OK)))"

definition TALER_wallet_link_sign ::
  "'s library \<Rightarrow> octets \<Rightarrow> octets \<Rightarrow> octets \<Rightarrow> octets
     \<Rightarrow> 's outcome" where [signatures]:
  "TALER_wallet_link_sign L h_denom_pub transfer_pub bch priv =
     Done (eddsa_sign L priv (TALER_SIGNATURE_WALLET_COIN_LINK, TALER_LinkDataPS h_denom_pub transfer_pub
        (replicate 32 NUL) bch))"

definition TALER_wallet_link_verify ::
  "'s library \<Rightarrow> octets \<Rightarrow> octets \<Rightarrow> octets \<Rightarrow> octets
     \<Rightarrow> 's \<Rightarrow> generic_return outcome" where [signatures]:
  "TALER_wallet_link_verify L h_denom_pub transfer_pub bch pub sig =
     Done (eddsa_verify L TALER_SIGNATURE_WALLET_COIN_LINK (TALER_SIGNATURE_WALLET_COIN_LINK,
        TALER_LinkDataPS h_denom_pub transfer_pub (replicate 32 NUL) bch) sig pub)"

definition TALER_wallet_recoup_sign ::
  "'s library \<Rightarrow> octets \<Rightarrow> octets \<Rightarrow> octets \<Rightarrow> 's outcome" where [signatures]:
  "TALER_wallet_recoup_sign L h_denom_pub coin_bks priv =
     Done (eddsa_sign L priv (TALER_SIGNATURE_WALLET_COIN_RECOUP, TALER_RecoupRequestPS h_denom_pub
        coin_bks))"

definition TALER_wallet_recoup_verify ::
  "'s library \<Rightarrow> octets \<Rightarrow> octets \<Rightarrow> octets \<Rightarrow> 's
     \<Rightarrow> generic_return outcome" where [signatures]:
  "TALER_wallet_recoup_verify L h_denom_pub coin_bks pub sig =
     Done (eddsa_verify L TALER_SIGNATURE_WALLET_COIN_RECOUP (TALER_SIGNATURE_WALLET_COIN_RECOUP,
        TALER_RecoupRequestPS h_denom_pub coin_bks) sig pub)"

definition TALER_wallet_recoup_refresh_sign ::
  "'s library \<Rightarrow> octets \<Rightarrow> octets \<Rightarrow> octets \<Rightarrow> 's outcome" where [signatures]:
  "TALER_wallet_recoup_refresh_sign L h_denom_pub coin_bks priv =
     Done (eddsa_sign L priv (TALER_SIGNATURE_WALLET_COIN_RECOUP_REFRESH, TALER_RecoupRequestPS
        h_denom_pub coin_bks))"

definition TALER_wallet_recoup_refresh_verify ::
  "'s library \<Rightarrow> octets \<Rightarrow> octets \<Rightarrow> octets \<Rightarrow> 's
     \<Rightarrow> generic_return outcome" where [signatures]:
  "TALER_wallet_recoup_refresh_verify L h_denom_pub coin_bks pub sig =
     Done (eddsa_verify L TALER_SIGNATURE_WALLET_COIN_RECOUP_REFRESH
        (TALER_SIGNATURE_WALLET_COIN_RECOUP_REFRESH, TALER_RecoupRequestPS h_denom_pub coin_bks) sig pub)"

definition TALER_wallet_melt_sign ::
  "'s library \<Rightarrow> amount \<Rightarrow> amount \<Rightarrow> octets \<Rightarrow> octets
     \<Rightarrow> octets option \<Rightarrow> octets \<Rightarrow> 's outcome" where [signatures]:
  "TALER_wallet_melt_sign L amt fee rc h_denom_pub h_age_commitment priv =
     obind (TALER_amount_hton (htonll L) amt) (\<lambda>amt_n.
        obind (TALER_amount_hton (htonll L) fee) (\<lambda>fee_n.
        Done (eddsa_sign L priv (TALER_SIGNATURE_WALLET_COIN_MELT, TALER_RefreshMeltCoinAffirmationPS rc
           h_denom_pub (zeroed 32 h_age_commitment) amt_n fee_n))))"

definition TALER_wallet_melt_verify ::
  "'s library \<Rightarrow> amount \<Rightarrow> amount \<Rightarrow> octets \<Rightarrow> octets
     \<Rightarrow> octets option \<Rightarrow> octets \<Rightarrow> 's \<Rightarrow> generic_return
     outcome" where [signatures]:
  "TALER_wallet_melt_verify L amt fee rc h_denom_pub h_age_commitment pub sig =
     obind (TALER_amount_hton (htonll L) amt) (\<lambda>amt_n.
        obind (TALER_amount_hton (htonll L) fee) (\<lambda>fee_n.
        Done (eddsa_verify L TALER_SIGNATURE_WALLET_COIN_MELT (TALER_SIGNATURE_WALLET_COIN_MELT,
           TALER_RefreshMeltCoinAffirmationPS rc h_denom_pub (zeroed 32 h_age_commitment) amt_n fee_n)
           sig pub)))"

definition TALER_wallet_withdraw_sign ::
  "'s library \<Rightarrow> octets \<Rightarrow> amount \<Rightarrow> octets \<Rightarrow> octets
     \<Rightarrow> 's outcome" where [signatures]:
  "TALER_wallet_withdraw_sign L h_denom_pub amt bch priv =
     obind (TALER_amount_hton (htonll L) amt) (\<lambda>amt_n.
        Done (eddsa_sign L priv (TALER_SIGNATURE_WALLET_RESERVE_WITHDRAW, TALER_WithdrawRequestPS amt_n
           h_denom_pub bch)))"

definition TALER_wallet_withdraw_verify ::
  "'s library \<Rightarrow> octets \<Rightarrow> amount \<Rightarrow> octets \<Rightarrow> octets
     \<Rightarrow> 's \<Rightarrow> generic_return outcome" where [signatures]:
  "TALER_wallet_withdraw_verify L h_denom_pub amt bch pub sig =
     obind (TALER_amount_hton (htonll L) amt) (\<lambda>amt_n.
        Done (eddsa_verify L TALER_SIGNATURE_WALLET_RESERVE_WITHDRAW
           (TALER_SIGNATURE_WALLET_RESERVE_WITHDRAW, TALER_WithdrawRequestPS amt_n h_denom_pub bch) sig
           pub))"

definition TALER_wallet_age_withdraw_sign ::
  "'s library \<Rightarrow> octets \<Rightarrow> amount \<Rightarrow> 32 word \<Rightarrow> 8 word
     \<Rightarrow> octets \<Rightarrow> 's outcome" where [signatures]:
  "TALER_wallet_age_withdraw_sign L h_commitment amt msk max_age priv =
     obind (TALER_amount_hton (htonll L) amt) (\<lambda>amt_n.
        Done (eddsa_sign L priv (TALER_SIGNATURE_WALLET_RESERVE_AGE_WITHDRAW, TALER_AgeWithdrawRequestPS
           (eddsa_public L priv) amt_n h_commitment msk (TALER_get_age_group msk max_age))))"

definition TALER_wallet_age_withdraw_verify ::
  "'s library \<Rightarrow> octets \<Rightarrow> amount \<Rightarrow> 32 word \<Rightarrow> 8 word
     \<Rightarrow> octets \<Rightarrow> 's \<Rightarrow> generic_return outcome" where [signatures]:
  "TALER_wallet_age_withdraw_verify L h_commitment amt msk max_age pub sig =
     obind (TALER_amount_hton (htonll L) amt) (\<lambda>amt_n.
        Done (eddsa_verify L TALER_SIGNATURE_WALLET_RESERVE_AGE_WITHDRAW
           (TALER_SIGNATURE_WALLET_RESERVE_AGE_WITHDRAW, TALER_AgeWithdrawRequestPS pub amt_n
           h_commitment msk (TALER_get_age_group msk max_age)) sig pub))"

definition TALER_wallet_account_setup_sign ::
  "'s library \<Rightarrow> amount \<Rightarrow> octets \<Rightarrow> 's outcome" where [signatures]:
  "TALER_wallet_account_setup_sign L amt priv =
     obind (TALER_amount_hton (htonll L) amt) (\<lambda>amt_n.
        Done (eddsa_sign L priv (TALER_SIGNATURE_WALLET_ACCOUNT_SETUP,
           TALER_AccountSetupRequestSignaturePS amt_n)))"

definition TALER_wallet_account_setup_verify ::
  "'s library \<Rightarrow> amount \<Rightarrow> octets \<Rightarrow> 's \<Rightarrow> generic_return
     outcome" where [signatures]:
  "TALER_wallet_account_setup_verify L amt pub sig =
     obind (TALER_amount_hton (htonll L) amt) (\<lambda>amt_n.
        Done (eddsa_verify L TALER_SIGNATURE_WALLET_ACCOUNT_SETUP (TALER_SIGNATURE_WALLET_ACCOUNT_SETUP,
           TALER_AccountSetupRequestSignaturePS amt_n) sig pub))"

definition TALER_wallet_reserve_history_sign ::
  "'s library \<Rightarrow> 64 word \<Rightarrow> octets \<Rightarrow> 's outcome" where [signatures]:
  "TALER_wallet_reserve_history_sign L start_off priv =
     Done (eddsa_sign L priv (TALER_SIGNATURE_WALLET_RESERVE_HISTORY, TALER_ReserveHistoryRequestPS
        (htonll L start_off)))"

definition TALER_wallet_reserve_history_verify ::
  "'s library \<Rightarrow> 64 word \<Rightarrow> octets \<Rightarrow> 's \<Rightarrow> generic_return
     outcome" where [signatures]:
  "TALER_wallet_reserve_history_verify L start_off pub sig =
     Done (eddsa_verify L TALER_SIGNATURE_WALLET_RESERVE_HISTORY (TALER_SIGNATURE_WALLET_RESERVE_HISTORY,
        TALER_ReserveHistoryRequestPS (htonll L start_off)) sig pub)"

definition TALER_wallet_coin_history_sign ::
  "'s library \<Rightarrow> 64 word \<Rightarrow> octets \<Rightarrow> 's outcome" where [signatures]:
  "TALER_wallet_coin_history_sign L start_off priv =
     Done (eddsa_sign L priv (TALER_SIGNATURE_WALLET_COIN_HISTORY, TALER_CoinHistoryRequestPS (htonll L
        start_off)))"

definition TALER_wallet_coin_history_verify ::
  "'s library \<Rightarrow> 64 word \<Rightarrow> octets \<Rightarrow> 's \<Rightarrow> generic_return
     outcome" where [signatures]:
  "TALER_wallet_coin_history_verify L start_off pub sig =
     Done (eddsa_verify L TALER_SIGNATURE_WALLET_COIN_HISTORY (TALER_SIGNATURE_WALLET_COIN_HISTORY,
        TALER_CoinHistoryRequestPS (htonll L start_off)) sig pub)"

definition TALER_wallet_purse_create_sign ::
  "'s library \<Rightarrow> 64 word \<Rightarrow> octets \<Rightarrow> octets \<Rightarrow> 32 word
     \<Rightarrow> amount \<Rightarrow> octets \<Rightarrow> 's outcome" where [signatures]:
  "TALER_wallet_purse_create_sign L purse_expiration h_contract_terms merge_pub min_age amt priv =
     obind (TALER_amount_hton (htonll L) amt) (\<lambda>amt_n.
        Done (eddsa_sign L priv (TALER_SIGNATURE_WALLET_PURSE_CREATE, TALER_PurseCreatePS (timestamp_hton
           L purse_expiration) amt_n h_contract_terms merge_pub (bswap32 min_age))))"

definition TALER_wallet_purse_create_verify ::
  "'s library \<Rightarrow> 64 word \<Rightarrow> octets \<Rightarrow> octets \<Rightarrow> 32 word
     \<Rightarrow> amount \<Rightarrow> octets \<Rightarrow> 's \<Rightarrow> generic_return outcome" where [signatures]:
  "TALER_wallet_purse_create_verify L purse_expiration h_contract_terms merge_pub min_age amt pub sig =
     obind (TALER_amount_hton (htonll L) amt) (\<lambda>amt_n.
        Done (eddsa_verify L TALER_SIGNATURE_WALLET_PURSE_CREATE (TALER_SIGNATURE_WALLET_PURSE_CREATE,
           TALER_PurseCreatePS (timestamp_hton L purse_expiration) amt_n h_contract_terms merge_pub
           (bswap32 min_age)) sig pub))"

definition TALER_wallet_purse_delete_sign ::
  "'s library \<Rightarrow>  octets \<Rightarrow> 's outcome" where [signatures]:
  "TALER_wallet_purse_delete_sign L priv =
     Done (eddsa_sign L priv (TALER_SIGNATURE_WALLET_PURSE_DELETE, TALER_PurseDeletePS))"

definition TALER_wallet_purse_delete_verify ::
  "'s library \<Rightarrow>  octets \<Rightarrow> 's \<Rightarrow> generic_return outcome" where [signatures]:
  "TALER_wallet_purse_delete_verify L pub sig =
     Done (eddsa_verify L TALER_SIGNATURE_WALLET_PURSE_DELETE (TALER_SIGNATURE_WALLET_PURSE_DELETE,
        TALER_PurseDeletePS) sig pub)"

definition TALER_wallet_purse_status_sign ::
  "'s library \<Rightarrow>  octets \<Rightarrow> 's outcome" where [signatures]:
  "TALER_wallet_purse_status_sign L priv =
     Done (eddsa_sign L priv (TALER_SIGNATURE_WALLET_PURSE_STATUS, EccSignaturePurpose))"

definition TALER_wallet_purse_status_verify ::
  "'s library \<Rightarrow>  octets \<Rightarrow> 's \<Rightarrow> generic_return outcome" where [signatures]:
  "TALER_wallet_purse_status_verify L pub sig =
     Done (eddsa_verify L TALER_SIGNATURE_WALLET_PURSE_STATUS (TALER_SIGNATURE_WALLET_PURSE_STATUS,
        EccSignaturePurpose) sig pub)"

definition TALER_wallet_purse_deposit_sign ::
  "'s library \<Rightarrow> string \<Rightarrow> octets \<Rightarrow> amount \<Rightarrow> octets
     \<Rightarrow> octets \<Rightarrow> octets \<Rightarrow> 's outcome" where [signatures]:
  "TALER_wallet_purse_deposit_sign L exchange_base_url purse_pub amt h_denom_pub phac priv =
     obind (TALER_amount_hton (htonll L) amt) (\<lambda>amt_n.
        Done (eddsa_sign L priv (TALER_SIGNATURE_WALLET_PURSE_DEPOSIT, TALER_PurseDepositPS amt_n
           h_denom_pub phac purse_pub (crypto_hash L (exchange_base_url @ [NUL])))))"

definition TALER_wallet_purse_deposit_verify ::
  "'s library \<Rightarrow> string \<Rightarrow> octets \<Rightarrow> amount \<Rightarrow> octets
     \<Rightarrow> octets \<Rightarrow> octets \<Rightarrow> 's \<Rightarrow> generic_return outcome" where [signatures]:
  "TALER_wallet_purse_deposit_verify L exchange_base_url purse_pub amt h_denom_pub phac pub sig =
     obind (TALER_amount_hton (htonll L) amt) (\<lambda>amt_n.
        Done (eddsa_verify L TALER_SIGNATURE_WALLET_PURSE_DEPOSIT (TALER_SIGNATURE_WALLET_PURSE_DEPOSIT,
           TALER_PurseDepositPS amt_n h_denom_pub phac purse_pub (crypto_hash L (exchange_base_url @
           [NUL]))) sig pub))"

definition TALER_wallet_purse_merge_sign ::
  "'s library \<Rightarrow> string \<Rightarrow> 64 word \<Rightarrow> octets \<Rightarrow> octets
     \<Rightarrow> 's outcome" where [signatures]:
  "TALER_wallet_purse_merge_sign L reserve_uri merge_timestamp purse_pub priv =
     gassert (strncaseeq reserve_uri RESERVE_PAYTO (length RESERVE_PAYTO))
       (obind (TALER_normalized_payto_hash (crypto_hash L) 32 (Some reserve_uri)) (\<lambda>h_payto.
          Done (eddsa_sign L priv (TALER_SIGNATURE_WALLET_PURSE_MERGE, TALER_PurseMergePS (timestamp_hton
             L merge_timestamp) purse_pub h_payto))))"

definition TALER_wallet_purse_merge_verify ::
  "'s library \<Rightarrow> string \<Rightarrow> 64 word \<Rightarrow> octets \<Rightarrow> octets
     \<Rightarrow> 's \<Rightarrow> generic_return outcome" where [signatures]:
  "TALER_wallet_purse_merge_verify L reserve_uri merge_timestamp purse_pub pub sig =
     (if \<not> strncaseeq reserve_uri RESERVE_PAYTO (length RESERVE_PAYTO) then Done GNUNET_NO
      else obind (TALER_normalized_payto_hash (crypto_hash L) 32 (Some reserve_uri)) (\<lambda>h_payto.
          Done (eddsa_verify L TALER_SIGNATURE_WALLET_PURSE_MERGE (TALER_SIGNATURE_WALLET_PURSE_MERGE,
             TALER_PurseMergePS (timestamp_hton L merge_timestamp) purse_pub h_payto) sig pub)))"

definition TALER_wallet_account_merge_sign ::
  "'s library \<Rightarrow> 64 word \<Rightarrow> octets \<Rightarrow> 64 word \<Rightarrow> octets
     \<Rightarrow> amount \<Rightarrow> amount \<Rightarrow> 32 word \<Rightarrow> 32 word \<Rightarrow>
     octets \<Rightarrow> 's outcome" where [signatures]:
  "TALER_wallet_account_merge_sign L merge_timestamp purse_pub purse_expiration h_contract_terms amt fee
       min_age flags priv =
     obind (TALER_amount_hton (htonll L) amt) (\<lambda>amt_n.
        obind (TALER_amount_hton (htonll L) fee) (\<lambda>fee_n.
        Done (eddsa_sign L priv (TALER_SIGNATURE_WALLET_ACCOUNT_MERGE, TALER_AccountMergePS
           (timestamp_hton L purse_expiration) amt_n fee_n h_contract_terms purse_pub (timestamp_hton L
           merge_timestamp) (bswap32 min_age) (bswap32 flags)))))"

definition TALER_wallet_account_merge_verify ::
  "'s library \<Rightarrow> 64 word \<Rightarrow> octets \<Rightarrow> 64 word \<Rightarrow> octets
     \<Rightarrow> amount \<Rightarrow> amount \<Rightarrow> 32 word \<Rightarrow> 32 word \<Rightarrow>
     octets \<Rightarrow> 's \<Rightarrow> generic_return outcome" where [signatures]:
  "TALER_wallet_account_merge_verify L merge_timestamp purse_pub purse_expiration h_contract_terms amt
       fee min_age flags pub sig =
     obind (TALER_amount_hton (htonll L) amt) (\<lambda>amt_n.
        obind (TALER_amount_hton (htonll L) fee) (\<lambda>fee_n.
        Done (eddsa_verify L TALER_SIGNATURE_WALLET_ACCOUNT_MERGE (TALER_SIGNATURE_WALLET_ACCOUNT_MERGE,
           TALER_AccountMergePS (timestamp_hton L purse_expiration) amt_n fee_n h_contract_terms
           purse_pub (timestamp_hton L merge_timestamp) (bswap32 min_age) (bswap32 flags)) sig pub)))"

definition TALER_wallet_reserve_open_sign ::
  "'s library \<Rightarrow> amount \<Rightarrow> 64 word \<Rightarrow> 64 word \<Rightarrow> 32 word
     \<Rightarrow> octets \<Rightarrow> 's outcome" where [signatures]:
  "TALER_wallet_reserve_open_sign L amt request_timestamp reserve_expiration purse_limit priv =
     obind (TALER_amount_hton (htonll L) amt) (\<lambda>amt_n.
        Done (eddsa_sign L priv (TALER_SIGNATURE_WALLET_RESERVE_OPEN, TALER_ReserveOpenPS amt_n
           (timestamp_hton L request_timestamp) (timestamp_hton L reserve_expiration) (bswap32
           purse_limit))))"

definition TALER_wallet_reserve_open_verify ::
  "'s library \<Rightarrow> amount \<Rightarrow> 64 word \<Rightarrow> 64 word \<Rightarrow> 32 word
     \<Rightarrow> octets \<Rightarrow> 's \<Rightarrow> generic_return outcome" where [signatures]:
  "TALER_wallet_reserve_open_verify L amt request_timestamp reserve_expiration purse_limit pub sig =
     obind (TALER_amount_hton (htonll L) amt) (\<lambda>amt_n.
        Done (eddsa_verify L TALER_SIGNATURE_WALLET_RESERVE_OPEN (TALER_SIGNATURE_WALLET_RESERVE_OPEN,
           TALER_ReserveOpenPS amt_n (timestamp_hton L request_timestamp) (timestamp_hton L
           reserve_expiration) (bswap32 purse_limit)) sig pub))"

definition TALER_wallet_reserve_open_deposit_sign ::
  "'s library \<Rightarrow> amount \<Rightarrow> octets \<Rightarrow> octets \<Rightarrow> 's outcome" where [signatures]:
  "TALER_wallet_reserve_open_deposit_sign L amt reserve_sig priv =
     obind (TALER_amount_hton (htonll L) amt) (\<lambda>amt_n.
        Done (eddsa_sign L priv (TALER_SIGNATURE_WALLET_RESERVE_OPEN_DEPOSIT, TALER_ReserveOpenDepositPS
           reserve_sig amt_n)))"

definition TALER_wallet_reserve_open_deposit_verify ::
  "'s library \<Rightarrow> amount \<Rightarrow> octets \<Rightarrow> octets \<Rightarrow> 's
     \<Rightarrow> generic_return outcome" where [signatures]:
  "TALER_wallet_reserve_open_deposit_verify L amt reserve_sig pub sig =
     obind (TALER_amount_hton (htonll L) amt) (\<lambda>amt_n.
        Done (eddsa_verify L TALER_SIGNATURE_WALLET_RESERVE_OPEN_DEPOSIT
           (TALER_SIGNATURE_WALLET_RESERVE_OPEN_DEPOSIT, TALER_ReserveOpenDepositPS reserve_sig amt_n)
           sig pub))"

definition TALER_wallet_reserve_close_sign ::
  "'s library \<Rightarrow> 64 word \<Rightarrow> octets option \<Rightarrow> octets \<Rightarrow> 's
     outcome" where [signatures]:
  "TALER_wallet_reserve_close_sign L request_timestamp h_payto priv =
     Done (eddsa_sign L priv (TALER_SIGNATURE_WALLET_RESERVE_CLOSE, TALER_ReserveClosePS (timestamp_hton
        L request_timestamp) (zeroed 32 h_payto)))"

definition TALER_wallet_reserve_close_verify ::
  "'s library \<Rightarrow> 64 word \<Rightarrow> octets option \<Rightarrow> octets \<Rightarrow> 's
     \<Rightarrow> generic_return outcome" where [signatures]:
  "TALER_wallet_reserve_close_verify L request_timestamp h_payto pub sig =
     Done (eddsa_verify L TALER_SIGNATURE_WALLET_RESERVE_CLOSE (TALER_SIGNATURE_WALLET_RESERVE_CLOSE,
        TALER_ReserveClosePS (timestamp_hton L request_timestamp) (zeroed 32 h_payto)) sig pub)"

definition TALER_wallet_reserve_attest_request_sign ::
  "'s library \<Rightarrow> 64 word \<Rightarrow> ('j \<Rightarrow> octets) \<Rightarrow> 'j
     \<Rightarrow> octets \<Rightarrow> 's outcome" where [signatures]:
  "TALER_wallet_reserve_attest_request_sign L request_timestamp json_hash details priv =
     Done (eddsa_sign L priv (TALER_SIGNATURE_WALLET_RESERVE_ATTEST_DETAILS, TALER_ReserveAttestRequestPS
        (timestamp_hton L request_timestamp) (json_hash details)))"

definition TALER_wallet_reserve_attest_request_verify ::
  "'s library \<Rightarrow> 64 word \<Rightarrow> ('j \<Rightarrow> octets) \<Rightarrow> 'j
     \<Rightarrow> octets \<Rightarrow> 's \<Rightarrow> generic_return outcome" where [signatures]:
  "TALER_wallet_reserve_attest_request_verify L request_timestamp json_hash details pub sig =
     Done (eddsa_verify L TALER_SIGNATURE_WALLET_RESERVE_ATTEST_DETAILS
        (TALER_SIGNATURE_WALLET_RESERVE_ATTEST_DETAILS, TALER_ReserveAttestRequestPS (timestamp_hton L
        request_timestamp) (json_hash details)) sig pub)"

definition TALER_wallet_econtract_upload_sign ::
  "'s library \<Rightarrow> octets \<Rightarrow> octets \<Rightarrow> octets \<Rightarrow> 's outcome" where [signatures]:
  "TALER_wallet_econtract_upload_sign L econtract contract_pub priv =
     Done (eddsa_sign L priv (TALER_SIGNATURE_WALLET_PURSE_ECONTRACT, TALER_PurseContractPS (crypto_hash
        L econtract) contract_pub))"

definition TALER_wallet_econtract_upload_verify2 ::
  "'s library \<Rightarrow> octets \<Rightarrow> octets \<Rightarrow> octets \<Rightarrow> 's
     \<Rightarrow> generic_return outcome" where [signatures]:
  "TALER_wallet_econtract_upload_verify2 L h_econtract contract_pub pub sig =
     Done (eddsa_verify L TALER_SIGNATURE_WALLET_PURSE_ECONTRACT (TALER_SIGNATURE_WALLET_PURSE_ECONTRACT,
        TALER_PurseContractPS h_econtract contract_pub) sig pub)"

definition TALER_wallet_econtract_upload_verify ::
  "'s library \<Rightarrow> octets \<Rightarrow> octets \<Rightarrow> octets \<Rightarrow> 's
     \<Rightarrow> generic_return outcome" where [signatures]:
  "TALER_wallet_econtract_upload_verify L econtract contract_pub pub sig =
     TALER_wallet_econtract_upload_verify2 L (crypto_hash L econtract) contract_pub pub sig"

definition TALER_wallet_token_use_sign ::
  "'s library \<Rightarrow> octets \<Rightarrow> octets \<Rightarrow> octets \<Rightarrow> 's outcome" where [signatures]:
  "TALER_wallet_token_use_sign L h_contract_terms data_hash priv =
     Done (eddsa_sign L priv (TALER_SIGNATURE_WALLET_TOKEN_USE, TALER_TokenUseRequestPS h_contract_terms
        data_hash))"

definition TALER_wallet_token_use_verify ::
  "'s library \<Rightarrow> octets \<Rightarrow> octets \<Rightarrow> octets \<Rightarrow> 's
     \<Rightarrow> generic_return outcome" where [signatures]:
  "TALER_wallet_token_use_verify L h_contract_terms data_hash pub sig =
     Done (eddsa_verify L TALER_SIGNATURE_WALLET_TOKEN_USE (TALER_SIGNATURE_WALLET_TOKEN_USE,
        TALER_TokenUseRequestPS h_contract_terms data_hash) sig pub)"

definition TALER_merchant_refund_sign ::
  "'s library \<Rightarrow> octets \<Rightarrow> octets \<Rightarrow> 64 word \<Rightarrow> amount
     \<Rightarrow> octets \<Rightarrow> 's outcome" where [signatures]:
  "TALER_merchant_refund_sign L coin_pub h_contract_terms rtransaction_id amt priv =
     obind (TALER_amount_hton (htonll L) amt) (\<lambda>amt_n.
        Done (eddsa_sign L priv (TALER_SIGNATURE_MERCHANT_REFUND, TALER_RefundRequestPS h_contract_terms
           coin_pub (htonll L rtransaction_id) amt_n)))"

definition TALER_merchant_refund_verify ::
  "'s library \<Rightarrow> octets \<Rightarrow> octets \<Rightarrow> 64 word \<Rightarrow> amount
     \<Rightarrow> octets \<Rightarrow> 's \<Rightarrow> generic_return outcome" where [signatures]:
  "TALER_merchant_refund_verify L coin_pub h_contract_terms rtransaction_id amt pub sig =
     obind (TALER_amount_hton (htonll L) amt) (\<lambda>amt_n.
        Done (eddsa_verify L TALER_SIGNATURE_MERCHANT_REFUND (TALER_SIGNATURE_MERCHANT_REFUND,
           TALER_RefundRequestPS h_contract_terms coin_pub (htonll L rtransaction_id) amt_n) sig pub))"

definition TALER_exchange_online_confirm_recoup_sign ::
  "'s library \<Rightarrow> (purpose \<times> signed_data \<Rightarrow> 'r) \<Rightarrow> 64 word
     \<Rightarrow> amount \<Rightarrow> octets \<Rightarrow> octets \<Rightarrow> 'r outcome" where [signatures]:
  "TALER_exchange_online_confirm_recoup_sign L scb timestamp amt coin_pub reserve_pub =
     obind (TALER_amount_hton (htonll L) amt) (\<lambda>amt_n.
        Done (scb (TALER_SIGNATURE_EXCHANGE_CONFIRM_RECOUP, TALER_RecoupConfirmationPS (timestamp_hton L
           timestamp) amt_n coin_pub reserve_pub)))"

definition TALER_exchange_online_confirm_recoup_verify ::
  "'s library \<Rightarrow> 64 word \<Rightarrow> amount \<Rightarrow> octets \<Rightarrow> octets
     \<Rightarrow> octets \<Rightarrow> 's \<Rightarrow> generic_return outcome" where [signatures]:
  "TALER_exchange_online_confirm_recoup_verify L timestamp amt coin_pub reserve_pub pub sig =
     obind (TALER_amount_hton (htonll L) amt) (\<lambda>amt_n.
        Done (eddsa_verify L TALER_SIGNATURE_EXCHANGE_CONFIRM_RECOUP
           (TALER_SIGNATURE_EXCHANGE_CONFIRM_RECOUP, TALER_RecoupConfirmationPS (timestamp_hton L
           timestamp) amt_n coin_pub reserve_pub) sig pub))"

definition TALER_exchange_online_confirm_recoup_refresh_sign ::
  "'s library \<Rightarrow> (purpose \<times> signed_data \<Rightarrow> 'r) \<Rightarrow> 64 word
     \<Rightarrow> amount \<Rightarrow> octets \<Rightarrow> octets \<Rightarrow> 'r outcome" where [signatures]:
  "TALER_exchange_online_confirm_recoup_refresh_sign L scb timestamp amt coin_pub old_coin_pub =
     obind (TALER_amount_hton (htonll L) amt) (\<lambda>amt_n.
        Done (scb (TALER_SIGNATURE_EXCHANGE_CONFIRM_RECOUP_REFRESH, TALER_RecoupRefreshConfirmationPS
           (timestamp_hton L timestamp) amt_n coin_pub old_coin_pub)))"

definition TALER_exchange_online_confirm_recoup_refresh_verify ::
  "'s library \<Rightarrow> 64 word \<Rightarrow> amount \<Rightarrow> octets \<Rightarrow> octets
     \<Rightarrow> octets \<Rightarrow> 's \<Rightarrow> generic_return outcome" where [signatures]:
  "TALER_exchange_online_confirm_recoup_refresh_verify L timestamp amt coin_pub old_coin_pub pub sig =
     obind (TALER_amount_hton (htonll L) amt) (\<lambda>amt_n.
        Done (eddsa_verify L TALER_SIGNATURE_EXCHANGE_CONFIRM_RECOUP_REFRESH
           (TALER_SIGNATURE_EXCHANGE_CONFIRM_RECOUP_REFRESH, TALER_RecoupRefreshConfirmationPS
           (timestamp_hton L timestamp) amt_n coin_pub old_coin_pub) sig pub))"

definition TALER_exchange_online_purse_refund_sign ::
  "'s library \<Rightarrow> (purpose \<times> signed_data \<Rightarrow> 'r) \<Rightarrow> amount
     \<Rightarrow> amount \<Rightarrow> octets \<Rightarrow> octets \<Rightarrow> 'r outcome" where [signatures]:
  "TALER_exchange_online_purse_refund_sign L scb amt fee coin_pub purse_pub =
     obind (TALER_amount_hton (htonll L) amt) (\<lambda>amt_n.
        obind (TALER_amount_hton (htonll L) fee) (\<lambda>fee_n.
        Done (scb (TALER_SIGNATURE_EXCHANGE_CONFIRM_PURSE_REFUND, TALER_CoinPurseRefundConfirmationPS
           purse_pub coin_pub amt_n fee_n))))"

definition TALER_exchange_online_purse_refund_verify ::
  "'s library \<Rightarrow> amount \<Rightarrow> amount \<Rightarrow> octets \<Rightarrow> octets
     \<Rightarrow> octets \<Rightarrow> 's \<Rightarrow> generic_return outcome" where [signatures]:
  "TALER_exchange_online_purse_refund_verify L amt fee coin_pub purse_pub pub sig =
     obind (TALER_amount_hton (htonll L) amt) (\<lambda>amt_n.
        obind (TALER_amount_hton (htonll L) fee) (\<lambda>fee_n.
        Done (eddsa_verify L TALER_SIGNATURE_EXCHANGE_CONFIRM_PURSE_REFUND
           (TALER_SIGNATURE_EXCHANGE_CONFIRM_PURSE_REFUND, TALER_CoinPurseRefundConfirmationPS purse_pub
           coin_pub amt_n fee_n) sig pub)))"

section \<open>Verification accepts what signing produced\<close>

text \<open>A library whose verification accepts its own signatures.\<close>

definition accepts_own :: "'s library \<Rightarrow> bool" where
  "accepts_own L \<longleftrightarrow> (\<forall>k p m. eddsa_verify L p (p, m) (eddsa_sign L k (p, m)) (eddsa_public L k) = GNUNET_OK)"

lemma accepts_ownD: "accepts_own L \<Longrightarrow> eddsa_verify L p (p, m) (eddsa_sign L k (p, m)) (eddsa_public L k) = GNUNET_OK"
  by (simp add: accepts_own_def)

lemma obind_both: "obind m f = Done s \<Longrightarrow> (\<And>x. f x = Done s \<Longrightarrow> g x = Done r) \<Longrightarrow> obind m g = Done r"
  by (cases m) simp_all

section \<open>Properties\<close>

text \<open>
  C16: every signature that one of the wallet's signing functions or \<^verbatim>\<open>TALER_merchant_refund_sign\<close>
  produces is accepted by the verification function for the same request and the public key
  of the signer: both sides put the same fields, in the same encoding, under the same
  purpose. The library is only assumed to accept its own signatures.
\<close>

theorem wallet_signatures_roundtrip:
  assumes "accepts_own L"
  shows "(TALER_wallet_deposit_sign L amt fee h_wire h_contract_terms wallet_data_hash h_age_commitment
         h_policy h_denom_pub wallet_timestamp merchant_pub refund_deadline k = Done sig
         \<longrightarrow>
      TALER_wallet_deposit_verify L amt fee h_wire h_contract_terms wallet_data_hash
         h_age_commitment h_policy h_denom_pub wallet_timestamp merchant_pub refund_deadline
         (eddsa_public L k) sig = Done GNUNET_OK)
    \<and> (TALER_wallet_link_sign L h_denom_pub transfer_pub bch k = Done sig \<longrightarrow>
      TALER_wallet_link_verify L h_denom_pub transfer_pub bch (eddsa_public L k) sig = Done
         GNUNET_OK)
    \<and> (TALER_wallet_recoup_sign L h_denom_pub coin_bks k = Done sig \<longrightarrow>
      TALER_wallet_recoup_verify L h_denom_pub coin_bks (eddsa_public L k) sig = Done GNUNET_OK)
    \<and> (TALER_wallet_recoup_refresh_sign L h_denom_pub coin_bks k = Done sig \<longrightarrow>
      TALER_wallet_recoup_refresh_verify L h_denom_pub coin_bks (eddsa_public L k) sig = Done
         GNUNET_OK)
    \<and> (TALER_wallet_melt_sign L amt fee rc h_denom_pub h_age_commitment k = Done sig \<longrightarrow>
      TALER_wallet_melt_verify L amt fee rc h_denom_pub h_age_commitment (eddsa_public L k) sig =
         Done GNUNET_OK)
    \<and> (TALER_wallet_withdraw_sign L h_denom_pub amt bch k = Done sig \<longrightarrow>
      TALER_wallet_withdraw_verify L h_denom_pub amt bch (eddsa_public L k) sig = Done GNUNET_OK)
    \<and> (TALER_wallet_age_withdraw_sign L h_commitment amt msk max_age k = Done sig \<longrightarrow>
      TALER_wallet_age_withdraw_verify L h_commitment amt msk max_age (eddsa_public L k) sig = Done
         GNUNET_OK)
    \<and> (TALER_wallet_account_setup_sign L amt k = Done sig \<longrightarrow>
      TALER_wallet_account_setup_verify L amt (eddsa_public L k) sig = Done GNUNET_OK)
    \<and> (TALER_wallet_reserve_history_sign L start_off k = Done sig \<longrightarrow>
      TALER_wallet_reserve_history_verify L start_off (eddsa_public L k) sig = Done GNUNET_OK)
    \<and> (TALER_wallet_coin_history_sign L start_off k = Done sig \<longrightarrow>
      TALER_wallet_coin_history_verify L start_off (eddsa_public L k) sig = Done GNUNET_OK)
    \<and> (TALER_wallet_purse_create_sign L purse_expiration h_contract_terms merge_pub min_age amt k = Done
         sig \<longrightarrow>
      TALER_wallet_purse_create_verify L purse_expiration h_contract_terms merge_pub min_age amt
         (eddsa_public L k) sig = Done GNUNET_OK)
    \<and> (TALER_wallet_purse_delete_sign L k = Done sig \<longrightarrow>
      TALER_wallet_purse_delete_verify L (eddsa_public L k) sig = Done GNUNET_OK)
    \<and> (TALER_wallet_purse_status_sign L k = Done sig \<longrightarrow>
      TALER_wallet_purse_status_verify L (eddsa_public L k) sig = Done GNUNET_OK)
    \<and> (TALER_wallet_purse_deposit_sign L exchange_base_url purse_pub amt h_denom_pub phac k = Done sig
         \<longrightarrow>
      TALER_wallet_purse_deposit_verify L exchange_base_url purse_pub amt h_denom_pub phac
         (eddsa_public L k) sig = Done GNUNET_OK)
    \<and> (TALER_wallet_purse_merge_sign L reserve_uri merge_timestamp purse_pub k = Done sig
         \<longrightarrow>
      TALER_wallet_purse_merge_verify L reserve_uri merge_timestamp purse_pub (eddsa_public L k) sig
         = Done GNUNET_OK)
    \<and> (TALER_wallet_account_merge_sign L merge_timestamp purse_pub purse_expiration h_contract_terms amt
         fee min_age flags k = Done sig \<longrightarrow>
      TALER_wallet_account_merge_verify L merge_timestamp purse_pub purse_expiration
         h_contract_terms amt fee min_age flags (eddsa_public L k) sig = Done GNUNET_OK)
    \<and> (TALER_wallet_reserve_open_sign L amt request_timestamp reserve_expiration purse_limit k = Done sig
         \<longrightarrow>
      TALER_wallet_reserve_open_verify L amt request_timestamp reserve_expiration purse_limit
         (eddsa_public L k) sig = Done GNUNET_OK)
    \<and> (TALER_wallet_reserve_open_deposit_sign L amt reserve_sig k = Done sig \<longrightarrow>
      TALER_wallet_reserve_open_deposit_verify L amt reserve_sig (eddsa_public L k) sig = Done
         GNUNET_OK)
    \<and> (TALER_wallet_reserve_close_sign L request_timestamp h_payto k = Done sig \<longrightarrow>
      TALER_wallet_reserve_close_verify L request_timestamp h_payto (eddsa_public L k) sig = Done
         GNUNET_OK)
    \<and> (TALER_wallet_reserve_attest_request_sign L request_timestamp json_hash details k = Done sig
         \<longrightarrow>
      TALER_wallet_reserve_attest_request_verify L request_timestamp json_hash details (eddsa_public
         L k) sig = Done GNUNET_OK)
    \<and> (TALER_wallet_econtract_upload_sign L econtract contract_pub k = Done sig \<longrightarrow>
      TALER_wallet_econtract_upload_verify L econtract contract_pub (eddsa_public L k) sig = Done
         GNUNET_OK)
    \<and> (TALER_wallet_token_use_sign L h_contract_terms data_hash k = Done sig \<longrightarrow>
      TALER_wallet_token_use_verify L h_contract_terms data_hash (eddsa_public L k) sig = Done
         GNUNET_OK)
    \<and> (TALER_merchant_refund_sign L coin_pub h_contract_terms rtransaction_id amt k = Done sig
         \<longrightarrow>
      TALER_merchant_refund_verify L coin_pub h_contract_terms rtransaction_id amt (eddsa_public L
         k) sig = Done GNUNET_OK)"
  using assms
  by (intro conjI impI; simp only: signatures) (auto elim!: obind_both simp: gassert_def accepts_ownD split: if_splits)

text \<open>A sample library: a signature is the key with the message.\<close>

definition sample_library :: "(octets \<times> purpose \<times> signed_data) library" where
  "sample_library =
     \<lparr>eddsa_sign = (\<lambda>k m. (k, m)),
      eddsa_verify = (\<lambda>p m s pub. if s = (pub, m) \<and> fst m = p then GNUNET_OK else GNUNET_SYSERR),
      eddsa_public = (\<lambda>k. k), sig_bytes = fst, crypto_hash = (\<lambda>b. b), htonll = (\<lambda>w. w), timestamp_hton = (\<lambda>w. w),
      time_relative_hton = (\<lambda>w. w), crypto_kdf = (\<lambda>salt data ctx. salt @ data @ ctx)\<rparr>"

lemma sample_library_sel [simp]:
  "eddsa_sign sample_library = (\<lambda>k m. (k, m))" "eddsa_public sample_library = (\<lambda>k. k)"
  "eddsa_verify sample_library = (\<lambda>p m s pub. if s = (pub, m) \<and> fst m = p then GNUNET_OK else GNUNET_SYSERR)"
  "sig_bytes sample_library = fst" "crypto_hash sample_library = (\<lambda>b. b)" "htonll sample_library = (\<lambda>w. w)" "timestamp_hton sample_library = (\<lambda>w. w)"
  by (simp_all add: sample_library_def)

theorem wallet_signatures_roundtrip_witness:
  "TALER_wallet_recoup_verify sample_library ''denom'' ''blind'' ''key''
     (''key'', TALER_SIGNATURE_WALLET_COIN_RECOUP, TALER_RecoupRequestPS ''denom'' ''blind'') = Done GNUNET_OK"
proof -
  have "accepts_own sample_library" by (simp add: accepts_own_def)
  note this [THEN wallet_signatures_roundtrip, THEN conjunct2, THEN conjunct2, THEN conjunct1]
  from this [of "''denom''" "''blind''" "''key''"] show ?thesis by (simp add: TALER_wallet_recoup_sign_def)
qed

text \<open>
  Unforgeability, as the hypothesis it is: a signature that was made for one message is
  accepted for no other message.
\<close>

definition binding :: "'s library \<Rightarrow> bool" where
  "binding L \<longleftrightarrow> (\<forall>k p m q n. eddsa_verify L q (q, n) (eddsa_sign L k (p, m)) (eddsa_public L k) = GNUNET_OK
     \<longrightarrow> q = p \<and> n = m)"

lemma bindingD:
  "binding L \<Longrightarrow> eddsa_verify L q (q, n) (eddsa_sign L k (p, m)) (eddsa_public L k) = GNUNET_OK \<Longrightarrow> q = p \<and> n = m"
  unfolding binding_def by blast

lemma deposit_message:
  assumes "binding L"
    and "TALER_wallet_deposit_sign L amt fee h_wire h_contract_terms wallet_data_hash h_age_commitment h_policy
           h_denom_pub wallet_timestamp merchant_pub refund_deadline k = Done sig"
    and "TALER_wallet_deposit_verify L amt2 fee2 h_wire2 h_contract_terms2 wallet_data_hash2 h_age_commitment2 h_policy2
           h_denom_pub2 wallet_timestamp2 merchant_pub2 refund_deadline2 (eddsa_public L k) sig = Done GNUNET_OK"
  shows "\<exists>a f. TALER_amount_hton (htonll L) amt = Done a \<and> TALER_amount_hton (htonll L) amt2 = Done a
       \<and> TALER_amount_hton (htonll L) fee = Done f \<and> TALER_amount_hton (htonll L) fee2 = Done f
       \<and> TALER_DepositRequestPS h_contract_terms2 (zeroed 32 h_age_commitment2) (zeroed 64 h_policy2) h_wire2 h_denom_pub2
           (timestamp_hton L wallet_timestamp2) (timestamp_hton L refund_deadline2) a f merchant_pub2 (zeroed 64 wallet_data_hash2)
         = TALER_DepositRequestPS h_contract_terms (zeroed 32 h_age_commitment) (zeroed 64 h_policy) h_wire h_denom_pub
           (timestamp_hton L wallet_timestamp) (timestamp_hton L refund_deadline) a f merchant_pub (zeroed 64 wallet_data_hash)"
proof -
  obtain a f where n: "TALER_amount_hton (htonll L) amt = Done a" "TALER_amount_hton (htonll L) fee = Done f"
    and s: "sig = eddsa_sign L k (TALER_SIGNATURE_WALLET_COIN_DEPOSIT, TALER_DepositRequestPS h_contract_terms
      (zeroed 32 h_age_commitment) (zeroed 64 h_policy) h_wire h_denom_pub (timestamp_hton L wallet_timestamp)
      (timestamp_hton L refund_deadline) a f merchant_pub (zeroed 64 wallet_data_hash))"
    using assms(2) by (auto simp: TALER_wallet_deposit_sign_def obind_Done)
  obtain a2 f2 where n2: "TALER_amount_hton (htonll L) amt2 = Done a2" "TALER_amount_hton (htonll L) fee2 = Done f2"
    and v: "eddsa_verify L TALER_SIGNATURE_WALLET_COIN_DEPOSIT (TALER_SIGNATURE_WALLET_COIN_DEPOSIT,
      TALER_DepositRequestPS h_contract_terms2 (zeroed 32 h_age_commitment2) (zeroed 64 h_policy2) h_wire2 h_denom_pub2
      (timestamp_hton L wallet_timestamp2) (timestamp_hton L refund_deadline2) a2 f2 merchant_pub2
      (zeroed 64 wallet_data_hash2)) sig (eddsa_public L k) = GNUNET_OK"
    using assms(3) by (auto simp: TALER_wallet_deposit_verify_def obind_Done split: if_splits)
  show ?thesis using bindingD [OF assms(1) v [unfolded s]] n n2 by simp
qed

text \<open>
  C17: a deposit signature authorises one deposit only. If a signature that the wallet made for a
  deposit is accepted by \<^verbatim>\<open>TALER_wallet_deposit_verify\<close>, the verified request has the same amount,
  fee, merchant, account, contract, denomination and times as the signed one; the optional hashes
  agree up to the zero hash that stands for a missing one.
\<close>

theorem wallet_deposit_signature_binds:
  assumes "binding L" "inj (htonll L)" "inj (timestamp_hton L)"
    and "TALER_wallet_deposit_sign L amt fee h_wire h_contract_terms wallet_data_hash h_age_commitment h_policy
           h_denom_pub wallet_timestamp merchant_pub refund_deadline k = Done sig"
    and "TALER_wallet_deposit_verify L amt2 fee2 h_wire2 h_contract_terms2 wallet_data_hash2 h_age_commitment2 h_policy2
           h_denom_pub2 wallet_timestamp2 merchant_pub2 refund_deadline2 (eddsa_public L k) sig = Done GNUNET_OK"
  shows "amt2 = amt \<and> fee2 = fee \<and> h_wire2 = h_wire \<and> h_contract_terms2 = h_contract_terms
       \<and> h_denom_pub2 = h_denom_pub \<and> wallet_timestamp2 = wallet_timestamp \<and> merchant_pub2 = merchant_pub
       \<and> refund_deadline2 = refund_deadline \<and> zeroed 64 wallet_data_hash2 = zeroed 64 wallet_data_hash
       \<and> zeroed 32 h_age_commitment2 = zeroed 32 h_age_commitment \<and> zeroed 64 h_policy2 = zeroed 64 h_policy"
  using deposit_message [OF assms(1,4,5)] assms(2,3) hton_inj [OF assms(2)] by (auto simp: inj_eq)

theorem wallet_deposit_signature_binds_witness:
  "\<exists>sig. TALER_wallet_deposit_sign sample_library (eur 5) (eur 1) ''w'' ''c'' None None None ''d'' 7 ''m'' 9 ''key'' = Done sig
     \<and> TALER_wallet_deposit_verify sample_library (eur 6) (eur 1) ''w'' ''c'' None None None ''d'' 7 ''m'' 9 ''key'' sig
         \<noteq> Done GNUNET_OK"
proof -
  have v: "TALER_amount_hton ll (eur n) \<noteq> Abort" if "n \<le> max_units" for n ll
    using that by (simp add: TALER_amount_hton_def representable_valid)
  then obtain sig where s: "TALER_wallet_deposit_sign sample_library (eur 5) (eur 1) ''w'' ''c'' None None None ''d'' 7 ''m'' 9
      ''key'' = Done sig"
    using v [of 5 "\<lambda>w. w"] v [of 1 "\<lambda>w. w"] sample_library_sel
    by (cases "TALER_amount_hton (\<lambda>w. w) (eur 5)"; cases "TALER_amount_hton (\<lambda>w. w) (eur 1)")
      (auto simp: TALER_wallet_deposit_sign_def amount_consts)
  have "binding sample_library" "inj (htonll sample_library)" "inj (timestamp_hton sample_library)"
    by (auto simp: binding_def inj_def)
  moreover have "units (eur 6) = 6" "units (eur 5) = 5" by (simp_all add: amount_consts)
  then have "eur 6 \<noteq> eur 5" by auto
  ultimately show ?thesis
    using s wallet_deposit_signature_binds [where L = sample_library and k = "''key''", OF _ _ _ s, of "eur 6"]
    by auto
qed

end
