(* ===== verification/Exchange_Signatures.thy ===== *)
theory Exchange_Signatures
  imports Wallet_Signatures
begin

text \<open>
  The signatures of the exchange and of those who sign for it or check it: the online signing keys
  (\<^verbatim>\<open>exchange_signatures.c\<close>), the offline master key (\<^verbatim>\<open>offline_signatures.c\<close>), auditors, merchants, AML
  officers, the security modules and the owners of accounts (\<^verbatim>\<open>auditor_signatures.c\<close>, \<^verbatim>\<open>merchant_signatures.c\<close>,
  \<^verbatim>\<open>aml_signatures.c\<close>, \<^verbatim>\<open>secmod_signatures.c\<close>, \<^verbatim>\<open>kyc_signatures.c\<close>), all in \<^verbatim>\<open>src/src/util\<close>. Structures and
  library are those of \<open>Wallet_Signatures\<close>. The online functions hand the structure to a
  callback; \<open>json_hash\<close> stands for \<^verbatim>\<open>TALER_json_hash\<close>, and the signatures of coins are taken as bytes.
\<close>

section \<open>Hashed accounts and wire details\<close>

definition TALER_merchant_wire_signature_hash :: "'s library \<Rightarrow> string \<Rightarrow> octets \<Rightarrow> octets" where
  "TALER_merchant_wire_signature_hash L payto_uri salt =
     crypto_kdf L salt (payto_uri @ [NUL]) ''merchant-wire-signature''"

text \<open>The details of a wire transfer go into a hash context, here the list of what was read so far.\<close>

datatype wire_deposit_detail = TALER_WireDepositDetailP octets "64 word" octets amount_nbo amount_nbo

definition TALER_exchange_online_wire_deposit_append ::
  "'s library \<Rightarrow> wire_deposit_detail list \<Rightarrow> octets \<Rightarrow> 64 word \<Rightarrow> octets \<Rightarrow> amount \<Rightarrow> amount
   \<Rightarrow> wire_deposit_detail list outcome" where
  "TALER_exchange_online_wire_deposit_append L hash_context h_contract_terms execution_time coin_pub deposit_value deposit_fee =
     obind (TALER_amount_hton (htonll L) deposit_value) (\<lambda>value_n.
     obind (TALER_amount_hton (htonll L) deposit_fee) (\<lambda>fee_n.
     Done (hash_context @ [TALER_WireDepositDetailP h_contract_terms (timestamp_hton L execution_time) coin_pub value_n fee_n])))"

section \<open>Online signatures of the exchange\<close>

definition TALER_exchange_online_deposit_confirmation_sign ::
  "'s library \<Rightarrow> (purpose \<times> signed_data \<Rightarrow> 'r) \<Rightarrow> octets
     \<Rightarrow> octets \<Rightarrow> octets option \<Rightarrow> 64 word \<Rightarrow> 64 word
     \<Rightarrow> 64 word \<Rightarrow> amount \<Rightarrow> octets list \<Rightarrow> octets
     \<Rightarrow> 'r outcome" where [signatures]:
  "TALER_exchange_online_deposit_confirmation_sign L scb h_contract_terms h_wire h_policy
       exchange_timestamp wire_deadline refund_deadline amt coin_sigs merchant_pub =
     obind (TALER_amount_hton (htonll L) amt) (\<lambda>amt_n.
        Done (scb (TALER_SIGNATURE_EXCHANGE_CONFIRM_DEPOSIT, Exchange_data (TALER_DepositConfirmationPS
           h_contract_terms h_wire (zeroed 64 h_policy) (timestamp_hton L exchange_timestamp)
           (timestamp_hton L wire_deadline) (timestamp_hton L refund_deadline) amt_n (crypto_hash L
           (concat coin_sigs)) merchant_pub))))"

definition TALER_exchange_online_deposit_confirmation_verify ::
  "'s library \<Rightarrow> octets \<Rightarrow> octets \<Rightarrow> octets option \<Rightarrow> 64 word
     \<Rightarrow> 64 word \<Rightarrow> 64 word \<Rightarrow> amount \<Rightarrow> octets list
     \<Rightarrow> octets \<Rightarrow> octets \<Rightarrow> 's \<Rightarrow> generic_return outcome" where [signatures]:
  "TALER_exchange_online_deposit_confirmation_verify L h_contract_terms h_wire h_policy
       exchange_timestamp wire_deadline refund_deadline amt coin_sigs merchant_pub pub sig =
     obind (TALER_amount_hton (htonll L) amt) (\<lambda>amt_n.
        Done (if eddsa_verify L TALER_SIGNATURE_EXCHANGE_CONFIRM_DEPOSIT
           (TALER_SIGNATURE_EXCHANGE_CONFIRM_DEPOSIT, Exchange_data (TALER_DepositConfirmationPS
           h_contract_terms h_wire (zeroed 64 h_policy) (timestamp_hton L exchange_timestamp)
           (timestamp_hton L wire_deadline) (timestamp_hton L refund_deadline) amt_n (crypto_hash L
           (concat coin_sigs)) merchant_pub)) sig pub \<noteq> GNUNET_OK then GNUNET_SYSERR else
           GNUNET_OK))"

definition TALER_exchange_online_refund_confirmation_sign ::
  "'s library \<Rightarrow> (purpose \<times> signed_data \<Rightarrow> 'r) \<Rightarrow> octets
     \<Rightarrow> octets \<Rightarrow> octets \<Rightarrow> 64 word \<Rightarrow> amount \<Rightarrow>
     'r outcome" where [signatures]:
  "TALER_exchange_online_refund_confirmation_sign L scb h_contract_terms coin_pub merchant
       rtransaction_id amt =
     obind (TALER_amount_hton (htonll L) amt) (\<lambda>amt_n.
        Done (scb (TALER_SIGNATURE_EXCHANGE_CONFIRM_REFUND, Exchange_data (TALER_RefundConfirmationPS
           h_contract_terms coin_pub merchant (htonll L rtransaction_id) amt_n))))"

definition TALER_exchange_online_refund_confirmation_verify ::
  "'s library \<Rightarrow> octets \<Rightarrow> octets \<Rightarrow> octets \<Rightarrow> 64 word
     \<Rightarrow> amount \<Rightarrow> octets \<Rightarrow> 's \<Rightarrow> generic_return outcome" where [signatures]:
  "TALER_exchange_online_refund_confirmation_verify L h_contract_terms coin_pub merchant rtransaction_id
       amt pub sig =
     obind (TALER_amount_hton (htonll L) amt) (\<lambda>amt_n.
        Done (if eddsa_verify L TALER_SIGNATURE_EXCHANGE_CONFIRM_REFUND
           (TALER_SIGNATURE_EXCHANGE_CONFIRM_REFUND, Exchange_data (TALER_RefundConfirmationPS
           h_contract_terms coin_pub merchant (htonll L rtransaction_id) amt_n)) sig pub \<noteq>
           GNUNET_OK then GNUNET_SYSERR else GNUNET_OK))"

definition TALER_exchange_online_melt_confirmation_sign ::
  "'s library \<Rightarrow> (purpose \<times> signed_data \<Rightarrow> 'r) \<Rightarrow> octets
     \<Rightarrow> 32 word \<Rightarrow> 'r outcome" where [signatures]:
  "TALER_exchange_online_melt_confirmation_sign L scb rc noreveal_index =
     Done (scb (TALER_SIGNATURE_EXCHANGE_CONFIRM_MELT, Exchange_data (TALER_RefreshMeltConfirmationPS rc
        (bswap32 noreveal_index))))"

definition TALER_exchange_online_melt_confirmation_verify ::
  "'s library \<Rightarrow> octets \<Rightarrow> 32 word \<Rightarrow> octets \<Rightarrow> 's
     \<Rightarrow> generic_return outcome" where [signatures]:
  "TALER_exchange_online_melt_confirmation_verify L rc noreveal_index pub sig =
     Done (eddsa_verify L TALER_SIGNATURE_EXCHANGE_CONFIRM_MELT (TALER_SIGNATURE_EXCHANGE_CONFIRM_MELT,
        Exchange_data (TALER_RefreshMeltConfirmationPS rc (bswap32 noreveal_index))) sig pub)"

definition TALER_exchange_online_age_withdraw_confirmation_sign ::
  "'s library \<Rightarrow> (purpose \<times> signed_data \<Rightarrow> 'r) \<Rightarrow> octets
     \<Rightarrow> 32 word \<Rightarrow> 'r outcome" where [signatures]:
  "TALER_exchange_online_age_withdraw_confirmation_sign L scb h_commitment noreveal_index =
     Done (scb (TALER_SIGNATURE_EXCHANGE_CONFIRM_AGE_WITHDRAW, Exchange_data
        (TALER_AgeWithdrawConfirmationPS h_commitment (bswap32 noreveal_index))))"

definition TALER_exchange_online_age_withdraw_confirmation_verify ::
  "'s library \<Rightarrow> octets \<Rightarrow> 32 word \<Rightarrow> octets \<Rightarrow> 's
     \<Rightarrow> generic_return outcome" where [signatures]:
  "TALER_exchange_online_age_withdraw_confirmation_verify L h_commitment noreveal_index pub sig =
     Done (if eddsa_verify L TALER_SIGNATURE_EXCHANGE_CONFIRM_AGE_WITHDRAW
        (TALER_SIGNATURE_EXCHANGE_CONFIRM_AGE_WITHDRAW, Exchange_data (TALER_AgeWithdrawConfirmationPS
        h_commitment (bswap32 noreveal_index))) sig pub \<noteq> GNUNET_OK then GNUNET_SYSERR else
        GNUNET_OK)"

definition TALER_exchange_online_key_set_sign ::
  "'s library \<Rightarrow> ('c \<Rightarrow> purpose \<times> signed_data \<Rightarrow> 'r)
     \<Rightarrow> 'c \<Rightarrow> 64 word \<Rightarrow> octets \<Rightarrow> 'r outcome" where [signatures]:
  "TALER_exchange_online_key_set_sign L scb cls timestamp hc =
     Done (scb cls (TALER_SIGNATURE_EXCHANGE_KEY_SET, Exchange_data (TALER_ExchangeKeySetPS
        (timestamp_hton L timestamp) hc)))"

definition TALER_exchange_online_key_set_verify ::
  "'s library \<Rightarrow> 64 word \<Rightarrow> octets \<Rightarrow> octets \<Rightarrow> 's
     \<Rightarrow> generic_return outcome" where [signatures]:
  "TALER_exchange_online_key_set_verify L timestamp hc pub sig =
     Done (eddsa_verify L TALER_SIGNATURE_EXCHANGE_KEY_SET (TALER_SIGNATURE_EXCHANGE_KEY_SET,
        Exchange_data (TALER_ExchangeKeySetPS (timestamp_hton L timestamp) hc)) sig pub)"

definition TALER_exchange_online_wire_deposit_sign ::
  "'s library \<Rightarrow> (purpose \<times> signed_data \<Rightarrow> 'r) \<Rightarrow> amount
     \<Rightarrow> amount \<Rightarrow> octets \<Rightarrow> string \<Rightarrow> octets \<Rightarrow> 'r
     outcome" where [signatures]:
  "TALER_exchange_online_wire_deposit_sign L scb amt fee merchant_pub payto h_details =
     obind (TALER_amount_hton (htonll L) amt) (\<lambda>amt_n.
        obind (TALER_amount_hton (htonll L) fee) (\<lambda>fee_n.
        obind (TALER_full_payto_hash (crypto_hash L) 32 (Some payto)) (\<lambda>h_payto.
        Done (scb (TALER_SIGNATURE_EXCHANGE_CONFIRM_WIRE_DEPOSIT, Exchange_data (TALER_WireDepositDataPS
           amt_n fee_n merchant_pub h_payto h_details))))))"

definition TALER_exchange_online_wire_deposit_verify ::
  "'s library \<Rightarrow> amount \<Rightarrow> amount \<Rightarrow> octets \<Rightarrow> octets
     \<Rightarrow> octets \<Rightarrow> octets \<Rightarrow> 's \<Rightarrow> generic_return outcome" where [signatures]:
  "TALER_exchange_online_wire_deposit_verify L amt fee merchant_pub h_payto h_details pub sig =
     obind (TALER_amount_hton (htonll L) amt) (\<lambda>amt_n.
        obind (TALER_amount_hton (htonll L) fee) (\<lambda>fee_n.
        Done (eddsa_verify L TALER_SIGNATURE_EXCHANGE_CONFIRM_WIRE_DEPOSIT
           (TALER_SIGNATURE_EXCHANGE_CONFIRM_WIRE_DEPOSIT, Exchange_data (TALER_WireDepositDataPS amt_n
           fee_n merchant_pub h_payto h_details)) sig pub)))"

definition TALER_exchange_online_confirm_wire_sign ::
  "'s library \<Rightarrow> (purpose \<times> signed_data \<Rightarrow> 'r) \<Rightarrow> octets
     \<Rightarrow> octets \<Rightarrow> octets \<Rightarrow> octets \<Rightarrow> 64 word \<Rightarrow>
     amount \<Rightarrow> 'r outcome" where [signatures]:
  "TALER_exchange_online_confirm_wire_sign L scb h_wire h_contract_terms wtid coin_pub execution_time amt
       =
     obind (TALER_amount_hton (htonll L) amt) (\<lambda>amt_n.
        Done (scb (TALER_SIGNATURE_EXCHANGE_CONFIRM_WIRE, Exchange_data (TALER_ConfirmWirePS h_wire
           h_contract_terms wtid coin_pub (timestamp_hton L execution_time) amt_n))))"

definition TALER_exchange_online_confirm_wire_verify ::
  "'s library \<Rightarrow> octets \<Rightarrow> octets \<Rightarrow> octets \<Rightarrow> octets
     \<Rightarrow> 64 word \<Rightarrow> amount \<Rightarrow> octets \<Rightarrow> 's \<Rightarrow>
     generic_return outcome" where [signatures]:
  "TALER_exchange_online_confirm_wire_verify L h_wire h_contract_terms wtid coin_pub execution_time amt
       pub sig =
     obind (TALER_amount_hton (htonll L) amt) (\<lambda>amt_n.
        Done (eddsa_verify L TALER_SIGNATURE_EXCHANGE_CONFIRM_WIRE
           (TALER_SIGNATURE_EXCHANGE_CONFIRM_WIRE, Exchange_data (TALER_ConfirmWirePS h_wire
           h_contract_terms wtid coin_pub (timestamp_hton L execution_time) amt_n)) sig pub))"

definition TALER_exchange_online_denomination_unknown_sign ::
  "'s library \<Rightarrow> (purpose \<times> signed_data \<Rightarrow> 'r) \<Rightarrow> 64 word
     \<Rightarrow> octets \<Rightarrow> 'r outcome" where [signatures]:
  "TALER_exchange_online_denomination_unknown_sign L scb timestamp h_denom_pub =
     Done (scb (TALER_SIGNATURE_EXCHANGE_AFFIRM_DENOM_UNKNOWN, Exchange_data
        (TALER_DenominationUnknownAffirmationPS (timestamp_hton L timestamp) h_denom_pub)))"

definition TALER_exchange_online_denomination_unknown_verify ::
  "'s library \<Rightarrow> 64 word \<Rightarrow> octets \<Rightarrow> octets \<Rightarrow> 's
     \<Rightarrow> generic_return outcome" where [signatures]:
  "TALER_exchange_online_denomination_unknown_verify L timestamp h_denom_pub pub sig =
     Done (eddsa_verify L TALER_SIGNATURE_EXCHANGE_AFFIRM_DENOM_UNKNOWN
        (TALER_SIGNATURE_EXCHANGE_AFFIRM_DENOM_UNKNOWN, Exchange_data
        (TALER_DenominationUnknownAffirmationPS (timestamp_hton L timestamp) h_denom_pub)) sig pub)"

definition TALER_exchange_online_denomination_expired_sign ::
  "'s library \<Rightarrow> (purpose \<times> signed_data \<Rightarrow> 'r) \<Rightarrow> 64 word
     \<Rightarrow> octets \<Rightarrow> string \<Rightarrow> 'r outcome" where [signatures]:
  "TALER_exchange_online_denomination_expired_sign L scb timestamp h_denom_pub operation =
     Done (scb (TALER_SIGNATURE_EXCHANGE_AFFIRM_DENOM_EXPIRED, Exchange_data
        (TALER_DenominationExpiredAffirmationPS (timestamp_hton L timestamp) (take 8 (operation @
        replicate 8 NUL)) h_denom_pub)))"

definition TALER_exchange_online_denomination_expired_verify ::
  "'s library \<Rightarrow> 64 word \<Rightarrow> octets \<Rightarrow> string \<Rightarrow> octets
     \<Rightarrow> 's \<Rightarrow> generic_return outcome" where [signatures]:
  "TALER_exchange_online_denomination_expired_verify L timestamp h_denom_pub operation pub sig =
     Done (eddsa_verify L TALER_SIGNATURE_EXCHANGE_AFFIRM_DENOM_EXPIRED
        (TALER_SIGNATURE_EXCHANGE_AFFIRM_DENOM_EXPIRED, Exchange_data
        (TALER_DenominationExpiredAffirmationPS (timestamp_hton L timestamp) (take 8 (operation @
        replicate 8 NUL)) h_denom_pub)) sig pub)"

definition TALER_exchange_online_reserve_closed_sign ::
  "'s library \<Rightarrow> (purpose \<times> signed_data \<Rightarrow> 'r) \<Rightarrow> 64 word
     \<Rightarrow> amount \<Rightarrow> amount \<Rightarrow> string \<Rightarrow> octets \<Rightarrow>
     octets \<Rightarrow> 'r outcome" where [signatures]:
  "TALER_exchange_online_reserve_closed_sign L scb timestamp amt fee payto wtid reserve_pub =
     obind (TALER_amount_hton (htonll L) amt) (\<lambda>amt_n.
        obind (TALER_amount_hton (htonll L) fee) (\<lambda>fee_n.
        obind (TALER_full_payto_hash (crypto_hash L) 32 (Some payto)) (\<lambda>h_payto.
        Done (scb (TALER_SIGNATURE_EXCHANGE_RESERVE_CLOSED, Exchange_data
           (TALER_ReserveCloseConfirmationPS (timestamp_hton L timestamp) amt_n fee_n reserve_pub h_payto
           wtid))))))"

definition TALER_exchange_online_reserve_closed_verify ::
  "'s library \<Rightarrow> 64 word \<Rightarrow> amount \<Rightarrow> amount \<Rightarrow> string
     \<Rightarrow> octets \<Rightarrow> octets \<Rightarrow> octets \<Rightarrow> 's \<Rightarrow>
     generic_return outcome" where [signatures]:
  "TALER_exchange_online_reserve_closed_verify L timestamp amt fee payto wtid reserve_pub pub sig =
     obind (TALER_amount_hton (htonll L) amt) (\<lambda>amt_n.
        obind (TALER_amount_hton (htonll L) fee) (\<lambda>fee_n.
        obind (TALER_full_payto_hash (crypto_hash L) 32 (Some payto)) (\<lambda>h_payto.
        Done (eddsa_verify L TALER_SIGNATURE_EXCHANGE_RESERVE_CLOSED
           (TALER_SIGNATURE_EXCHANGE_RESERVE_CLOSED, Exchange_data (TALER_ReserveCloseConfirmationPS
           (timestamp_hton L timestamp) amt_n fee_n reserve_pub h_payto wtid)) sig pub))))"

definition TALER_exchange_online_purse_created_sign ::
  "'s library \<Rightarrow> (purpose \<times> signed_data \<Rightarrow> 'r) \<Rightarrow> 64 word
     \<Rightarrow> 64 word \<Rightarrow> amount \<Rightarrow> amount \<Rightarrow> octets \<Rightarrow>
     octets \<Rightarrow> 'r outcome" where [signatures]:
  "TALER_exchange_online_purse_created_sign L scb exchange_time purse_expiration amt deposited purse_pub
       h_contract_terms =
     obind (TALER_amount_hton (htonll L) amt) (\<lambda>amt_n.
        obind (TALER_amount_hton (htonll L) deposited) (\<lambda>deposited_n.
        Done (scb (TALER_SIGNATURE_EXCHANGE_CONFIRM_PURSE_CREATION, Exchange_data
           (TALER_PurseCreateDepositConfirmationPS (timestamp_hton L exchange_time) (timestamp_hton L
           purse_expiration) amt_n deposited_n purse_pub h_contract_terms)))))"

definition TALER_exchange_online_purse_created_verify ::
  "'s library \<Rightarrow> 64 word \<Rightarrow> 64 word \<Rightarrow> amount \<Rightarrow> amount
     \<Rightarrow> octets \<Rightarrow> octets \<Rightarrow> octets \<Rightarrow> 's \<Rightarrow>
     generic_return outcome" where [signatures]:
  "TALER_exchange_online_purse_created_verify L exchange_time purse_expiration amt deposited purse_pub
       h_contract_terms pub sig =
     obind (TALER_amount_hton (htonll L) amt) (\<lambda>amt_n.
        obind (TALER_amount_hton (htonll L) deposited) (\<lambda>deposited_n.
        Done (eddsa_verify L TALER_SIGNATURE_EXCHANGE_CONFIRM_PURSE_CREATION
           (TALER_SIGNATURE_EXCHANGE_CONFIRM_PURSE_CREATION, Exchange_data
           (TALER_PurseCreateDepositConfirmationPS (timestamp_hton L exchange_time) (timestamp_hton L
           purse_expiration) amt_n deposited_n purse_pub h_contract_terms)) sig pub)))"

definition TALER_exchange_online_purse_merged_sign ::
  "'s library \<Rightarrow> (purpose \<times> signed_data \<Rightarrow> 'r) \<Rightarrow> 64 word
     \<Rightarrow> 64 word \<Rightarrow> amount \<Rightarrow> octets \<Rightarrow> octets \<Rightarrow>
     octets \<Rightarrow> string \<Rightarrow> 'r outcome" where [signatures]:
  "TALER_exchange_online_purse_merged_sign L scb exchange_time purse_expiration amt purse_pub
       h_contract_terms reserve_pub exchange_url =
     obind (TALER_amount_hton (htonll L) amt) (\<lambda>amt_n.
        Done (scb (TALER_SIGNATURE_EXCHANGE_CONFIRM_PURSE_MERGED, Exchange_data
           (TALER_PurseMergedConfirmationPS (timestamp_hton L exchange_time) (timestamp_hton L
           purse_expiration) amt_n purse_pub reserve_pub h_contract_terms (crypto_hash L (exchange_url @
           [NUL]))))))"

definition TALER_exchange_online_purse_merged_verify ::
  "'s library \<Rightarrow> 64 word \<Rightarrow> 64 word \<Rightarrow> amount \<Rightarrow> octets
     \<Rightarrow> octets \<Rightarrow> octets \<Rightarrow> string \<Rightarrow> octets \<Rightarrow> 's
     \<Rightarrow> generic_return outcome" where [signatures]:
  "TALER_exchange_online_purse_merged_verify L exchange_time purse_expiration amt purse_pub
       h_contract_terms reserve_pub exchange_url pub sig =
     obind (TALER_amount_hton (htonll L) amt) (\<lambda>amt_n.
        Done (eddsa_verify L TALER_SIGNATURE_EXCHANGE_CONFIRM_PURSE_MERGED
           (TALER_SIGNATURE_EXCHANGE_CONFIRM_PURSE_MERGED, Exchange_data (TALER_PurseMergedConfirmationPS
           (timestamp_hton L exchange_time) (timestamp_hton L purse_expiration) amt_n purse_pub
           reserve_pub h_contract_terms (crypto_hash L (exchange_url @ [NUL])))) sig pub))"

definition TALER_exchange_online_purse_status_sign ::
  "'s library \<Rightarrow> (purpose \<times> signed_data \<Rightarrow> 'r) \<Rightarrow> 64 word
     \<Rightarrow> 64 word \<Rightarrow> amount \<Rightarrow> 'r outcome" where [signatures]:
  "TALER_exchange_online_purse_status_sign L scb merge_timestamp deposit_timestamp amt =
     obind (TALER_amount_hton (htonll L) amt) (\<lambda>amt_n.
        Done (scb (TALER_SIGNATURE_EXCHANGE_PURSE_STATUS, Exchange_data (TALER_PurseStatusPS
           (timestamp_hton L merge_timestamp) (timestamp_hton L deposit_timestamp) amt_n))))"

definition TALER_exchange_online_purse_status_verify ::
  "'s library \<Rightarrow> 64 word \<Rightarrow> 64 word \<Rightarrow> amount \<Rightarrow> octets
     \<Rightarrow> 's \<Rightarrow> generic_return outcome" where [signatures]:
  "TALER_exchange_online_purse_status_verify L merge_timestamp deposit_timestamp amt pub sig =
     obind (TALER_amount_hton (htonll L) amt) (\<lambda>amt_n.
        Done (if eddsa_verify L TALER_SIGNATURE_EXCHANGE_PURSE_STATUS
           (TALER_SIGNATURE_EXCHANGE_PURSE_STATUS, Exchange_data (TALER_PurseStatusPS (timestamp_hton L
           merge_timestamp) (timestamp_hton L deposit_timestamp) amt_n)) sig pub \<noteq> GNUNET_OK then
           GNUNET_SYSERR else GNUNET_OK))"

definition TALER_exchange_online_reserve_attest_details_sign ::
  "'s library \<Rightarrow> (purpose \<times> signed_data \<Rightarrow> 'r) \<Rightarrow> 64 word
     \<Rightarrow> 64 word \<Rightarrow> octets \<Rightarrow> ('j \<Rightarrow> octets) \<Rightarrow> 'j
     \<Rightarrow> 'r outcome" where [signatures]:
  "TALER_exchange_online_reserve_attest_details_sign L scb attest_timestamp expiration_time reserve_pub
       json_hash attributes =
     Done (scb (TALER_SIGNATURE_EXCHANGE_RESERVE_ATTEST_DETAILS, Exchange_data (TALER_ExchangeAttestPS
        (timestamp_hton L attest_timestamp) (timestamp_hton L expiration_time) reserve_pub (json_hash
        attributes))))"

definition TALER_exchange_online_reserve_attest_details_verify ::
  "'s library \<Rightarrow> 64 word \<Rightarrow> 64 word \<Rightarrow> octets \<Rightarrow> ('j
     \<Rightarrow> octets) \<Rightarrow> 'j \<Rightarrow> octets \<Rightarrow> 's \<Rightarrow>
     generic_return outcome" where [signatures]:
  "TALER_exchange_online_reserve_attest_details_verify L attest_timestamp expiration_time reserve_pub
       json_hash attributes pub sig =
     Done (if eddsa_verify L TALER_SIGNATURE_EXCHANGE_RESERVE_ATTEST_DETAILS
        (TALER_SIGNATURE_EXCHANGE_RESERVE_ATTEST_DETAILS, Exchange_data (TALER_ExchangeAttestPS
        (timestamp_hton L attest_timestamp) (timestamp_hton L expiration_time) reserve_pub (json_hash
        attributes))) sig pub \<noteq> GNUNET_OK then GNUNET_SYSERR else GNUNET_OK)"

section \<open>Signatures with private keys\<close>

definition TALER_exchange_offline_aml_officer_status_sign ::
  "'s library \<Rightarrow> octets \<Rightarrow> string \<Rightarrow> 64 word \<Rightarrow> bool
     \<Rightarrow> bool \<Rightarrow> octets \<Rightarrow> 's outcome" where [signatures]:
  "TALER_exchange_offline_aml_officer_status_sign L officer_pub officer_name change_date active read_only
       priv =
     Done (eddsa_sign L priv (TALER_SIGNATURE_MASTER_AML_KEY, Master_data (TALER_MasterAmlOfficerStatusPS
        (timestamp_hton L change_date) officer_pub (crypto_hash L (officer_name @ [NUL])) (bswap32 ((if
        active then 1 else 0) + (if read_only then 2 else 0))))))"

definition TALER_exchange_offline_aml_officer_status_verify ::
  "'s library \<Rightarrow> octets \<Rightarrow> string \<Rightarrow> 64 word \<Rightarrow> bool
     \<Rightarrow> bool \<Rightarrow> octets \<Rightarrow> 's \<Rightarrow> generic_return outcome" where [signatures]:
  "TALER_exchange_offline_aml_officer_status_verify L officer_pub officer_name change_date active
       read_only pub sig =
     Done (eddsa_verify L TALER_SIGNATURE_MASTER_AML_KEY (TALER_SIGNATURE_MASTER_AML_KEY, Master_data
        (TALER_MasterAmlOfficerStatusPS (timestamp_hton L change_date) officer_pub (crypto_hash L
        (officer_name @ [NUL])) (bswap32 ((if active then 1 else 0) + (if read_only then 2 else 0)))))
        sig pub)"

definition TALER_exchange_offline_auditor_add_sign ::
  "'s library \<Rightarrow> octets \<Rightarrow> string \<Rightarrow> 64 word \<Rightarrow> octets
     \<Rightarrow> 's outcome" where [signatures]:
  "TALER_exchange_offline_auditor_add_sign L auditor_pub auditor_url start_date priv =
     Done (eddsa_sign L priv (TALER_SIGNATURE_MASTER_ADD_AUDITOR, Master_data (TALER_MasterAddAuditorPS
        (timestamp_hton L start_date) auditor_pub (crypto_hash L (auditor_url @ [NUL])))))"

definition TALER_exchange_offline_auditor_add_verify ::
  "'s library \<Rightarrow> octets \<Rightarrow> string \<Rightarrow> 64 word \<Rightarrow> octets
     \<Rightarrow> 's \<Rightarrow> generic_return outcome" where [signatures]:
  "TALER_exchange_offline_auditor_add_verify L auditor_pub auditor_url start_date pub sig =
     Done (eddsa_verify L TALER_SIGNATURE_MASTER_ADD_AUDITOR (TALER_SIGNATURE_MASTER_ADD_AUDITOR,
        Master_data (TALER_MasterAddAuditorPS (timestamp_hton L start_date) auditor_pub (crypto_hash L
        (auditor_url @ [NUL])))) sig pub)"

definition TALER_exchange_offline_auditor_del_sign ::
  "'s library \<Rightarrow> octets \<Rightarrow> 64 word \<Rightarrow> octets \<Rightarrow> 's outcome" where [signatures]:
  "TALER_exchange_offline_auditor_del_sign L auditor_pub end_date priv =
     Done (eddsa_sign L priv (TALER_SIGNATURE_MASTER_DEL_AUDITOR, Master_data (TALER_MasterDelAuditorPS
        (timestamp_hton L end_date) auditor_pub)))"

definition TALER_exchange_offline_auditor_del_verify ::
  "'s library \<Rightarrow> octets \<Rightarrow> 64 word \<Rightarrow> octets \<Rightarrow> 's
     \<Rightarrow> generic_return outcome" where [signatures]:
  "TALER_exchange_offline_auditor_del_verify L auditor_pub end_date pub sig =
     Done (eddsa_verify L TALER_SIGNATURE_MASTER_DEL_AUDITOR (TALER_SIGNATURE_MASTER_DEL_AUDITOR,
        Master_data (TALER_MasterDelAuditorPS (timestamp_hton L end_date) auditor_pub)) sig pub)"

definition TALER_exchange_offline_denomination_revoke_sign ::
  "'s library \<Rightarrow> octets \<Rightarrow> octets \<Rightarrow> 's outcome" where [signatures]:
  "TALER_exchange_offline_denomination_revoke_sign L h_denom_pub priv =
     Done (eddsa_sign L priv (TALER_SIGNATURE_MASTER_DENOMINATION_KEY_REVOKED, Master_data
        (TALER_MasterDenominationKeyRevocationPS h_denom_pub)))"

definition TALER_exchange_offline_denomination_revoke_verify ::
  "'s library \<Rightarrow> octets \<Rightarrow> octets \<Rightarrow> 's \<Rightarrow> generic_return
     outcome" where [signatures]:
  "TALER_exchange_offline_denomination_revoke_verify L h_denom_pub pub sig =
     Done (eddsa_verify L TALER_SIGNATURE_MASTER_DENOMINATION_KEY_REVOKED
        (TALER_SIGNATURE_MASTER_DENOMINATION_KEY_REVOKED, Master_data
        (TALER_MasterDenominationKeyRevocationPS h_denom_pub)) sig pub)"

definition TALER_exchange_offline_signkey_revoke_sign ::
  "'s library \<Rightarrow> octets \<Rightarrow> octets \<Rightarrow> 's outcome" where [signatures]:
  "TALER_exchange_offline_signkey_revoke_sign L exchange_pub priv =
     Done (eddsa_sign L priv (TALER_SIGNATURE_MASTER_SIGNING_KEY_REVOKED, Master_data
        (TALER_MasterSigningKeyRevocationPS exchange_pub)))"

definition TALER_exchange_offline_signkey_revoke_verify ::
  "'s library \<Rightarrow> octets \<Rightarrow> octets \<Rightarrow> 's \<Rightarrow> generic_return
     outcome" where [signatures]:
  "TALER_exchange_offline_signkey_revoke_verify L exchange_pub pub sig =
     Done (eddsa_verify L TALER_SIGNATURE_MASTER_SIGNING_KEY_REVOKED
        (TALER_SIGNATURE_MASTER_SIGNING_KEY_REVOKED, Master_data (TALER_MasterSigningKeyRevocationPS
        exchange_pub)) sig pub)"

definition TALER_exchange_offline_signkey_validity_sign ::
  "'s library \<Rightarrow> octets \<Rightarrow> 64 word \<Rightarrow> 64 word \<Rightarrow> 64 word
     \<Rightarrow> octets \<Rightarrow> 's outcome" where [signatures]:
  "TALER_exchange_offline_signkey_validity_sign L exchange_pub start_sign end_sign end_legal priv =
     Done (eddsa_sign L priv (TALER_SIGNATURE_MASTER_SIGNING_KEY_VALIDITY, Master_data
        (TALER_ExchangeSigningKeyValidityPS (timestamp_hton L start_sign) (timestamp_hton L end_sign)
        (timestamp_hton L end_legal) exchange_pub)))"

definition TALER_exchange_offline_signkey_validity_verify ::
  "'s library \<Rightarrow> octets \<Rightarrow> 64 word \<Rightarrow> 64 word \<Rightarrow> 64 word
     \<Rightarrow> octets \<Rightarrow> 's \<Rightarrow> generic_return outcome" where [signatures]:
  "TALER_exchange_offline_signkey_validity_verify L exchange_pub start_sign end_sign end_legal pub sig =
     Done (eddsa_verify L TALER_SIGNATURE_MASTER_SIGNING_KEY_VALIDITY
        (TALER_SIGNATURE_MASTER_SIGNING_KEY_VALIDITY, Master_data (TALER_ExchangeSigningKeyValidityPS
        (timestamp_hton L start_sign) (timestamp_hton L end_sign) (timestamp_hton L end_legal)
        exchange_pub)) sig pub)"

definition TALER_exchange_offline_denom_validity_sign ::
  "'s library \<Rightarrow> octets \<Rightarrow> 64 word \<Rightarrow> 64 word \<Rightarrow> 64 word
     \<Rightarrow> 64 word \<Rightarrow> amount \<Rightarrow> denom_fee_set \<Rightarrow> octets
     \<Rightarrow> 's outcome" where [signatures]:
  "TALER_exchange_offline_denom_validity_sign L h_denom_pub stamp_start stamp_expire_withdraw
       stamp_expire_deposit stamp_expire_legal amt denom_fees priv =
     obind (TALER_amount_hton (htonll L) amt) (\<lambda>amt_n.
        obind (TALER_denom_fee_set_hton (htonll L) denom_fees) (\<lambda>denom_fees_n.
        Done (eddsa_sign L priv (TALER_SIGNATURE_MASTER_DENOMINATION_KEY_VALIDITY, Master_data
           (TALER_DenominationKeyValidityPS (eddsa_public L priv) (timestamp_hton L stamp_start)
           (timestamp_hton L stamp_expire_withdraw) (timestamp_hton L stamp_expire_deposit)
           (timestamp_hton L stamp_expire_legal) amt_n denom_fees_n h_denom_pub)))))"

definition TALER_exchange_offline_denom_validity_verify ::
  "'s library \<Rightarrow> octets \<Rightarrow> 64 word \<Rightarrow> 64 word \<Rightarrow> 64 word
     \<Rightarrow> 64 word \<Rightarrow> amount \<Rightarrow> denom_fee_set \<Rightarrow> octets
     \<Rightarrow> 's \<Rightarrow> generic_return outcome" where [signatures]:
  "TALER_exchange_offline_denom_validity_verify L h_denom_pub stamp_start stamp_expire_withdraw
       stamp_expire_deposit stamp_expire_legal amt denom_fees pub sig =
     obind (TALER_amount_hton (htonll L) amt) (\<lambda>amt_n.
        obind (TALER_denom_fee_set_hton (htonll L) denom_fees) (\<lambda>denom_fees_n.
        Done (eddsa_verify L TALER_SIGNATURE_MASTER_DENOMINATION_KEY_VALIDITY
           (TALER_SIGNATURE_MASTER_DENOMINATION_KEY_VALIDITY, Master_data
           (TALER_DenominationKeyValidityPS pub (timestamp_hton L stamp_start) (timestamp_hton L
           stamp_expire_withdraw) (timestamp_hton L stamp_expire_deposit) (timestamp_hton L
           stamp_expire_legal) amt_n denom_fees_n h_denom_pub)) sig pub)))"

definition TALER_exchange_offline_wire_add_sign ::
  "'s library \<Rightarrow> string \<Rightarrow> string option \<Rightarrow> ('j \<Rightarrow> octets)
     \<Rightarrow> 'j \<Rightarrow> 'j \<Rightarrow> 64 word \<Rightarrow> octets \<Rightarrow> 's
     outcome" where [signatures]:
  "TALER_exchange_offline_wire_add_sign L payto conversion_url json_hash debit_restrictions
       credit_restrictions now priv =
     obind (TALER_full_payto_hash (crypto_hash L) 32 (Some payto)) (\<lambda>h_payto.
        Done (eddsa_sign L priv (TALER_SIGNATURE_MASTER_ADD_WIRE, Master_data (TALER_MasterAddWirePS
           (timestamp_hton L now) h_payto (zeroed 64 (map_option (\<lambda>u. crypto_hash L (u @ [NUL]))
           conversion_url)) (json_hash debit_restrictions) (json_hash credit_restrictions)))))"

definition TALER_exchange_offline_wire_add_verify ::
  "'s library \<Rightarrow> string \<Rightarrow> string option \<Rightarrow> ('j \<Rightarrow> octets)
     \<Rightarrow> 'j \<Rightarrow> 'j \<Rightarrow> 64 word \<Rightarrow> octets \<Rightarrow> 's
     \<Rightarrow> generic_return outcome" where [signatures]:
  "TALER_exchange_offline_wire_add_verify L payto conversion_url json_hash debit_restrictions
       credit_restrictions now pub sig =
     obind (TALER_full_payto_hash (crypto_hash L) 32 (Some payto)) (\<lambda>h_payto.
        Done (eddsa_verify L TALER_SIGNATURE_MASTER_ADD_WIRE (TALER_SIGNATURE_MASTER_ADD_WIRE,
           Master_data (TALER_MasterAddWirePS (timestamp_hton L now) h_payto (zeroed 64 (map_option
           (\<lambda>u. crypto_hash L (u @ [NUL])) conversion_url)) (json_hash debit_restrictions)
           (json_hash credit_restrictions))) sig pub))"

definition TALER_exchange_offline_wire_del_sign ::
  "'s library \<Rightarrow> string \<Rightarrow> 64 word \<Rightarrow> octets \<Rightarrow> 's outcome" where [signatures]:
  "TALER_exchange_offline_wire_del_sign L payto now priv =
     obind (TALER_full_payto_hash (crypto_hash L) 32 (Some payto)) (\<lambda>h_payto.
        Done (eddsa_sign L priv (TALER_SIGNATURE_MASTER_DEL_WIRE, Master_data (TALER_MasterDelWirePS
           (timestamp_hton L now) h_payto))))"

definition TALER_exchange_offline_wire_del_verify ::
  "'s library \<Rightarrow> string \<Rightarrow> 64 word \<Rightarrow> octets \<Rightarrow> 's
     \<Rightarrow> generic_return outcome" where [signatures]:
  "TALER_exchange_offline_wire_del_verify L payto now pub sig =
     obind (TALER_full_payto_hash (crypto_hash L) 32 (Some payto)) (\<lambda>h_payto.
        Done (eddsa_verify L TALER_SIGNATURE_MASTER_DEL_WIRE (TALER_SIGNATURE_MASTER_DEL_WIRE,
           Master_data (TALER_MasterDelWirePS (timestamp_hton L now) h_payto)) sig pub))"

definition TALER_exchange_offline_wire_fee_sign ::
  "'s library \<Rightarrow> string \<Rightarrow> 64 word \<Rightarrow> 64 word \<Rightarrow> wire_fee_set
     \<Rightarrow> octets \<Rightarrow> 's outcome" where [signatures]:
  "TALER_exchange_offline_wire_fee_sign L payment_method start_time end_time wire_fees priv =
     obind (TALER_wire_fee_set_hton (htonll L) wire_fees) (\<lambda>wire_fees_n.
        Done (eddsa_sign L priv (TALER_SIGNATURE_MASTER_WIRE_FEES, Master_data (TALER_MasterWireFeePS
           (crypto_hash L (payment_method @ [NUL])) (timestamp_hton L start_time) (timestamp_hton L
           end_time) wire_fees_n))))"

definition TALER_exchange_offline_wire_fee_verify ::
  "'s library \<Rightarrow> string \<Rightarrow> 64 word \<Rightarrow> 64 word \<Rightarrow> wire_fee_set
     \<Rightarrow> octets \<Rightarrow> 's \<Rightarrow> generic_return outcome" where [signatures]:
  "TALER_exchange_offline_wire_fee_verify L payment_method start_time end_time wire_fees pub sig =
     obind (TALER_wire_fee_set_hton (htonll L) wire_fees) (\<lambda>wire_fees_n.
        Done (eddsa_verify L TALER_SIGNATURE_MASTER_WIRE_FEES (TALER_SIGNATURE_MASTER_WIRE_FEES,
           Master_data (TALER_MasterWireFeePS (crypto_hash L (payment_method @ [NUL])) (timestamp_hton L
           start_time) (timestamp_hton L end_time) wire_fees_n)) sig pub))"

definition TALER_exchange_offline_global_fee_sign ::
  "'s library \<Rightarrow> 64 word \<Rightarrow> 64 word \<Rightarrow> global_fee_set \<Rightarrow> 64
     word \<Rightarrow> 64 word \<Rightarrow> 32 word \<Rightarrow> octets \<Rightarrow> 's outcome" where [signatures]:
  "TALER_exchange_offline_global_fee_sign L start_time end_time global_fees purse_timeout
       history_expiration purse_account_limit priv =
     obind (TALER_global_fee_set_hton (htonll L) global_fees) (\<lambda>global_fees_n.
        Done (eddsa_sign L priv (TALER_SIGNATURE_MASTER_GLOBAL_FEES, Master_data (TALER_MasterGlobalFeePS
           (timestamp_hton L start_time) (timestamp_hton L end_time) (time_relative_hton L purse_timeout)
           (time_relative_hton L history_expiration) global_fees_n (bswap32 purse_account_limit)))))"

definition TALER_exchange_offline_global_fee_verify ::
  "'s library \<Rightarrow> 64 word \<Rightarrow> 64 word \<Rightarrow> global_fee_set \<Rightarrow> 64
     word \<Rightarrow> 64 word \<Rightarrow> 32 word \<Rightarrow> octets \<Rightarrow> 's \<Rightarrow>
     generic_return outcome" where [signatures]:
  "TALER_exchange_offline_global_fee_verify L start_time end_time global_fees purse_timeout
       history_expiration purse_account_limit pub sig =
     obind (TALER_global_fee_set_hton (htonll L) global_fees) (\<lambda>global_fees_n.
        Done (eddsa_verify L TALER_SIGNATURE_MASTER_GLOBAL_FEES (TALER_SIGNATURE_MASTER_GLOBAL_FEES,
           Master_data (TALER_MasterGlobalFeePS (timestamp_hton L start_time) (timestamp_hton L end_time)
           (time_relative_hton L purse_timeout) (time_relative_hton L history_expiration) global_fees_n
           (bswap32 purse_account_limit))) sig pub))"

definition TALER_exchange_offline_extension_manifests_hash_sign ::
  "'s library \<Rightarrow> octets \<Rightarrow> octets \<Rightarrow> 's outcome" where [signatures]:
  "TALER_exchange_offline_extension_manifests_hash_sign L h_manifest priv =
     Done (eddsa_sign L priv (TALER_SIGNATURE_MASTER_EXTENSION, Master_data
        (TALER_MasterExtensionManifestPS h_manifest)))"

definition TALER_exchange_offline_extension_manifests_hash_verify ::
  "'s library \<Rightarrow> octets \<Rightarrow> octets \<Rightarrow> 's \<Rightarrow> generic_return
     outcome" where [signatures]:
  "TALER_exchange_offline_extension_manifests_hash_verify L h_manifest pub sig =
     Done (eddsa_verify L TALER_SIGNATURE_MASTER_EXTENSION (TALER_SIGNATURE_MASTER_EXTENSION, Master_data
        (TALER_MasterExtensionManifestPS h_manifest)) sig pub)"

definition TALER_exchange_wire_signature_make ::
  "'s library \<Rightarrow> string \<Rightarrow> string option \<Rightarrow> ('j \<Rightarrow> octets)
     \<Rightarrow> 'j \<Rightarrow> 'j \<Rightarrow> octets \<Rightarrow> 's outcome" where [signatures]:
  "TALER_exchange_wire_signature_make L payto conversion_url json_hash debit_restrictions
       credit_restrictions priv =
     obind (TALER_full_payto_hash (crypto_hash L) 32 (Some payto)) (\<lambda>h_payto.
        Done (eddsa_sign L priv (TALER_SIGNATURE_MASTER_WIRE_DETAILS, Master_data
           (TALER_MasterWireDetailsPS h_payto (zeroed 64 (map_option (\<lambda>u. crypto_hash L (u @
           [NUL])) conversion_url)) (json_hash debit_restrictions) (json_hash credit_restrictions)))))"

definition TALER_exchange_wire_signature_check ::
  "'s library \<Rightarrow> string \<Rightarrow> string option \<Rightarrow> ('j \<Rightarrow> octets)
     \<Rightarrow> 'j \<Rightarrow> 'j \<Rightarrow> octets \<Rightarrow> 's \<Rightarrow> generic_return
     outcome" where [signatures]:
  "TALER_exchange_wire_signature_check L payto conversion_url json_hash debit_restrictions
       credit_restrictions pub sig =
     obind (TALER_full_payto_hash (crypto_hash L) 32 (Some payto)) (\<lambda>h_payto.
        Done (eddsa_verify L TALER_SIGNATURE_MASTER_WIRE_DETAILS (TALER_SIGNATURE_MASTER_WIRE_DETAILS,
           Master_data (TALER_MasterWireDetailsPS h_payto (zeroed 64 (map_option (\<lambda>u. crypto_hash
           L (u @ [NUL])) conversion_url)) (json_hash debit_restrictions) (json_hash
           credit_restrictions))) sig pub))"

definition TALER_exchange_offline_partner_details_sign ::
  "'s library \<Rightarrow> octets \<Rightarrow> 64 word \<Rightarrow> 64 word \<Rightarrow> 64 word
     \<Rightarrow> amount \<Rightarrow> string \<Rightarrow> octets \<Rightarrow> 's outcome" where [signatures]:
  "TALER_exchange_offline_partner_details_sign L partner_pub start_date end_date wad_frequency amt
       partner_base_url priv =
     obind (TALER_amount_hton (htonll L) amt) (\<lambda>amt_n.
        Done (eddsa_sign L priv (TALER_SIGNATURE_MASTER_PARTNER_DETAILS, Master_data
           (TALER_PartnerConfigurationPS partner_pub (timestamp_hton L start_date) (timestamp_hton L
           end_date) (time_relative_hton L wad_frequency) amt_n (crypto_hash L (partner_base_url @
           [NUL]))))))"

definition TALER_exchange_offline_partner_details_verify ::
  "'s library \<Rightarrow> octets \<Rightarrow> 64 word \<Rightarrow> 64 word \<Rightarrow> 64 word
     \<Rightarrow> amount \<Rightarrow> string \<Rightarrow> octets \<Rightarrow> 's \<Rightarrow>
     generic_return outcome" where [signatures]:
  "TALER_exchange_offline_partner_details_verify L partner_pub start_date end_date wad_frequency amt
       partner_base_url pub sig =
     obind (TALER_amount_hton (htonll L) amt) (\<lambda>amt_n.
        Done (eddsa_verify L TALER_SIGNATURE_MASTER_PARTNER_DETAILS
           (TALER_SIGNATURE_MASTER_PARTNER_DETAILS, Master_data (TALER_PartnerConfigurationPS partner_pub
           (timestamp_hton L start_date) (timestamp_hton L end_date) (time_relative_hton L wad_frequency)
           amt_n (crypto_hash L (partner_base_url @ [NUL])))) sig pub))"

definition TALER_exchange_offline_profit_drain_sign ::
  "'s library \<Rightarrow> octets \<Rightarrow> 64 word \<Rightarrow> amount \<Rightarrow> string
     \<Rightarrow> string \<Rightarrow> octets \<Rightarrow> 's outcome" where [signatures]:
  "TALER_exchange_offline_profit_drain_sign L wtid date amt account_section payto priv =
     obind (TALER_amount_hton (htonll L) amt) (\<lambda>amt_n.
        obind (TALER_full_payto_hash (crypto_hash L) 32 (Some payto)) (\<lambda>h_payto.
        Done (eddsa_sign L priv (TALER_SIGNATURE_MASTER_DRAIN_PROFIT, Master_data (TALER_DrainProfitPS
           wtid (timestamp_hton L date) amt_n (crypto_hash L (account_section @ [NUL])) h_payto)))))"

definition TALER_exchange_offline_profit_drain_verify ::
  "'s library \<Rightarrow> octets \<Rightarrow> 64 word \<Rightarrow> amount \<Rightarrow> string
     \<Rightarrow> string \<Rightarrow> octets \<Rightarrow> 's \<Rightarrow> generic_return outcome" where [signatures]:
  "TALER_exchange_offline_profit_drain_verify L wtid date amt account_section payto pub sig =
     obind (TALER_amount_hton (htonll L) amt) (\<lambda>amt_n.
        obind (TALER_full_payto_hash (crypto_hash L) 32 (Some payto)) (\<lambda>h_payto.
        Done (eddsa_verify L TALER_SIGNATURE_MASTER_DRAIN_PROFIT (TALER_SIGNATURE_MASTER_DRAIN_PROFIT,
           Master_data (TALER_DrainProfitPS wtid (timestamp_hton L date) amt_n (crypto_hash L
           (account_section @ [NUL])) h_payto)) sig pub)))"

definition TALER_auditor_denom_validity_sign ::
  "'s library \<Rightarrow> string \<Rightarrow> octets \<Rightarrow> octets \<Rightarrow> 64 word
     \<Rightarrow> 64 word \<Rightarrow> 64 word \<Rightarrow> 64 word \<Rightarrow> amount \<Rightarrow>
     denom_fee_set \<Rightarrow> octets \<Rightarrow> 's outcome" where [signatures]:
  "TALER_auditor_denom_validity_sign L auditor_url h_denom_pub master_pub stamp_start
       stamp_expire_withdraw stamp_expire_deposit stamp_expire_legal amt denom_fees priv =
     obind (TALER_amount_hton (htonll L) amt) (\<lambda>amt_n.
        obind (TALER_denom_fee_set_hton (htonll L) denom_fees) (\<lambda>denom_fees_n.
        Done (eddsa_sign L priv (TALER_SIGNATURE_AUDITOR_EXCHANGE_KEYS, Party_data
           (TALER_ExchangeKeyValidityPS (crypto_hash L (auditor_url @ [NUL])) master_pub (timestamp_hton
           L stamp_start) (timestamp_hton L stamp_expire_withdraw) (timestamp_hton L
           stamp_expire_deposit) (timestamp_hton L stamp_expire_legal) amt_n denom_fees_n
           h_denom_pub)))))"

definition TALER_auditor_denom_validity_verify ::
  "'s library \<Rightarrow> string \<Rightarrow> octets \<Rightarrow> octets \<Rightarrow> 64 word
     \<Rightarrow> 64 word \<Rightarrow> 64 word \<Rightarrow> 64 word \<Rightarrow> amount \<Rightarrow>
     denom_fee_set \<Rightarrow> octets \<Rightarrow> 's \<Rightarrow> generic_return outcome" where [signatures]:
  "TALER_auditor_denom_validity_verify L auditor_url h_denom_pub master_pub stamp_start
       stamp_expire_withdraw stamp_expire_deposit stamp_expire_legal amt denom_fees pub sig =
     obind (TALER_amount_hton (htonll L) amt) (\<lambda>amt_n.
        obind (TALER_denom_fee_set_hton (htonll L) denom_fees) (\<lambda>denom_fees_n.
        Done (eddsa_verify L TALER_SIGNATURE_AUDITOR_EXCHANGE_KEYS
           (TALER_SIGNATURE_AUDITOR_EXCHANGE_KEYS, Party_data (TALER_ExchangeKeyValidityPS (crypto_hash L
           (auditor_url @ [NUL])) master_pub (timestamp_hton L stamp_start) (timestamp_hton L
           stamp_expire_withdraw) (timestamp_hton L stamp_expire_deposit) (timestamp_hton L
           stamp_expire_legal) amt_n denom_fees_n h_denom_pub)) sig pub)))"

definition TALER_merchant_deposit_sign ::
  "'s library \<Rightarrow> octets \<Rightarrow> octets \<Rightarrow> octets \<Rightarrow> octets
     \<Rightarrow> 's outcome" where [signatures]:
  "TALER_merchant_deposit_sign L h_contract_terms h_wire coin_pub priv =
     Done (eddsa_sign L priv (TALER_SIGNATURE_MERCHANT_TRACK_TRANSACTION, Party_data
        (TALER_DepositTrackPS h_contract_terms h_wire coin_pub)))"

definition TALER_merchant_deposit_verify ::
  "'s library \<Rightarrow> octets \<Rightarrow> octets \<Rightarrow> octets \<Rightarrow> octets
     \<Rightarrow> 's \<Rightarrow> generic_return outcome" where [signatures]:
  "TALER_merchant_deposit_verify L pub coin_pub h_contract_terms h_wire sig =
     Done (eddsa_verify L TALER_SIGNATURE_MERCHANT_TRACK_TRANSACTION
        (TALER_SIGNATURE_MERCHANT_TRACK_TRANSACTION, Party_data (TALER_DepositTrackPS h_contract_terms
        h_wire coin_pub)) sig pub)"

definition TALER_merchant_wire_signature_make ::
  "'s library \<Rightarrow> string \<Rightarrow> octets \<Rightarrow> octets \<Rightarrow> 's outcome" where [signatures]:
  "TALER_merchant_wire_signature_make L payto_uri salt priv =
     Done (eddsa_sign L priv (TALER_SIGNATURE_MERCHANT_WIRE_DETAILS, Party_data
        (TALER_MerchantWireDetailsPS (TALER_merchant_wire_signature_hash L payto_uri salt))))"

definition TALER_merchant_wire_signature_check ::
  "'s library \<Rightarrow> string \<Rightarrow> octets \<Rightarrow> octets \<Rightarrow> 's
     \<Rightarrow> generic_return outcome" where [signatures]:
  "TALER_merchant_wire_signature_check L payto_uri salt pub sig =
     Done (eddsa_verify L TALER_SIGNATURE_MERCHANT_WIRE_DETAILS (TALER_SIGNATURE_MERCHANT_WIRE_DETAILS,
        Party_data (TALER_MerchantWireDetailsPS (TALER_merchant_wire_signature_hash L payto_uri salt)))
        sig pub)"

definition TALER_merchant_pay_sign ::
  "'s library \<Rightarrow> octets \<Rightarrow> octets \<Rightarrow> 's outcome" where [signatures]:
  "TALER_merchant_pay_sign L h_contract_terms priv =
     Done (eddsa_sign L priv (TALER_SIGNATURE_MERCHANT_PAYMENT_OK, Party_data (TALER_PaymentResponsePS
        h_contract_terms)))"

definition TALER_merchant_pay_verify ::
  "'s library \<Rightarrow> octets \<Rightarrow> octets \<Rightarrow> 's \<Rightarrow> generic_return
     outcome" where [signatures]:
  "TALER_merchant_pay_verify L h_contract_terms pub sig =
     Done (eddsa_verify L TALER_SIGNATURE_MERCHANT_PAYMENT_OK (TALER_SIGNATURE_MERCHANT_PAYMENT_OK,
        Party_data (TALER_PaymentResponsePS h_contract_terms)) sig pub)"

definition TALER_merchant_contract_sign ::
  "'s library \<Rightarrow> octets \<Rightarrow> octets \<Rightarrow> 's outcome" where [signatures]:
  "TALER_merchant_contract_sign L h_contract_terms priv =
     Done (eddsa_sign L priv (TALER_SIGNATURE_MERCHANT_CONTRACT, Party_data (TALER_ProposalDataPS
        h_contract_terms)))"

definition TALER_merchant_contract_verify ::
  "'s library \<Rightarrow> octets \<Rightarrow> octets \<Rightarrow> 's \<Rightarrow> generic_return
     outcome" where [signatures]:
  "TALER_merchant_contract_verify L h_contract_terms pub sig =
     Done (eddsa_verify L TALER_SIGNATURE_MERCHANT_CONTRACT (TALER_SIGNATURE_MERCHANT_CONTRACT,
        Party_data (TALER_ProposalDataPS h_contract_terms)) sig pub)"

definition TALER_officer_aml_decision_sign ::
  "'s library \<Rightarrow> string \<Rightarrow> 64 word \<Rightarrow> octets \<Rightarrow> ('j
     \<Rightarrow> octets) \<Rightarrow> 'j \<Rightarrow> 'j option \<Rightarrow> string option
     \<Rightarrow> bool \<Rightarrow> octets \<Rightarrow> 's outcome" where [signatures]:
  "TALER_officer_aml_decision_sign L justification decision_time h_payto json_hash new_rules properties
       new_measure to_investigate priv =
     Done (eddsa_sign L priv (TALER_SIGNATURE_AML_DECISION, Party_data (TALER_AmlDecisionPS
        (timestamp_hton L decision_time) h_payto (crypto_hash L justification) (zeroed 64 (map_option
        json_hash properties)) (json_hash new_rules) (zeroed 64 (map_option (crypto_hash L) new_measure))
        (htonll L (if to_investigate then 1 else 0)))))"

definition TALER_officer_aml_decision_verify ::
  "'s library \<Rightarrow> string \<Rightarrow> 64 word \<Rightarrow> octets \<Rightarrow> ('j
     \<Rightarrow> octets) \<Rightarrow> 'j \<Rightarrow> 'j option \<Rightarrow> string option
     \<Rightarrow> bool \<Rightarrow> octets \<Rightarrow> 's \<Rightarrow> generic_return outcome" where [signatures]:
  "TALER_officer_aml_decision_verify L justification decision_time h_payto json_hash new_rules properties
       new_measure to_investigate pub sig =
     Done (eddsa_verify L TALER_SIGNATURE_AML_DECISION (TALER_SIGNATURE_AML_DECISION, Party_data
        (TALER_AmlDecisionPS (timestamp_hton L decision_time) h_payto (crypto_hash L justification)
        (zeroed 64 (map_option json_hash properties)) (json_hash new_rules) (zeroed 64 (map_option
        (crypto_hash L) new_measure)) (htonll L (if to_investigate then 1 else 0)))) sig pub)"

definition TALER_officer_aml_query_sign ::
  "'s library \<Rightarrow>  octets \<Rightarrow> 's outcome" where [signatures]:
  "TALER_officer_aml_query_sign L priv =
     Done (eddsa_sign L priv (TALER_SIGNATURE_AML_QUERY, Party_data TALER_AmlQueryPS))"

definition TALER_officer_aml_query_verify ::
  "'s library \<Rightarrow> octets \<Rightarrow> 's \<Rightarrow> generic_return outcome" where [signatures]:
  "TALER_officer_aml_query_verify L pub sig =
     Done (eddsa_verify L TALER_SIGNATURE_AML_QUERY (TALER_SIGNATURE_AML_QUERY, Party_data
        TALER_AmlQueryPS) sig pub)"

definition TALER_exchange_secmod_eddsa_sign ::
  "'s library \<Rightarrow> octets \<Rightarrow> 64 word \<Rightarrow> 64 word \<Rightarrow> octets
     \<Rightarrow> 's outcome" where [signatures]:
  "TALER_exchange_secmod_eddsa_sign L exchange_pub start_sign duration priv =
     Done (eddsa_sign L priv (TALER_SIGNATURE_SM_SIGNING_KEY, Party_data (TALER_SigningKeyAnnouncementPS
        exchange_pub (timestamp_hton L start_sign) (time_relative_hton L duration))))"

definition TALER_exchange_secmod_eddsa_verify ::
  "'s library \<Rightarrow> octets \<Rightarrow> 64 word \<Rightarrow> 64 word \<Rightarrow> octets
     \<Rightarrow> 's \<Rightarrow> generic_return outcome" where [signatures]:
  "TALER_exchange_secmod_eddsa_verify L exchange_pub start_sign duration pub sig =
     Done (eddsa_verify L TALER_SIGNATURE_SM_SIGNING_KEY (TALER_SIGNATURE_SM_SIGNING_KEY, Party_data
        (TALER_SigningKeyAnnouncementPS exchange_pub (timestamp_hton L start_sign) (time_relative_hton L
        duration))) sig pub)"

definition TALER_exchange_secmod_rsa_sign ::
  "'s library \<Rightarrow> octets \<Rightarrow> string \<Rightarrow> 64 word \<Rightarrow> 64 word
     \<Rightarrow> octets \<Rightarrow> 's outcome" where [signatures]:
  "TALER_exchange_secmod_rsa_sign L h_rsa section_name start_sign duration priv =
     Done (eddsa_sign L priv (TALER_SIGNATURE_SM_RSA_DENOMINATION_KEY, Party_data
        (TALER_DenominationKeyAnnouncementPS h_rsa (crypto_hash L (section_name @ [NUL])) (timestamp_hton
        L start_sign) (time_relative_hton L duration))))"

definition TALER_exchange_secmod_rsa_verify ::
  "'s library \<Rightarrow> octets \<Rightarrow> string \<Rightarrow> 64 word \<Rightarrow> 64 word
     \<Rightarrow> octets \<Rightarrow> 's \<Rightarrow> generic_return outcome" where [signatures]:
  "TALER_exchange_secmod_rsa_verify L h_rsa section_name start_sign duration pub sig =
     Done (eddsa_verify L TALER_SIGNATURE_SM_RSA_DENOMINATION_KEY
        (TALER_SIGNATURE_SM_RSA_DENOMINATION_KEY, Party_data (TALER_DenominationKeyAnnouncementPS h_rsa
        (crypto_hash L (section_name @ [NUL])) (timestamp_hton L start_sign) (time_relative_hton L
        duration))) sig pub)"

definition TALER_exchange_secmod_cs_sign ::
  "'s library \<Rightarrow> octets \<Rightarrow> string \<Rightarrow> 64 word \<Rightarrow> 64 word
     \<Rightarrow> octets \<Rightarrow> 's outcome" where [signatures]:
  "TALER_exchange_secmod_cs_sign L h_cs section_name start_sign duration priv =
     Done (eddsa_sign L priv (TALER_SIGNATURE_SM_CS_DENOMINATION_KEY, Party_data
        (TALER_DenominationKeyAnnouncementPS h_cs (crypto_hash L (section_name @ [NUL])) (timestamp_hton
        L start_sign) (time_relative_hton L duration))))"

definition TALER_exchange_secmod_cs_verify ::
  "'s library \<Rightarrow> octets \<Rightarrow> string \<Rightarrow> 64 word \<Rightarrow> 64 word
     \<Rightarrow> octets \<Rightarrow> 's \<Rightarrow> generic_return outcome" where [signatures]:
  "TALER_exchange_secmod_cs_verify L h_cs section_name start_sign duration pub sig =
     Done (eddsa_verify L TALER_SIGNATURE_SM_CS_DENOMINATION_KEY (TALER_SIGNATURE_SM_CS_DENOMINATION_KEY,
        Party_data (TALER_DenominationKeyAnnouncementPS h_cs (crypto_hash L (section_name @ [NUL]))
        (timestamp_hton L start_sign) (time_relative_hton L duration))) sig pub)"

definition TALER_account_kyc_auth_sign ::
  "'s library \<Rightarrow>  octets \<Rightarrow> 's outcome" where [signatures]:
  "TALER_account_kyc_auth_sign L priv =
     Done (eddsa_sign L priv (TALER_SIGNATURE_KYC_AUTH, Party_data TALER_KycQueryPS))"

definition TALER_account_kyc_auth_verify ::
  "'s library \<Rightarrow> octets \<Rightarrow> 's \<Rightarrow> generic_return outcome" where [signatures]:
  "TALER_account_kyc_auth_verify L pub sig =
     Done (eddsa_verify L TALER_SIGNATURE_KYC_AUTH (TALER_SIGNATURE_KYC_AUTH, Party_data
        TALER_KycQueryPS) sig pub)"

section \<open>Properties\<close>

text \<open>An online signer whose signatures are accepted under the key that it returns.\<close>

definition scb_honest :: "'s library \<Rightarrow> (purpose \<times> signed_data \<Rightarrow> octets \<times> 's) \<Rightarrow> bool" where
  "scb_honest L scb \<longleftrightarrow> (\<forall>p m. eddsa_verify L p (p, m) (snd (scb (p, m))) (fst (scb (p, m))) = GNUNET_OK)"

lemma scb_honestD: "scb_honest L scb \<Longrightarrow> scb (p, m) = (pub, sig) \<Longrightarrow> eddsa_verify L p (p, m) sig pub = GNUNET_OK"
  by (metis scb_honest_def fst_conv snd_conv)

text \<open>
  C18: the confirmations of deposits, refunds, melts and age withdrawals, of key sets, wire transfers
  and their deposits, of unknown and expired denominations, of closed reserves, of purses that were
  created, merged or asked about, and of attested details that the exchange signs online are
  accepted by their verification functions for the same data and the returned key. The three
  functions for recoups and purse refunds are not among them; they are used in the histories of
  coins and reserves.
\<close>

theorem exchange_signatures_roundtrip:
  assumes "scb_honest L scb"
  shows "(TALER_exchange_online_deposit_confirmation_sign L scb h_contract_terms h_wire h_policy
         exchange_timestamp wire_deadline refund_deadline amt coin_sigs merchant_pub = Done (pub,
         sig) \<longrightarrow>
      TALER_exchange_online_deposit_confirmation_verify L h_contract_terms h_wire h_policy
         exchange_timestamp wire_deadline refund_deadline amt coin_sigs merchant_pub pub sig = Done
         GNUNET_OK)
    \<and> (TALER_exchange_online_refund_confirmation_sign L scb h_contract_terms coin_pub merchant
         rtransaction_id amt = Done (pub, sig) \<longrightarrow>
      TALER_exchange_online_refund_confirmation_verify L h_contract_terms coin_pub merchant
         rtransaction_id amt pub sig = Done GNUNET_OK)
    \<and> (TALER_exchange_online_melt_confirmation_sign L scb rc noreveal_index = Done (pub, sig)
         \<longrightarrow>
      TALER_exchange_online_melt_confirmation_verify L rc noreveal_index pub sig = Done GNUNET_OK)
    \<and> (TALER_exchange_online_age_withdraw_confirmation_sign L scb h_commitment noreveal_index = Done (pub,
         sig) \<longrightarrow>
      TALER_exchange_online_age_withdraw_confirmation_verify L h_commitment noreveal_index pub sig =
         Done GNUNET_OK)
    \<and> (TALER_exchange_online_key_set_sign L (\<lambda>_. scb) cls timestamp hc = Done (pub, sig)
         \<longrightarrow>
      TALER_exchange_online_key_set_verify L timestamp hc pub sig = Done GNUNET_OK)
    \<and> (TALER_exchange_online_wire_deposit_sign L scb amt fee merchant_pub payto h_details = Done (pub,
         sig) \<longrightarrow>
      TALER_exchange_online_wire_deposit_verify L amt fee merchant_pub (take 32 (crypto_hash L
         (payto @ [NUL]))) h_details pub sig = Done GNUNET_OK)
    \<and> (TALER_exchange_online_confirm_wire_sign L scb h_wire h_contract_terms wtid coin_pub execution_time
         amt = Done (pub, sig) \<longrightarrow>
      TALER_exchange_online_confirm_wire_verify L h_wire h_contract_terms wtid coin_pub
         execution_time amt pub sig = Done GNUNET_OK)
    \<and> (TALER_exchange_online_denomination_unknown_sign L scb timestamp h_denom_pub = Done (pub, sig)
         \<longrightarrow>
      TALER_exchange_online_denomination_unknown_verify L timestamp h_denom_pub pub sig = Done
         GNUNET_OK)
    \<and> (TALER_exchange_online_denomination_expired_sign L scb timestamp h_denom_pub operation = Done (pub,
         sig) \<longrightarrow>
      TALER_exchange_online_denomination_expired_verify L timestamp h_denom_pub operation pub sig =
         Done GNUNET_OK)
    \<and> (TALER_exchange_online_reserve_closed_sign L scb timestamp amt fee payto wtid reserve_pub = Done
         (pub, sig) \<longrightarrow>
      TALER_exchange_online_reserve_closed_verify L timestamp amt fee payto wtid reserve_pub pub sig
         = Done GNUNET_OK)
    \<and> (TALER_exchange_online_purse_created_sign L scb exchange_time purse_expiration amt deposited
         purse_pub h_contract_terms = Done (pub, sig) \<longrightarrow>
      TALER_exchange_online_purse_created_verify L exchange_time purse_expiration amt deposited
         purse_pub h_contract_terms pub sig = Done GNUNET_OK)
    \<and> (TALER_exchange_online_purse_merged_sign L scb exchange_time purse_expiration amt purse_pub
         h_contract_terms reserve_pub exchange_url = Done (pub, sig) \<longrightarrow>
      TALER_exchange_online_purse_merged_verify L exchange_time purse_expiration amt purse_pub
         h_contract_terms reserve_pub exchange_url pub sig = Done GNUNET_OK)
    \<and> (TALER_exchange_online_purse_status_sign L scb merge_timestamp deposit_timestamp amt = Done (pub,
         sig) \<longrightarrow>
      TALER_exchange_online_purse_status_verify L merge_timestamp deposit_timestamp amt pub sig =
         Done GNUNET_OK)
    \<and> (TALER_exchange_online_reserve_attest_details_sign L scb attest_timestamp expiration_time
         reserve_pub json_hash attributes = Done (pub, sig) \<longrightarrow>
      TALER_exchange_online_reserve_attest_details_verify L attest_timestamp expiration_time
         reserve_pub json_hash attributes pub sig = Done GNUNET_OK)"
  using assms
  by (intro conjI impI; simp only: signatures)
    (auto elim!: obind_both dest: scb_honestD simp: TALER_full_payto_hash_def split: if_splits)

text \<open>
  C19: every signature of the master key, an auditor, a merchant, an AML officer, a security
  module or the owner of an account is accepted by the verification function of its kind.
\<close>

theorem offline_signatures_roundtrip:
  assumes "accepts_own L"
  shows "(TALER_exchange_offline_aml_officer_status_sign L officer_pub officer_name change_date active
         read_only k = Done sig \<longrightarrow>
      TALER_exchange_offline_aml_officer_status_verify L officer_pub officer_name change_date active
         read_only (eddsa_public L k) sig = Done GNUNET_OK)
    \<and> (TALER_exchange_offline_auditor_add_sign L auditor_pub auditor_url start_date k = Done sig
         \<longrightarrow>
      TALER_exchange_offline_auditor_add_verify L auditor_pub auditor_url start_date (eddsa_public L
         k) sig = Done GNUNET_OK)
    \<and> (TALER_exchange_offline_auditor_del_sign L auditor_pub end_date k = Done sig \<longrightarrow>
      TALER_exchange_offline_auditor_del_verify L auditor_pub end_date (eddsa_public L k) sig = Done
         GNUNET_OK)
    \<and> (TALER_exchange_offline_denomination_revoke_sign L h_denom_pub k = Done sig \<longrightarrow>
      TALER_exchange_offline_denomination_revoke_verify L h_denom_pub (eddsa_public L k) sig = Done
         GNUNET_OK)
    \<and> (TALER_exchange_offline_signkey_revoke_sign L exchange_pub k = Done sig \<longrightarrow>
      TALER_exchange_offline_signkey_revoke_verify L exchange_pub (eddsa_public L k) sig = Done
         GNUNET_OK)
    \<and> (TALER_exchange_offline_signkey_validity_sign L exchange_pub start_sign end_sign end_legal k = Done
         sig \<longrightarrow>
      TALER_exchange_offline_signkey_validity_verify L exchange_pub start_sign end_sign end_legal
         (eddsa_public L k) sig = Done GNUNET_OK)
    \<and> (TALER_exchange_offline_denom_validity_sign L h_denom_pub stamp_start stamp_expire_withdraw
         stamp_expire_deposit stamp_expire_legal amt denom_fees k = Done sig \<longrightarrow>
      TALER_exchange_offline_denom_validity_verify L h_denom_pub stamp_start stamp_expire_withdraw
         stamp_expire_deposit stamp_expire_legal amt denom_fees (eddsa_public L k) sig = Done
         GNUNET_OK)
    \<and> (TALER_exchange_offline_wire_add_sign L payto conversion_url json_hash debit_restrictions
         credit_restrictions now k = Done sig \<longrightarrow>
      TALER_exchange_offline_wire_add_verify L payto conversion_url json_hash debit_restrictions
         credit_restrictions now (eddsa_public L k) sig = Done GNUNET_OK)
    \<and> (TALER_exchange_offline_wire_del_sign L payto now k = Done sig \<longrightarrow>
      TALER_exchange_offline_wire_del_verify L payto now (eddsa_public L k) sig = Done GNUNET_OK)
    \<and> (TALER_exchange_offline_wire_fee_sign L payment_method start_time end_time wire_fees k = Done sig
         \<longrightarrow>
      TALER_exchange_offline_wire_fee_verify L payment_method start_time end_time wire_fees
         (eddsa_public L k) sig = Done GNUNET_OK)
    \<and> (TALER_exchange_offline_global_fee_sign L start_time end_time global_fees purse_timeout
         history_expiration purse_account_limit k = Done sig \<longrightarrow>
      TALER_exchange_offline_global_fee_verify L start_time end_time global_fees purse_timeout
         history_expiration purse_account_limit (eddsa_public L k) sig = Done GNUNET_OK)
    \<and> (TALER_exchange_offline_extension_manifests_hash_sign L h_manifest k = Done sig \<longrightarrow>
      TALER_exchange_offline_extension_manifests_hash_verify L h_manifest (eddsa_public L k) sig =
         Done GNUNET_OK)
    \<and> (TALER_exchange_wire_signature_make L payto conversion_url json_hash debit_restrictions
         credit_restrictions k = Done sig \<longrightarrow>
      TALER_exchange_wire_signature_check L payto conversion_url json_hash debit_restrictions
         credit_restrictions (eddsa_public L k) sig = Done GNUNET_OK)
    \<and> (TALER_exchange_offline_partner_details_sign L partner_pub start_date end_date wad_frequency amt
         partner_base_url k = Done sig \<longrightarrow>
      TALER_exchange_offline_partner_details_verify L partner_pub start_date end_date wad_frequency
         amt partner_base_url (eddsa_public L k) sig = Done GNUNET_OK)
    \<and> (TALER_exchange_offline_profit_drain_sign L wtid date amt account_section payto k = Done sig
         \<longrightarrow>
      TALER_exchange_offline_profit_drain_verify L wtid date amt account_section payto (eddsa_public
         L k) sig = Done GNUNET_OK)
    \<and> (TALER_auditor_denom_validity_sign L auditor_url h_denom_pub master_pub stamp_start
         stamp_expire_withdraw stamp_expire_deposit stamp_expire_legal amt denom_fees k = Done sig
         \<longrightarrow>
      TALER_auditor_denom_validity_verify L auditor_url h_denom_pub master_pub stamp_start
         stamp_expire_withdraw stamp_expire_deposit stamp_expire_legal amt denom_fees (eddsa_public
         L k) sig = Done GNUNET_OK)
    \<and> (TALER_merchant_deposit_sign L h_contract_terms h_wire coin_pub k = Done sig \<longrightarrow>
      TALER_merchant_deposit_verify L (eddsa_public L k) coin_pub h_contract_terms h_wire sig = Done
         GNUNET_OK)
    \<and> (TALER_merchant_wire_signature_make L payto_uri salt k = Done sig \<longrightarrow>
      TALER_merchant_wire_signature_check L payto_uri salt (eddsa_public L k) sig = Done GNUNET_OK)
    \<and> (TALER_merchant_pay_sign L h_contract_terms k = Done sig \<longrightarrow>
      TALER_merchant_pay_verify L h_contract_terms (eddsa_public L k) sig = Done GNUNET_OK)
    \<and> (TALER_merchant_contract_sign L h_contract_terms k = Done sig \<longrightarrow>
      TALER_merchant_contract_verify L h_contract_terms (eddsa_public L k) sig = Done GNUNET_OK)
    \<and> (TALER_officer_aml_decision_sign L justification decision_time h_payto json_hash new_rules
         properties new_measure to_investigate k = Done sig \<longrightarrow>
      TALER_officer_aml_decision_verify L justification decision_time h_payto json_hash new_rules
         properties new_measure to_investigate (eddsa_public L k) sig = Done GNUNET_OK)
    \<and> (TALER_officer_aml_query_sign L k = Done sig \<longrightarrow>
      TALER_officer_aml_query_verify L (eddsa_public L k) sig = Done GNUNET_OK)
    \<and> (TALER_exchange_secmod_eddsa_sign L exchange_pub start_sign duration k = Done sig \<longrightarrow>
      TALER_exchange_secmod_eddsa_verify L exchange_pub start_sign duration (eddsa_public L k) sig =
         Done GNUNET_OK)
    \<and> (TALER_exchange_secmod_rsa_sign L h_rsa section_name start_sign duration k = Done sig
         \<longrightarrow>
      TALER_exchange_secmod_rsa_verify L h_rsa section_name start_sign duration (eddsa_public L k)
         sig = Done GNUNET_OK)
    \<and> (TALER_exchange_secmod_cs_sign L h_cs section_name start_sign duration k = Done sig
         \<longrightarrow>
      TALER_exchange_secmod_cs_verify L h_cs section_name start_sign duration (eddsa_public L k) sig
         = Done GNUNET_OK)
    \<and> (TALER_account_kyc_auth_sign L k = Done sig \<longrightarrow>
      TALER_account_kyc_auth_verify L (eddsa_public L k) sig = Done GNUNET_OK)"
  using assms
  by (intro conjI impI; simp only: signatures) (auto elim!: obind_both simp: accepts_ownD split: if_splits)

lemma binding_message:
  assumes "binding L" "sig = eddsa_sign L k (p, m)" "eddsa_verify L p (p, n) sig (eddsa_public L k) = GNUNET_OK"
  shows "n = m"
  using assms bindingD by blast

text \<open>
  C20: the signature of the master key over a denomination authorises exactly that denomination. If it is
  accepted by \<^verbatim>\<open>TALER_exchange_offline_denom_validity_verify\<close>, the verified key, value, times and all four
  fees are the signed ones. The signature of the auditor binds in the same way, and in addition
  the master key of the exchange.
\<close>

theorem denomination_signatures_bind:
  assumes "binding L" "inj (htonll L)" "inj (timestamp_hton L)"
  shows "(TALER_exchange_offline_denom_validity_sign L h t1 t2 t3 t4 amt fees k = Done sig
          \<and> TALER_exchange_offline_denom_validity_verify L h' u1 u2 u3 u4 amt' fees' (eddsa_public L k) sig = Done GNUNET_OK
          \<longrightarrow> h' = h \<and> u1 = t1 \<and> u2 = t2 \<and> u3 = t3 \<and> u4 = t4 \<and> amt' = amt \<and> fees' = fees)
       \<and> (TALER_auditor_denom_validity_sign L url h mpub t1 t2 t3 t4 amt fees k = Done sig
          \<and> TALER_auditor_denom_validity_verify L url h' mpub' u1 u2 u3 u4 amt' fees' (eddsa_public L k) sig = Done GNUNET_OK
          \<longrightarrow> h' = h \<and> mpub' = mpub \<and> u1 = t1 \<and> u2 = t2 \<and> u3 = t3 \<and> u4 = t4 \<and> amt' = amt \<and> fees' = fees)"
proof -
  note e = hton_inj [OF assms(2), of amt'] denom_fee_set_inj [OF assms(2), of fees']
  show ?thesis
    unfolding signatures using assms(3)
    by (auto simp: obind_Done inj_eq dest!: binding_message [OF assms(1) refl] dest: e)
qed

theorem exchange_signatures_roundtrip_witness:
  "TALER_exchange_online_melt_confirmation_verify sample_library ''rc'' 2 ''x''
     (''x'', TALER_SIGNATURE_EXCHANGE_CONFIRM_MELT, Exchange_data (TALER_RefreshMeltConfirmationPS ''rc'' (bswap32 2)))
   = Done GNUNET_OK"
proof -
  let ?scb = "\<lambda>m. (''x'', ''x'', m)"
  have "scb_honest sample_library ?scb" by (simp add: scb_honest_def)
  note this [THEN exchange_signatures_roundtrip, THEN conjunct2, THEN conjunct2, THEN conjunct1]
  from this [of "''rc''" 2] show ?thesis by (simp add: TALER_exchange_online_melt_confirmation_sign_def)
qed

theorem offline_signatures_roundtrip_witness:
  "TALER_exchange_offline_auditor_del_verify sample_library ''aud'' 7 ''master''
     (''master'', TALER_SIGNATURE_MASTER_DEL_AUDITOR, Master_data (TALER_MasterDelAuditorPS 7 ''aud'')) = Done GNUNET_OK"
proof -
  have "accepts_own sample_library" by (simp add: accepts_own_def)
  note this [THEN offline_signatures_roundtrip, THEN conjunct2, THEN conjunct2, THEN conjunct1]
  from this [of "''aud''" 7 "''master''"] show ?thesis by (simp add: TALER_exchange_offline_auditor_del_sign_def)
qed

definition sample_fees :: denom_fee_set where
  "sample_fees = \<lparr>fee_withdraw = eur 1, fee_deposit = eur 1, fee_refresh = eur 1, fee_refund = eur 1\<rparr>"

theorem denomination_signatures_bind_witness:
  "\<exists>sig. TALER_exchange_offline_denom_validity_sign sample_library ''d'' 1 2 3 4 (eur 5) sample_fees ''master'' = Done sig
     \<and> TALER_exchange_offline_denom_validity_verify sample_library ''d'' 1 2 3 4 (eur 5)
         (sample_fees\<lparr>fee_refund := eur 2\<rparr>) ''master'' sig \<noteq> Done GNUNET_OK"
proof -
  have v: "TALER_amount_hton ll (eur n) \<noteq> Abort" if "n \<le> max_units" for n ll
    using that by (simp add: TALER_amount_hton_def representable_valid)
  then obtain sig where s: "TALER_exchange_offline_denom_validity_sign sample_library ''d'' 1 2 3 4 (eur 5) sample_fees ''master'' = Done sig"
    using v [of 5 "\<lambda>w. w"] v [of 1 "\<lambda>w. w"] sample_library_sel
    by (cases "TALER_amount_hton (\<lambda>w. w) (eur 5)"; cases "TALER_amount_hton (\<lambda>w. w) (eur 1)")
      (auto simp: TALER_exchange_offline_denom_validity_sign_def TALER_denom_fee_set_hton_def sample_fees_def amount_consts)
  have "binding sample_library" "inj (htonll sample_library)" "inj (timestamp_hton sample_library)"
    by (auto simp: binding_def inj_def)
  moreover have "units (eur 2) = 2" "units (eur 1) = 1" by (simp_all add: amount_consts)
  then have "eur 2 \<noteq> eur 1" by (metis numeral_One numeral_eq_iff semiring_norm(85))
  then have "sample_fees\<lparr>fee_refund := eur 2\<rparr> \<noteq> sample_fees" by (simp add: sample_fees_def)
  ultimately show ?thesis
    using s denomination_signatures_bind [of sample_library, THEN conjunct1] by fastforce
qed

end
