(* ===== verification/Json_Library.thy ===== *)
theory Json_Library
  imports Json_Helper Exchange_Signatures
begin

text \<open>
  The interface to the JSON library. jansson and the specifications of GNUnet are not part of the
  sources, so a reader and a writer of JSON values are parameters; \<open>codec\<close> states what the
  code relies on when one side reads what the other side wrote. A field that is absent and one
  that is \<^verbatim>\<open>null\<close> look the same to a reader. Parsers and packers that are part of the sources
  (amounts, URLs and payto URIs as strings, \<^verbatim>\<open>src/src/json/json_helper.c\<close> and \<^verbatim>\<open>json_pack.c\<close>) are
  definitions over the strings of the library.
\<close>

section \<open>Reading\<close>

datatype 'a field = Missing | Malformed | Present 'a

record ('j, 's) json_reader =
  json_array :: "'j \<Rightarrow> 'j list"
  spec_fixed :: "'j \<Rightarrow> string \<Rightarrow> octets field"
  spec_sig :: "'j \<Rightarrow> string \<Rightarrow> 's field"
  spec_string :: "'j \<Rightarrow> string \<Rightarrow> string field"
  spec_timestamp :: "'j \<Rightarrow> string \<Rightarrow> 64 word field"
  spec_uint64 :: "'j \<Rightarrow> string \<Rightarrow> 64 word field"
  spec_uint32 :: "'j \<Rightarrow> string \<Rightarrow> 32 word field"
  spec_bool :: "'j \<Rightarrow> string \<Rightarrow> bool field"
  json_object_get :: "'j \<Rightarrow> string \<Rightarrow> 'j option"

text \<open>A required field and one marked optional.\<close>

fun need :: "'a field \<Rightarrow> ('a \<Rightarrow> 'b option) \<Rightarrow> 'b option" where
  "need (Present x) k = k x"
| "need _ k = None"

fun may :: "'a field \<Rightarrow> ('a option \<Rightarrow> 'b option) \<Rightarrow> 'b option" where
  "may Missing k = k None"
| "may Malformed k = None"
| "may (Present x) k = k (Some x)"

text \<open>Fields whose parser is part of the sources: the string of the field goes through it.\<close>

fun parsed :: "(string \<Rightarrow> 'a option) \<Rightarrow> string field \<Rightarrow> 'a field" where
  "parsed f Missing = Missing"
| "parsed f Malformed = Malformed"
| "parsed f (Present s) = (case f s of None \<Rightarrow> Malformed | Some x \<Rightarrow> Present x)"

definition spec_amount_any :: "('j, 's) json_reader \<Rightarrow> 'j \<Rightarrow> string \<Rightarrow> amount field" where
  "spec_amount_any R j name = parsed (\<lambda>s. parse_amount None s invalidate) (spec_string R j name)"

definition spec_web_url :: "('j, 's) json_reader \<Rightarrow> 'j \<Rightarrow> string \<Rightarrow> string field" where
  "spec_web_url R j name = parsed parse_web_url (spec_string R j name)"

definition spec_full_payto_uri :: "('j, 's) json_reader \<Rightarrow> 'j \<Rightarrow> string \<Rightarrow> string field" where
  "spec_full_payto_uri R j name = parsed parse_full_payto_uri (spec_string R j name)"

text \<open>\<^verbatim>\<open>GNUNET_JSON_parse\<close> failing is an early return.\<close>

fun parse_then :: "'d option \<Rightarrow> ('d \<Rightarrow> 'a option outcome) \<Rightarrow> 'a option outcome" where
  "parse_then None k = Done None"
| "parse_then (Some d) k = k d"

section \<open>Writing\<close>

datatype 's packed =
    Pack_string string
  | Pack_data octets
  | Pack_sig 's
  | Pack_timestamp "64 word"
  | Pack_uint64 "64 word"
  | Pack_bool bool
  | Pack_null

type_synonym 's fields = "(string \<times> 's packed) list"

record ('j, 's) json_writer =
  json_object :: "'s fields \<Rightarrow> 'j"
  json_list :: "'j list \<Rightarrow> 'j"

text \<open>\<^verbatim>\<open>TALER_JSON_from_amount\<close> asserts that the amount can be printed.\<close>

definition TALER_JSON_from_amount :: "amount \<Rightarrow> 's packed outcome" where
  "TALER_JSON_from_amount a =
     (case TALER_amount_to_string a of None \<Rightarrow> Abort | Some s \<Rightarrow> Done (Pack_string s))"

definition TALER_JSON_pack_amount :: "string \<Rightarrow> amount \<Rightarrow> (string \<times> 's packed) outcome" where
  "TALER_JSON_pack_amount name a = obind (TALER_JSON_from_amount a) (\<lambda>v. Done (name, v))"

text \<open>\<^verbatim>\<open>GNUNET_JSON_pack_data_auto\<close> with a pointer that may be \<^verbatim>\<open>NULL\<close>.\<close>

definition pack_optional :: "octets option \<Rightarrow> 's packed" where
  "pack_optional x = (case x of None \<Rightarrow> Pack_null | Some b \<Rightarrow> Pack_data b)"

section \<open>Reading what was written\<close>

text \<open>
  The time zero may be written as \<^verbatim>\<open>null\<close>. Integers are signed in JSON, so only those below \<open>2 ^ 63\<close>
  can be written. The laws are stated for all times and texts. The library gives back times in whole
  seconds and texts in UTF-8 only; the histories hold no others, since their times are rounded when they are
  stored and their texts are type names, amounts, payto URIs and encoded data.
\<close>

definition absent :: "'s fields \<Rightarrow> string \<Rightarrow> bool" where
  "absent fs n \<longleftrightarrow> map_of fs n = None \<or> map_of fs n = Some Pack_null"

definition codec :: "('j, 's) json_reader \<Rightarrow> ('j, 's) json_writer \<Rightarrow> bool" where
  "codec R W \<longleftrightarrow>
     (\<forall>js. json_array R (json_list W js) = js)
     \<and> (\<forall>fs n. absent fs n \<longrightarrow>
          spec_string R (json_object W fs) n = Missing \<and> spec_fixed R (json_object W fs) n = Missing
          \<and> spec_sig R (json_object W fs) n = Missing \<and> spec_timestamp R (json_object W fs) n = Missing)
     \<and> (\<forall>fs n s. map_of fs n = Some (Pack_string s) \<longrightarrow> spec_string R (json_object W fs) n = Present s)
     \<and> (\<forall>fs n b. map_of fs n = Some (Pack_data b) \<longrightarrow> spec_fixed R (json_object W fs) n = Present b)
     \<and> (\<forall>fs n g. map_of fs n = Some (Pack_sig g) \<longrightarrow> spec_sig R (json_object W fs) n = Present g)
     \<and> (\<forall>fs n t. map_of fs n = Some (Pack_timestamp t) \<longrightarrow>
          spec_timestamp R (json_object W fs) n = Present t
          \<or> t = 0 \<and> spec_timestamp R (json_object W fs) n = Missing)
     \<and> (\<forall>fs n w. map_of fs n = Some (Pack_uint64 w) \<longrightarrow> unat w < 2 ^ 63 \<longrightarrow>
          spec_uint64 R (json_object W fs) n = Present w
          \<and> (unat w < 2 ^ 32 \<longrightarrow> spec_uint32 R (json_object W fs) n = Present (ucast w)))
     \<and> (\<forall>fs n b. map_of fs n = Some (Pack_bool b) \<longrightarrow> spec_bool R (json_object W fs) n = Present b)"

named_theorems codec_read

lemma codecD [codec_read]:
  assumes "codec R W"
  shows "json_array R (json_list W js) = js"
    and "map_of fs n = Some (Pack_string s) \<Longrightarrow> spec_string R (json_object W fs) n = Present s"
    and "map_of fs n = Some (Pack_data b) \<Longrightarrow> spec_fixed R (json_object W fs) n = Present b"
    and "map_of fs n = Some (Pack_sig g) \<Longrightarrow> spec_sig R (json_object W fs) n = Present g"
    and "map_of fs n = Some (Pack_timestamp t) \<Longrightarrow> t \<noteq> 0 \<Longrightarrow> spec_timestamp R (json_object W fs) n = Present t"
    and "map_of fs n = Some (Pack_uint64 w) \<Longrightarrow> unat w < 2 ^ 63 \<Longrightarrow> spec_uint64 R (json_object W fs) n = Present w"
    and "map_of fs n = Some (Pack_uint64 w) \<Longrightarrow> unat w < 2 ^ 32 \<Longrightarrow> spec_uint32 R (json_object W fs) n = Present (ucast w)"
    and "map_of fs n = Some (Pack_bool c) \<Longrightarrow> spec_bool R (json_object W fs) n = Present c"
  using assms unfolding codec_def by (blast | force)+

lemma codec_absent [codec_read]:
  assumes "codec R W" "absent fs n"
  shows "spec_string R (json_object W fs) n = Missing" "spec_fixed R (json_object W fs) n = Missing"
    "spec_sig R (json_object W fs) n = Missing" "spec_timestamp R (json_object W fs) n = Missing"
  using assms unfolding codec_def by blast+

lemma codec_optional:
  assumes "codec R W" "map_of fs n = Some (pack_optional x)"
  shows "may (spec_fixed R (json_object W fs) n) k = k x"
  using assms by (cases x) (simp_all add: pack_optional_def codec_read absent_def)

text \<open>An optional time of which zero is the default.\<close>

lemma codec_optional_time:
  assumes "codec R W" "map_of fs n = Some (Pack_timestamp t)" "k None = k (Some 0)"
  shows "may (spec_timestamp R (json_object W fs) n) k = k (Some t)"
proof -
  have "spec_timestamp R (json_object W fs) n = Present t \<or> t = 0 \<and> spec_timestamp R (json_object W fs) n = Missing"
    using assms unfolding codec_def by blast
  then show ?thesis using assms(3) by auto
qed

lemma from_amount_normal: "normal a \<Longrightarrow> TALER_JSON_from_amount a = Done (Pack_string (amount_text (currency a) (units a)))"
  by (simp add: TALER_JSON_from_amount_def to_string_representable normal_representable)

lemma codec_amount:
  assumes "codec R W" "normal a" "map_of fs n = Some (Pack_string (amount_text (currency a) (units a)))"
  shows "spec_amount_any R (json_object W fs) n = Present a"
  using assms normal_mk_amount_units [of a]
  by (simp add: spec_amount_any_def codec_read parse_amount_def string_to_amount_text normal_def representable_def)

section \<open>Parsed fields\<close>

lemma parsedE: "parsed f x = Present y \<Longrightarrow> (\<And>s. f s = Some y \<Longrightarrow> P) \<Longrightarrow> P"
  by (cases x) (auto split: option.splits)

lemma amount_any_normal: "spec_amount_any R j name = Present a \<Longrightarrow> normal a"
  by (auto simp: spec_amount_any_def elim!: parsedE intro: parse_amount_normal)

lemma need_Some: "need x k = Some y \<longleftrightarrow> (\<exists>v. x = Present v \<and> k v = Some y)"
  by (cases x) auto

lemma may_Some: "may x k = Some y \<longleftrightarrow> x = Missing \<and> k None = Some y \<or> (\<exists>v. x = Present v \<and> k (Some v) = Some y)"
  by (cases x) auto

lemma parse_then_Some [simp]: "parse_then x (\<lambda>d. Done (k d)) = Done (Option.bind x k)"
  by (cases x) simp_all

lemma parse_then_cong: "(\<And>d. x = Some d \<Longrightarrow> k d = Done (k' d)) \<Longrightarrow> parse_then x k = Done (Option.bind x k')"
  by (cases x) simp_all

section \<open>A sample library\<close>

text \<open>JSON values as lists of typed fields; reading looks a field up.\<close>

datatype 's sample_json = JArray "'s sample_json list" | JObject "'s fields"

definition lookup_field :: "('s packed \<Rightarrow> 'a field) \<Rightarrow> 's sample_json \<Rightarrow> string \<Rightarrow> 'a field" where
  "lookup_field f j n =
     (case j of
        JArray _ \<Rightarrow> Missing
      | JObject fs \<Rightarrow>
          (case map_of fs n of None \<Rightarrow> Missing | Some v \<Rightarrow> if v = Pack_null then Missing else f v))"

definition sample_reader :: "('s sample_json, 's) json_reader" where
  "sample_reader =
     \<lparr>json_array = (\<lambda>j. case j of JArray js \<Rightarrow> js | JObject _ \<Rightarrow> []),
      spec_fixed = lookup_field (\<lambda>v. case v of Pack_data b \<Rightarrow> Present b | _ \<Rightarrow> Malformed),
      spec_sig = lookup_field (\<lambda>v. case v of Pack_sig g \<Rightarrow> Present g | _ \<Rightarrow> Malformed),
      spec_string = lookup_field (\<lambda>v. case v of Pack_string s \<Rightarrow> Present s | _ \<Rightarrow> Malformed),
      spec_timestamp = lookup_field (\<lambda>v. case v of Pack_timestamp t \<Rightarrow> Present t | _ \<Rightarrow> Malformed),
      spec_uint64 = lookup_field (\<lambda>v. case v of Pack_uint64 w \<Rightarrow> Present w | _ \<Rightarrow> Malformed),
      spec_uint32 = lookup_field (\<lambda>v. case v of Pack_uint64 w \<Rightarrow>
                      if unat w < 2 ^ 32 then Present (ucast w) else Malformed | _ \<Rightarrow> Malformed),
      spec_bool = lookup_field (\<lambda>v. case v of Pack_bool b \<Rightarrow> Present b | _ \<Rightarrow> Malformed),
      json_object_get = (\<lambda>j n. None)\<rparr>"

definition sample_writer :: "('s sample_json, 's) json_writer" where
  "sample_writer = \<lparr>json_object = JObject, json_list = JArray\<rparr>"

lemma sample_writer_sel [simp]: "json_object sample_writer = JObject" "json_list sample_writer = JArray"
  by (simp_all add: sample_writer_def)

lemma sample_reader_array [simp]: "json_array sample_reader (JArray js) = js"
  by (simp add: sample_reader_def)

lemma sample_codec: "codec sample_reader sample_writer"
  by (auto simp: codec_def sample_reader_def lookup_field_def absent_def)

type_synonym sample_sig = "octets \<times> purpose \<times> signed_data"

lemma sample_amount_parsed: "u \<le> max_units \<Longrightarrow> parse_amount None (amount_text EUR u) invalidate = Some (eur u)"
  by (simp add: parse_amount_def string_to_amount_text [OF legal_EUR] eur_def)

end
