(* ===== verification/Exchange_Keys.thy ===== *)
theory Exchange_Keys
  imports Json_Library
begin

text \<open>
  The keys and fees an exchange publishes, as the client library uses them when it checks what the
  exchange says: lookups of \<^verbatim>\<open>src/src/lib/exchange_api_handle.c\<close>, and the two checks that the
  histories of coins and of reserves share, of a signature and of a fee. Of the structures, the
  fields that these checks read are kept.
\<close>

section \<open>Keys\<close>

record denom_public_key =
  dk_h_key :: octets
  dk_value :: amount
  dk_fees :: denom_fee_set

record signing_public_key =
  sk_key :: octets
  sk_valid_from :: "64 word"
  sk_valid_until :: "64 word"

record exchange_keys =
  sign_keys :: "signing_public_key list"
  denom_keys :: "denom_public_key list"

text \<open>
  \<open>latest\<close> and \<open>earliest\<close> are the current time plus and minus the tolerance of an hour, as the time
  functions of GNUnet return them.
\<close>

fun signing_key_loop :: "64 word \<Rightarrow> 64 word \<Rightarrow> octets \<Rightarrow> signing_public_key list \<Rightarrow> generic_return" where
  "signing_key_loop latest earliest pub [] = GNUNET_SYSERR"
| "signing_key_loop latest earliest pub (k # ks) =
     (if sk_valid_from k \<le> latest \<and> sk_valid_until k > earliest \<and> pub = sk_key k then GNUNET_OK
      else signing_key_loop latest earliest pub ks)"

definition TALER_EXCHANGE_test_signing_key :: "64 word \<Rightarrow> 64 word \<Rightarrow> exchange_keys \<Rightarrow> octets \<Rightarrow> generic_return" where
  "TALER_EXCHANGE_test_signing_key latest earliest keys pub = signing_key_loop latest earliest pub (sign_keys keys)"

fun denomination_loop :: "octets \<Rightarrow> denom_public_key list \<Rightarrow> denom_public_key option" where
  "denomination_loop hc [] = None"
| "denomination_loop hc (dk # dks) = (if hc = dk_h_key dk then Some dk else denomination_loop hc dks)"

definition TALER_EXCHANGE_get_denomination_key_by_hash :: "exchange_keys \<Rightarrow> octets \<Rightarrow> denom_public_key option" where
  "TALER_EXCHANGE_get_denomination_key_by_hash keys hc = denomination_loop hc (denom_keys keys)"

section \<open>Checks of signatures and fees\<close>

text \<open>The steps of a check that return early: a signature that is not accepted, an unexpected fee.\<close>

definition require :: "generic_return outcome \<Rightarrow> 'a option outcome \<Rightarrow> 'a option outcome" where
  "require v k = obind v (\<lambda>r. if r \<noteq> GNUNET_OK then Done None else k)"

definition fee_matches :: "amount \<Rightarrow> amount \<Rightarrow> 'a option outcome \<Rightarrow> 'a option outcome" where
  "fee_matches fee expected k =
     (if TALER_amount_cmp_currency fee expected \<noteq> GNUNET_YES then Done None
      else obind (TALER_amount_cmp fee expected) (\<lambda>c. if c \<noteq> 0 then Done None else k))"

text \<open>Adding to a total, where an error of the addition is an early return.\<close>

definition add_total :: "amount \<Rightarrow> amount \<Rightarrow> amount option outcome" where
  "add_total acc amt = obind (TALER_amount_add acc amt) (\<lambda>(r, t). Done (if aar_code r < 0 then None else Some t))"

lemma signing_key_OK:
  "TALER_EXCHANGE_test_signing_key latest earliest keys pub = GNUNET_OK \<longleftrightarrow>
   (\<exists>k \<in> set (sign_keys keys). sk_key k = pub \<and> sk_valid_from k \<le> latest \<and> earliest < sk_valid_until k)"
proof -
  have "signing_key_loop latest earliest pub ks = GNUNET_OK \<longleftrightarrow>
        (\<exists>k \<in> set ks. sk_key k = pub \<and> sk_valid_from k \<le> latest \<and> earliest < sk_valid_until k)" for ks
    by (induction ks) auto
  then show ?thesis by (simp add: TALER_EXCHANGE_test_signing_key_def)
qed

lemma denomination_Some:
  "TALER_EXCHANGE_get_denomination_key_by_hash keys hc = Some dk \<Longrightarrow> dk \<in> set (denom_keys keys) \<and> dk_h_key dk = hc"
proof -
  have "denomination_loop hc dks = Some dk \<Longrightarrow> dk \<in> set dks \<and> dk_h_key dk = hc" for dks
    by (induction dks) (auto split: if_splits)
  then show "TALER_EXCHANGE_get_denomination_key_by_hash keys hc = Some dk \<Longrightarrow> ?thesis"
    by (simp add: TALER_EXCHANGE_get_denomination_key_by_hash_def)
qed

lemma hton_not_Abort: "normal a \<Longrightarrow> TALER_amount_hton ll a \<noteq> Abort"
  by (simp add: TALER_amount_hton_def representable_valid normal_representable)

lemma obind_not_Abort: "m \<noteq> Abort \<Longrightarrow> (\<And>x. f x \<noteq> Abort) \<Longrightarrow> obind m f \<noteq> Abort"
  by (cases m) simp_all

lemma require_total: "v \<noteq> Abort \<Longrightarrow> require v k = (if v = Done GNUNET_OK then k else Done None)"
  by (cases v) (simp_all add: require_def)

lemma normal_eq_iff: "normal a \<Longrightarrow> normal b \<Longrightarrow> a = b \<longleftrightarrow> currency a = currency b \<and> units a = units b"
  by (metis normal_mk_amount_units)

lemma fee_matches_exact:
  "normal a \<Longrightarrow> normal b \<Longrightarrow> fee_matches a b k = (if a = b then k else Done None)"
  by (simp add: fee_matches_def cmp_currency_representable cmp_representable normal_representable normal_eq_iff)

lemma add_total_exact:
  assumes "normal t" "normal a"
  shows "add_total t a = Done (if currency t = currency a \<and> units t + units a \<le> max_units
           then Some (mk_amount (currency t) (units t + units a)) else None)"
proof (cases "currency t = currency a")
  case True
  then show ?thesis using assms by (simp add: add_total_def add_representable normal_representable)
next
  case False
  then show ?thesis
    using assms
    by (simp add: add_total_def TALER_amount_add_def cmp_currency_representable normal_representable)
qed

lemma those_set: "those xs = Some ys \<Longrightarrow> Some y \<in> set xs \<Longrightarrow> y \<in> set ys"
  by (induction xs arbitrary: ys) (auto split: option.splits)

lemma those_not_None: "those xs = Some ys \<Longrightarrow> None \<notin> set xs"
  by (induction xs arbitrary: ys) (auto split: option.splits)

end
