(* ===== verification/Reserve_History.thy ===== *)
theory Reserve_History
  imports Exchange_Keys
begin

text \<open>
  The client's check of the history of a reserve, \<^verbatim>\<open>src/src/lib/exchange_api_reserves_history.c\<close>:
  \<^verbatim>\<open>parse_reserve_history\<close> with its seven helpers, which verify the signature of every entry, refuse a
  withdrawal that is listed twice and sum up what went into the reserve and out of it. \<open>Done None\<close> is
  \<^verbatim>\<open>GNUNET_SYSERR\<close>, \<open>Abort\<close> is a failed assertion or the use of a \<^verbatim>\<open>NULL\<close> pointer. The clock is read once; memory is
  not limited. The HTTP request around the check is not modelled.
\<close>

section \<open>Entries\<close>

record in_details =
  in_sender_url :: string
  in_wire_reference :: "64 word"
  in_timestamp :: "64 word"

record 'j withdraw_details =
  wd_out_authorization_sig :: "'j option"
  wd_fee :: amount

record 's recoup_entry_details =
  rcd_coin_pub :: octets
  rcd_exchange_sig :: 's
  rcd_exchange_pub :: octets
  rcd_timestamp :: "64 word"

record 's close_details =
  cd_receiver_account_details :: string
  cd_wtid :: octets
  cd_exchange_sig :: 's
  cd_exchange_pub :: octets
  cd_timestamp :: "64 word"
  cd_fee :: amount

record 's merge_details =
  md_purse_fee :: amount
  md_h_contract_terms :: octets
  md_merge_pub :: octets
  md_purse_pub :: octets
  md_reserve_sig :: 's
  md_merge_timestamp :: "64 word"
  md_purse_expiration :: "64 word"
  md_min_age :: "32 word"
  md_flags :: "32 word"
  md_merged :: bool

record 's open_request =
  or_reserve_sig :: 's
  or_reserve_payment :: amount
  or_request_timestamp :: "64 word"
  or_reserve_expiration :: "64 word"
  or_purse_limit :: "32 word"

record 's close_request =
  cr_reserve_sig :: 's
  cr_request_timestamp :: "64 word"
  cr_target_account_h_payto :: octets

datatype ('j, 's) reserve_details =
    TALER_EXCHANGE_RTT_CREDIT in_details
  | TALER_EXCHANGE_RTT_WITHDRAWAL "'j withdraw_details"
  | TALER_EXCHANGE_RTT_RECOUP "'s recoup_entry_details"
  | TALER_EXCHANGE_RTT_CLOSING "'s close_details"
  | TALER_EXCHANGE_RTT_MERGE "'s merge_details"
  | TALER_EXCHANGE_RTT_OPEN "'s open_request"
  | TALER_EXCHANGE_RTT_CLOSE "'s close_request"

record ('j, 's) reserve_history_entry =
  rh_amount :: amount
  rh_details :: "('j, 's) reserve_details"

text \<open>
  The context of a parse. \<open>uc_uuids\<close> is the used part of the array \<^verbatim>\<open>uuids\<close>; \<open>uc_latest\<close> and
  \<open>uc_earliest\<close> are the current time plus and minus the tolerance for signing keys.
\<close>

record history_parse_context =
  uc_keys :: exchange_keys
  uc_latest :: "64 word"
  uc_earliest :: "64 word"
  uc_reserve_pub :: octets
  uc_uuids :: "octets list"
  uc_total_in :: amount
  uc_total_out :: amount

section \<open>The fields of an entry\<close>

definition credit_spec :: "('j, 's) json_reader \<Rightarrow> 'j \<Rightarrow> in_details option" where
  "credit_spec R j =
     need (spec_uint64 R j ''wire_reference'') (\<lambda>wire_reference.
     need (spec_timestamp R j ''timestamp'') (\<lambda>timestamp.
     need (spec_full_payto_uri R j ''sender_account_url'') (\<lambda>wire_uri.
     Some \<lparr>in_sender_url = wire_uri, in_wire_reference = wire_reference, in_timestamp = timestamp\<rparr>)))"

record 's withdraw_fields =
  wf_sig :: 's
  wf_withdraw_fee :: amount
  wf_h_denom_pub :: octets
  wf_bch :: octets

definition withdraw_spec :: "('j, 's) json_reader \<Rightarrow> 'j \<Rightarrow> 's withdraw_fields option" where
  "withdraw_spec R j =
     need (spec_sig R j ''reserve_sig'') (\<lambda>sig.
     need (spec_amount_any R j ''withdraw_fee'') (\<lambda>withdraw_fee.
     need (spec_fixed R j ''h_denom_pub'') (\<lambda>h_denom_pub.
     need (spec_fixed R j ''h_coin_envelope'') (\<lambda>bch.
     Some \<lparr>wf_sig = sig, wf_withdraw_fee = withdraw_fee, wf_h_denom_pub = h_denom_pub, wf_bch = bch\<rparr>))))"

definition recoup_entry_spec :: "('j, 's) json_reader \<Rightarrow> 'j \<Rightarrow> 's recoup_entry_details option" where
  "recoup_entry_spec R j =
     need (spec_fixed R j ''coin_pub'') (\<lambda>coin_pub.
     need (spec_sig R j ''exchange_sig'') (\<lambda>exchange_sig.
     need (spec_fixed R j ''exchange_pub'') (\<lambda>exchange_pub.
     need (spec_timestamp R j ''timestamp'') (\<lambda>timestamp.
     Some \<lparr>rcd_coin_pub = coin_pub, rcd_exchange_sig = exchange_sig, rcd_exchange_pub = exchange_pub,
       rcd_timestamp = timestamp\<rparr>))))"

definition closing_spec :: "('j, 's) json_reader \<Rightarrow> 'j \<Rightarrow> 's close_details option" where
  "closing_spec R j =
     need (spec_full_payto_uri R j ''receiver_account_details'') (\<lambda>receiver_uri.
     need (spec_fixed R j ''wtid'') (\<lambda>wtid.
     need (spec_sig R j ''exchange_sig'') (\<lambda>exchange_sig.
     need (spec_fixed R j ''exchange_pub'') (\<lambda>exchange_pub.
     need (spec_amount_any R j ''closing_fee'') (\<lambda>fee.
     need (spec_timestamp R j ''timestamp'') (\<lambda>timestamp.
     Some \<lparr>cd_receiver_account_details = receiver_uri, cd_wtid = wtid, cd_exchange_sig = exchange_sig,
       cd_exchange_pub = exchange_pub, cd_timestamp = timestamp, cd_fee = fee\<rparr>))))))"

definition merge_spec :: "('j, 's) json_reader \<Rightarrow> 'j \<Rightarrow> 's merge_details option" where
  "merge_spec R j =
     need (spec_fixed R j ''h_contract_terms'') (\<lambda>h_contract_terms.
     need (spec_fixed R j ''merge_pub'') (\<lambda>merge_pub.
     need (spec_fixed R j ''purse_pub'') (\<lambda>purse_pub.
     need (spec_uint32 R j ''min_age'') (\<lambda>min_age.
     need (spec_uint32 R j ''flags'') (\<lambda>flags32.
     need (spec_sig R j ''reserve_sig'') (\<lambda>reserve_sig.
     need (spec_amount_any R j ''purse_fee'') (\<lambda>purse_fee.
     need (spec_timestamp R j ''merge_timestamp'') (\<lambda>merge_timestamp.
     need (spec_timestamp R j ''purse_expiration'') (\<lambda>purse_expiration.
     need (spec_bool R j ''merged'') (\<lambda>merged.
     Some \<lparr>md_purse_fee = purse_fee, md_h_contract_terms = h_contract_terms, md_merge_pub = merge_pub,
       md_purse_pub = purse_pub, md_reserve_sig = reserve_sig, md_merge_timestamp = merge_timestamp,
       md_purse_expiration = purse_expiration, md_min_age = min_age, md_flags = flags32, md_merged = merged\<rparr>))))))))))"

definition open_spec :: "('j, 's) json_reader \<Rightarrow> 'j \<Rightarrow> 's open_request option" where
  "open_spec R j =
     need (spec_sig R j ''reserve_sig'') (\<lambda>reserve_sig.
     need (spec_amount_any R j ''open_payment'') (\<lambda>reserve_payment.
     need (spec_uint32 R j ''requested_min_purses'') (\<lambda>purse_limit.
     need (spec_timestamp R j ''request_timestamp'') (\<lambda>request_timestamp.
     need (spec_timestamp R j ''requested_expiration'') (\<lambda>reserve_expiration.
     Some \<lparr>or_reserve_sig = reserve_sig, or_reserve_payment = reserve_payment, or_request_timestamp = request_timestamp,
       or_reserve_expiration = reserve_expiration, or_purse_limit = purse_limit\<rparr>)))))"

text \<open>The entries start out as zero bytes, so a missing \<^verbatim>\<open>h_payto\<close> is the zero hash.\<close>

definition close_spec :: "('j, 's) json_reader \<Rightarrow> 'j \<Rightarrow> 's close_request option" where
  "close_spec R j =
     need (spec_sig R j ''reserve_sig'') (\<lambda>reserve_sig.
     may (spec_fixed R j ''h_payto'') (\<lambda>h_payto.
     need (spec_timestamp R j ''request_timestamp'') (\<lambda>request_timestamp.
     Some \<lparr>cr_reserve_sig = reserve_sig, cr_request_timestamp = request_timestamp,
       cr_target_account_h_payto = zeroed 32 h_payto\<rparr>)))"

section \<open>The helpers\<close>

type_synonym ('j, 's) parse_helper =
  "history_parse_context \<Rightarrow> amount \<Rightarrow> 'j \<Rightarrow> (('j, 's) reserve_history_entry \<times> history_parse_context) option outcome"

abbreviation an_entry :: "amount \<Rightarrow> ('j, 's) reserve_details \<Rightarrow> ('j, 's) reserve_history_entry" where
  "an_entry amt d \<equiv> \<lparr>rh_amount = amt, rh_details = d\<rparr>"

definition add_in :: "history_parse_context \<Rightarrow> amount \<Rightarrow> history_parse_context option outcome" where
  "add_in uc amt = and_then (add_total (uc_total_in uc) amt) (\<lambda>t. Done (Some (uc\<lparr>uc_total_in := t\<rparr>)))"

definition add_out :: "history_parse_context \<Rightarrow> amount \<Rightarrow> history_parse_context option outcome" where
  "add_out uc amt = and_then (add_total (uc_total_out uc) amt) (\<lambda>t. Done (Some (uc\<lparr>uc_total_out := t\<rparr>)))"

definition parse_credit :: "'s library \<Rightarrow> ('j, 's) json_reader \<Rightarrow> ('j, 's) parse_helper" where
  "parse_credit L R uc amt j =
     and_then (add_in uc amt) (\<lambda>uc'.
     parse_then (credit_spec R j) (\<lambda>d.
     Done (Some (an_entry amt (TALER_EXCHANGE_RTT_CREDIT d), uc'))))"

definition parse_withdraw :: "'s library \<Rightarrow> ('j, 's) json_reader \<Rightarrow> ('j, 's) parse_helper" where
  "parse_withdraw L R uc amt j =
     parse_then (withdraw_spec R j) (\<lambda>w.
     require (TALER_wallet_withdraw_verify L (wf_h_denom_pub w) amt (wf_bch w) (uc_reserve_pub uc) (wf_sig w))
     (case TALER_EXCHANGE_get_denomination_key_by_hash (uc_keys uc) (wf_h_denom_pub w) of
        None \<Rightarrow> Abort
      | Some dki \<Rightarrow>
          fee_matches (wf_withdraw_fee w) (fee_withdraw (dk_fees dki))
          (let uuid = crypto_hash L (sig_bytes L (wf_sig w))
           in if uuid \<in> set (uc_uuids uc) then Done None
              else and_then (add_out (uc\<lparr>uc_uuids := uc_uuids uc @ [uuid]\<rparr>) amt) (\<lambda>uc'.
                   Done (Some (an_entry amt (TALER_EXCHANGE_RTT_WITHDRAWAL
                     \<lparr>wd_out_authorization_sig = json_object_get R j ''signature'', wd_fee = wf_withdraw_fee w\<rparr>), uc'))))))"

definition parse_recoup :: "'s library \<Rightarrow> ('j, 's) json_reader \<Rightarrow> ('j, 's) parse_helper" where
  "parse_recoup L R uc amt j =
     parse_then (recoup_entry_spec R j) (\<lambda>d.
     require (Done (TALER_EXCHANGE_test_signing_key (uc_latest uc) (uc_earliest uc) (uc_keys uc) (rcd_exchange_pub d)))
     (require (TALER_exchange_online_confirm_recoup_verify L (rcd_timestamp d) amt (rcd_coin_pub d) (uc_reserve_pub uc)
        (rcd_exchange_pub d) (rcd_exchange_sig d))
     (and_then (add_in uc amt) (\<lambda>uc'. Done (Some (an_entry amt (TALER_EXCHANGE_RTT_RECOUP d), uc'))))))"

definition parse_closing :: "'s library \<Rightarrow> ('j, 's) json_reader \<Rightarrow> ('j, 's) parse_helper" where
  "parse_closing L R uc amt j =
     parse_then (closing_spec R j) (\<lambda>d.
     require (Done (TALER_EXCHANGE_test_signing_key (uc_latest uc) (uc_earliest uc) (uc_keys uc) (cd_exchange_pub d)))
     (require (TALER_exchange_online_reserve_closed_verify L (cd_timestamp d) amt (cd_fee d) (cd_receiver_account_details d)
        (cd_wtid d) (uc_reserve_pub uc) (cd_exchange_pub d) (cd_exchange_sig d))
     (and_then (add_out uc amt) (\<lambda>uc'. Done (Some (an_entry amt (TALER_EXCHANGE_RTT_CLOSING d), uc'))))))"

definition parse_merge :: "'s library \<Rightarrow> ('j, 's) json_reader \<Rightarrow> ('j, 's) parse_helper" where
  "parse_merge L R uc amt j =
     parse_then (merge_spec R j) (\<lambda>d.
     require (TALER_wallet_account_merge_verify L (md_merge_timestamp d) (md_purse_pub d) (md_purse_expiration d)
        (md_h_contract_terms d) amt (md_purse_fee d) (md_min_age d) (md_flags d) (uc_reserve_pub uc) (md_reserve_sig d))
     (and_then (if md_merged d then add_in uc amt else add_out uc (md_purse_fee d)) (\<lambda>uc'.
      Done (Some (an_entry amt (TALER_EXCHANGE_RTT_MERGE d), uc')))))"

definition parse_open :: "'s library \<Rightarrow> ('j, 's) json_reader \<Rightarrow> ('j, 's) parse_helper" where
  "parse_open L R uc amt j =
     parse_then (open_spec R j) (\<lambda>d.
     require (TALER_wallet_reserve_open_verify L amt (or_request_timestamp d) (or_reserve_expiration d)
        (or_purse_limit d) (uc_reserve_pub uc) (or_reserve_sig d))
     (and_then (add_out uc amt) (\<lambda>uc'. Done (Some (an_entry amt (TALER_EXCHANGE_RTT_OPEN d), uc')))))"

definition parse_close :: "'s library \<Rightarrow> ('j, 's) json_reader \<Rightarrow> ('j, 's) parse_helper" where
  "parse_close L R uc amt j =
     parse_then (close_spec R j) (\<lambda>d.
     require (TALER_wallet_reserve_close_verify L (cr_request_timestamp d) (Some (cr_target_account_h_payto d))
        (uc_reserve_pub uc) (cr_reserve_sig d))
     (Done (Some (an_entry invalidate (TALER_EXCHANGE_RTT_CLOSE d), uc))))"

section \<open>The loop\<close>

definition reserve_helpers :: "'s library \<Rightarrow> ('j, 's) json_reader \<Rightarrow> (string \<times> ('j, 's) parse_helper) list" where
  "reserve_helpers L R =
     [(''CREDIT'', parse_credit L R), (''WITHDRAW'', parse_withdraw L R), (''RECOUP'', parse_recoup L R),
      (''MERGE'', parse_merge L R), (''CLOSING'', parse_closing L R), (''OPEN'', parse_open L R),
      (''CLOSE'', parse_close L R)]"

fun find_parse_helper :: "string \<Rightarrow> (string \<times> ('j, 's) parse_helper) list \<Rightarrow> ('j, 's) parse_helper" where
  "find_parse_helper ty [] uc amt j = Done None"
| "find_parse_helper ty ((n, h) # hs) uc amt j = (if strcaseeq n ty then h uc amt j else find_parse_helper ty hs uc amt j)"

definition hist_spec :: "('j, 's) json_reader \<Rightarrow> 'j \<Rightarrow> (amount \<times> string) option" where
  "hist_spec R j =
     need (spec_string R j ''type'') (\<lambda>ty.
     need (spec_amount_any R j ''amount'') (\<lambda>amt. Some (amt, ty)))"

definition reserve_step :: "'s library \<Rightarrow> ('j, 's) json_reader \<Rightarrow> history_parse_context \<Rightarrow> 'j
    \<Rightarrow> (('j, 's) reserve_history_entry \<times> history_parse_context) option outcome" where
  "reserve_step L R uc j =
     parse_then (hist_spec R j) (\<lambda>(amt, ty).
     if TALER_amount_cmp_currency amt (uc_total_in uc) \<noteq> GNUNET_YES then Done None
     else find_parse_helper ty (reserve_helpers L R) uc amt j)"

fun reserve_loop :: "'s library \<Rightarrow> ('j, 's) json_reader \<Rightarrow> history_parse_context \<Rightarrow> 'j list
    \<Rightarrow> (('j, 's) reserve_history_entry list \<times> history_parse_context) option outcome" where
  "reserve_loop L R uc [] = Done (Some ([], uc))"
| "reserve_loop L R uc (j # js) =
     and_then (reserve_step L R uc j) (\<lambda>(e, uc').
     and_then (reserve_loop L R uc' js) (\<lambda>(es, uc''). Done (Some (e # es, uc''))))"

text \<open>\<open>history\<close> holds the \<^verbatim>\<open>history_length\<close> elements of the array; the result is \<^verbatim>\<open>total_in\<close>, \<^verbatim>\<open>total_out\<close> and \<^verbatim>\<open>rhistory\<close>.\<close>

definition parse_reserve_history ::
  "'s library \<Rightarrow> ('j, 's) json_reader \<Rightarrow> 64 word \<Rightarrow> 64 word \<Rightarrow> exchange_keys \<Rightarrow> 'j list \<Rightarrow> octets \<Rightarrow> string
   \<Rightarrow> (amount \<times> amount \<times> ('j, 's) reserve_history_entry list) option outcome" where
  "parse_reserve_history L R latest earliest keys history reserve_pub cur =
     (let (r, zero) = TALER_amount_set_zero cur invalidate
      in gassert (r = GNUNET_OK)
         (and_then (reserve_loop L R
            \<lparr>uc_keys = keys, uc_latest = latest, uc_earliest = earliest, uc_reserve_pub = reserve_pub, uc_uuids = [],
             uc_total_in = zero, uc_total_out = zero\<rparr> history) (\<lambda>(es, uc).
          Done (Some (uc_total_in uc, uc_total_out uc, es)))))"

section \<open>What a correct history is\<close>

text \<open>
  An entry as it is read: the details, for a withdrawal with the fields that are checked and
  then forgotten.
\<close>

datatype ('j, 's) reserve_item =
    Credit_item in_details
  | Withdraw_item "'s withdraw_fields" "'j option"
  | Recoup_item "'s recoup_entry_details"
  | Closing_item "'s close_details"
  | Merge_item "'s merge_details"
  | Open_item "'s open_request"
  | Close_item "'s close_request"

definition read_item :: "('j, 's) json_reader \<Rightarrow> string \<Rightarrow> 'j \<Rightarrow> ('j, 's) reserve_item option" where
  "read_item R ty j =
     (if strcaseeq ''CREDIT'' ty then map_option Credit_item (credit_spec R j)
      else if strcaseeq ''WITHDRAW'' ty then
        map_option (\<lambda>w. Withdraw_item w (json_object_get R j ''signature'')) (withdraw_spec R j)
      else if strcaseeq ''RECOUP'' ty then map_option Recoup_item (recoup_entry_spec R j)
      else if strcaseeq ''MERGE'' ty then map_option Merge_item (merge_spec R j)
      else if strcaseeq ''CLOSING'' ty then map_option Closing_item (closing_spec R j)
      else if strcaseeq ''OPEN'' ty then map_option Open_item (open_spec R j)
      else if strcaseeq ''CLOSE'' ty then map_option Close_item (close_spec R j)
      else None)"

definition read_reserve_entry :: "('j, 's) json_reader \<Rightarrow> 'j \<Rightarrow> (amount \<times> ('j, 's) reserve_item) option" where
  "read_reserve_entry R j = Option.bind (hist_spec R j) (\<lambda>(amt, ty). map_option (Pair amt) (read_item R ty j))"

fun entry_of :: "amount \<times> ('j, 's) reserve_item \<Rightarrow> ('j, 's) reserve_history_entry" where
  "entry_of (amt, Credit_item d) = an_entry amt (TALER_EXCHANGE_RTT_CREDIT d)"
| "entry_of (amt, Withdraw_item w a) = an_entry amt (TALER_EXCHANGE_RTT_WITHDRAWAL
     \<lparr>wd_out_authorization_sig = a, wd_fee = wf_withdraw_fee w\<rparr>)"
| "entry_of (amt, Recoup_item d) = an_entry amt (TALER_EXCHANGE_RTT_RECOUP d)"
| "entry_of (amt, Closing_item d) = an_entry amt (TALER_EXCHANGE_RTT_CLOSING d)"
| "entry_of (amt, Merge_item d) = an_entry amt (TALER_EXCHANGE_RTT_MERGE d)"
| "entry_of (amt, Open_item d) = an_entry amt (TALER_EXCHANGE_RTT_OPEN d)"
| "entry_of (amt, Close_item d) = an_entry invalidate (TALER_EXCHANGE_RTT_CLOSE d)"

text \<open>The keys of the exchange with the time at which they are used.\<close>

type_synonym key_clock = "exchange_keys \<times> 64 word \<times> 64 word"

fun key_in_use :: "key_clock \<Rightarrow> octets \<Rightarrow> bool" where
  "key_in_use (keys, latest, earliest) pub \<longleftrightarrow>
     (\<exists>k \<in> set (sign_keys keys). sk_key k = pub \<and> sk_valid_from k \<le> latest \<and> earliest < sk_valid_until k)"

fun genuine :: "'s library \<Rightarrow> key_clock \<Rightarrow> octets \<Rightarrow> amount \<times> ('j, 's) reserve_item \<Rightarrow> bool" where
  "genuine L kc rpub (amt, Credit_item d) \<longleftrightarrow> True"
| "genuine L kc rpub (amt, Withdraw_item w a) \<longleftrightarrow>
     TALER_wallet_withdraw_verify L (wf_h_denom_pub w) amt (wf_bch w) rpub (wf_sig w) = Done GNUNET_OK
     \<and> (\<exists>dk. TALER_EXCHANGE_get_denomination_key_by_hash (fst kc) (wf_h_denom_pub w) = Some dk
            \<and> fee_withdraw (dk_fees dk) = wf_withdraw_fee w)"
| "genuine L kc rpub (amt, Recoup_item d) \<longleftrightarrow>
     key_in_use kc (rcd_exchange_pub d)
     \<and> TALER_exchange_online_confirm_recoup_verify L (rcd_timestamp d) amt (rcd_coin_pub d) rpub (rcd_exchange_pub d)
         (rcd_exchange_sig d) = Done GNUNET_OK"
| "genuine L kc rpub (amt, Closing_item d) \<longleftrightarrow>
     key_in_use kc (cd_exchange_pub d)
     \<and> TALER_exchange_online_reserve_closed_verify L (cd_timestamp d) amt (cd_fee d) (cd_receiver_account_details d)
         (cd_wtid d) rpub (cd_exchange_pub d) (cd_exchange_sig d) = Done GNUNET_OK"
| "genuine L kc rpub (amt, Merge_item d) \<longleftrightarrow>
     TALER_wallet_account_merge_verify L (md_merge_timestamp d) (md_purse_pub d) (md_purse_expiration d)
        (md_h_contract_terms d) amt (md_purse_fee d) (md_min_age d) (md_flags d) rpub (md_reserve_sig d) = Done GNUNET_OK
     \<and> (md_merged d \<or> currency (md_purse_fee d) = currency amt)"
| "genuine L kc rpub (amt, Open_item d) \<longleftrightarrow>
     TALER_wallet_reserve_open_verify L amt (or_request_timestamp d) (or_reserve_expiration d) (or_purse_limit d) rpub
        (or_reserve_sig d) = Done GNUNET_OK"
| "genuine L kc rpub (amt, Close_item d) \<longleftrightarrow>
     TALER_wallet_reserve_close_verify L (cr_request_timestamp d) (Some (cr_target_account_h_payto d)) rpub
        (cr_reserve_sig d) = Done GNUNET_OK"

fun paid_in :: "amount \<times> ('j, 's) reserve_item \<Rightarrow> nat" where
  "paid_in (amt, Credit_item d) = units amt"
| "paid_in (amt, Recoup_item d) = units amt"
| "paid_in (amt, Merge_item d) = (if md_merged d then units amt else 0)"
| "paid_in _ = 0"

fun paid_out :: "amount \<times> ('j, 's) reserve_item \<Rightarrow> nat" where
  "paid_out (amt, Withdraw_item w a) = units amt"
| "paid_out (amt, Closing_item d) = units amt"
| "paid_out (amt, Merge_item d) = (if md_merged d then 0 else units (md_purse_fee d))"
| "paid_out (amt, Open_item d) = units amt"
| "paid_out _ = 0"

fun withdrawal_ids :: "'s library \<Rightarrow> amount \<times> ('j, 's) reserve_item \<Rightarrow> octets list" where
  "withdrawal_ids L (amt, Withdraw_item w a) = [crypto_hash L (sig_bytes L (wf_sig w))]"
| "withdrawal_ids L _ = []"

definition sound_item :: "'s library \<Rightarrow> key_clock \<Rightarrow> octets \<Rightarrow> char list \<Rightarrow> amount \<times> ('j, 's) reserve_item \<Rightarrow> bool" where
  "sound_item L kc rpub cur it \<longleftrightarrow> currency (fst it) = cur \<and> genuine L kc rpub it"

text \<open>The reference: read all entries and judge them together.\<close>

definition reserve_history_reference ::
  "'s library \<Rightarrow> ('j, 's) json_reader \<Rightarrow> key_clock \<Rightarrow> octets \<Rightarrow> char list \<Rightarrow> 'j list
   \<Rightarrow> (amount \<times> amount \<times> ('j, 's) reserve_history_entry list) option" where
  "reserve_history_reference L R kc rpub cur js =
     (case those (map (read_reserve_entry R) js) of
        None \<Rightarrow> None
      | Some its \<Rightarrow>
          let i = sum_list (map paid_in its); out = sum_list (map paid_out its)
          in if list_all (sound_item L kc rpub cur) its \<and> distinct (concat (map (withdrawal_ids L) its))
                \<and> i \<le> max_units \<and> out \<le> max_units
             then Some (mk_amount cur i, mk_amount cur out, map entry_of its) else None)"

declare key_in_use.simps [simp del]

lemma key_in_use_test:
  "TALER_EXCHANGE_test_signing_key latest earliest keys pub = GNUNET_OK \<longleftrightarrow> key_in_use (keys, latest, earliest) pub"
  by (simp add: signing_key_OK key_in_use.simps)

section \<open>The helpers accept exactly genuine entries\<close>

definition good_uc :: "history_parse_context \<Rightarrow> bool" where
  "good_uc uc \<longleftrightarrow>
     (\<forall>dk \<in> set (denom_keys (uc_keys uc)). normal (fee_withdraw (dk_fees dk))) \<and> normal (uc_total_in uc) \<and> normal (uc_total_out uc)
     \<and> currency (uc_total_out uc) = currency (uc_total_in uc) \<and> distinct (uc_uuids uc)"

abbreviation uc_clock :: "history_parse_context \<Rightarrow> key_clock" where
  "uc_clock uc \<equiv> (uc_keys uc, uc_latest uc, uc_earliest uc)"

definition moved :: "history_parse_context \<Rightarrow> nat \<Rightarrow> nat \<Rightarrow> octets list \<Rightarrow> history_parse_context" where
  "moved uc i out us =
     uc\<lparr>uc_uuids := us, uc_total_in := mk_amount (currency (uc_total_in uc)) i,
        uc_total_out := mk_amount (currency (uc_total_in uc)) out\<rparr>"

definition reserve_verdict ::
  "'s library \<Rightarrow> history_parse_context \<Rightarrow> amount \<times> ('j, 's) reserve_item
   \<Rightarrow> (('j, 's) reserve_history_entry \<times> history_parse_context) option" where
  "reserve_verdict L uc it =
     (let i = units (uc_total_in uc) + paid_in it; out = units (uc_total_out uc) + paid_out it;
          us = uc_uuids uc @ withdrawal_ids L it
      in if genuine L (uc_clock uc) (uc_reserve_pub uc) it \<and> i \<le> max_units \<and> out \<le> max_units \<and> distinct us
         then Some (entry_of it, moved uc i out us) else None)"

lemma moved_same:
  assumes "good_uc uc"
  shows "moved uc (units (uc_total_in uc)) (units (uc_total_out uc)) (uc_uuids uc) = uc"
    and "units (uc_total_in uc) \<le> max_units" "units (uc_total_out uc) \<le> max_units"
  using assms normal_mk_amount_units [of "uc_total_in uc"] normal_mk_amount_units [of "uc_total_out uc"]
  by (simp_all add: good_uc_def moved_def normal_def representable_def)

lemma add_totals_exact:
  assumes "good_uc uc" "normal a"
  shows "add_in uc a = Done (if currency a = currency (uc_total_in uc) \<and> units (uc_total_in uc) + units a \<le> max_units
           then Some (moved uc (units (uc_total_in uc) + units a) (units (uc_total_out uc)) (uc_uuids uc)) else None)"
    and "add_out uc a = Done (if currency a = currency (uc_total_in uc) \<and> units (uc_total_out uc) + units a \<le> max_units
           then Some (moved uc (units (uc_total_in uc)) (units (uc_total_out uc) + units a) (uc_uuids uc)) else None)"
  using assms normal_mk_amount_units [of "uc_total_in uc"] normal_mk_amount_units [of "uc_total_out uc"]
  by (auto simp: add_in_def add_out_def add_total_exact good_uc_def moved_def)

lemma reserve_verify_not_Abort:
  assumes "normal a"
  shows "TALER_wallet_withdraw_verify L hdp a bch pub sig \<noteq> Abort"
    and "TALER_exchange_online_confirm_recoup_verify L ts a cp rp pub sig \<noteq> Abort"
    and "normal f \<Longrightarrow> TALER_exchange_online_reserve_closed_verify L ts a f payto wtid rp pub sig \<noteq> Abort"
    and "normal f \<Longrightarrow> TALER_wallet_account_merge_verify L ts pp t2 hc a f age flags pub sig \<noteq> Abort"
    and "TALER_wallet_reserve_open_verify L a ts t2 n pub sig \<noteq> Abort"
    and "TALER_wallet_reserve_close_verify L ts h pub sig \<noteq> Abort"
  by (simp_all add: signatures assms hton_not_Abort obind_not_Abort TALER_full_payto_hash_def)

lemma reserve_fees_normal:
  "withdraw_spec R j = Some w \<Longrightarrow> normal (wf_withdraw_fee w)"
  "closing_spec R j = Some c \<Longrightarrow> normal (cd_fee c)"
  "merge_spec R j = Some m \<Longrightarrow> normal (md_purse_fee m)"
  "hist_spec R j = Some (amt, ty) \<Longrightarrow> normal amt"
  by (auto simp: withdraw_spec_def closing_spec_def merge_spec_def hist_spec_def need_Some amount_any_normal)

lemmas reserve_helper_facts =
  require_total reserve_verify_not_Abort reserve_fees_normal add_totals_exact moved_same reserve_verdict_def key_in_use_test

lemma credit_like_helpers:
  assumes uc: "good_uc uc" and amt: "normal amt" "currency amt = currency (uc_total_in uc)"
  shows "parse_credit L R uc amt j = Done (Option.bind (credit_spec R j) (\<lambda>d. reserve_verdict L uc (amt, Credit_item d)))"
    and "parse_recoup L R uc amt j = Done (Option.bind (recoup_entry_spec R j) (\<lambda>d. reserve_verdict L uc (amt, Recoup_item d)))"
    and "parse_closing L R uc amt j = Done (Option.bind (closing_spec R j) (\<lambda>d. reserve_verdict L uc (amt, Closing_item d)))"
    and "parse_open L R uc amt j = Done (Option.bind (open_spec R j) (\<lambda>d. reserve_verdict L uc (amt, Open_item d)))"
    and "parse_close L R uc amt j = Done (Option.bind (close_spec R j) (\<lambda>d. reserve_verdict L uc (amt, Close_item d)))"
proof -
  have d: "distinct (uc_uuids uc)" using uc by (simp add: good_uc_def)
  show "parse_credit L R uc amt j = Done (Option.bind (credit_spec R j) (\<lambda>d. reserve_verdict L uc (amt, Credit_item d)))"
    using uc amt d by (cases "credit_spec R j") (simp_all add: parse_credit_def reserve_helper_facts)
  show "parse_recoup L R uc amt j = Done (Option.bind (recoup_entry_spec R j) (\<lambda>d. reserve_verdict L uc (amt, Recoup_item d)))"
    "parse_closing L R uc amt j = Done (Option.bind (closing_spec R j) (\<lambda>d. reserve_verdict L uc (amt, Closing_item d)))"
    "parse_open L R uc amt j = Done (Option.bind (open_spec R j) (\<lambda>d. reserve_verdict L uc (amt, Open_item d)))"
    "parse_close L R uc amt j = Done (Option.bind (close_spec R j) (\<lambda>d. reserve_verdict L uc (amt, Close_item d)))"
    unfolding parse_recoup_def parse_closing_def parse_open_def parse_close_def
    by (rule parse_then_cong, insert uc amt d, simp add: reserve_helper_facts)+
qed

lemma parse_merge_exact:
  assumes uc: "good_uc uc" and amt: "normal amt" "currency amt = currency (uc_total_in uc)"
  shows "parse_merge L R uc amt j = Done (Option.bind (merge_spec R j) (\<lambda>d. reserve_verdict L uc (amt, Merge_item d)))"
  unfolding parse_merge_def
proof (rule parse_then_cong, goal_cases)
  case (1 d)
  have "distinct (uc_uuids uc)" using uc by (simp add: good_uc_def)
  then show ?case
    using uc amt reserve_fees_normal(3) [OF 1]
    by (cases "md_merged d") (auto simp: reserve_helper_facts Let_def)
qed

lemma parse_withdraw_exact:
  assumes uc: "good_uc uc" and amt: "normal amt" "currency amt = currency (uc_total_in uc)"
    and known: "\<And>w. withdraw_spec R j = Some w \<Longrightarrow>
      TALER_EXCHANGE_get_denomination_key_by_hash (uc_keys uc) (wf_h_denom_pub w) \<noteq> None"
  shows "parse_withdraw L R uc amt j = Done (Option.bind (withdraw_spec R j) (\<lambda>w.
           reserve_verdict L uc (amt, Withdraw_item w (json_object_get R j ''signature''))))"
  unfolding parse_withdraw_def
proof (rule parse_then_cong, goal_cases)
  case (1 w)
  obtain dk where dk: "TALER_EXCHANGE_get_denomination_key_by_hash (uc_keys uc) (wf_h_denom_pub w) = Some dk"
    using known [OF 1] by blast
  have f: "normal (fee_withdraw (dk_fees dk))" "distinct (uc_uuids uc)"
    using denomination_Some [OF dk] uc by (auto simp: good_uc_def)
  have g: "good_uc (uc\<lparr>uc_uuids := uc_uuids uc @ [u]\<rparr>)" if "u \<notin> set (uc_uuids uc)" for u
    using that uc by (simp add: good_uc_def)
  show ?case
    using amt dk f reserve_fees_normal(1) [OF 1] moved_same [OF uc] add_totals_exact(2) [OF g amt(1)]
    by (auto simp: require_total reserve_verify_not_Abort fee_matches_exact reserve_verdict_def Let_def moved_def)
qed

section \<open>The loop accepts exactly correct histories\<close>

text \<open>Every denomination that a withdrawal names is among the keys of the client.\<close>

definition known_denominations :: "('j, 's) json_reader \<Rightarrow> exchange_keys \<Rightarrow> 'j list \<Rightarrow> bool" where
  "known_denominations R keys js \<longleftrightarrow>
     (\<forall>j \<in> set js. \<forall>w. withdraw_spec R j = Some w \<longrightarrow>
        TALER_EXCHANGE_get_denomination_key_by_hash keys (wf_h_denom_pub w) \<noteq> None)"

lemma find_parse_helper_exact:
  assumes "good_uc uc" "normal amt" "currency amt = currency (uc_total_in uc)" "known_denominations R (uc_keys uc) [j]"
  shows "find_parse_helper ty (reserve_helpers L R) uc amt j
         = Done (Option.bind (read_item R ty j) (\<lambda>it. reserve_verdict L uc (amt, it)))"
  using assms(4)
  by (simp add: reserve_helpers_def read_item_def credit_like_helpers [OF assms(1-3)] parse_merge_exact [OF assms(1-3)]
      parse_withdraw_exact [OF assms(1-3)] known_denominations_def bind_map_option comp_def)

lemma reserve_step_exact:
  assumes uc: "good_uc uc" and known: "known_denominations R (uc_keys uc) [j]"
  shows "reserve_step L R uc j = Done (Option.bind (read_reserve_entry R j) (\<lambda>it.
           if currency (fst it) = currency (uc_total_in uc) then reserve_verdict L uc it else None))"
proof (cases "hist_spec R j")
  case None
  then show ?thesis by (simp add: reserve_step_def read_reserve_entry_def)
next
  case (Some at)
  obtain amt ty where at: "at = (amt, ty)" by (cases at)
  have n: "normal amt" using Some at reserve_fees_normal(4) by simp
  have c: "TALER_amount_cmp_currency amt (uc_total_in uc)
           = (if currency amt = currency (uc_total_in uc) then GNUNET_YES else GNUNET_NO)"
    using n uc by (simp add: cmp_currency_representable normal_representable good_uc_def)
  show ?thesis
    using Some at n c uc known
    by (cases "read_item R ty j") (simp_all add: reserve_step_def read_reserve_entry_def find_parse_helper_exact)
qed

lemma moved_good:
  assumes "good_uc uc" "i \<le> max_units" "out \<le> max_units" "distinct us"
  shows "good_uc (moved uc i out us)"
  using assms by (simp add: good_uc_def moved_def normal_def [of "uc_total_in uc"] representable_def [of "uc_total_in uc"])

lemma moved_sel [simp]:
  "uc_keys (moved uc i out us) = uc_keys uc" "uc_latest (moved uc i out us) = uc_latest uc"
  "uc_earliest (moved uc i out us) = uc_earliest uc" "uc_reserve_pub (moved uc i out us) = uc_reserve_pub uc"
  "uc_uuids (moved uc i out us) = us" "currency (uc_total_in (moved uc i out us)) = currency (uc_total_in uc)"
  "i \<le> max_units \<Longrightarrow> units (uc_total_in (moved uc i out us)) = i"
  "out \<le> max_units \<Longrightarrow> units (uc_total_out (moved uc i out us)) = out"
  "moved (moved uc i out us) i' out' us' = moved uc i' out' us'"
  by (simp_all add: moved_def)

definition judge_items ::
  "'s library \<Rightarrow> history_parse_context \<Rightarrow> (amount \<times> ('j, 's) reserve_item) list
   \<Rightarrow> (('j, 's) reserve_history_entry list \<times> history_parse_context) option" where
  "judge_items L uc its =
     (let i = units (uc_total_in uc) + sum_list (map paid_in its); out = units (uc_total_out uc) + sum_list (map paid_out its);
          us = uc_uuids uc @ concat (map (withdrawal_ids L) its)
      in if list_all (sound_item L (uc_clock uc) (uc_reserve_pub uc) (currency (uc_total_in uc))) its \<and> i \<le> max_units
            \<and> out \<le> max_units \<and> distinct us
         then Some (map entry_of its, moved uc i out us) else None)"

lemma judge_items_Cons:
  "judge_items L uc (it # its) =
     (if currency (fst it) = currency (uc_total_in uc)
      then Option.bind (reserve_verdict L uc it) (\<lambda>(e, uc'). map_option (\<lambda>(es, uc''). (e # es, uc'')) (judge_items L uc' its))
      else None)"
  by (auto simp: judge_items_def reserve_verdict_def sound_item_def Let_def add.assoc)

lemma reserve_loop_exact:
  assumes "good_uc uc" "known_denominations R (uc_keys uc) js"
  shows "reserve_loop L R uc js = Done (Option.bind (those (map (read_reserve_entry R) js)) (judge_items L uc))"
  using assms
proof (induction js arbitrary: uc)
  case Nil
  then show ?case using moved_same [OF Nil(1)] by (simp add: judge_items_def good_uc_def)
next
  case (Cons j js)
  have k: "known_denominations R (uc_keys uc) [j]" "known_denominations R (uc_keys uc) js"
    using Cons.prems(2) by (simp_all add: known_denominations_def)
  have IH: "reserve_loop L R uc' js = Done (Option.bind (those (map (read_reserve_entry R) js)) (judge_items L uc'))"
    if "reserve_verdict L uc it = Some (e, uc')" for it e uc'
    using that Cons.IH [of uc'] moved_good [OF Cons.prems(1)] k(2)
    by (auto simp: reserve_verdict_def Let_def split: if_splits)
  show ?case
  proof (cases "read_reserve_entry R j")
    case None
    then show ?thesis by (simp add: reserve_step_exact [OF Cons.prems(1) k(1)])
  next
    case (Some it)
    show ?thesis
    proof (cases "currency (fst it) = currency (uc_total_in uc)")
      case False
      then show ?thesis
        using Some by (cases "those (map (read_reserve_entry R) js)")
          (simp_all add: reserve_step_exact [OF Cons.prems(1) k(1)] judge_items_Cons)
    next
      case True
      then show ?thesis
        using Some IH [of it]
        by (cases "reserve_verdict L uc it"; cases "those (map (read_reserve_entry R) js)")
          (auto simp: reserve_step_exact [OF Cons.prems(1) k(1)] judge_items_Cons and_then_Done map_conv_bind_option split_def comp_def)
    qed
  qed
qed

text \<open>Keys whose withdrawal fees are well-formed amounts, as the client parsed them.\<close>

definition good_keys :: "exchange_keys \<Rightarrow> bool" where
  "good_keys keys \<longleftrightarrow> (\<forall>dk \<in> set (denom_keys keys). normal (fee_withdraw (dk_fees dk)))"

lemma parse_reserve_history_exact:
  assumes "good_keys keys" "legal_currency cur" "known_denominations R keys js"
  shows "parse_reserve_history L R latest earliest keys js rpub (cstr cur)
         = Done (reserve_history_reference L R (keys, latest, earliest) rpub cur js)"
proof -
  let ?uc = "\<lparr>uc_keys = keys, uc_latest = latest, uc_earliest = earliest, uc_reserve_pub = rpub, uc_uuids = [],
     uc_total_in = mk_amount cur 0, uc_total_out = mk_amount cur 0\<rparr>"
  have "good_uc ?uc" using assms(1,2) by (simp add: good_uc_def good_keys_def)
  then have "reserve_loop L R ?uc js = Done (Option.bind (those (map (read_reserve_entry R) js)) (judge_items L ?uc))"
    using reserve_loop_exact [of ?uc R js L] assms(3) by simp
  then show ?thesis
    by (cases "those (map (read_reserve_entry R) js)")
      (auto simp: parse_reserve_history_def set_zero_legal [OF assms(2)] zero_mk_amount judge_items_def
        reserve_history_reference_def Let_def moved_def)
qed

text \<open>
  C23: when the client knows the denominations of all listed withdrawals,
  \<^verbatim>\<open>parse_reserve_history\<close> accepts exactly the histories that pass these checks: every entry has
  its fields and is in the currency of the reserve; every entry other than a credit, which is
  not signed, carries a valid signature (of the reserve, or of a key of the exchange that is in
  use); the fee of a withdrawal is the published withdrawal fee of its denomination, while closing
  and purse fees are compared with nothing; no withdrawal is listed twice; and the totals are representable.
  It then returns the exact sums of what was paid in and out.
\<close>

theorem reserve_history_exact:
  assumes "good_keys keys" "legal_currency cur" "known_denominations R keys js"
  shows "parse_reserve_history L R latest earliest keys js rpub (cstr cur)
         = Done (reserve_history_reference L R (keys, latest, earliest) rpub cur js)"
  using assms by (rule parse_reserve_history_exact)

text \<open>
  A client that does not know the denomination of a withdrawal crashes. When a correct
  history is followed by a withdrawal with a valid signature whose denomination is not among the client's
  keys, \<^verbatim>\<open>parse_withdraw\<close> reads the fees of a \<^verbatim>\<open>NULL\<close> denomination.
\<close>

lemma reserve_history_unknown_denomination_aborts:
  assumes "good_keys keys" "legal_currency cur" "known_denominations R keys js"
    and "reserve_history_reference L R (keys, latest, earliest) rpub cur js \<noteq> None"
    and "hist_spec R j = Some (amt, ''WITHDRAW'')" "currency amt = cur" "withdraw_spec R j = Some w"
    and "TALER_wallet_withdraw_verify L (wf_h_denom_pub w) amt (wf_bch w) rpub (wf_sig w) = Done GNUNET_OK"
    and "wf_h_denom_pub w \<notin> dk_h_key ` set (denom_keys keys)"
  shows "parse_reserve_history L R latest earliest keys (js @ j # rest) rpub (cstr cur) = Abort"
proof -
  let ?uc = "\<lparr>uc_keys = keys, uc_latest = latest, uc_earliest = earliest, uc_reserve_pub = rpub, uc_uuids = [],
     uc_total_in = mk_amount cur 0, uc_total_out = mk_amount cur 0\<rparr>"
  have g: "good_uc ?uc" using assms(1,2) by (simp add: good_uc_def good_keys_def)
  have "reserve_loop L R ?uc js = Done (Option.bind (those (map (read_reserve_entry R) js)) (judge_items L ?uc))"
    using reserve_loop_exact [OF g, of R js L] assms(3) by simp
  then obtain es i out us where l: "reserve_loop L R ?uc js = Done (Some (es, moved ?uc i out us))" "i \<le> max_units"
    using assms(4)
    by (auto simp: reserve_history_reference_def judge_items_def Let_def split: option.splits if_splits)
  have u: "TALER_EXCHANGE_get_denomination_key_by_hash keys (wf_h_denom_pub w) = None"
    using assms(9) denomination_Some [of keys "wf_h_denom_pub w"]
    by (cases "TALER_EXCHANGE_get_denomination_key_by_hash keys (wf_h_denom_pub w)") (auto simp: image_iff)
  have n: "normal amt" by (rule reserve_fees_normal(4) [OF assms(5)])
  have "TALER_amount_cmp_currency amt (mk_amount cur i) = GNUNET_YES"
    using n assms(2,6) l(2) by (simp add: cmp_currency_representable normal_representable)
  then have "reserve_step L R (moved ?uc i out us) j = Abort"
    using assms(5-8) u
    by (simp add: reserve_step_def reserve_helpers_def strcaseeq_def c_tolower_def c_isupper_def parse_withdraw_def require_def moved_def)
  moreover have "reserve_loop L R uc (xs @ j # rest) = Abort"
    if "reserve_loop L R uc xs = Done (Some (es, uc'))" "reserve_step L R uc' j = Abort" for uc uc' xs es
    using that
  proof (induction xs arbitrary: uc es)
    case (Cons x xs)
    from Cons.prems(1) obtain e ux es' where s: "reserve_step L R uc x = Done (Some (e, ux))"
      "reserve_loop L R ux xs = Done (Some (es', uc'))"
      by (auto simp: and_then_Some)
    show ?case using Cons.IH [OF s(2) Cons.prems(2)] s(1) by simp
  qed simp
  ultimately show ?thesis
    using l(1) by (simp add: parse_reserve_history_def set_zero_legal [OF assms(2)] zero_mk_amount)
qed

section \<open>A sample reserve\<close>

definition sample_keys :: exchange_keys where
  "sample_keys = \<lparr>sign_keys = [],
     denom_keys = [\<lparr>dk_h_key = ''d'', dk_value = eur 5, dk_fees = sample_fees\<rparr>]\<rparr>"

text \<open>A withdrawal of six units, five for the coin and one as the fee.\<close>

definition sample_withdrawal :: "string \<Rightarrow> sample_sig \<Rightarrow> sample_sig sample_json" where
  "sample_withdrawal denom sig = JObject [(''type'', Pack_string ''WITHDRAW''), (''amount'', Pack_string (amount_text EUR 6)),
     (''reserve_sig'', Pack_sig sig), (''h_coin_envelope'', Pack_data ''envelope''), (''h_denom_pub'', Pack_data denom),
     (''withdraw_fee'', Pack_string (amount_text EUR 1))]"

abbreviation sample_wf :: "string \<Rightarrow> sample_sig \<Rightarrow> sample_sig withdraw_fields" where
  "sample_wf denom sig \<equiv> \<lparr>wf_sig = sig, wf_withdraw_fee = eur 1, wf_h_denom_pub = denom, wf_bch = ''envelope''\<rparr>"

lemma sample_withdrawal_read:
  "hist_spec sample_reader (sample_withdrawal denom sig) = Some (eur 6, ''WITHDRAW'')"
  "withdraw_spec sample_reader (sample_withdrawal denom sig) = Some (sample_wf denom sig)"
  "read_reserve_entry sample_reader (sample_withdrawal denom sig) = Some (eur 6, Withdraw_item (sample_wf denom sig) None)"
  by (simp_all add: hist_spec_def withdraw_spec_def read_reserve_entry_def read_item_def sample_withdrawal_def
      sample_reader_def lookup_field_def spec_amount_any_def sample_amount_parsed amount_consts strcaseeq_def c_tolower_def c_isupper_def)

lemma sample_withdrawal_signed:
  "\<exists>sig. TALER_wallet_withdraw_sign sample_library denom (eur 6) ''envelope'' ''reserve'' = Done sig
     \<and> TALER_wallet_withdraw_verify sample_library denom (eur 6) ''envelope'' ''reserve'' sig = Done GNUNET_OK"
  using hton_not_Abort [of "eur 6" "\<lambda>w. w"]
  by (cases "TALER_amount_hton (\<lambda>w. w) (eur 6)") (auto simp: TALER_wallet_withdraw_sign_def TALER_wallet_withdraw_verify_def amount_consts)

lemma sample_keys_good: "good_keys sample_keys"
  by (simp add: good_keys_def sample_keys_def sample_fees_def amount_consts)

theorem reserve_history_exact_witness:
  "\<exists>sig e. TALER_wallet_withdraw_sign sample_library ''d'' (eur 6) ''envelope'' ''reserve'' = Done sig
     \<and> parse_reserve_history sample_library sample_reader 0 0 sample_keys [sample_withdrawal ''d'' sig] ''reserve'' (cstr EUR)
       = Done (Some (eur 0, eur 6, [e]))"
proof -
  obtain sig where s: "TALER_wallet_withdraw_sign sample_library ''d'' (eur 6) ''envelope'' ''reserve'' = Done sig"
    "TALER_wallet_withdraw_verify sample_library ''d'' (eur 6) ''envelope'' ''reserve'' sig = Done GNUNET_OK"
    using sample_withdrawal_signed by blast
  have d: "TALER_EXCHANGE_get_denomination_key_by_hash sample_keys ''d'' = Some \<lparr>dk_h_key = ''d'', dk_value = eur 5, dk_fees = sample_fees\<rparr>"
    by (simp add: TALER_EXCHANGE_get_denomination_key_by_hash_def sample_keys_def)
  have k: "known_denominations sample_reader sample_keys [sample_withdrawal ''d'' sig]"
    using d by (simp add: known_denominations_def sample_withdrawal_read)
  have "reserve_history_reference sample_library sample_reader (sample_keys, 0, 0) ''reserve'' EUR [sample_withdrawal ''d'' sig]
      = Some (eur 0, eur 6, [entry_of (eur 6, Withdraw_item (sample_wf ''d'' sig) None)])"
    using s(2) d by (simp add: reserve_history_reference_def sample_withdrawal_read sound_item_def sample_fees_def eur_eqI amount_consts)
  then show ?thesis
    using s(1) reserve_history_exact [OF sample_keys_good legal_EUR k, of sample_library 0 0 "''reserve''"] by simp
qed

end
