(* ===== verification/Coin_History.thy ===== *)
theory Coin_History
  imports Exchange_Keys
begin

text \<open>
  The check of a coin history by a client, \<^verbatim>\<open>src/src/lib/exchange_api_coins_history.c\<close>: each entry of
  the JSON array is parsed by the helper of its type, which verifies its signatures and
  compares its fee with the fees of the denomination, and its amount is added to what the
  coin received or spent. The JSON library is the parameter \<open>json_reader\<close>, the signatures are
  those of \<open>Wallet_Signatures\<close>. \<open>Done None\<close> is \<^verbatim>\<open>GNUNET_SYSERR\<close>, after which the outputs are
  not used; \<open>Abort\<close> is a failed assertion or a write beyond the caller's array.
\<close>

section \<open>History entries\<close>

record 's deposit_details =
  dep_h_wire :: octets
  dep_h_contract_terms :: octets
  dep_h_policy :: "octets option"
  dep_wallet_data_hash :: "octets option"
  dep_wallet_timestamp :: "64 word"
  dep_merchant_pub :: octets
  dep_refund_deadline :: "64 word"
  dep_sig :: 's
  dep_hac :: "octets option"
  dep_deposit_fee :: amount

record 's melt_details =
  melt_sig :: 's
  melt_rc :: octets
  melt_h_age_commitment :: "octets option"
  melt_melt_fee :: amount

record 's refund_details =
  ref_h_contract_terms :: octets
  ref_merchant_pub :: octets
  ref_sig :: 's
  ref_refund_fee :: amount
  ref_rtransaction_id :: "64 word"

record 's recoup_details =
  rec_reserve_pub :: octets
  rec_timestamp :: "64 word"
  rec_coin_bks :: octets
  rec_exchange_pub :: octets
  rec_exchange_sig :: 's
  rec_coin_sig :: 's

record 's recoup_refresh_details =
  rr_old_coin_pub :: octets
  rr_coin_bks :: octets
  rr_timestamp :: "64 word"
  rr_exchange_pub :: octets
  rr_exchange_sig :: 's
  rr_coin_sig :: 's

record 's old_coin_recoup_details =
  ocr_exchange_pub :: octets
  ocr_exchange_sig :: 's
  ocr_new_coin_pub :: octets
  ocr_timestamp :: "64 word"

record 's purse_deposit_details =
  pd_purse_pub :: octets
  pd_coin_sig :: 's
  pd_exchange_base_url :: string
  pd_refunded :: bool
  pd_phac :: octets

record 's purse_refund_details =
  pr_purse_pub :: octets
  pr_refund_fee :: amount
  pr_exchange_pub :: octets
  pr_exchange_sig :: 's

record 's reserve_open_deposit_details =
  rod_reserve_sig :: octets
  rod_coin_sig :: 's

text \<open>
  The tagged union of an entry. The field \<^verbatim>\<open>sig_amount\<close> of a refund, which the helper computes
  for the signature, is the first argument of its constructor.
\<close>

datatype 's details =
    TALER_EXCHANGE_CTT_DEPOSIT "'s deposit_details"
  | TALER_EXCHANGE_CTT_MELT "'s melt_details"
  | TALER_EXCHANGE_CTT_REFUND amount "'s refund_details"
  | TALER_EXCHANGE_CTT_RECOUP "'s recoup_details"
  | TALER_EXCHANGE_CTT_RECOUP_REFRESH "'s recoup_refresh_details"
  | TALER_EXCHANGE_CTT_OLD_COIN_RECOUP "'s old_coin_recoup_details"
  | TALER_EXCHANGE_CTT_PURSE_DEPOSIT "'s purse_deposit_details"
  | TALER_EXCHANGE_CTT_PURSE_REFUND "'s purse_refund_details"
  | TALER_EXCHANGE_CTT_RESERVE_OPEN_DEPOSIT "'s reserve_open_deposit_details"

record 's coin_history_entry =
  ch_amount :: amount
  ch_details :: "'s details"

record parse_context =
  pc_dk :: denom_public_key
  pc_coin_pub :: octets
  pc_total_in :: amount
  pc_total_out :: amount

section \<open>Specifications\<close>

text \<open>
  The \<^verbatim>\<open>GNUNET_JSON_Specification\<close> of each helper. \<open>old\<close> is what the entry's \<^verbatim>\<open>phac\<close> held before:
  an absent age commitment leaves it in place.
\<close>

definition deposit_spec :: "('j, 's) json_reader \<Rightarrow> 'j \<Rightarrow> 's deposit_details option" where
  "deposit_spec R j =
     need (spec_sig R j ''coin_sig'') (\<lambda>sig.
     need (spec_fixed R j ''h_contract_terms'') (\<lambda>hc.
     may (spec_fixed R j ''wallet_data_hash'') (\<lambda>wdh.
     need (spec_fixed R j ''h_wire'') (\<lambda>hw.
     may (spec_fixed R j ''h_age_commitment'') (\<lambda>hac.
     may (spec_fixed R j ''h_policy'') (\<lambda>hp.
     need (spec_timestamp R j ''timestamp'') (\<lambda>ts.
     may (spec_timestamp R j ''refund_deadline'') (\<lambda>rd.
     need (spec_amount_any R j ''deposit_fee'') (\<lambda>fee.
     need (spec_fixed R j ''merchant_pub'') (\<lambda>mp.
       Some \<lparr>dep_h_wire = hw, dep_h_contract_terms = hc, dep_h_policy = hp, dep_wallet_data_hash = wdh,
             dep_wallet_timestamp = ts, dep_merchant_pub = mp,
             dep_refund_deadline = (case rd of None \<Rightarrow> 0 | Some t \<Rightarrow> t),
             dep_sig = sig, dep_hac = hac, dep_deposit_fee = fee\<rparr>))))))))))"

definition melt_spec :: "('j, 's) json_reader \<Rightarrow> 'j \<Rightarrow> 's melt_details option" where
  "melt_spec R j =
     need (spec_sig R j ''coin_sig'') (\<lambda>sig.
     need (spec_fixed R j ''rc'') (\<lambda>rc.
     may (spec_fixed R j ''h_age_commitment'') (\<lambda>hac.
     need (spec_amount_any R j ''melt_fee'') (\<lambda>fee.
       Some \<lparr>melt_sig = sig, melt_rc = rc, melt_h_age_commitment = hac, melt_melt_fee = fee\<rparr>))))"

definition refund_spec :: "('j, 's) json_reader \<Rightarrow> 'j \<Rightarrow> 's refund_details option" where
  "refund_spec R j =
     need (spec_amount_any R j ''refund_fee'') (\<lambda>fee.
     need (spec_sig R j ''merchant_sig'') (\<lambda>sig.
     need (spec_fixed R j ''h_contract_terms'') (\<lambda>hc.
     need (spec_fixed R j ''merchant_pub'') (\<lambda>mp.
     need (spec_uint64 R j ''rtransaction_id'') (\<lambda>rid.
       Some \<lparr>ref_h_contract_terms = hc, ref_merchant_pub = mp, ref_sig = sig, ref_refund_fee = fee,
             ref_rtransaction_id = rid\<rparr>)))))"

definition recoup_spec :: "('j, 's) json_reader \<Rightarrow> 'j \<Rightarrow> 's recoup_details option" where
  "recoup_spec R j =
     need (spec_sig R j ''exchange_sig'') (\<lambda>xs.
     need (spec_fixed R j ''exchange_pub'') (\<lambda>xp.
     need (spec_fixed R j ''reserve_pub'') (\<lambda>rp.
     need (spec_sig R j ''coin_sig'') (\<lambda>cs.
     need (spec_fixed R j ''coin_blind'') (\<lambda>cb.
     need (spec_timestamp R j ''timestamp'') (\<lambda>ts.
       Some \<lparr>rec_reserve_pub = rp, rec_timestamp = ts, rec_coin_bks = cb, rec_exchange_pub = xp,
             rec_exchange_sig = xs, rec_coin_sig = cs\<rparr>))))))"

definition recoup_refresh_spec :: "('j, 's) json_reader \<Rightarrow> 'j \<Rightarrow> 's recoup_refresh_details option" where
  "recoup_refresh_spec R j =
     need (spec_sig R j ''exchange_sig'') (\<lambda>xs.
     need (spec_fixed R j ''exchange_pub'') (\<lambda>xp.
     need (spec_sig R j ''coin_sig'') (\<lambda>cs.
     need (spec_fixed R j ''old_coin_pub'') (\<lambda>op.
     need (spec_fixed R j ''coin_blind'') (\<lambda>cb.
     need (spec_timestamp R j ''timestamp'') (\<lambda>ts.
       Some \<lparr>rr_old_coin_pub = op, rr_coin_bks = cb, rr_timestamp = ts, rr_exchange_pub = xp,
             rr_exchange_sig = xs, rr_coin_sig = cs\<rparr>))))))"

definition old_coin_recoup_spec :: "('j, 's) json_reader \<Rightarrow> 'j \<Rightarrow> 's old_coin_recoup_details option" where
  "old_coin_recoup_spec R j =
     need (spec_sig R j ''exchange_sig'') (\<lambda>xs.
     need (spec_fixed R j ''exchange_pub'') (\<lambda>xp.
     need (spec_fixed R j ''coin_pub'') (\<lambda>np.
     need (spec_timestamp R j ''timestamp'') (\<lambda>ts.
       Some \<lparr>ocr_exchange_pub = xp, ocr_exchange_sig = xs, ocr_new_coin_pub = np, ocr_timestamp = ts\<rparr>))))"

definition purse_deposit_spec :: "('j, 's) json_reader \<Rightarrow> octets \<Rightarrow> 'j \<Rightarrow> 's purse_deposit_details option" where
  "purse_deposit_spec R old j =
     need (spec_fixed R j ''purse_pub'') (\<lambda>pp.
     need (spec_sig R j ''coin_sig'') (\<lambda>cs.
     may (spec_fixed R j ''h_age_commitment'') (\<lambda>hac.
     need (spec_web_url R j ''exchange_base_url'') (\<lambda>url.
     need (spec_bool R j ''refunded'') (\<lambda>rf.
       Some \<lparr>pd_purse_pub = pp, pd_coin_sig = cs, pd_exchange_base_url = url, pd_refunded = rf,
             pd_phac = (case hac of None \<Rightarrow> old | Some h \<Rightarrow> h)\<rparr>)))))"

definition purse_refund_spec :: "('j, 's) json_reader \<Rightarrow> 'j \<Rightarrow> 's purse_refund_details option" where
  "purse_refund_spec R j =
     need (spec_amount_any R j ''refund_fee'') (\<lambda>fee.
     need (spec_fixed R j ''purse_pub'') (\<lambda>pp.
     need (spec_sig R j ''exchange_sig'') (\<lambda>xs.
     need (spec_fixed R j ''exchange_pub'') (\<lambda>xp.
       Some \<lparr>pr_purse_pub = pp, pr_refund_fee = fee, pr_exchange_pub = xp, pr_exchange_sig = xs\<rparr>))))"

definition reserve_open_deposit_spec :: "('j, 's) json_reader \<Rightarrow> 'j \<Rightarrow> 's reserve_open_deposit_details option" where
  "reserve_open_deposit_spec R j =
     need (spec_fixed R j ''reserve_sig'') (\<lambda>rs.
     need (spec_sig R j ''coin_sig'') (\<lambda>cs.
       Some \<lparr>rod_reserve_sig = rs, rod_coin_sig = cs\<rparr>))"

section \<open>Helpers\<close>

text \<open>
  A helper returns whether to debit (\<^verbatim>\<open>GNUNET_YES\<close>) or credit (\<^verbatim>\<open>GNUNET_NO\<close>) the amount, with the
  entry and the context.
\<close>

type_synonym 's checked = "(generic_return \<times> 's details \<times> parse_context) option outcome"

definition help_deposit ::
  "'s library \<Rightarrow> ('j, 's) json_reader \<Rightarrow> parse_context \<Rightarrow> octets \<Rightarrow> amount \<Rightarrow> 'j \<Rightarrow> 's checked" where
  "help_deposit L R pc old amt j =
     parse_then (deposit_spec R j) (\<lambda>d.
     require (TALER_wallet_deposit_verify L amt (dep_deposit_fee d) (dep_h_wire d) (dep_h_contract_terms d)
                (dep_wallet_data_hash d) (dep_hac d) (dep_h_policy d) (dk_h_key (pc_dk pc)) (dep_wallet_timestamp d)
                (dep_merchant_pub d) (dep_refund_deadline d) (pc_coin_pub pc) (dep_sig d))
     (fee_matches (dep_deposit_fee d) (fee_deposit (dk_fees (pc_dk pc)))
     (Done (Some (GNUNET_YES, TALER_EXCHANGE_CTT_DEPOSIT d, pc)))))"

definition help_melt ::
  "'s library \<Rightarrow> ('j, 's) json_reader \<Rightarrow> parse_context \<Rightarrow> octets \<Rightarrow> amount \<Rightarrow> 'j \<Rightarrow> 's checked" where
  "help_melt L R pc old amt j =
     parse_then (melt_spec R j) (\<lambda>d.
     fee_matches (melt_melt_fee d) (fee_refresh (dk_fees (pc_dk pc)))
     (require (TALER_wallet_melt_verify L amt (melt_melt_fee d) (melt_rc d) (dk_h_key (pc_dk pc))
                 (melt_h_age_commitment d) (pc_coin_pub pc) (melt_sig d))
     (Done (Some (GNUNET_YES, TALER_EXCHANGE_CTT_MELT d, pc)))))"

definition help_refund ::
  "'s library \<Rightarrow> ('j, 's) json_reader \<Rightarrow> parse_context \<Rightarrow> octets \<Rightarrow> amount \<Rightarrow> 'j \<Rightarrow> 's checked" where
  "help_refund L R pc old amt j =
     parse_then (refund_spec R j) (\<lambda>d.
     obind (TALER_amount_add (ref_refund_fee d) amt) (\<lambda>(r, sig_amount).
     if aar_code r < 0 then Done None
     else
       require (TALER_merchant_refund_verify L (pc_coin_pub pc) (ref_h_contract_terms d) (ref_rtransaction_id d)
                  sig_amount (ref_merchant_pub d) (ref_sig d))
       (fee_matches (ref_refund_fee d) (fee_refund (dk_fees (pc_dk pc)))
       (Done (Some (GNUNET_NO, TALER_EXCHANGE_CTT_REFUND sig_amount d, pc))))))"

definition help_recoup ::
  "'s library \<Rightarrow> ('j, 's) json_reader \<Rightarrow> parse_context \<Rightarrow> octets \<Rightarrow> amount \<Rightarrow> 'j \<Rightarrow> 's checked" where
  "help_recoup L R pc old amt j =
     parse_then (recoup_spec R j) (\<lambda>d.
     require (TALER_exchange_online_confirm_recoup_verify L (rec_timestamp d) amt (pc_coin_pub pc)
                (rec_reserve_pub d) (rec_exchange_pub d) (rec_exchange_sig d))
     (require (TALER_wallet_recoup_verify L (dk_h_key (pc_dk pc)) (rec_coin_bks d) (pc_coin_pub pc) (rec_coin_sig d))
     (Done (Some (GNUNET_YES, TALER_EXCHANGE_CTT_RECOUP d, pc)))))"

definition help_recoup_refresh ::
  "'s library \<Rightarrow> ('j, 's) json_reader \<Rightarrow> parse_context \<Rightarrow> octets \<Rightarrow> amount \<Rightarrow> 'j \<Rightarrow> 's checked" where
  "help_recoup_refresh L R pc old amt j =
     parse_then (recoup_refresh_spec R j) (\<lambda>d.
     require (TALER_exchange_online_confirm_recoup_refresh_verify L (rr_timestamp d) amt (pc_coin_pub pc)
                (rr_old_coin_pub d) (rr_exchange_pub d) (rr_exchange_sig d))
     (require (TALER_wallet_recoup_verify L (dk_h_key (pc_dk pc)) (rr_coin_bks d) (pc_coin_pub pc) (rr_coin_sig d))
     (Done (Some (GNUNET_YES, TALER_EXCHANGE_CTT_RECOUP_REFRESH d, pc)))))"

definition help_old_coin_recoup ::
  "'s library \<Rightarrow> ('j, 's) json_reader \<Rightarrow> parse_context \<Rightarrow> octets \<Rightarrow> amount \<Rightarrow> 'j \<Rightarrow> 's checked" where
  "help_old_coin_recoup L R pc old amt j =
     parse_then (old_coin_recoup_spec R j) (\<lambda>d.
     require (TALER_exchange_online_confirm_recoup_refresh_verify L (ocr_timestamp d) amt (ocr_new_coin_pub d)
                (pc_coin_pub pc) (ocr_exchange_pub d) (ocr_exchange_sig d))
     (Done (Some (GNUNET_NO, TALER_EXCHANGE_CTT_OLD_COIN_RECOUP d, pc))))"

definition help_purse_deposit ::
  "'s library \<Rightarrow> ('j, 's) json_reader \<Rightarrow> parse_context \<Rightarrow> octets \<Rightarrow> amount \<Rightarrow> 'j \<Rightarrow> 's checked" where
  "help_purse_deposit L R pc old amt j =
     parse_then (purse_deposit_spec R old j) (\<lambda>d.
     require (TALER_wallet_purse_deposit_verify L (pd_exchange_base_url d) (pd_purse_pub d) amt
                (dk_h_key (pc_dk pc)) (pd_phac d) (pc_coin_pub pc) (pd_coin_sig d))
     (if pd_refunded d
      then obind (TALER_amount_add (pc_total_in pc) (fee_deposit (dk_fees (pc_dk pc)))) (\<lambda>(r, t).
             if aar_code r < 0 then Done None
             else Done (Some (GNUNET_YES, TALER_EXCHANGE_CTT_PURSE_DEPOSIT d, pc\<lparr>pc_total_in := t\<rparr>)))
      else Done (Some (GNUNET_YES, TALER_EXCHANGE_CTT_PURSE_DEPOSIT d, pc))))"

definition help_purse_refund ::
  "'s library \<Rightarrow> ('j, 's) json_reader \<Rightarrow> parse_context \<Rightarrow> octets \<Rightarrow> amount \<Rightarrow> 'j \<Rightarrow> 's checked" where
  "help_purse_refund L R pc old amt j =
     parse_then (purse_refund_spec R j) (\<lambda>d.
     require (TALER_exchange_online_purse_refund_verify L amt (pr_refund_fee d) (pc_coin_pub pc)
                (pr_purse_pub d) (pr_exchange_pub d) (pr_exchange_sig d))
     (fee_matches (pr_refund_fee d) (fee_refund (dk_fees (pc_dk pc)))
     (Done (Some (GNUNET_NO, TALER_EXCHANGE_CTT_PURSE_REFUND d, pc)))))"

definition help_reserve_open_deposit ::
  "'s library \<Rightarrow> ('j, 's) json_reader \<Rightarrow> parse_context \<Rightarrow> octets \<Rightarrow> amount \<Rightarrow> 'j \<Rightarrow> 's checked" where
  "help_reserve_open_deposit L R pc old amt j =
     parse_then (reserve_open_deposit_spec R j) (\<lambda>d.
     require (TALER_wallet_reserve_open_deposit_verify L amt (rod_reserve_sig d) (pc_coin_pub pc) (rod_coin_sig d))
     (Done (Some (GNUNET_YES, TALER_EXCHANGE_CTT_RESERVE_OPEN_DEPOSIT d, pc))))"

section \<open>The history\<close>

text \<open>The table \<^verbatim>\<open>map\<close> of types and helpers, searched in order.\<close>

definition coin_helpers ::
  "'s library \<Rightarrow> ('j, 's) json_reader
   \<Rightarrow> (string \<times> (parse_context \<Rightarrow> octets \<Rightarrow> amount \<Rightarrow> 'j \<Rightarrow> 's checked)) list" where
  "coin_helpers L R =
     [(''DEPOSIT'', help_deposit L R),
      (''MELT'', help_melt L R),
      (''REFUND'', help_refund L R),
      (''RECOUP'', help_recoup L R),
      (''RECOUP-REFRESH'', help_recoup_refresh L R),
      (''OLD-COIN-RECOUP'', help_old_coin_recoup L R),
      (''PURSE-DEPOSIT'', help_purse_deposit L R),
      (''PURSE-REFUND'', help_purse_refund L R),
      (''RESERVE-OPEN-DEPOSIT'', help_reserve_open_deposit L R)]"

fun find_helper :: "string \<Rightarrow> (string \<times> (parse_context \<Rightarrow> octets \<Rightarrow> amount \<Rightarrow> 'j \<Rightarrow> 's checked)) list
   \<Rightarrow> parse_context \<Rightarrow> octets \<Rightarrow> amount \<Rightarrow> 'j \<Rightarrow> 's checked" where
  "find_helper ty [] pc old amt j = Done None"
| "find_helper ty ((t, h) # m) pc old amt j =
     (if strcaseeq ty t then h pc old amt j else find_helper ty m pc old amt j)"

definition entry_spec :: "('j, 's) json_reader \<Rightarrow> 'j \<Rightarrow> (amount \<times> string) option" where
  "entry_spec R j = need (spec_amount_any R j ''amount'') (\<lambda>a. need (spec_string R j ''type'') (\<lambda>ty. Some (a, ty)))"

definition debit_coin :: "parse_context \<Rightarrow> amount \<Rightarrow> parse_context option outcome" where
  "debit_coin pc amt = obind (TALER_amount_add (pc_total_out pc) amt)
     (\<lambda>(r, t). Done (if aar_code r < 0 then None else Some (pc\<lparr>pc_total_out := t\<rparr>)))"

definition credit_coin :: "parse_context \<Rightarrow> amount \<Rightarrow> parse_context option outcome" where
  "credit_coin pc amt = obind (TALER_amount_add (pc_total_in pc) amt)
     (\<lambda>(r, t). Done (if aar_code r < 0 then None else Some (pc\<lparr>pc_total_in := t\<rparr>)))"

text \<open>One iteration of the loop, and the loop over the array; \<open>olds\<close> is the caller's array.\<close>

definition history_step ::
  "'s library \<Rightarrow> ('j, 's) json_reader \<Rightarrow> parse_context \<Rightarrow> octets \<Rightarrow> 'j
   \<Rightarrow> ('s coin_history_entry \<times> parse_context) option outcome" where
  "history_step L R pc old j =
     parse_then (entry_spec R j) (\<lambda>(amt, ty).
     if TALER_amount_cmp_currency amt (pc_total_in pc) \<noteq> GNUNET_YES then Done None
     else and_then (find_helper ty (coin_helpers L R) pc old amt j) (\<lambda>(add, d, pc').
          and_then (if add = GNUNET_SYSERR then Done None
                    else if add = GNUNET_YES then debit_coin pc' amt else credit_coin pc' amt)
            (\<lambda>pc''. Done (Some (\<lparr>ch_amount = amt, ch_details = d\<rparr>, pc'')))))"

fun history_loop ::
  "'s library \<Rightarrow> ('j, 's) json_reader \<Rightarrow> parse_context \<Rightarrow> octets list \<Rightarrow> 'j list
   \<Rightarrow> ('s coin_history_entry list \<times> parse_context) option outcome" where
  "history_loop L R pc olds [] = Done (Some ([], pc))"
| "history_loop L R pc [] (j # js) = Abort"
| "history_loop L R pc (old # olds) (j # js) =
     and_then (history_step L R pc old j) (\<lambda>(e, pc').
     and_then (history_loop L R pc' olds js) (\<lambda>(es, pc''). Done (Some (e # es, pc''))))"

definition TALER_EXCHANGE_parse_coin_history ::
  "'s library \<Rightarrow> ('j, 's) json_reader \<Rightarrow> denom_public_key \<Rightarrow> 'j option \<Rightarrow> octets \<Rightarrow> octets list
   \<Rightarrow> (amount \<times> amount \<times> 's coin_history_entry list) option outcome" where
  "TALER_EXCHANGE_parse_coin_history L R dk history coin_pub rhistory =
     (case history of
        None \<Rightarrow> Done None
      | Some j \<Rightarrow>
          (if json_array R j = [] then Done None
           else let (r, zero) = TALER_amount_set_zero (cstr (currency (dk_value dk))) invalidate
                in gassert (r = GNUNET_OK)
                     (and_then (history_loop L R \<lparr>pc_dk = dk, pc_coin_pub = coin_pub, pc_total_in = dk_value dk,
                                                  pc_total_out = zero\<rparr> rhistory (json_array R j))
                        (\<lambda>(es, pc). Done (Some (pc_total_in pc, pc_total_out pc, es))))))"

text \<open>
  \<^verbatim>\<open>TALER_EXCHANGE_check_coin_signature_conflict\<close>: a signature that occurs in the history proves
  no conflict.
\<close>

fun conflict_loop :: "('j, 's) json_reader \<Rightarrow> 's \<Rightarrow> 'j list \<Rightarrow> generic_return" where
  "conflict_loop R sig [] = GNUNET_OK"
| "conflict_loop R sig (j # js) =
     (case spec_sig R j ''coin_sig'' of
        Present cs \<Rightarrow> if cs = sig then GNUNET_SYSERR else conflict_loop R sig js
      | _ \<Rightarrow> conflict_loop R sig js)"

definition TALER_EXCHANGE_check_coin_signature_conflict ::
  "('j, 's) json_reader \<Rightarrow> 'j \<Rightarrow> 's \<Rightarrow> generic_return" where
  "TALER_EXCHANGE_check_coin_signature_conflict R history coin_sig = conflict_loop R coin_sig (json_array R history)"

section \<open>What a valid history is\<close>

text \<open>
  A reference for the check: reading an entry, what makes it acceptable, and what it moves. An
  accepted entry has the currency of the coin, the fee of the denomination and signatures that
  the verification functions accept for its amount.
\<close>

definition read_details :: "('j, 's) json_reader \<Rightarrow> octets \<Rightarrow> amount \<Rightarrow> string \<Rightarrow> 'j \<Rightarrow> 's details option" where
  "read_details R old amt ty j =
     (if strcaseeq ty ''DEPOSIT'' then map_option TALER_EXCHANGE_CTT_DEPOSIT (deposit_spec R j)
      else if strcaseeq ty ''MELT'' then map_option TALER_EXCHANGE_CTT_MELT (melt_spec R j)
      else if strcaseeq ty ''REFUND'' then
        map_option (\<lambda>d. TALER_EXCHANGE_CTT_REFUND
          (mk_amount (currency amt) (units (ref_refund_fee d) + units amt)) d) (refund_spec R j)
      else if strcaseeq ty ''RECOUP'' then map_option TALER_EXCHANGE_CTT_RECOUP (recoup_spec R j)
      else if strcaseeq ty ''RECOUP-REFRESH'' then map_option TALER_EXCHANGE_CTT_RECOUP_REFRESH (recoup_refresh_spec R j)
      else if strcaseeq ty ''OLD-COIN-RECOUP'' then map_option TALER_EXCHANGE_CTT_OLD_COIN_RECOUP (old_coin_recoup_spec R j)
      else if strcaseeq ty ''PURSE-DEPOSIT'' then map_option TALER_EXCHANGE_CTT_PURSE_DEPOSIT (purse_deposit_spec R old j)
      else if strcaseeq ty ''PURSE-REFUND'' then map_option TALER_EXCHANGE_CTT_PURSE_REFUND (purse_refund_spec R j)
      else if strcaseeq ty ''RESERVE-OPEN-DEPOSIT'' then
        map_option TALER_EXCHANGE_CTT_RESERVE_OPEN_DEPOSIT (reserve_open_deposit_spec R j)
      else None)"

definition read_entry :: "('j, 's) json_reader \<Rightarrow> octets \<Rightarrow> 'j \<Rightarrow> 's coin_history_entry option" where
  "read_entry R old j =
     Option.bind (entry_spec R j) (\<lambda>(amt, ty).
       map_option (\<lambda>d. \<lparr>ch_amount = amt, ch_details = d\<rparr>) (read_details R old amt ty j))"

fun authentic :: "'s library \<Rightarrow> denom_public_key \<Rightarrow> octets \<Rightarrow> amount \<Rightarrow> 's details \<Rightarrow> bool" where
  "authentic L dk coin amt (TALER_EXCHANGE_CTT_DEPOSIT d) \<longleftrightarrow>
     dep_deposit_fee d = fee_deposit (dk_fees dk)
     \<and> TALER_wallet_deposit_verify L amt (dep_deposit_fee d) (dep_h_wire d) (dep_h_contract_terms d)
         (dep_wallet_data_hash d) (dep_hac d) (dep_h_policy d) (dk_h_key dk) (dep_wallet_timestamp d)
         (dep_merchant_pub d) (dep_refund_deadline d) coin (dep_sig d) = Done GNUNET_OK"
| "authentic L dk coin amt (TALER_EXCHANGE_CTT_MELT d) \<longleftrightarrow>
     melt_melt_fee d = fee_refresh (dk_fees dk)
     \<and> TALER_wallet_melt_verify L amt (melt_melt_fee d) (melt_rc d) (dk_h_key dk)
         (melt_h_age_commitment d) coin (melt_sig d) = Done GNUNET_OK"
| "authentic L dk coin amt (TALER_EXCHANGE_CTT_REFUND sig_amount d) \<longleftrightarrow>
     ref_refund_fee d = fee_refund (dk_fees dk)
     \<and> units (ref_refund_fee d) + units amt \<le> max_units
     \<and> TALER_merchant_refund_verify L coin (ref_h_contract_terms d) (ref_rtransaction_id d)
         sig_amount (ref_merchant_pub d) (ref_sig d) = Done GNUNET_OK"
| "authentic L dk coin amt (TALER_EXCHANGE_CTT_RECOUP d) \<longleftrightarrow>
     TALER_exchange_online_confirm_recoup_verify L (rec_timestamp d) amt coin
         (rec_reserve_pub d) (rec_exchange_pub d) (rec_exchange_sig d) = Done GNUNET_OK
     \<and> TALER_wallet_recoup_verify L (dk_h_key dk) (rec_coin_bks d) coin (rec_coin_sig d) = Done GNUNET_OK"
| "authentic L dk coin amt (TALER_EXCHANGE_CTT_RECOUP_REFRESH d) \<longleftrightarrow>
     TALER_exchange_online_confirm_recoup_refresh_verify L (rr_timestamp d) amt coin
         (rr_old_coin_pub d) (rr_exchange_pub d) (rr_exchange_sig d) = Done GNUNET_OK
     \<and> TALER_wallet_recoup_verify L (dk_h_key dk) (rr_coin_bks d) coin (rr_coin_sig d) = Done GNUNET_OK"
| "authentic L dk coin amt (TALER_EXCHANGE_CTT_OLD_COIN_RECOUP d) \<longleftrightarrow>
     TALER_exchange_online_confirm_recoup_refresh_verify L (ocr_timestamp d) amt (ocr_new_coin_pub d)
         coin (ocr_exchange_pub d) (ocr_exchange_sig d) = Done GNUNET_OK"
| "authentic L dk coin amt (TALER_EXCHANGE_CTT_PURSE_DEPOSIT d) \<longleftrightarrow>
     TALER_wallet_purse_deposit_verify L (pd_exchange_base_url d) (pd_purse_pub d) amt
         (dk_h_key dk) (pd_phac d) coin (pd_coin_sig d) = Done GNUNET_OK"
| "authentic L dk coin amt (TALER_EXCHANGE_CTT_PURSE_REFUND d) \<longleftrightarrow>
     pr_refund_fee d = fee_refund (dk_fees dk)
     \<and> TALER_exchange_online_purse_refund_verify L amt (pr_refund_fee d) coin
         (pr_purse_pub d) (pr_exchange_pub d) (pr_exchange_sig d) = Done GNUNET_OK"
| "authentic L dk coin amt (TALER_EXCHANGE_CTT_RESERVE_OPEN_DEPOSIT d) \<longleftrightarrow>
     TALER_wallet_reserve_open_deposit_verify L amt (rod_reserve_sig d) coin (rod_coin_sig d) = Done GNUNET_OK"

definition accepted :: "'s library \<Rightarrow> denom_public_key \<Rightarrow> octets \<Rightarrow> 's coin_history_entry \<Rightarrow> bool" where
  "accepted L dk coin e \<longleftrightarrow>
     currency (ch_amount e) = currency (dk_value dk) \<and> authentic L dk coin (ch_amount e) (ch_details e)"

fun is_credit :: "'s details \<Rightarrow> bool" where
  "is_credit (TALER_EXCHANGE_CTT_REFUND _ _) = True"
| "is_credit (TALER_EXCHANGE_CTT_OLD_COIN_RECOUP _) = True"
| "is_credit (TALER_EXCHANGE_CTT_PURSE_REFUND _) = True"
| "is_credit _ = False"

text \<open>The deposit fee of a purse deposit that was refunded is waived.\<close>

fun waived :: "denom_public_key \<Rightarrow> 's details \<Rightarrow> nat" where
  "waived dk (TALER_EXCHANGE_CTT_PURSE_DEPOSIT d) = (if pd_refunded d then units (fee_deposit (dk_fees dk)) else 0)"
| "waived dk _ = 0"

definition received :: "denom_public_key \<Rightarrow> 's coin_history_entry \<Rightarrow> nat" where
  "received dk e = waived dk (ch_details e) + (if is_credit (ch_details e) then units (ch_amount e) else 0)"

definition spends :: "'s coin_history_entry \<Rightarrow> nat" where
  "spends e = (if is_credit (ch_details e) then 0 else units (ch_amount e))"

definition judge ::
  "'s library \<Rightarrow> denom_public_key \<Rightarrow> octets \<Rightarrow> nat \<Rightarrow> nat \<Rightarrow> 's coin_history_entry list
   \<Rightarrow> (nat \<times> nat \<times> 's coin_history_entry list) option" where
  "judge L dk coin i out es =
     (let i' = i + sum_list (map (received dk) es); out' = out + sum_list (map spends es)
      in if list_all (accepted L dk coin) es \<and> i' \<le> max_units \<and> out' \<le> max_units then Some (i', out', es) else None)"

definition good_denom :: "denom_public_key \<Rightarrow> bool" where
  "good_denom dk \<longleftrightarrow>
     normal (dk_value dk) \<and> normal (fee_deposit (dk_fees dk)) \<and> normal (fee_refresh (dk_fees dk))
     \<and> normal (fee_refund (dk_fees dk)) \<and> currency (fee_deposit (dk_fees dk)) = currency (dk_value dk)
     \<and> currency (fee_refund (dk_fees dk)) = currency (dk_value dk)"

section \<open>The helpers accept exactly signed entries\<close>

lemma verify_not_Abort:
  assumes "normal a"
  shows "normal f \<Longrightarrow> TALER_wallet_deposit_verify L a f hw hc wdh hac hp hdp ts mp rd pub sig \<noteq> Abort"
    and "normal f \<Longrightarrow> TALER_wallet_melt_verify L a f rc hdp hac pub sig \<noteq> Abort"
    and "TALER_merchant_refund_verify L cp hc rid a pub sig \<noteq> Abort"
    and "TALER_exchange_online_confirm_recoup_verify L ts a cp rp pub sig \<noteq> Abort"
    and "TALER_exchange_online_confirm_recoup_refresh_verify L ts a cp oc pub sig \<noteq> Abort"
    and "TALER_wallet_purse_deposit_verify L url pp a hdp hac2 pub sig \<noteq> Abort"
    and "normal f \<Longrightarrow> TALER_exchange_online_purse_refund_verify L a f cp pp pub sig \<noteq> Abort"
    and "TALER_wallet_reserve_open_deposit_verify L a rs pub sig \<noteq> Abort"
    and "TALER_wallet_recoup_verify L hdp bks pub sig \<noteq> Abort"
  by (simp_all add: signatures assms hton_not_Abort obind_not_Abort)

lemma spec_fees_normal:
  "deposit_spec R j = Some d1 \<Longrightarrow> normal (dep_deposit_fee d1)"
  "melt_spec R j = Some d2 \<Longrightarrow> normal (melt_melt_fee d2)"
  "refund_spec R j = Some d3 \<Longrightarrow> normal (ref_refund_fee d3)"
  "purse_refund_spec R j = Some d4 \<Longrightarrow> normal (pr_refund_fee d4)"
  "entry_spec R j = Some (amt, ty) \<Longrightarrow> normal amt"
  by (auto simp: deposit_spec_def melt_spec_def refund_spec_def purse_refund_spec_def entry_spec_def
      need_Some may_Some amount_any_normal)

definition good_context :: "parse_context \<Rightarrow> bool" where
  "good_context pc \<longleftrightarrow>
     good_denom (pc_dk pc) \<and> normal (pc_total_in pc) \<and> normal (pc_total_out pc)
     \<and> currency (pc_total_in pc) = currency (dk_value (pc_dk pc))
     \<and> currency (pc_total_out pc) = currency (dk_value (pc_dk pc))"

lemma good_contextD:
  assumes "good_context pc"
  shows "normal (dk_value (pc_dk pc))" "normal (fee_deposit (dk_fees (pc_dk pc)))"
    "normal (fee_refresh (dk_fees (pc_dk pc)))" "normal (fee_refund (dk_fees (pc_dk pc)))"
    "currency (fee_deposit (dk_fees (pc_dk pc))) = currency (dk_value (pc_dk pc))"
    "currency (fee_refund (dk_fees (pc_dk pc))) = currency (dk_value (pc_dk pc))"
    "normal (pc_total_in pc)" "normal (pc_total_out pc)"
    "currency (pc_total_in pc) = currency (dk_value (pc_dk pc))"
    "currency (pc_total_out pc) = currency (dk_value (pc_dk pc))"
  using assms by (simp_all add: good_context_def good_denom_def)

definition verdict :: "'s library \<Rightarrow> parse_context \<Rightarrow> amount \<Rightarrow> 's details
   \<Rightarrow> (generic_return \<times> 's details \<times> parse_context) option" where
  "verdict L pc amt d =
     (let t = units (pc_total_in pc) + waived (pc_dk pc) d
      in if authentic L (pc_dk pc) (pc_coin_pub pc) amt d \<and> t \<le> max_units
         then Some (if is_credit d then GNUNET_NO else GNUNET_YES, d, pc\<lparr>pc_total_in := mk_amount (currency amt) t\<rparr>)
         else None)"

lemma total_in_unchanged:
  "good_context pc \<Longrightarrow> currency amt = currency (dk_value (pc_dk pc)) \<Longrightarrow>
   pc\<lparr>pc_total_in := mk_amount (currency amt) (units (pc_total_in pc))\<rparr> = pc \<and> units (pc_total_in pc) \<le> max_units"
  using normal_mk_amount_units [of "pc_total_in pc"] good_contextD [of pc]
  by (simp add: normal_def representable_def)

lemmas helper_facts = require_total fee_matches_exact verify_not_Abort spec_fees_normal good_contextD

lemma simple_helpers:
  assumes pc: "good_context pc" and amt: "normal amt" "currency amt = currency (dk_value (pc_dk pc))"
  shows "help_deposit L R pc old amt j
           = Done (Option.bind (deposit_spec R j) (\<lambda>d. verdict L pc amt (TALER_EXCHANGE_CTT_DEPOSIT d)))"
    and "help_melt L R pc old amt j
           = Done (Option.bind (melt_spec R j) (\<lambda>d. verdict L pc amt (TALER_EXCHANGE_CTT_MELT d)))"
    and "help_recoup L R pc old amt j
           = Done (Option.bind (recoup_spec R j) (\<lambda>d. verdict L pc amt (TALER_EXCHANGE_CTT_RECOUP d)))"
    and "help_recoup_refresh L R pc old amt j
           = Done (Option.bind (recoup_refresh_spec R j) (\<lambda>d. verdict L pc amt (TALER_EXCHANGE_CTT_RECOUP_REFRESH d)))"
    and "help_old_coin_recoup L R pc old amt j
           = Done (Option.bind (old_coin_recoup_spec R j) (\<lambda>d. verdict L pc amt (TALER_EXCHANGE_CTT_OLD_COIN_RECOUP d)))"
    and "help_purse_refund L R pc old amt j
           = Done (Option.bind (purse_refund_spec R j) (\<lambda>d. verdict L pc amt (TALER_EXCHANGE_CTT_PURSE_REFUND d)))"
    and "help_reserve_open_deposit L R pc old amt j
           = Done (Option.bind (reserve_open_deposit_spec R j) (\<lambda>d. verdict L pc amt (TALER_EXCHANGE_CTT_RESERVE_OPEN_DEPOSIT d)))"
  unfolding help_deposit_def help_melt_def help_recoup_def help_recoup_refresh_def help_old_coin_recoup_def
    help_purse_refund_def help_reserve_open_deposit_def
  by (rule parse_then_cong, insert amt(1) total_in_unchanged [OF pc amt(2)], simp add: helper_facts pc verdict_def)+

lemma help_refund_exact:
  assumes pc: "good_context pc" and amt: "normal amt" "currency amt = currency (dk_value (pc_dk pc))"
  shows "help_refund L R pc old amt j = Done (Option.bind (refund_spec R j) (\<lambda>d.
           verdict L pc amt (TALER_EXCHANGE_CTT_REFUND (mk_amount (currency amt) (units (ref_refund_fee d) + units amt)) d)))"
  unfolding help_refund_def
proof (rule parse_then_cong, goal_cases)
  case (1 d)
  let ?f = "ref_refund_fee d" and ?e = "fee_refund (dk_fees (pc_dk pc))"
  have f: "normal ?f" "normal ?e" "currency ?e = currency amt"
    using spec_fees_normal(3) [OF 1] good_contextD [OF pc] amt by simp_all
  note n = f(1,2) [THEN normal_representable] amt(1) [THEN normal_representable]
  show ?case
  proof (cases "currency ?f = currency amt")
    case True
    moreover have "normal (mk_amount (currency amt) (units ?f + units amt))" if "units ?f + units amt \<le> max_units"
      using that n by (simp add: representable_def)
    ultimately show ?thesis
      using n f total_in_unchanged [OF pc amt(2)]
      by (simp add: add_representable helper_facts verdict_def)
  next
    case False
    then have "?f \<noteq> ?e" using f(3) by auto
    then show ?thesis
      using False n by (simp add: TALER_amount_add_def cmp_currency_representable verdict_def)
  qed
qed

lemma help_purse_deposit_exact:
  assumes pc: "good_context pc" and amt: "normal amt" "currency amt = currency (dk_value (pc_dk pc))"
  shows "help_purse_deposit L R pc old amt j
         = Done (Option.bind (purse_deposit_spec R old j) (\<lambda>d. verdict L pc amt (TALER_EXCHANGE_CTT_PURSE_DEPOSIT d)))"
  unfolding help_purse_deposit_def
  using total_in_unchanged [OF pc amt(2)] good_contextD [OF pc] amt
  by (intro parse_then_cong) (simp add: helper_facts add_representable normal_representable verdict_def Let_def)

lemma find_helper_exact:
  assumes "good_context pc" "normal amt" "currency amt = currency (dk_value (pc_dk pc))"
  shows "find_helper ty (coin_helpers L R) pc old amt j = Done (Option.bind (read_details R old amt ty j) (verdict L pc amt))"
  by (simp add: coin_helpers_def read_details_def simple_helpers [OF assms] help_refund_exact [OF assms]
      help_purse_deposit_exact [OF assms] bind_map_option comp_def)

section \<open>The loop\<close>

text \<open>The context after the totals of an entry have been added.\<close>

definition advanced :: "parse_context \<Rightarrow> nat \<Rightarrow> nat \<Rightarrow> parse_context" where
  "advanced pc i out =
     pc\<lparr>pc_total_in := mk_amount (currency (dk_value (pc_dk pc))) i,
        pc_total_out := mk_amount (currency (dk_value (pc_dk pc))) out\<rparr>"

lemma advanced_sel [simp]:
  "pc_dk (advanced pc i out) = pc_dk pc" "pc_coin_pub (advanced pc i out) = pc_coin_pub pc"
  "pc_total_in (advanced pc i out) = mk_amount (currency (dk_value (pc_dk pc))) i"
  "pc_total_out (advanced pc i out) = mk_amount (currency (dk_value (pc_dk pc))) out"
  "advanced (advanced pc i out) i' out' = advanced pc i' out'"
  by (simp_all add: advanced_def)

lemma advanced_good:
  "good_context pc \<Longrightarrow> i \<le> max_units \<Longrightarrow> out \<le> max_units \<Longrightarrow> good_context (advanced pc i out)"
  by (simp add: good_context_def good_denom_def normal_def [of "dk_value _"] representable_def [of "dk_value _"])

lemma totals_normal:
  assumes "good_context pc"
  shows "advanced pc (units (pc_total_in pc)) (units (pc_total_out pc)) = pc"
    and "units (pc_total_in pc) \<le> max_units" "units (pc_total_out pc) \<le> max_units"
  using good_contextD(7-) [OF assms] normal_mk_amount_units [of "pc_total_in pc"] normal_mk_amount_units [of "pc_total_out pc"]
  by (simp_all add: advanced_def normal_def representable_def)

lemma book_exact:
  assumes "good_context pc" "normal amt" "currency amt = currency (dk_value (pc_dk pc))"
  shows "debit_coin pc amt = Done (if units (pc_total_out pc) + units amt \<le> max_units
           then Some (advanced pc (units (pc_total_in pc)) (units (pc_total_out pc) + units amt)) else None)"
    and "credit_coin pc amt = Done (if units (pc_total_in pc) + units amt \<le> max_units
           then Some (advanced pc (units (pc_total_in pc) + units amt) (units (pc_total_out pc))) else None)"
  using good_contextD(7-) [OF assms(1)] assms(2,3) normal_mk_amount_units [of "pc_total_in pc"]
    normal_mk_amount_units [of "pc_total_out pc"]
  by (simp_all add: debit_coin_def credit_coin_def add_representable normal_representable advanced_def)

lemma history_step_exact:
  assumes pc: "good_context pc"
  shows "history_step L R pc old j = Done (Option.bind (read_entry R old j) (\<lambda>e.
           let i = units (pc_total_in pc) + received (pc_dk pc) e; out = units (pc_total_out pc) + spends e
           in if accepted L (pc_dk pc) (pc_coin_pub pc) e \<and> i \<le> max_units \<and> out \<le> max_units
              then Some (e, advanced pc i out) else None))"
proof (cases "entry_spec R j")
  case None
  then show ?thesis by (simp add: history_step_def read_entry_def)
next
  case (Some at)
  obtain amt ty where at: "at = (amt, ty)" by (cases at)
  have n: "normal amt" using Some at spec_fees_normal(5) by simp
  let ?same = "currency amt = currency (dk_value (pc_dk pc))"
  have c: "TALER_amount_cmp_currency amt (pc_total_in pc) = (if ?same then GNUNET_YES else GNUNET_NO)"
    using n good_contextD [OF pc] by (simp add: cmp_currency_representable normal_representable)
  show ?thesis
  proof (cases "?same \<and> (\<exists>d. read_details R old amt ty j = Some d)")
    case False
    then show ?thesis
      using Some at n c pc
      by (cases "read_details R old amt ty j")
        (auto simp: history_step_def read_entry_def find_helper_exact accepted_def)
  next
    case True
    then obtain d where d: "read_details R old amt ty j = Some d" and same: ?same by blast
    let ?t = "units (pc_total_in pc) + waived (pc_dk pc) d"
    have g: "good_context (pc\<lparr>pc_total_in := mk_amount (currency amt) ?t\<rparr>)" if "?t \<le> max_units"
      using that pc n same by (simp add: good_context_def normal_def [of amt] representable_def [of amt])
    show ?thesis
      using Some at n c pc d same g book_exact [OF g n] totals_normal [OF pc]
      by (simp add: history_step_def read_entry_def find_helper_exact verdict_def Let_def accepted_def received_def
          spends_def advanced_def add.assoc)
  qed
qed

lemma judge_Cons:
  "judge L dk coin i out (e # es) =
     (let i' = i + received dk e; out' = out + spends e
      in if accepted L dk coin e \<and> i' \<le> max_units \<and> out' \<le> max_units
         then map_option (\<lambda>(a, b, es). (a, b, e # es)) (judge L dk coin i' out' es) else None)"
  by (auto simp: judge_def Let_def add.assoc)

lemma history_loop_exact:
  assumes "good_context pc" "length js \<le> length olds"
  shows "history_loop L R pc olds js =
         Done (Option.bind (those (map2 (read_entry R) olds js)) (\<lambda>es.
           map_option (\<lambda>(i, out, es). (es, advanced pc i out))
             (judge L (pc_dk pc) (pc_coin_pub pc) (units (pc_total_in pc)) (units (pc_total_out pc)) es)))"
  using assms
proof (induction js arbitrary: olds pc)
  case Nil
  then show ?case using totals_normal [OF Nil(1)] by (simp add: judge_def)
next
  case (Cons j js)
  then obtain old olds' where o: "olds = old # olds'" by (cases olds) auto
  note IH = Cons.IH [of "advanced pc i out" olds' for i out, OF advanced_good [OF Cons.prems(1)]]
  show ?case
    using IH Cons.prems
    by (cases "read_entry R old j"; cases "those (map2 (read_entry R) olds' js)")
      (auto simp: o history_step_exact judge_Cons Let_def comp_def option.map_comp split_def and_then_Done map_conv_bind_option)
qed

text \<open>The reference: read all entries, then judge them together.\<close>

definition coin_history_reference ::
  "'s library \<Rightarrow> ('j, 's) json_reader \<Rightarrow> denom_public_key \<Rightarrow> octets \<Rightarrow> octets list \<Rightarrow> 'j list
   \<Rightarrow> (amount \<times> amount \<times> 's coin_history_entry list) option" where
  "coin_history_reference L R dk coin olds js =
     (case those (map2 (read_entry R) olds js) of
        None \<Rightarrow> None
      | Some es \<Rightarrow>
          let i = units (dk_value dk) + sum_list (map (received dk) es); out = sum_list (map spends es)
          in if list_all (accepted L dk coin) es \<and> i \<le> max_units \<and> out \<le> max_units
             then Some (mk_amount (currency (dk_value dk)) i, mk_amount (currency (dk_value dk)) out, es)
             else None)"

lemma parse_coin_history_exact:
  assumes "good_denom dk" "json_array R j \<noteq> []" "length (json_array R j) \<le> length rhistory"
  shows "TALER_EXCHANGE_parse_coin_history L R dk (Some j) coin_pub rhistory
         = Done (coin_history_reference L R dk coin_pub rhistory (json_array R j))"
proof -
  have n: "normal (dk_value dk)" and l: "legal_currency (currency (dk_value dk))"
    using assms(1) by (simp_all add: good_denom_def normal_def representable_def)
  let ?pc = "\<lparr>pc_dk = dk, pc_coin_pub = coin_pub, pc_total_in = dk_value dk,
              pc_total_out = mk_amount (currency (dk_value dk)) 0\<rparr>"
  have "good_context ?pc" using assms(1) n l by (simp add: good_context_def)
  note loop = history_loop_exact [OF this assms(3), of L R]
  show ?thesis
    using assms(2) loop
    by (cases "those (map2 (read_entry R) rhistory (json_array R j))")
      (auto simp: TALER_EXCHANGE_parse_coin_history_def coin_history_reference_def set_zero_legal [OF l]
        zero_mk_amount judge_def Let_def)
qed

text \<open>The helper for recoup-refresh entries asks for a signature of another purpose.\<close>

lemma recoup_refresh_not_authentic:
  assumes "binding L" "TALER_wallet_recoup_refresh_sign L h_denom_pub bks k = Done sig"
  shows "TALER_wallet_recoup_verify L h_denom_pub' bks' (eddsa_public L k) sig \<noteq> Done GNUNET_OK"
  using assms bindingD [OF assms(1), of TALER_SIGNATURE_WALLET_COIN_RECOUP _ k TALER_SIGNATURE_WALLET_COIN_RECOUP_REFRESH]
  by (auto simp: signatures)

lemma reference_accepted:
  assumes "coin_history_reference L R dk coin olds js = Some r" "j \<in> set js" "length js \<le> length olds"
  shows "\<exists>old e. read_entry R old j = Some e \<and> accepted L dk coin e"
proof -
  obtain es where es: "those (map2 (read_entry R) olds js) = Some es" "list_all (accepted L dk coin) es"
    using assms(1) by (auto simp: coin_history_reference_def Let_def split: option.splits if_splits)
  obtain i where i: "i < length js" "js ! i = j" using assms(2) by (auto simp: in_set_conv_nth)
  then have "(olds ! i, j) \<in> set (zip olds js)" using assms(3) by (auto simp: in_set_zip)
  then have m: "read_entry R (olds ! i) j \<in> set (map2 (read_entry R) olds js)" by force
  then obtain e where e: "read_entry R (olds ! i) j = Some e"
    using those_not_None [OF es(1)] by (metis option.exhaust)
  then show ?thesis using those_set [OF es(1)] m es(2) by (fastforce simp: list_all_iff)
qed

section \<open>Properties\<close>

text \<open>
  C21: for a non-empty history that fits the caller's array, \<^verbatim>\<open>TALER_EXCHANGE_parse_coin_history\<close>
  never aborts and accepts exactly the histories in which every entry can be read, has the
  currency of the coin, the fee of the denomination and valid signatures, and whose totals
  are representable. It then returns as \<^verbatim>\<open>total_in\<close> exactly the value of the coin, the credits
  and the waived fees, and as \<^verbatim>\<open>total_out\<close> exactly the debits.
\<close>

theorem coin_history_exact:
  assumes "good_denom dk" "json_array R j \<noteq> []" "length (json_array R j) \<le> length rhistory"
  shows "TALER_EXCHANGE_parse_coin_history L R dk (Some j) coin_pub rhistory
         = Done (coin_history_reference L R dk coin_pub rhistory (json_array R j))"
  by (rule parse_coin_history_exact [OF assms])

section \<open>A sample history\<close>

definition sample_dk :: denom_public_key where
  "sample_dk = \<lparr>dk_h_key = ''d'', dk_value = eur 10,
     dk_fees = \<lparr>fee_withdraw = eur 1, fee_deposit = eur 1, fee_refresh = eur 1, fee_refund = eur 1\<rparr>\<rparr>"

lemma sample_dk_good: "good_denom sample_dk"
  by (simp add: good_denom_def sample_dk_def amount_consts)

text \<open>A coin of 10 units, of which 5 were melted: one entry with the signature of the wallet.\<close>

definition sample_melt :: "sample_sig \<Rightarrow> sample_sig sample_json" where
  "sample_melt sig = JObject [(''amount'', Pack_string (amount_text EUR 5)), (''type'', Pack_string ''MELT''),
     (''melt_fee'', Pack_string (amount_text EUR 1)), (''rc'', Pack_data ''commitment''), (''coin_sig'', Pack_sig sig)]"

lemma sample_melt_read:
  "read_entry sample_reader old (sample_melt sig) = Some \<lparr>ch_amount = eur 5, ch_details = TALER_EXCHANGE_CTT_MELT
     \<lparr>melt_sig = sig, melt_rc = ''commitment'', melt_h_age_commitment = None, melt_melt_fee = eur 1\<rparr>\<rparr>"
  by (simp add: read_entry_def entry_spec_def sample_melt_def spec_amount_any_def sample_reader_def lookup_field_def sample_amount_parsed amount_consts
      read_details_def strcaseeq_def c_tolower_def c_isupper_def melt_spec_def)

theorem coin_history_exact_witness:
  "\<exists>sig e. TALER_wallet_melt_sign sample_library (eur 5) (eur 1) ''commitment'' ''d'' None ''coin'' = Done sig
     \<and> TALER_EXCHANGE_parse_coin_history sample_library sample_reader sample_dk (Some (JArray [sample_melt sig])) ''coin'' [[]]
       = Done (Some (eur 10, eur 5, [e]))"
proof -
  obtain a f where n: "TALER_amount_hton (\<lambda>w. w) (eur 5) = Done a" "TALER_amount_hton (\<lambda>w. w) (eur 1) = Done f"
    using hton_not_Abort [of "eur 5" "\<lambda>w. w"] hton_not_Abort [of "eur 1" "\<lambda>w. w"]
    by (cases "TALER_amount_hton (\<lambda>w. w) (eur 5)"; cases "TALER_amount_hton (\<lambda>w. w) (eur 1)")
      (auto simp: amount_consts)
  then obtain sig where s: "TALER_wallet_melt_sign sample_library (eur 5) (eur 1) ''commitment'' ''d'' None ''coin'' = Done sig"
    by (simp add: TALER_wallet_melt_sign_def)
  then have v: "TALER_wallet_melt_verify sample_library (eur 5) (eur 1) ''commitment'' ''d'' None ''coin'' sig = Done GNUNET_OK"
    using n by (auto simp: TALER_wallet_melt_sign_def TALER_wallet_melt_verify_def)
  have "coin_history_reference sample_library sample_reader sample_dk ''coin'' [[]] [sample_melt sig]
        = Some (eur 10, eur 5, [\<lparr>ch_amount = eur 5, ch_details = TALER_EXCHANGE_CTT_MELT
           \<lparr>melt_sig = sig, melt_rc = ''commitment'', melt_h_age_commitment = None, melt_melt_fee = eur 1\<rparr>\<rparr>])"
    using v by (simp add: coin_history_reference_def sample_melt_read accepted_def received_def spends_def
        sample_dk_def eur_eqI amount_consts)
  then show ?thesis
    using s coin_history_exact [OF sample_dk_good, of sample_reader "JArray [sample_melt sig]" "[[]]" sample_library "''coin''"]
    by simp
qed

end
