(* ===== verification/Coins_Get.thy ===== *)
theory Coins_Get
  imports Coin_History
begin

text \<open>
  The exchange's side of a coin history: \<^verbatim>\<open>compile_transaction_history\<close> of
  \<^verbatim>\<open>src/src/exchange/taler-exchange-httpd_coins_get.c\<close> turns the transactions of a coin into a JSON
  array, which \<open>Coin_History\<close> checks on the client's side. The entries are the structures of
  \<^verbatim>\<open>taler_exchangedb_plugin.h\<close>. The sanity checks of the signatures are compiled in
  (\<^verbatim>\<open>platform.h\<close> sets \<^verbatim>\<open>ENABLE_SANITY_CHECKS\<close>). \<open>Done None\<close> is a \<^verbatim>\<open>NULL\<close> result. Appending to a JSON array
  fails only without memory, which is not modelled.
\<close>

section \<open>Transactions of a coin in the database\<close>

record 's deposit_list_entry =
  dle_csig :: 's
  dle_merchant_pub :: octets
  dle_h_contract_terms :: octets
  dle_wallet_data_hash :: octets
  dle_h_denom_pub :: octets
  dle_h_age_commitment :: octets
  dle_wire_salt :: octets
  dle_h_policy :: octets
  dle_amount_with_fee :: amount
  dle_deposit_fee :: amount
  dle_timestamp :: "64 word"
  dle_refund_deadline :: "64 word"
  dle_receiver_wire_account :: string
  dle_no_age_commitment :: bool
  dle_no_wallet_data_hash :: bool

record 's melt_list_entry =
  mle_coin_sig :: 's
  mle_rc :: octets
  mle_h_denom_pub :: octets
  mle_h_age_commitment :: octets
  mle_no_age_commitment :: bool
  mle_amount_with_fee :: amount
  mle_melt_fee :: amount

record 's refund_list_entry =
  rle_merchant_pub :: octets
  rle_merchant_sig :: 's
  rle_h_contract_terms :: octets
  rle_rtransaction_id :: "64 word"
  rle_refund_amount :: amount
  rle_refund_fee :: amount

record 's recoup_list_entry =
  cle_coin_blind :: octets
  cle_coin_sig :: 's
  cle_h_denom_pub :: octets
  cle_reserve_pub :: octets
  cle_value :: amount
  cle_timestamp :: "64 word"

record 's recoup_refresh_list_entry =
  xle_coin_pub :: octets
  xle_coin_blind :: octets
  xle_coin_sig :: 's
  xle_old_coin_pub :: octets
  xle_value :: amount
  xle_timestamp :: "64 word"

record 's purse_deposit_list_entry =
  ple_exchange_base_url :: "string option"
  ple_purse_pub :: octets
  ple_amount :: amount
  ple_deposit_fee :: amount
  ple_coin_sig :: 's
  ple_h_age_commitment :: octets
  ple_refunded :: bool
  ple_no_age_commitment :: bool

record purse_refund_list_entry =
  fle_purse_pub :: octets
  fle_refund_amount :: amount
  fle_refund_fee :: amount

record 's reserve_open_list_entry =
  ole_reserve_sig :: octets
  ole_coin_contribution :: amount
  ole_coin_sig :: 's

datatype 's transaction_list_entry =
    TT_DEPOSIT "'s deposit_list_entry"
  | TT_MELT "'s melt_list_entry"
  | TT_REFUND "'s refund_list_entry"
  | TT_OLD_COIN_RECOUP "'s recoup_refresh_list_entry"
  | TT_RECOUP "'s recoup_list_entry"
  | TT_RECOUP_REFRESH "'s recoup_refresh_list_entry"
  | TT_PURSE_DEPOSIT "'s purse_deposit_list_entry"
  | TT_PURSE_REFUND purse_refund_list_entry
  | TT_RESERVE_OPEN "'s reserve_open_list_entry"

text \<open>
  What the function needs of its surroundings: the online signing key of the exchange
  (\<^verbatim>\<open>TEH_keys_exchange_sign_\<close>, \<open>None\<close> is an error code) and the base URL.
\<close>

record 's exchange_service =
  sign_online :: "purpose \<times> signed_data \<Rightarrow> (octets \<times> 's) option"
  teh_base_url :: string

section \<open>Compiling the history\<close>

definition flagged :: "bool \<Rightarrow> octets \<Rightarrow> octets option" where
  "flagged missing x = (if missing then None else Some x)"

definition subtract_then :: "amount \<Rightarrow> amount \<Rightarrow> (amount \<Rightarrow> 'a option outcome) \<Rightarrow> 'a option outcome" where
  "subtract_then a b k = obind (TALER_amount_subtract a b) (\<lambda>(r, v). if aar_code r < 0 then Done None else k v)"

definition signed_then :: "(octets \<times> 's) option outcome \<Rightarrow> (octets \<Rightarrow> 's \<Rightarrow> 'a option outcome) \<Rightarrow> 'a option outcome" where
  "signed_then s k = obind s (\<lambda>r. case r of None \<Rightarrow> Done None | Some (epub, esig) \<Rightarrow> k epub esig)"

text \<open>The object of each type of transaction, from its packed amounts.\<close>

definition deposit_fields :: "(string \<times> 's packed) \<Rightarrow> (string \<times> 's packed) \<Rightarrow> octets \<Rightarrow> 's deposit_list_entry \<Rightarrow> 's fields" where
  "deposit_fields a f h_wire d =
     [(''type'', Pack_string ''DEPOSIT''), a, f,
       (''timestamp'', Pack_timestamp (dle_timestamp d)),
       (''refund_deadline'', Pack_timestamp (dle_refund_deadline d)),
       (''merchant_pub'', Pack_data (dle_merchant_pub d)),
       (''h_contract_terms'', Pack_data (dle_h_contract_terms d)),
       (''h_wire'', Pack_data h_wire),
       (''h_age_commitment'', pack_optional (flagged (dle_no_age_commitment d) (dle_h_age_commitment d))),
       (''coin_sig'', Pack_sig (dle_csig d))]"

definition melt_fields :: "(string \<times> 's packed) \<Rightarrow> (string \<times> 's packed) \<Rightarrow> 's melt_list_entry \<Rightarrow> 's fields" where
  "melt_fields a f d =
     [(''type'', Pack_string ''MELT''), a, f, (''rc'', Pack_data (mle_rc d)),
       (''h_age_commitment'', pack_optional (flagged (mle_no_age_commitment d) (mle_h_age_commitment d))),
       (''coin_sig'', Pack_sig (mle_coin_sig d))]"

definition refund_fields :: "(string \<times> 's packed) \<Rightarrow> (string \<times> 's packed) \<Rightarrow> 's refund_list_entry \<Rightarrow> 's fields" where
  "refund_fields a f d =
     [(''type'', Pack_string ''REFUND''), a, f,
       (''h_contract_terms'', Pack_data (rle_h_contract_terms d)),
       (''merchant_pub'', Pack_data (rle_merchant_pub d)),
       (''rtransaction_id'', Pack_uint64 (rle_rtransaction_id d)),
       (''merchant_sig'', Pack_sig (rle_merchant_sig d))]"

definition old_coin_recoup_fields :: "(string \<times> 's packed) \<Rightarrow> octets \<Rightarrow> 's \<Rightarrow> 's recoup_refresh_list_entry \<Rightarrow> 's fields" where
  "old_coin_recoup_fields a epub esig d =
     [(''type'', Pack_string ''OLD-COIN-RECOUP''), a, (''exchange_sig'', Pack_sig esig),
       (''exchange_pub'', Pack_data epub), (''coin_pub'', Pack_data (xle_coin_pub d)),
       (''timestamp'', Pack_timestamp (xle_timestamp d))]"

definition recoup_fields :: "(string \<times> 's packed) \<Rightarrow> octets \<Rightarrow> 's \<Rightarrow> 's recoup_list_entry \<Rightarrow> 's fields" where
  "recoup_fields a epub esig d =
     [(''type'', Pack_string ''RECOUP''), a, (''exchange_sig'', Pack_sig esig),
       (''exchange_pub'', Pack_data epub), (''reserve_pub'', Pack_data (cle_reserve_pub d)),
       (''coin_sig'', Pack_sig (cle_coin_sig d)), (''coin_blind'', Pack_data (cle_coin_blind d)),
       (''reserve_pub'', Pack_data (cle_reserve_pub d)), (''timestamp'', Pack_timestamp (cle_timestamp d))]"

definition recoup_refresh_fields :: "(string \<times> 's packed) \<Rightarrow> octets \<Rightarrow> 's \<Rightarrow> 's recoup_refresh_list_entry \<Rightarrow> 's fields" where
  "recoup_refresh_fields a epub esig d =
     [(''type'', Pack_string ''RECOUP-REFRESH''), a, (''exchange_sig'', Pack_sig esig),
       (''exchange_pub'', Pack_data epub), (''old_coin_pub'', Pack_data (xle_old_coin_pub d)),
       (''coin_sig'', Pack_sig (xle_coin_sig d)), (''coin_blind'', Pack_data (xle_coin_blind d)),
       (''timestamp'', Pack_timestamp (xle_timestamp d))]"

definition purse_deposit_fields :: "'s exchange_service \<Rightarrow> (string \<times> 's packed) \<Rightarrow> 's purse_deposit_list_entry \<Rightarrow> 's fields" where
  "purse_deposit_fields X a d =
     [(''type'', Pack_string ''PURSE-DEPOSIT''), a,
       (''exchange_base_url'', Pack_string (case ple_exchange_base_url d of None \<Rightarrow> teh_base_url X | Some u \<Rightarrow> u)),
       (''h_age_commitment'', pack_optional (flagged (ple_no_age_commitment d) (ple_h_age_commitment d))),
       (''purse_pub'', Pack_data (ple_purse_pub d)), (''refunded'', Pack_bool (ple_refunded d)),
       (''coin_sig'', Pack_sig (ple_coin_sig d))]"

definition purse_refund_fields :: "(string \<times> 's packed) \<Rightarrow> (string \<times> 's packed) \<Rightarrow> octets \<Rightarrow> 's \<Rightarrow> purse_refund_list_entry \<Rightarrow> 's fields" where
  "purse_refund_fields a f epub esig d =
     [(''type'', Pack_string ''PURSE-REFUND''), a, f, (''exchange_sig'', Pack_sig esig),
       (''exchange_pub'', Pack_data epub), (''purse_pub'', Pack_data (fle_purse_pub d))]"

definition reserve_open_fields :: "(string \<times> 's packed) \<Rightarrow> 's reserve_open_list_entry \<Rightarrow> 's fields" where
  "reserve_open_fields a d =
     [(''type'', Pack_string ''RESERVE-OPEN-DEPOSIT''), a, (''reserve_sig'', Pack_data (ole_reserve_sig d)),
       (''coin_sig'', Pack_sig (ole_coin_sig d))]"

fun compile_entry :: "'s library \<Rightarrow> 's exchange_service \<Rightarrow> octets \<Rightarrow> 's transaction_list_entry \<Rightarrow> 's fields option outcome" where
  "compile_entry L X coin_pub (TT_DEPOSIT d) =
     (let h_wire = TALER_merchant_wire_signature_hash L (dle_receiver_wire_account d) (dle_wire_salt d)
      in require (TALER_wallet_deposit_verify L (dle_amount_with_fee d) (dle_deposit_fee d) h_wire (dle_h_contract_terms d)
           (flagged (dle_no_wallet_data_hash d) (dle_wallet_data_hash d))
           (flagged (dle_no_age_commitment d) (dle_h_age_commitment d)) (Some (dle_h_policy d)) (dle_h_denom_pub d)
           (dle_timestamp d) (dle_merchant_pub d) (dle_refund_deadline d) coin_pub (dle_csig d))
         (obind (TALER_JSON_pack_amount ''amount'' (dle_amount_with_fee d)) (\<lambda>a.
          obind (TALER_JSON_pack_amount ''deposit_fee'' (dle_deposit_fee d)) (\<lambda>f.
          Done (Some (deposit_fields a f h_wire d))))))"
| "compile_entry L X coin_pub (TT_MELT d) =
     require (TALER_wallet_melt_verify L (mle_amount_with_fee d) (mle_melt_fee d) (mle_rc d) (mle_h_denom_pub d)
        (Some (mle_h_age_commitment d)) coin_pub (mle_coin_sig d))
     (obind (TALER_JSON_pack_amount ''amount'' (mle_amount_with_fee d)) (\<lambda>a.
      obind (TALER_JSON_pack_amount ''melt_fee'' (mle_melt_fee d)) (\<lambda>f.
      Done (Some (melt_fields a f d)))))"
| "compile_entry L X coin_pub (TT_REFUND d) =
     require (TALER_merchant_refund_verify L coin_pub (rle_h_contract_terms d) (rle_rtransaction_id d) (rle_refund_amount d)
        (rle_merchant_pub d) (rle_merchant_sig d))
     (subtract_then (rle_refund_amount d) (rle_refund_fee d) (\<lambda>v.
      obind (TALER_JSON_pack_amount ''amount'' v) (\<lambda>a.
      obind (TALER_JSON_pack_amount ''refund_fee'' (rle_refund_fee d)) (\<lambda>f.
      Done (Some (refund_fields a f d))))))"
| "compile_entry L X coin_pub (TT_OLD_COIN_RECOUP d) =
     signed_then (TALER_exchange_online_confirm_recoup_refresh_sign L (sign_online X) (xle_timestamp d) (xle_value d)
        (xle_coin_pub d) (xle_old_coin_pub d)) (\<lambda>epub esig.
     obind (TALER_JSON_pack_amount ''amount'' (xle_value d)) (\<lambda>a.
     Done (Some (old_coin_recoup_fields a epub esig d))))"
| "compile_entry L X coin_pub (TT_RECOUP d) =
     signed_then (TALER_exchange_online_confirm_recoup_sign L (sign_online X) (cle_timestamp d) (cle_value d)
        coin_pub (cle_reserve_pub d)) (\<lambda>epub esig.
     obind (TALER_JSON_pack_amount ''amount'' (cle_value d)) (\<lambda>a.
     Done (Some (recoup_fields a epub esig d))))"
| "compile_entry L X coin_pub (TT_RECOUP_REFRESH d) =
     signed_then (TALER_exchange_online_confirm_recoup_refresh_sign L (sign_online X) (xle_timestamp d) (xle_value d)
        coin_pub (xle_old_coin_pub d)) (\<lambda>epub esig.
     obind (TALER_JSON_pack_amount ''amount'' (xle_value d)) (\<lambda>a.
     Done (Some (recoup_refresh_fields a epub esig d))))"
| "compile_entry L X coin_pub (TT_PURSE_DEPOSIT d) =
     obind (TALER_JSON_pack_amount ''amount'' (ple_amount d)) (\<lambda>a.
     Done (Some (purse_deposit_fields X a d)))"
| "compile_entry L X coin_pub (TT_PURSE_REFUND d) =
     subtract_then (fle_refund_amount d) (fle_refund_fee d) (\<lambda>v.
     signed_then (TALER_exchange_online_purse_refund_sign L (sign_online X) v (fle_refund_fee d) coin_pub
        (fle_purse_pub d)) (\<lambda>epub esig.
     obind (TALER_JSON_pack_amount ''amount'' v) (\<lambda>a.
     obind (TALER_JSON_pack_amount ''refund_fee'' (fle_refund_fee d)) (\<lambda>f.
     Done (Some (purse_refund_fields a f epub esig d))))))"
| "compile_entry L X coin_pub (TT_RESERVE_OPEN d) =
     obind (TALER_JSON_pack_amount ''coin_contribution'' (ole_coin_contribution d)) (\<lambda>a.
     Done (Some (reserve_open_fields a d)))"

fun compile_loop ::
  "'s library \<Rightarrow> 's exchange_service \<Rightarrow> ('j, 's) json_writer \<Rightarrow> octets \<Rightarrow> 's transaction_list_entry list
   \<Rightarrow> 'j list option outcome" where
  "compile_loop L X W coin_pub [] = Done (Some [])"
| "compile_loop L X W coin_pub (t # ts) =
     and_then (compile_entry L X coin_pub t) (\<lambda>fs.
     and_then (compile_loop L X W coin_pub ts) (\<lambda>js. Done (Some (json_object W fs # js))))"

definition compile_transaction_history ::
  "'s library \<Rightarrow> 's exchange_service \<Rightarrow> ('j, 's) json_writer \<Rightarrow> octets \<Rightarrow> 's transaction_list_entry list
   \<Rightarrow> 'j option outcome" where
  "compile_transaction_history L X W coin_pub ts =
     and_then (compile_loop L X W coin_pub ts) (\<lambda>js. Done (Some (json_list W js)))"

section \<open>Transactions that reach the client\<close>

text \<open>The exchange can sign with a key whose signatures are accepted.\<close>

definition signs_online :: "'s library \<Rightarrow> 's exchange_service \<Rightarrow> bool" where
  "signs_online L X \<longleftrightarrow>
     (\<forall>p m. \<exists>epub esig. sign_online X (p, m) = Some (epub, esig) \<and> eddsa_verify L p (p, m) esig epub = GNUNET_OK)"

definition in_currency :: "denom_public_key \<Rightarrow> amount \<Rightarrow> bool" where
  "in_currency dk a \<longleftrightarrow> normal a \<and> currency a = currency (dk_value dk)"

definition NO_HASH :: octets where
  "NO_HASH = replicate 32 NUL"

text \<open>
  A stored transaction of a coin whose entry carries all that was signed: the amounts are in the
  currency of the coin, the fees are those of the denomination, the stored signature is valid,
  and the times and numbers can be written. Not among them are deposits with a hash of wallet
  data or a policy, recoups of refreshed coins and deposits for opening a reserve.
\<close>

fun deliverable :: "'s library \<Rightarrow> 's exchange_service \<Rightarrow> denom_public_key \<Rightarrow> octets \<Rightarrow> 's transaction_list_entry \<Rightarrow> bool" where
  "deliverable L X dk coin (TT_DEPOSIT d) \<longleftrightarrow>
     in_currency dk (dle_amount_with_fee d) \<and> dle_deposit_fee d = fee_deposit (dk_fees dk) \<and> dle_timestamp d \<noteq> 0
     \<and> dle_no_wallet_data_hash d \<and> dle_h_policy d = replicate 64 NUL \<and> dle_h_denom_pub d = dk_h_key dk
     \<and> TALER_wallet_deposit_verify L (dle_amount_with_fee d) (dle_deposit_fee d)
         (TALER_merchant_wire_signature_hash L (dle_receiver_wire_account d) (dle_wire_salt d)) (dle_h_contract_terms d)
         None (flagged (dle_no_age_commitment d) (dle_h_age_commitment d)) (Some (dle_h_policy d)) (dle_h_denom_pub d)
         (dle_timestamp d) (dle_merchant_pub d) (dle_refund_deadline d) coin (dle_csig d) = Done GNUNET_OK"
| "deliverable L X dk coin (TT_MELT d) \<longleftrightarrow>
     in_currency dk (mle_amount_with_fee d) \<and> mle_melt_fee d = fee_refresh (dk_fees dk) \<and> mle_h_denom_pub d = dk_h_key dk
     \<and> (mle_no_age_commitment d \<longrightarrow> mle_h_age_commitment d = NO_HASH)
     \<and> TALER_wallet_melt_verify L (mle_amount_with_fee d) (mle_melt_fee d) (mle_rc d) (mle_h_denom_pub d)
         (Some (mle_h_age_commitment d)) coin (mle_coin_sig d) = Done GNUNET_OK"
| "deliverable L X dk coin (TT_REFUND d) \<longleftrightarrow>
     in_currency dk (rle_refund_amount d) \<and> rle_refund_fee d = fee_refund (dk_fees dk)
     \<and> units (rle_refund_fee d) \<le> units (rle_refund_amount d) \<and> unat (rle_rtransaction_id d) < 2 ^ 63
     \<and> TALER_merchant_refund_verify L coin (rle_h_contract_terms d) (rle_rtransaction_id d) (rle_refund_amount d)
         (rle_merchant_pub d) (rle_merchant_sig d) = Done GNUNET_OK"
| "deliverable L X dk coin (TT_OLD_COIN_RECOUP d) \<longleftrightarrow>
     in_currency dk (xle_value d) \<and> xle_old_coin_pub d = coin \<and> xle_timestamp d \<noteq> 0"
| "deliverable L X dk coin (TT_RECOUP d) \<longleftrightarrow>
     in_currency dk (cle_value d) \<and> cle_timestamp d \<noteq> 0
     \<and> TALER_wallet_recoup_verify L (dk_h_key dk) (cle_coin_blind d) coin (cle_coin_sig d) = Done GNUNET_OK"
| "deliverable L X dk coin (TT_RECOUP_REFRESH d) \<longleftrightarrow> False"
| "deliverable L X dk coin (TT_PURSE_DEPOSIT d) \<longleftrightarrow>
     in_currency dk (ple_amount d) \<and> (ple_no_age_commitment d \<longrightarrow> ple_h_age_commitment d = NO_HASH)
     \<and> TALER_is_web_url (case ple_exchange_base_url d of None \<Rightarrow> teh_base_url X | Some u \<Rightarrow> u)
     \<and> TALER_wallet_purse_deposit_verify L (case ple_exchange_base_url d of None \<Rightarrow> teh_base_url X | Some u \<Rightarrow> u)
         (ple_purse_pub d) (ple_amount d) (dk_h_key dk) (ple_h_age_commitment d) coin (ple_coin_sig d) = Done GNUNET_OK"
| "deliverable L X dk coin (TT_PURSE_REFUND d) \<longleftrightarrow>
     in_currency dk (fle_refund_amount d) \<and> fle_refund_fee d = fee_refund (dk_fees dk)
     \<and> units (fle_refund_fee d) \<le> units (fle_refund_amount d)"
| "deliverable L X dk coin (TT_RESERVE_OPEN d) \<longleftrightarrow> False"

text \<open>What a transaction adds to what the coin received and spent.\<close>

fun tx_received :: "denom_public_key \<Rightarrow> 's transaction_list_entry \<Rightarrow> nat" where
  "tx_received dk (TT_REFUND d) = units (rle_refund_amount d) - units (rle_refund_fee d)"
| "tx_received dk (TT_OLD_COIN_RECOUP d) = units (xle_value d)"
| "tx_received dk (TT_PURSE_DEPOSIT d) = (if ple_refunded d then units (fee_deposit (dk_fees dk)) else 0)"
| "tx_received dk (TT_PURSE_REFUND d) = units (fle_refund_amount d) - units (fle_refund_fee d)"
| "tx_received dk _ = 0"

fun tx_spends :: "'s transaction_list_entry \<Rightarrow> nat" where
  "tx_spends (TT_DEPOSIT d) = units (dle_amount_with_fee d)"
| "tx_spends (TT_MELT d) = units (mle_amount_with_fee d)"
| "tx_spends (TT_RECOUP d) = units (cle_value d)"
| "tx_spends (TT_RECOUP_REFRESH d) = units (xle_value d)"
| "tx_spends (TT_PURSE_DEPOSIT d) = units (ple_amount d)"
| "tx_spends (TT_RESERVE_OPEN d) = units (ole_coin_contribution d)"
| "tx_spends _ = 0"

section \<open>Each entry is read back\<close>

lemma flagged_simps [simp]: "flagged True x = None" "flagged False x = Some x"
  by (simp_all add: flagged_def)

lemma pack_amount_normal:
  "normal a \<Longrightarrow> TALER_JSON_pack_amount n a = Done (n, Pack_string (amount_text (currency a) (units a)))"
  by (simp add: TALER_JSON_pack_amount_def from_amount_normal)

lemma require_Done: "v = Done GNUNET_OK \<Longrightarrow> require v k = k"
  by (simp add: require_def)

lemma subtract_then_exact:
  assumes "normal a" "normal b" "currency a = currency b" "units b \<le> units a"
  shows "subtract_then a b k = k (mk_amount (currency a) (units a - units b))"
  using assms by (simp add: subtract_then_def subtract_representable normal_representable)

lemma type_names:
  "\<not> strcaseeq ''MELT'' ''DEPOSIT''"
  "\<not> strcaseeq ''REFUND'' ''DEPOSIT''" "\<not> strcaseeq ''REFUND'' ''MELT''"
  "\<not> strcaseeq ''RECOUP'' ''DEPOSIT''" "\<not> strcaseeq ''RECOUP'' ''MELT''" "\<not> strcaseeq ''RECOUP'' ''REFUND''"
  "\<not> strcaseeq ''OLD-COIN-RECOUP'' ''DEPOSIT''" "\<not> strcaseeq ''OLD-COIN-RECOUP'' ''MELT''"
  "\<not> strcaseeq ''OLD-COIN-RECOUP'' ''REFUND''" "\<not> strcaseeq ''OLD-COIN-RECOUP'' ''RECOUP''"
  "\<not> strcaseeq ''OLD-COIN-RECOUP'' ''RECOUP-REFRESH''"
  "\<not> strcaseeq ''PURSE-DEPOSIT'' ''DEPOSIT''" "\<not> strcaseeq ''PURSE-DEPOSIT'' ''MELT''"
  "\<not> strcaseeq ''PURSE-DEPOSIT'' ''REFUND''" "\<not> strcaseeq ''PURSE-DEPOSIT'' ''RECOUP''"
  "\<not> strcaseeq ''PURSE-DEPOSIT'' ''RECOUP-REFRESH''" "\<not> strcaseeq ''PURSE-DEPOSIT'' ''OLD-COIN-RECOUP''"
  "\<not> strcaseeq ''PURSE-REFUND'' ''DEPOSIT''" "\<not> strcaseeq ''PURSE-REFUND'' ''MELT''"
  "\<not> strcaseeq ''PURSE-REFUND'' ''REFUND''" "\<not> strcaseeq ''PURSE-REFUND'' ''RECOUP''"
  "\<not> strcaseeq ''PURSE-REFUND'' ''RECOUP-REFRESH''" "\<not> strcaseeq ''PURSE-REFUND'' ''OLD-COIN-RECOUP''"
  "\<not> strcaseeq ''PURSE-REFUND'' ''PURSE-DEPOSIT''"
  by (simp_all add: strcaseeq_def c_tolower_def c_isupper_def)

lemma entry_spec_codec:
  assumes "codec R W" "normal a"
  shows "entry_spec R (json_object W ((''type'', Pack_string ty) # (''amount'', Pack_string (amount_text (currency a) (units a))) # fs))
         = Some (a, ty)"
  using assms by (simp add: entry_spec_def codec_amount codec_read)

text \<open>The client reads a deliverable transaction as an entry that it accepts.\<close>

definition arrives ::
  "'s library \<Rightarrow> ('j, 's) json_reader \<Rightarrow> denom_public_key \<Rightarrow> octets \<Rightarrow> 's transaction_list_entry \<Rightarrow> 'j \<Rightarrow> bool" where
  "arrives L R dk coin t j \<longleftrightarrow>
     (\<exists>e. read_entry R NO_HASH j = Some e \<and> accepted L dk coin e \<and> received dk e = tx_received dk t \<and> spends e = tx_spends t)"

lemma read_details_types:
  "read_details R old a ''DEPOSIT'' j = map_option TALER_EXCHANGE_CTT_DEPOSIT (deposit_spec R j)"
  "read_details R old a ''MELT'' j = map_option TALER_EXCHANGE_CTT_MELT (melt_spec R j)"
  "read_details R old a ''REFUND'' j = map_option (\<lambda>d. TALER_EXCHANGE_CTT_REFUND
     (mk_amount (currency a) (units (ref_refund_fee d) + units a)) d) (refund_spec R j)"
  "read_details R old a ''OLD-COIN-RECOUP'' j = map_option TALER_EXCHANGE_CTT_OLD_COIN_RECOUP (old_coin_recoup_spec R j)"
  "read_details R old a ''RECOUP'' j = map_option TALER_EXCHANGE_CTT_RECOUP (recoup_spec R j)"
  "read_details R old a ''PURSE-DEPOSIT'' j = map_option TALER_EXCHANGE_CTT_PURSE_DEPOSIT (purse_deposit_spec R old j)"
  "read_details R old a ''PURSE-REFUND'' j = map_option TALER_EXCHANGE_CTT_PURSE_REFUND (purse_refund_spec R j)"
  by (simp_all add: read_details_def type_names)

lemma arrivesI:
  assumes "codec R W" "in_currency dk amt"
    and "fs = (''type'', Pack_string ty) # (''amount'', Pack_string (amount_text (currency amt) (units amt))) # rest"
    and "read_details R NO_HASH amt ty (json_object W fs) = Some dd" "authentic L dk coin amt dd"
    and "waived dk dd + (if is_credit dd then units amt else 0) = tx_received dk t"
    and "(if is_credit dd then 0 else units amt) = tx_spends t"
  shows "arrives L R dk coin t (json_object W fs)"
  using assms entry_spec_codec [of R W amt ty rest] unfolding arrives_def
  by (intro exI [of _ "\<lparr>ch_amount = amt, ch_details = dd\<rparr>"])
    (clarsimp simp: read_entry_def in_currency_def accepted_def received_def spends_def split: if_splits)

lemma missing_hashes:
  "TALER_wallet_deposit_verify L a f hw hc wdh hac (Some (replicate 64 NUL)) = TALER_wallet_deposit_verify L a f hw hc wdh hac None"
  "TALER_wallet_melt_verify L a f rc hdp (Some NO_HASH) = TALER_wallet_melt_verify L a f rc hdp None"
  by (intro ext; simp add: TALER_wallet_deposit_verify_def TALER_wallet_melt_verify_def zeroed_def NO_HASH_def)+

lemma signs_onlineE:
  assumes "signs_online L X"
  obtains epub esig where "sign_online X (p, m) = Some (epub, esig)" "eddsa_verify L p (p, m) esig epub = GNUNET_OK"
  using assms unfolding signs_online_def by blast

lemma good_denomD:
  assumes "good_denom dk"
  shows "normal (fee_deposit (dk_fees dk))" "normal (fee_refresh (dk_fees dk))" "normal (fee_refund (dk_fees dk))"
    "currency (fee_refund (dk_fees dk)) = currency (dk_value dk)"
  using assms by (simp_all add: good_denom_def)

lemma deposit_arrives:
  assumes "codec R W" "good_denom dk" "deliverable L X dk coin (TT_DEPOSIT d)"
  shows "\<exists>fs. compile_entry L X coin (TT_DEPOSIT d) = Done (Some fs) \<and> arrives L R dk coin (TT_DEPOSIT d) (json_object W fs)"
proof -
  let ?a = "(''amount'', Pack_string (amount_text (currency (dle_amount_with_fee d)) (units (dle_amount_with_fee d))))"
  let ?f = "(''deposit_fee'', Pack_string (amount_text (currency (dle_deposit_fee d)) (units (dle_deposit_fee d))))"
  let ?w = "TALER_merchant_wire_signature_hash L (dle_receiver_wire_account d) (dle_wire_salt d)"
  let ?fs = "deposit_fields ?a ?f ?w d"
  note n = assms(3) [simplified] good_denomD [OF assms(2)]
  have "compile_entry L X coin (TT_DEPOSIT d) = Done (Some ?fs)"
    using n by (clarsimp simp: require_Done pack_amount_normal in_currency_def Let_def)
  moreover have "deposit_spec R (json_object W ?fs) = Some
    \<lparr>dep_h_wire = ?w, dep_h_contract_terms = dle_h_contract_terms d, dep_h_policy = None, dep_wallet_data_hash = None,
     dep_wallet_timestamp = dle_timestamp d, dep_merchant_pub = dle_merchant_pub d, dep_refund_deadline = dle_refund_deadline d,
     dep_sig = dle_csig d, dep_hac = flagged (dle_no_age_commitment d) (dle_h_age_commitment d), dep_deposit_fee = dle_deposit_fee d\<rparr>"
    using n assms(1)
    by (clarsimp simp: deposit_spec_def deposit_fields_def codec_read codec_amount codec_optional codec_optional_time absent_def in_currency_def)
  then have "arrives L R dk coin (TT_DEPOSIT d) (json_object W ?fs)"
    using n
    by (intro arrivesI [OF assms(1), where amt = "dle_amount_with_fee d" and ty = "''DEPOSIT''"])
      (auto simp: read_details_types deposit_fields_def missing_hashes)
  ultimately show ?thesis by blast
qed

lemma melt_arrives:
  assumes "codec R W" "good_denom dk" "deliverable L X dk coin (TT_MELT d)"
  shows "\<exists>fs. compile_entry L X coin (TT_MELT d) = Done (Some fs) \<and> arrives L R dk coin (TT_MELT d) (json_object W fs)"
proof -
  let ?a = "(''amount'', Pack_string (amount_text (currency (mle_amount_with_fee d)) (units (mle_amount_with_fee d))))"
  let ?f = "(''melt_fee'', Pack_string (amount_text (currency (mle_melt_fee d)) (units (mle_melt_fee d))))"
  let ?fs = "melt_fields ?a ?f d"
  note n = assms(3) [simplified] good_denomD [OF assms(2)]
  have "compile_entry L X coin (TT_MELT d) = Done (Some ?fs)"
    using n by (clarsimp simp: require_Done pack_amount_normal in_currency_def)
  moreover have "melt_spec R (json_object W ?fs) = Some
    \<lparr>melt_sig = mle_coin_sig d, melt_rc = mle_rc d,
     melt_h_age_commitment = flagged (mle_no_age_commitment d) (mle_h_age_commitment d), melt_melt_fee = mle_melt_fee d\<rparr>"
    using n assms(1)
    by (clarsimp simp: melt_spec_def melt_fields_def codec_read codec_amount codec_optional in_currency_def)
  then have "arrives L R dk coin (TT_MELT d) (json_object W ?fs)"
    using n
    by (intro arrivesI [OF assms(1), where amt = "mle_amount_with_fee d" and ty = "''MELT''"])
      (auto simp: read_details_types melt_fields_def missing_hashes flagged_def)
  ultimately show ?thesis by blast
qed

lemma refund_arrives:
  assumes "codec R W" "good_denom dk" "deliverable L X dk coin (TT_REFUND d)"
  shows "\<exists>fs. compile_entry L X coin (TT_REFUND d) = Done (Some fs) \<and> arrives L R dk coin (TT_REFUND d) (json_object W fs)"
proof -
  let ?v = "mk_amount (currency (rle_refund_amount d)) (units (rle_refund_amount d) - units (rle_refund_fee d))"
  let ?a = "(''amount'', Pack_string (amount_text (currency ?v) (units ?v)))"
  let ?f = "(''refund_fee'', Pack_string (amount_text (currency (rle_refund_fee d)) (units (rle_refund_fee d))))"
  let ?fs = "refund_fields ?a ?f d"
  note n = assms(3) [simplified] good_denomD [OF assms(2)]
  have m: "units (rle_refund_amount d) \<le> max_units" "legal_currency (currency (rle_refund_amount d))"
    using n by (auto simp: in_currency_def normal_def representable_def)
  then have v: "normal ?v" "units ?v = units (rle_refund_amount d) - units (rle_refund_fee d)"
    by simp_all
  have whole: "mk_amount (currency (rle_refund_amount d)) (units (rle_refund_amount d)) = rle_refund_amount d"
    using n by (intro normal_mk_amount_units) (simp add: in_currency_def)
  have "compile_entry L X coin (TT_REFUND d) = Done (Some ?fs)"
    using n v by (clarsimp simp: require_Done pack_amount_normal in_currency_def subtract_then_exact)
  moreover have "refund_spec R (json_object W ?fs) = Some
    \<lparr>ref_h_contract_terms = rle_h_contract_terms d, ref_merchant_pub = rle_merchant_pub d, ref_sig = rle_merchant_sig d,
     ref_refund_fee = rle_refund_fee d, ref_rtransaction_id = rle_rtransaction_id d\<rparr>"
    using n assms(1) v
    by (clarsimp simp: refund_spec_def refund_fields_def codec_read codec_amount in_currency_def)
  then have "arrives L R dk coin (TT_REFUND d) (json_object W ?fs)"
    using n v m whole
    by (intro arrivesI [OF assms(1), where amt = ?v and ty = "''REFUND''"])
      (auto simp: read_details_types refund_fields_def in_currency_def)
  ultimately show ?thesis by blast
qed

lemma old_coin_recoup_arrives:
  assumes "codec R W" "signs_online L X" "deliverable L X dk coin (TT_OLD_COIN_RECOUP d)"
  shows "\<exists>fs. compile_entry L X coin (TT_OLD_COIN_RECOUP d) = Done (Some fs)
           \<and> arrives L R dk coin (TT_OLD_COIN_RECOUP d) (json_object W fs)"
proof -
  let ?a = "(''amount'', Pack_string (amount_text (currency (xle_value d)) (units (xle_value d))))"
  note n = assms(3) [simplified]
  obtain an where an: "TALER_amount_hton (htonll L) (xle_value d) = Done an"
    using n hton_not_Abort [of "xle_value d" "htonll L"] by (cases "TALER_amount_hton (htonll L) (xle_value d)") (auto simp: in_currency_def)
  obtain epub esig where s: "TALER_exchange_online_confirm_recoup_refresh_sign L (sign_online X) (xle_timestamp d) (xle_value d)
      (xle_coin_pub d) (xle_old_coin_pub d) = Done (Some (epub, esig))"
    and v: "TALER_exchange_online_confirm_recoup_refresh_verify L (xle_timestamp d) (xle_value d) (xle_coin_pub d)
      (xle_old_coin_pub d) epub esig = Done GNUNET_OK"
    using an by (auto simp: signatures elim!: signs_onlineE [OF assms(2)])
  let ?fs = "old_coin_recoup_fields ?a epub esig d"
  have "compile_entry L X coin (TT_OLD_COIN_RECOUP d) = Done (Some ?fs)"
    using n s by (clarsimp simp: signed_then_def pack_amount_normal in_currency_def)
  moreover have "old_coin_recoup_spec R (json_object W ?fs) = Some
    \<lparr>ocr_exchange_pub = epub, ocr_exchange_sig = esig, ocr_new_coin_pub = xle_coin_pub d, ocr_timestamp = xle_timestamp d\<rparr>"
    using n assms(1) by (clarsimp simp: old_coin_recoup_spec_def old_coin_recoup_fields_def codec_read)
  then have "arrives L R dk coin (TT_OLD_COIN_RECOUP d) (json_object W ?fs)"
    using n v
    by (intro arrivesI [OF assms(1), where amt = "xle_value d" and ty = "''OLD-COIN-RECOUP''"])
      (auto simp: read_details_types old_coin_recoup_fields_def)
  ultimately show ?thesis by blast
qed

lemma recoup_arrives:
  assumes "codec R W" "signs_online L X" "deliverable L X dk coin (TT_RECOUP d)"
  shows "\<exists>fs. compile_entry L X coin (TT_RECOUP d) = Done (Some fs) \<and> arrives L R dk coin (TT_RECOUP d) (json_object W fs)"
proof -
  let ?a = "(''amount'', Pack_string (amount_text (currency (cle_value d)) (units (cle_value d))))"
  note n = assms(3) [simplified]
  obtain an where an: "TALER_amount_hton (htonll L) (cle_value d) = Done an"
    using n hton_not_Abort [of "cle_value d" "htonll L"] by (cases "TALER_amount_hton (htonll L) (cle_value d)") (auto simp: in_currency_def)
  obtain epub esig where s: "TALER_exchange_online_confirm_recoup_sign L (sign_online X) (cle_timestamp d) (cle_value d)
      coin (cle_reserve_pub d) = Done (Some (epub, esig))"
    and v: "TALER_exchange_online_confirm_recoup_verify L (cle_timestamp d) (cle_value d) coin
      (cle_reserve_pub d) epub esig = Done GNUNET_OK"
    using an by (auto simp: signatures elim!: signs_onlineE [OF assms(2)])
  let ?fs = "recoup_fields ?a epub esig d"
  have "compile_entry L X coin (TT_RECOUP d) = Done (Some ?fs)"
    using n s by (clarsimp simp: signed_then_def pack_amount_normal in_currency_def)
  moreover have "recoup_spec R (json_object W ?fs) = Some
    \<lparr>rec_reserve_pub = cle_reserve_pub d, rec_timestamp = cle_timestamp d, rec_coin_bks = cle_coin_blind d,
     rec_exchange_pub = epub, rec_exchange_sig = esig, rec_coin_sig = cle_coin_sig d\<rparr>"
    using n assms(1) by (clarsimp simp: recoup_spec_def recoup_fields_def codec_read)
  then have "arrives L R dk coin (TT_RECOUP d) (json_object W ?fs)"
    using n v
    by (intro arrivesI [OF assms(1), where amt = "cle_value d" and ty = "''RECOUP''"])
      (auto simp: read_details_types recoup_fields_def)
  ultimately show ?thesis by blast
qed

lemma purse_deposit_arrives:
  assumes "codec R W" "deliverable L X dk coin (TT_PURSE_DEPOSIT d)"
  shows "\<exists>fs. compile_entry L X coin (TT_PURSE_DEPOSIT d) = Done (Some fs)
           \<and> arrives L R dk coin (TT_PURSE_DEPOSIT d) (json_object W fs)"
proof -
  let ?a = "(''amount'', Pack_string (amount_text (currency (ple_amount d)) (units (ple_amount d))))"
  let ?u = "case ple_exchange_base_url d of None \<Rightarrow> teh_base_url X | Some u \<Rightarrow> u"
  let ?fs = "purse_deposit_fields X ?a d"
  note n = assms(2) [simplified]
  have "compile_entry L X coin (TT_PURSE_DEPOSIT d) = Done (Some ?fs)"
    using n by (clarsimp simp: pack_amount_normal in_currency_def)
  moreover have "purse_deposit_spec R NO_HASH (json_object W ?fs) = Some
    \<lparr>pd_purse_pub = ple_purse_pub d, pd_coin_sig = ple_coin_sig d, pd_exchange_base_url = ?u, pd_refunded = ple_refunded d,
     pd_phac = ple_h_age_commitment d\<rparr>"
    using n assms(1)
    by (cases "ple_no_age_commitment d") (clarsimp simp: purse_deposit_spec_def purse_deposit_fields_def codec_read codec_optional
        spec_web_url_def parse_web_url_def)+
  then have "arrives L R dk coin (TT_PURSE_DEPOSIT d) (json_object W ?fs)"
    using n
    by (intro arrivesI [OF assms(1), where amt = "ple_amount d" and ty = "''PURSE-DEPOSIT''"])
      (auto simp: read_details_types purse_deposit_fields_def)
  ultimately show ?thesis by blast
qed

lemma purse_refund_arrives:
  assumes "codec R W" "signs_online L X" "good_denom dk" "deliverable L X dk coin (TT_PURSE_REFUND d)"
  shows "\<exists>fs. compile_entry L X coin (TT_PURSE_REFUND d) = Done (Some fs)
           \<and> arrives L R dk coin (TT_PURSE_REFUND d) (json_object W fs)"
proof -
  let ?v = "mk_amount (currency (fle_refund_amount d)) (units (fle_refund_amount d) - units (fle_refund_fee d))"
  let ?a = "(''amount'', Pack_string (amount_text (currency ?v) (units ?v)))"
  let ?f = "(''refund_fee'', Pack_string (amount_text (currency (fle_refund_fee d)) (units (fle_refund_fee d))))"
  note n = assms(4) [simplified] good_denomD [OF assms(3)]
  have m: "units (fle_refund_amount d) \<le> max_units" "legal_currency (currency (fle_refund_amount d))"
    using n by (auto simp: in_currency_def normal_def representable_def)
  then have v: "normal ?v" "units ?v = units (fle_refund_amount d) - units (fle_refund_fee d)"
    by simp_all
  have f: "normal (fle_refund_fee d)" using n by auto
  obtain an fn where an: "TALER_amount_hton (htonll L) ?v = Done an" "TALER_amount_hton (htonll L) (fle_refund_fee d) = Done fn"
    using hton_not_Abort [OF v(1), of "htonll L"] hton_not_Abort [OF f, of "htonll L"]
    by (cases "TALER_amount_hton (htonll L) ?v"; cases "TALER_amount_hton (htonll L) (fle_refund_fee d)") auto
  obtain epub esig where s: "TALER_exchange_online_purse_refund_sign L (sign_online X) ?v (fle_refund_fee d) coin
      (fle_purse_pub d) = Done (Some (epub, esig))"
    and w: "TALER_exchange_online_purse_refund_verify L ?v (fle_refund_fee d) coin (fle_purse_pub d) epub esig = Done GNUNET_OK"
    using an by (auto simp: signatures elim!: signs_onlineE [OF assms(2)])
  let ?fs = "purse_refund_fields ?a ?f epub esig d"
  have "compile_entry L X coin (TT_PURSE_REFUND d) = Done (Some ?fs)"
    using n v f s by (clarsimp simp: signed_then_def pack_amount_normal in_currency_def subtract_then_exact)
  moreover have "purse_refund_spec R (json_object W ?fs) = Some
    \<lparr>pr_purse_pub = fle_purse_pub d, pr_refund_fee = fle_refund_fee d, pr_exchange_pub = epub, pr_exchange_sig = esig\<rparr>"
    using f assms(1) by (simp add: purse_refund_spec_def purse_refund_fields_def codec_read codec_amount)
  then have "arrives L R dk coin (TT_PURSE_REFUND d) (json_object W ?fs)"
    using n v w
    by (intro arrivesI [OF assms(1), where amt = ?v and ty = "''PURSE-REFUND''"])
      (auto simp: read_details_types purse_refund_fields_def in_currency_def)
  ultimately show ?thesis by blast
qed

lemma deliverable_arrives:
  assumes "codec R W" "signs_online L X" "good_denom dk" "deliverable L X dk coin t"
  shows "\<exists>fs. compile_entry L X coin t = Done (Some fs) \<and> arrives L R dk coin t (json_object W fs)"
proof (cases t)
  case (TT_DEPOSIT d)
  then show ?thesis using deposit_arrives assms(1,3,4) by blast
next
  case (TT_MELT d)
  then show ?thesis using melt_arrives assms(1,3,4) by blast
next
  case (TT_REFUND d)
  then show ?thesis using refund_arrives assms(1,3,4) by blast
next
  case (TT_OLD_COIN_RECOUP d)
  then show ?thesis using old_coin_recoup_arrives assms(1,2,4) by blast
next
  case (TT_RECOUP d)
  then show ?thesis using recoup_arrives assms(1,2,4) by blast
next
  case (TT_PURSE_DEPOSIT d)
  then show ?thesis using purse_deposit_arrives assms(1,4) by blast
next
  case (TT_PURSE_REFUND d)
  then show ?thesis using purse_refund_arrives assms by blast
qed (use assms(4) in simp_all)

section \<open>Properties\<close>

lemma compile_loop_arrives:
  assumes "codec R W" "signs_online L X" "good_denom dk" "list_all (deliverable L X dk coin) ts"
  shows "\<exists>js. compile_loop L X W coin ts = Done (Some js) \<and> list_all2 (arrives L R dk coin) ts js"
  using assms(4)
proof (induction ts)
  case (Cons t ts)
  then show ?case using deliverable_arrives [OF assms(1-3), of coin t] by fastforce
qed simp

lemma arrives_read:
  assumes "list_all2 (arrives L R dk coin) ts js"
  shows "\<exists>es. those (map2 (read_entry R) (replicate (length ts) NO_HASH) js) = Some es \<and> list_all (accepted L dk coin) es
           \<and> map (received dk) es = map (tx_received dk) ts \<and> map spends es = map tx_spends ts"
  using assms by (induction rule: list_all2_induct) (auto simp: arrives_def)

text \<open>
  A stored transaction whose signature covers something that its entry does not carry, or that the
  client looks for elsewhere: a deposit with a hash of wallet data or a policy, a recoup of a
  refreshed coin, a deposit for opening a reserve. \<open>k\<close> is the private key of the coin.
\<close>

fun undeliverable :: "'s library \<Rightarrow> 's exchange_service \<Rightarrow> octets \<Rightarrow> 's transaction_list_entry \<Rightarrow> bool" where
  "undeliverable L X k (TT_DEPOSIT d) \<longleftrightarrow>
     (\<not> dle_no_wallet_data_hash d \<and> dle_wallet_data_hash d \<noteq> replicate 64 NUL \<or> dle_h_policy d \<noteq> replicate 64 NUL)
     \<and> TALER_wallet_deposit_sign L (dle_amount_with_fee d) (dle_deposit_fee d)
         (TALER_merchant_wire_signature_hash L (dle_receiver_wire_account d) (dle_wire_salt d)) (dle_h_contract_terms d)
         (flagged (dle_no_wallet_data_hash d) (dle_wallet_data_hash d))
         (flagged (dle_no_age_commitment d) (dle_h_age_commitment d)) (Some (dle_h_policy d)) (dle_h_denom_pub d)
         (dle_timestamp d) (dle_merchant_pub d) (dle_refund_deadline d) k = Done (dle_csig d)"
| "undeliverable L X k (TT_RECOUP_REFRESH d) \<longleftrightarrow>
     (\<exists>h_denom_pub. TALER_wallet_recoup_refresh_sign L h_denom_pub (xle_coin_blind d) k = Done (xle_coin_sig d))"
| "undeliverable L X k (TT_RESERVE_OPEN d) \<longleftrightarrow> True"
| "undeliverable L X k _ \<longleftrightarrow> False"

lemma compile_loop_list:
  "compile_loop L X W coin ts = Done (Some js) \<Longrightarrow>
   list_all2 (\<lambda>t j. \<exists>fs. compile_entry L X coin t = Done (Some fs) \<and> j = json_object W fs) ts js"
proof (induction ts arbitrary: js)
  case (Cons t ts)
  then show ?case by (auto simp: and_then_Some)
qed simp

lemma list_all2_set1: "list_all2 P xs ys \<Longrightarrow> \<forall>x \<in> set xs. \<exists>y \<in> set ys. P x y"
  by (induction rule: list_all2_induct) auto

lemma read_entry_type:
  assumes "codec R W" "map_of fs ''type'' = Some (Pack_string ty)" "read_entry R old (json_object W fs) = Some e"
  shows "read_details R old (ch_amount e) ty (json_object W fs) = Some (ch_details e)"
  using assms by (auto simp: read_entry_def entry_spec_def need_Some codec_read split: Option.bind_splits)

lemma deposit_not_accepted:
  assumes "codec R W" "binding L" "undeliverable L X k (TT_DEPOSIT d)"
    and "read_entry R old (json_object W (deposit_fields a f h_wire d)) = Some e" "fst a = ''amount''" "fst f = ''deposit_fee''"
  shows "\<not> accepted L dk (eddsa_public L k) e"
proof
  assume acc: "accepted L dk (eddsa_public L k) e"
  let ?fs = "deposit_fields a f h_wire d"
  obtain p where p: "deposit_spec R (json_object W ?fs) = Some p" "ch_details e = TALER_EXCHANGE_CTT_DEPOSIT p"
    using read_entry_type [OF assms(1) _ assms(4)] by (auto simp: deposit_fields_def read_details_types)
  have "absent ?fs ''wallet_data_hash''" "absent ?fs ''h_policy''"
    using assms(5,6) by (cases a, cases f, auto simp: absent_def deposit_fields_def)+
  moreover have "map_of ?fs ''coin_sig'' = Some (Pack_sig (dle_csig d))"
    using assms(5,6) by (cases a, cases f) (simp add: deposit_fields_def)
  ultimately have q: "dep_wallet_data_hash p = None" "dep_h_policy p = None" "dep_sig p = dle_csig d"
    using p(1) assms(1) by (auto simp: deposit_spec_def need_Some may_Some codec_read)
  have "TALER_wallet_deposit_verify L (ch_amount e) (dep_deposit_fee p) (dep_h_wire p) (dep_h_contract_terms p) None (dep_hac p) None
      (dk_h_key dk) (dep_wallet_timestamp p) (dep_merchant_pub p) (dep_refund_deadline p) (eddsa_public L k) (dle_csig d) = Done GNUNET_OK"
    using acc p(2) q by (auto simp: accepted_def)
  then show False
    using assms(3) deposit_message [OF assms(2)] by (fastforce simp: zeroed_def flagged_def split: if_splits)
qed

lemma recoup_refresh_not_accepted:
  assumes "codec R W" "binding L" "undeliverable L X k (TT_RECOUP_REFRESH d)" "fst a = ''amount''"
    and "read_entry R old (json_object W (recoup_refresh_fields a epub esig d)) = Some e"
  shows "\<not> accepted L dk (eddsa_public L k) e"
proof
  assume acc: "accepted L dk (eddsa_public L k) e"
  let ?fs = "recoup_refresh_fields a epub esig d"
  have "read_details R old (ch_amount e) ''RECOUP-REFRESH'' j
        = map_option TALER_EXCHANGE_CTT_RECOUP_REFRESH (recoup_refresh_spec R j)" for j
    by (simp add: read_details_def strcaseeq_def c_tolower_def c_isupper_def)
  then obtain p where p: "recoup_refresh_spec R (json_object W ?fs) = Some p" "ch_details e = TALER_EXCHANGE_CTT_RECOUP_REFRESH p"
    using read_entry_type [OF assms(1) _ assms(5)] by (auto simp: recoup_refresh_fields_def)
  have "map_of ?fs ''coin_sig'' = Some (Pack_sig (xle_coin_sig d))"
    using assms(4) by (cases a) (simp add: recoup_refresh_fields_def)
  then have "rr_coin_sig p = xle_coin_sig d"
    using p(1) assms(1) by (auto simp: recoup_refresh_spec_def need_Some codec_read)
  then show False
    using acc p(2) assms(3) recoup_refresh_not_authentic [OF assms(2)] by (auto simp: accepted_def)
qed

lemma undeliverable_not_accepted:
  assumes "codec R W" "binding L" "undeliverable L X k t" "compile_entry L X (eddsa_public L k) t = Done (Some fs)"
    and "read_entry R old (json_object W fs) = Some e"
  shows "\<not> accepted L dk (eddsa_public L k) e"
proof (cases t)
  case (TT_DEPOSIT d)
  then obtain a f h_wire where "fs = deposit_fields a f h_wire d" "fst a = ''amount''" "fst f = ''deposit_fee''"
    using assms(4) by (auto simp: require_def obind_Done TALER_JSON_pack_amount_def Let_def split: if_splits)
  then show ?thesis using deposit_not_accepted [OF assms(1,2), of X k d old a f h_wire e dk] assms(3,5) TT_DEPOSIT by simp
next
  case (TT_RECOUP_REFRESH d)
  then obtain a epub esig where "fs = recoup_refresh_fields a epub esig d" "fst a = ''amount''"
    using assms(4)
    by (auto simp: signed_then_def obind_Done TALER_JSON_pack_amount_def split: option.splits)
  then show ?thesis using recoup_refresh_not_accepted [OF assms(1,2), of X k d a old epub esig e dk] assms(3,5) TT_RECOUP_REFRESH by simp
next
  case (TT_RESERVE_OPEN d)
  then obtain a where "fs = reserve_open_fields a d" "fst a = ''coin_contribution''"
    using assms(4) by (auto simp: obind_Done TALER_JSON_pack_amount_def)
  then have "absent fs ''amount''" by (cases a) (simp add: absent_def reserve_open_fields_def)
  then show ?thesis
    using assms(1,5) by (simp add: read_entry_def entry_spec_def spec_amount_any_def codec_read)
qed (use assms(3) in simp_all)

text \<open>
  C22: the exchange and the client agree on the history of a coin. For stored transactions that
  carry all that was signed, \<^verbatim>\<open>compile_transaction_history\<close> returns an array, and
  \<^verbatim>\<open>TALER_EXCHANGE_parse_coin_history\<close> accepts that array and computes as \<^verbatim>\<open>total_in\<close> and \<^verbatim>\<open>total_out\<close>
  exactly what the stored transactions moved, provided that both are representable.
\<close>

theorem coin_history_delivered:
  assumes "codec R W" "signs_online L X" "good_denom dk" "ts \<noteq> []" "list_all (deliverable L X dk coin) ts"
    and "units (dk_value dk) + sum_list (map (tx_received dk) ts) \<le> max_units" "sum_list (map tx_spends ts) \<le> max_units"
  shows "\<exists>j es. compile_transaction_history L X W coin ts = Done (Some j)
           \<and> TALER_EXCHANGE_parse_coin_history L R dk (Some j) coin (replicate (length ts) NO_HASH)
             = Done (Some (mk_amount (currency (dk_value dk)) (units (dk_value dk) + sum_list (map (tx_received dk) ts)),
                           mk_amount (currency (dk_value dk)) (sum_list (map tx_spends ts)), es))
           \<and> length es = length ts"
proof -
  obtain js where js: "compile_loop L X W coin ts = Done (Some js)" "list_all2 (arrives L R dk coin) ts js"
    using compile_loop_arrives [OF assms(1-3,5)] by blast
  obtain es where es: "those (map2 (read_entry R) (replicate (length ts) NO_HASH) js) = Some es"
    "list_all (accepted L dk coin) es" "map (received dk) es = map (tx_received dk) ts" "map spends es = map tx_spends ts"
    using arrives_read [OF js(2)] by blast
  have a: "json_array R (json_list W js) = js" using assms(1) by (simp add: codec_read)
  have l: "length js = length ts" "js \<noteq> []"
    using list_all2_lengthD [OF js(2)] assms(4) by auto
  have "coin_history_reference L R dk coin (replicate (length ts) NO_HASH) js
      = Some (mk_amount (currency (dk_value dk)) (units (dk_value dk) + sum_list (map (tx_received dk) ts)),
              mk_amount (currency (dk_value dk)) (sum_list (map tx_spends ts)), es)"
    using es assms(6,7) by (simp add: coin_history_reference_def)
  moreover have "length es = length ts" using arg_cong [OF es(4), of length] by simp
  ultimately show ?thesis
    using parse_coin_history_exact [OF assms(3), of R "json_list W js" "replicate (length ts) NO_HASH" L coin] js(1) assms(4) a l
    by (auto simp: compile_transaction_history_def)
qed

text \<open>
  Some histories of honest wallets never reach the client. When the wallet signed a deposit with
  a hash of wallet data or a policy, a recoup of a refreshed coin, or a deposit for opening a reserve,
  \<^verbatim>\<open>TALER_EXCHANGE_parse_coin_history\<close> refuses every history that \<^verbatim>\<open>compile_transaction_history\<close> builds with
  that transaction: the entry leaves out the two hashes, is checked under another purpose, or has no
  field \<^verbatim>\<open>amount\<close>.
\<close>

lemma coin_history_not_delivered:
  assumes "codec R W" "binding L" "good_denom dk" "t \<in> set ts" "undeliverable L X k t"
    and "compile_transaction_history L X W (eddsa_public L k) ts = Done (Some j)" "length ts \<le> length rhistory"
  shows "TALER_EXCHANGE_parse_coin_history L R dk (Some j) (eddsa_public L k) rhistory = Done None"
proof -
  obtain js where j: "j = json_list W js" and js: "compile_loop L X W (eddsa_public L k) ts = Done (Some js)"
    using assms(6) by (auto simp: compile_transaction_history_def and_then_Some)
  have a: "json_array R j = js" using assms(1) j by (simp add: codec_read)
  note all = compile_loop_list [OF js]
  obtain fs where fs: "compile_entry L X (eddsa_public L k) t = Done (Some fs)" "json_object W fs \<in> set js"
    using assms(4) list_all2_set1 [OF all] by blast
  have len: "length js \<le> length rhistory" "js \<noteq> []" using list_all2_lengthD [OF all] assms(4,7) by auto
  have "coin_history_reference L R dk (eddsa_public L k) rhistory js = None"
    using reference_accepted [OF _ fs(2) len(1), of L R dk "eddsa_public L k"]
      undeliverable_not_accepted [OF assms(1,2,5) fs(1)]
    by (cases "coin_history_reference L R dk (eddsa_public L k) rhistory js") blast+
  then show ?thesis
    using parse_coin_history_exact [OF assms(3), of R j rhistory L "eddsa_public L k"] len a by simp
qed

section \<open>A sample exchange\<close>

definition sample_service :: "sample_sig exchange_service" where
  "sample_service =
     \<lparr>sign_online = (\<lambda>(p, m). Some (''x'', ''x'', p, m)), teh_base_url = ''https://exchange/''\<rparr>"

lemma sample_signs_online: "signs_online sample_library sample_service"
  by (simp add: signs_online_def sample_service_def)

definition sample_transactions :: "sample_sig transaction_list_entry list" where
  "sample_transactions =
     [TT_RECOUP \<lparr>cle_coin_blind = ''blind'',
        cle_coin_sig = (''coin'', TALER_SIGNATURE_WALLET_COIN_RECOUP, TALER_RecoupRequestPS ''d'' ''blind''),
        cle_h_denom_pub = ''d'', cle_reserve_pub = ''r'', cle_value = eur 5, cle_timestamp = 7\<rparr>,
      TT_OLD_COIN_RECOUP \<lparr>xle_coin_pub = ''new'', xle_coin_blind = [], xle_coin_sig = undefined,
        xle_old_coin_pub = ''coin'', xle_value = eur 3, xle_timestamp = 9\<rparr>]"

theorem coin_history_delivered_witness:
  "\<exists>j es. compile_transaction_history sample_library sample_service sample_writer ''coin'' sample_transactions = Done (Some j)
     \<and> TALER_EXCHANGE_parse_coin_history sample_library sample_reader sample_dk (Some j) ''coin'' [NO_HASH, NO_HASH]
       = Done (Some (eur 13, eur 5, es)) \<and> length es = 2"
proof -
  have "list_all (deliverable sample_library sample_service sample_dk ''coin'') sample_transactions"
    by (simp add: sample_transactions_def in_currency_def sample_dk_def amount_consts TALER_wallet_recoup_verify_def)
  moreover have "sum_list (map (tx_received sample_dk) sample_transactions) = 3" "sum_list (map tx_spends sample_transactions) = 5"
    "units (dk_value sample_dk) = 10" "currency (dk_value sample_dk) = EUR" "sample_transactions \<noteq> []" "length sample_transactions = 2"
    by (simp_all add: sample_transactions_def sample_dk_def amount_consts)
  ultimately show ?thesis
    using coin_history_delivered [OF sample_codec sample_signs_online sample_dk_good, of sample_transactions "''coin''"]
    by (simp add: amount_consts eur_eqI numeral_2_eq_2)
qed

end
