(* ===== verification/Reserves_Get.thy ===== *)
theory Reserves_Get
  imports Reserve_History Coins_Get
begin

text \<open>
  The exchange's side of a reserve history: \<^verbatim>\<open>compile_reserve_history\<close> of
  \<^verbatim>\<open>src/src/exchange/taler-exchange-httpd_reserves_history.c\<close> turns the stored operations on a reserve into the JSON
  array that \<open>Reserve_History\<close> checks on the client's side. The operations are the structures of
  \<^verbatim>\<open>taler_exchangedb_plugin.h\<close>, with the fields that the function reads. The results are as in \<open>Coins_Get\<close>.
\<close>

section \<open>Operations on a reserve in the database\<close>

record bank_transfer =
  bt_amount :: amount
  bt_execution_date :: "64 word"
  bt_sender_account_details :: string
  bt_wire_reference :: "64 word"

record 's collectable_blindcoin =
  cb_denom_pub_hash :: octets
  cb_amount_with_fee :: amount
  cb_withdraw_fee :: amount
  cb_h_coin_envelope :: octets
  cb_reserve_sig :: 's

record reserve_recoup =
  rp_coin_pub :: octets
  rp_reserve_pub :: octets
  rp_value :: amount
  rp_timestamp :: "64 word"

record closing_transfer =
  ct_reserve_pub :: octets
  ct_amount :: amount
  ct_closing_fee :: amount
  ct_execution_date :: "64 word"
  ct_receiver_account_details :: string
  ct_wtid :: octets

record 's purse_merge =
  pm_amount_with_fee :: amount
  pm_purse_fee :: amount
  pm_h_contract_terms :: octets
  pm_merge_pub :: octets
  pm_purse_pub :: octets
  pm_reserve_sig :: 's
  pm_merge_timestamp :: "64 word"
  pm_purse_expiration :: "64 word"
  pm_min_age :: "32 word"
  pm_flags :: "32 word"
  pm_merged :: bool

record 's history_request =
  hr_history_fee :: amount
  hr_request_timestamp :: "64 word"
  hr_reserve_sig :: 's

record 's stored_open_request =
  oq_open_fee :: amount
  oq_request_timestamp :: "64 word"
  oq_reserve_expiration :: "64 word"
  oq_reserve_sig :: 's
  oq_purse_limit :: "32 word"

record 's stored_close_request =
  cq_request_timestamp :: "64 word"
  cq_target_account_h_payto :: octets
  cq_reserve_sig :: 's

datatype 's reserve_operation =
    RO_BANK_TO_EXCHANGE bank_transfer
  | RO_WITHDRAW_COIN "'s collectable_blindcoin"
  | RO_RECOUP_COIN reserve_recoup
  | RO_EXCHANGE_TO_BANK closing_transfer
  | RO_PURSE_MERGE "'s purse_merge"
  | RO_HISTORY_REQUEST "'s history_request"
  | RO_OPEN_REQUEST "'s stored_open_request"
  | RO_CLOSE_REQUEST "'s stored_close_request"

section \<open>Compiling the history\<close>

definition TALER_JSON_pack_full_payto :: "string \<Rightarrow> string \<Rightarrow> string \<times> 's packed" where
  "TALER_JSON_pack_full_payto name payto = (name, Pack_string payto)"

definition credit_fields :: "(string \<times> 's packed) \<Rightarrow> bank_transfer \<Rightarrow> 's fields" where
  "credit_fields a b =
     [(''type'', Pack_string ''CREDIT''), (''timestamp'', Pack_timestamp (bt_execution_date b)),
       TALER_JSON_pack_full_payto ''sender_account_url'' (bt_sender_account_details b),
       (''wire_reference'', Pack_uint64 (bt_wire_reference b)), a]"

definition withdrawal_fields :: "(string \<times> 's packed) \<Rightarrow> (string \<times> 's packed) \<Rightarrow> 's collectable_blindcoin \<Rightarrow> 's fields" where
  "withdrawal_fields f a w =
     [(''type'', Pack_string ''WITHDRAW''), (''reserve_sig'', Pack_sig (cb_reserve_sig w)),
       (''h_coin_envelope'', Pack_data (cb_h_coin_envelope w)), (''h_denom_pub'', Pack_data (cb_denom_pub_hash w)), f, a]"

definition reserve_recoup_fields :: "octets \<Rightarrow> 's \<Rightarrow> (string \<times> 's packed) \<Rightarrow> reserve_recoup \<Rightarrow> 's fields" where
  "reserve_recoup_fields pub sig a r =
     [(''type'', Pack_string ''RECOUP''), (''exchange_pub'', Pack_data pub), (''exchange_sig'', Pack_sig sig),
       (''timestamp'', Pack_timestamp (rp_timestamp r)), a, (''coin_pub'', Pack_data (rp_coin_pub r))]"

definition closing_fields ::
  "octets \<Rightarrow> 's \<Rightarrow> (string \<times> 's packed) \<Rightarrow> (string \<times> 's packed) \<Rightarrow> closing_transfer \<Rightarrow> 's fields" where
  "closing_fields pub sig a f c =
     [(''type'', Pack_string ''CLOSING''),
       TALER_JSON_pack_full_payto ''receiver_account_details'' (ct_receiver_account_details c),
       (''wtid'', Pack_data (ct_wtid c)), (''exchange_pub'', Pack_data pub), (''exchange_sig'', Pack_sig sig),
       (''timestamp'', Pack_timestamp (ct_execution_date c)), a, f]"

definition merge_fields :: "(string \<times> 's packed) \<Rightarrow> (string \<times> 's packed) \<Rightarrow> 's purse_merge \<Rightarrow> 's fields" where
  "merge_fields f a m =
     [(''type'', Pack_string ''MERGE''), (''h_contract_terms'', Pack_data (pm_h_contract_terms m)),
       (''merge_pub'', Pack_data (pm_merge_pub m)), (''min_age'', Pack_uint64 (ucast (pm_min_age m))),
       (''flags'', Pack_uint64 (ucast (pm_flags m))), (''purse_pub'', Pack_data (pm_purse_pub m)),
       (''reserve_sig'', Pack_sig (pm_reserve_sig m)), (''merge_timestamp'', Pack_timestamp (pm_merge_timestamp m)),
       (''purse_expiration'', Pack_timestamp (pm_purse_expiration m)), f, a, (''merged'', Pack_bool (pm_merged m))]"

definition history_fields :: "(string \<times> 's packed) \<Rightarrow> 's history_request \<Rightarrow> 's fields" where
  "history_fields a h =
     [(''type'', Pack_string ''HISTORY''), (''reserve_sig'', Pack_sig (hr_reserve_sig h)),
       (''request_timestamp'', Pack_timestamp (hr_request_timestamp h)), a]"

definition open_fields :: "(string \<times> 's packed) \<Rightarrow> 's stored_open_request \<Rightarrow> 's fields" where
  "open_fields f q =
     [(''type'', Pack_string ''OPEN''), (''requested_min_purses'', Pack_uint64 (ucast (oq_purse_limit q))),
       (''reserve_sig'', Pack_sig (oq_reserve_sig q)), (''request_timestamp'', Pack_timestamp (oq_request_timestamp q)),
       (''requested_expiration'', Pack_timestamp (oq_reserve_expiration q)), f]"

definition close_fields :: "'s stored_close_request \<Rightarrow> 's fields" where
  "close_fields q =
     [(''type'', Pack_string ''CLOSE''), (''reserve_sig'', Pack_sig (cq_reserve_sig q)),
       (if list_all (\<lambda>c. c = NUL) (cq_target_account_h_payto q) then (''h_payto'', Pack_null)
        else (''h_payto'', Pack_data (cq_target_account_h_payto q))),
       (''request_timestamp'', Pack_timestamp (cq_request_timestamp q))]"

fun compile_operation :: "'s library \<Rightarrow> 's exchange_service \<Rightarrow> 's reserve_operation \<Rightarrow> 's fields option outcome" where
  "compile_operation L X (RO_BANK_TO_EXCHANGE b) =
     obind (TALER_JSON_pack_amount ''amount'' (bt_amount b)) (\<lambda>a. Done (Some (credit_fields a b)))"
| "compile_operation L X (RO_WITHDRAW_COIN w) =
     obind (TALER_JSON_pack_amount ''withdraw_fee'' (cb_withdraw_fee w)) (\<lambda>f.
     obind (TALER_JSON_pack_amount ''amount'' (cb_amount_with_fee w)) (\<lambda>a.
     Done (Some (withdrawal_fields f a w))))"
| "compile_operation L X (RO_RECOUP_COIN r) =
     signed_then (TALER_exchange_online_confirm_recoup_sign L (sign_online X) (rp_timestamp r) (rp_value r)
       (rp_coin_pub r) (rp_reserve_pub r)) (\<lambda>pub sig.
     obind (TALER_JSON_pack_amount ''amount'' (rp_value r)) (\<lambda>a.
     Done (Some (reserve_recoup_fields pub sig a r))))"
| "compile_operation L X (RO_EXCHANGE_TO_BANK c) =
     signed_then (TALER_exchange_online_reserve_closed_sign L (sign_online X) (ct_execution_date c) (ct_amount c)
       (ct_closing_fee c) (ct_receiver_account_details c) (ct_wtid c) (ct_reserve_pub c)) (\<lambda>pub sig.
     obind (TALER_JSON_pack_amount ''amount'' (ct_amount c)) (\<lambda>a.
     obind (TALER_JSON_pack_amount ''closing_fee'' (ct_closing_fee c)) (\<lambda>f.
     Done (Some (closing_fields pub sig a f c)))))"
| "compile_operation L X (RO_PURSE_MERGE m) =
     obind (TALER_JSON_pack_amount ''purse_fee'' (pm_purse_fee m)) (\<lambda>f.
     obind (TALER_JSON_pack_amount ''amount'' (pm_amount_with_fee m)) (\<lambda>a.
     Done (Some (merge_fields f a m))))"
| "compile_operation L X (RO_HISTORY_REQUEST h) =
     obind (TALER_JSON_pack_amount ''amount'' (hr_history_fee h)) (\<lambda>a. Done (Some (history_fields a h)))"
| "compile_operation L X (RO_OPEN_REQUEST q) =
     obind (TALER_JSON_pack_amount ''open_fee'' (oq_open_fee q)) (\<lambda>f. Done (Some (open_fields f q)))"
| "compile_operation L X (RO_CLOSE_REQUEST q) = Done (Some (close_fields q))"

fun compile_operations :: "'s library \<Rightarrow> 's exchange_service \<Rightarrow> ('j, 's) json_writer \<Rightarrow> 's reserve_operation list
    \<Rightarrow> 'j list option outcome" where
  "compile_operations L X W [] = Done (Some [])"
| "compile_operations L X W (t # ts) =
     and_then (compile_operation L X t) (\<lambda>fs.
     and_then (compile_operations L X W ts) (\<lambda>js. Done (Some (json_object W fs # js))))"

definition compile_reserve_history :: "'s library \<Rightarrow> 's exchange_service \<Rightarrow> ('j, 's) json_writer \<Rightarrow> 's reserve_operation list
    \<Rightarrow> 'j option outcome" where
  "compile_reserve_history L X W ts = and_then (compile_operations L X W ts) (\<lambda>js. Done (Some (json_list W js)))"

section \<open>Operations that reach the client\<close>

text \<open>The exchange signs with keys that its clients know and that are in use.\<close>

definition signs_known :: "'s library \<Rightarrow> 's exchange_service \<Rightarrow> key_clock \<Rightarrow> bool" where
  "signs_known L X kc \<longleftrightarrow>
     (\<forall>p m. \<exists>pub sig. sign_online X (p, m) = Some (pub, sig) \<and> key_in_use kc pub \<and> eddsa_verify L p (p, m) sig pub = GNUNET_OK)"

definition of_currency :: "char list \<Rightarrow> amount \<Rightarrow> bool" where
  "of_currency cur a \<longleftrightarrow> normal a \<and> currency a = cur"

text \<open>
  A stored operation that the client can check: its amounts are in the currency of the reserve, its
  times and numbers can be written, its account is valid, the signature of the reserve is valid and the
  denomination of a withdrawal is known, with the fee that was charged.
\<close>

fun checkable :: "'s library \<Rightarrow> key_clock \<Rightarrow> octets \<Rightarrow> char list \<Rightarrow> 's reserve_operation \<Rightarrow> bool" where
  "checkable L kc rpub cur (RO_BANK_TO_EXCHANGE b) \<longleftrightarrow>
     of_currency cur (bt_amount b) \<and> bt_execution_date b \<noteq> 0 \<and> unat (bt_wire_reference b) < 2 ^ 63
     \<and> TALER_payto_validate (bt_sender_account_details b) = None"
| "checkable L kc rpub cur (RO_WITHDRAW_COIN w) \<longleftrightarrow>
     of_currency cur (cb_amount_with_fee w) \<and> normal (cb_withdraw_fee w)
     \<and> TALER_wallet_withdraw_verify L (cb_denom_pub_hash w) (cb_amount_with_fee w) (cb_h_coin_envelope w) rpub (cb_reserve_sig w)
         = Done GNUNET_OK
     \<and> (\<exists>dk. TALER_EXCHANGE_get_denomination_key_by_hash (fst kc) (cb_denom_pub_hash w) = Some dk
            \<and> fee_withdraw (dk_fees dk) = cb_withdraw_fee w)"
| "checkable L kc rpub cur (RO_RECOUP_COIN r) \<longleftrightarrow>
     of_currency cur (rp_value r) \<and> rp_timestamp r \<noteq> 0 \<and> rp_reserve_pub r = rpub"
| "checkable L kc rpub cur (RO_EXCHANGE_TO_BANK c) \<longleftrightarrow>
     of_currency cur (ct_amount c) \<and> normal (ct_closing_fee c) \<and> ct_execution_date c \<noteq> 0
     \<and> TALER_payto_validate (ct_receiver_account_details c) = None \<and> ct_reserve_pub c = rpub"
| "checkable L kc rpub cur (RO_PURSE_MERGE m) \<longleftrightarrow>
     of_currency cur (pm_amount_with_fee m) \<and> of_currency cur (pm_purse_fee m) \<and> pm_merge_timestamp m \<noteq> 0
     \<and> pm_purse_expiration m \<noteq> 0
     \<and> TALER_wallet_account_merge_verify L (pm_merge_timestamp m) (pm_purse_pub m) (pm_purse_expiration m)
         (pm_h_contract_terms m) (pm_amount_with_fee m) (pm_purse_fee m) (pm_min_age m) (pm_flags m) rpub (pm_reserve_sig m)
         = Done GNUNET_OK"
| "checkable L kc rpub cur _ \<longleftrightarrow> False"

text \<open>What an operation moves into the reserve and out of it, and what identifies a withdrawal.\<close>

fun op_in :: "'s reserve_operation \<Rightarrow> nat" where
  "op_in (RO_BANK_TO_EXCHANGE b) = units (bt_amount b)"
| "op_in (RO_RECOUP_COIN r) = units (rp_value r)"
| "op_in (RO_PURSE_MERGE m) = (if pm_merged m then units (pm_amount_with_fee m) else 0)"
| "op_in _ = 0"

fun op_out :: "'s reserve_operation \<Rightarrow> nat" where
  "op_out (RO_WITHDRAW_COIN w) = units (cb_amount_with_fee w)"
| "op_out (RO_EXCHANGE_TO_BANK c) = units (ct_amount c)"
| "op_out (RO_PURSE_MERGE m) = (if pm_merged m then 0 else units (pm_purse_fee m))"
| "op_out (RO_HISTORY_REQUEST h) = units (hr_history_fee h)"
| "op_out (RO_OPEN_REQUEST q) = units (oq_open_fee q)"
| "op_out _ = 0"

fun op_ids :: "'s library \<Rightarrow> 's reserve_operation \<Rightarrow> octets list" where
  "op_ids L (RO_WITHDRAW_COIN w) = [crypto_hash L (sig_bytes L (cb_reserve_sig w))]"
| "op_ids L _ = []"

definition op_arrives ::
  "'s library \<Rightarrow> ('j, 's) json_reader \<Rightarrow> key_clock \<Rightarrow> octets \<Rightarrow> char list \<Rightarrow> 's reserve_operation \<Rightarrow> 'j \<Rightarrow> bool" where
  "op_arrives L R kc rpub cur t j \<longleftrightarrow>
     (\<exists>it. read_reserve_entry R j = Some it \<and> sound_item L kc rpub cur it \<and> paid_in it = op_in t \<and> paid_out it = op_out t
         \<and> withdrawal_ids L it = op_ids L t) \<and> known_denominations R (fst kc) [j]"

abbreviation amount_entry :: "string \<Rightarrow> amount \<Rightarrow> string \<times> 's packed" where
  "amount_entry n a \<equiv> (n, Pack_string (amount_text (currency a) (units a)))"

lemma codec_payto:
  assumes "codec R W" "map_of fs n = Some (Pack_string s)" "TALER_payto_validate s = None"
  shows "spec_full_payto_uri R (json_object W fs) n = Present s"
  using assms by (simp add: spec_full_payto_uri_def codec_read parse_full_payto_uri_def)

lemma read_item_types:
  "read_item R ''CREDIT'' j = map_option Credit_item (credit_spec R j)"
  "read_item R ''WITHDRAW'' j = map_option (\<lambda>w. Withdraw_item w (json_object_get R j ''signature'')) (withdraw_spec R j)"
  "read_item R ''RECOUP'' j = map_option Recoup_item (recoup_entry_spec R j)"
  "read_item R ''MERGE'' j = map_option Merge_item (merge_spec R j)"
  "read_item R ''CLOSING'' j = map_option Closing_item (closing_spec R j)"
  "read_item R ''HISTORY'' j = None"
  by (simp_all add: read_item_def strcaseeq_def c_tolower_def c_isupper_def)

lemma hist_spec_codec:
  assumes "codec R W" "normal a" "map_of fs ''type'' = Some (Pack_string ty)"
    and "map_of fs ''amount'' = Some (Pack_string (amount_text (currency a) (units a)))"
  shows "hist_spec R (json_object W fs) = Some (a, ty)"
  using assms by (simp add: hist_spec_def codec_read codec_amount)

text \<open>Only an entry with a signature of the reserve and a withdrawal fee names a denomination.\<close>

lemma no_withdrawal:
  assumes "codec R W" "absent fs ''reserve_sig'' \<or> absent fs ''withdraw_fee''"
  shows "known_denominations R keys [json_object W fs]"
proof -
  have "withdraw_spec R (json_object W fs) = None"
    using assms by (cases "spec_sig R (json_object W fs) ''reserve_sig''")
      (auto simp: withdraw_spec_def spec_amount_any_def codec_absent)
  then show ?thesis by (simp add: known_denominations_def)
qed

lemma credit_arrives:
  assumes "codec R W" "checkable L kc rpub cur (RO_BANK_TO_EXCHANGE b)"
  shows "\<exists>fs. compile_operation L X (RO_BANK_TO_EXCHANGE b) = Done (Some fs)
           \<and> op_arrives L R kc rpub cur (RO_BANK_TO_EXCHANGE b) (json_object W fs)"
proof -
  let ?fs = "credit_fields (amount_entry ''amount'' (bt_amount b)) b"
  note n = assms(2) [simplified of_currency_def checkable.simps]
  have c: "compile_operation L X (RO_BANK_TO_EXCHANGE b) = Done (Some ?fs)"
    using n by (clarsimp simp: pack_amount_normal)
  have "hist_spec R (json_object W ?fs) = Some (bt_amount b, ''CREDIT'')"
    using n assms(1) by (intro hist_spec_codec) (simp_all add: credit_fields_def TALER_JSON_pack_full_payto_def)
  moreover have "credit_spec R (json_object W ?fs) = Some \<lparr>in_sender_url = bt_sender_account_details b,
      in_wire_reference = bt_wire_reference b, in_timestamp = bt_execution_date b\<rparr>"
    using n assms(1) by (clarsimp simp: credit_spec_def credit_fields_def TALER_JSON_pack_full_payto_def codec_read codec_payto)
  moreover have "known_denominations R (fst kc) [json_object W ?fs]"
    by (rule no_withdrawal [OF assms(1)]) (simp add: absent_def credit_fields_def TALER_JSON_pack_full_payto_def)
  ultimately have "op_arrives L R kc rpub cur (RO_BANK_TO_EXCHANGE b) (json_object W ?fs)"
    using n by (auto simp: op_arrives_def read_reserve_entry_def read_item_types sound_item_def)
  then show ?thesis using c by blast
qed

lemma withdrawal_arrives:
  assumes "codec R W" "checkable L kc rpub cur (RO_WITHDRAW_COIN w)"
  shows "\<exists>fs. compile_operation L X (RO_WITHDRAW_COIN w) = Done (Some fs)
           \<and> op_arrives L R kc rpub cur (RO_WITHDRAW_COIN w) (json_object W fs)"
proof -
  let ?fs = "withdrawal_fields (amount_entry ''withdraw_fee'' (cb_withdraw_fee w)) (amount_entry ''amount'' (cb_amount_with_fee w)) w"
  note n = assms(2) [simplified of_currency_def checkable.simps]
  have c: "compile_operation L X (RO_WITHDRAW_COIN w) = Done (Some ?fs)"
    using n by (clarsimp simp: pack_amount_normal)
  have "hist_spec R (json_object W ?fs) = Some (cb_amount_with_fee w, ''WITHDRAW'')"
    using n assms(1) by (intro hist_spec_codec) (simp_all add: withdrawal_fields_def)
  moreover have "withdraw_spec R (json_object W ?fs) = Some \<lparr>wf_sig = cb_reserve_sig w, wf_withdraw_fee = cb_withdraw_fee w,
      wf_h_denom_pub = cb_denom_pub_hash w, wf_bch = cb_h_coin_envelope w\<rparr>"
    using n assms(1) by (clarsimp simp: withdraw_spec_def withdrawal_fields_def codec_read codec_amount)
  ultimately have "op_arrives L R kc rpub cur (RO_WITHDRAW_COIN w) (json_object W ?fs)"
    using n by (auto simp: op_arrives_def read_reserve_entry_def read_item_types sound_item_def known_denominations_def)
  then show ?thesis using c by blast
qed

lemma signs_knownE:
  assumes "signs_known L X kc"
  obtains pub sig where "sign_online X (p, m) = Some (pub, sig)" "key_in_use kc pub" "eddsa_verify L p (p, m) sig pub = GNUNET_OK"
  using assms unfolding signs_known_def by blast

lemma hton_Done: "normal a \<Longrightarrow> \<exists>n. TALER_amount_hton ll a = Done n"
  using hton_not_Abort by (cases "TALER_amount_hton ll a") auto

lemma reserve_recoup_arrives:
  assumes "codec R W" "signs_known L X kc" "checkable L kc rpub cur (RO_RECOUP_COIN r)"
  shows "\<exists>fs. compile_operation L X (RO_RECOUP_COIN r) = Done (Some fs)
           \<and> op_arrives L R kc rpub cur (RO_RECOUP_COIN r) (json_object W fs)"
proof -
  note n = assms(3) [simplified of_currency_def checkable.simps]
  obtain pub sig where s: "TALER_exchange_online_confirm_recoup_sign L (sign_online X) (rp_timestamp r) (rp_value r) (rp_coin_pub r)
      (rp_reserve_pub r) = Done (Some (pub, sig))" "key_in_use kc pub"
    "TALER_exchange_online_confirm_recoup_verify L (rp_timestamp r) (rp_value r) (rp_coin_pub r) rpub pub sig = Done GNUNET_OK"
    using n hton_Done [of "rp_value r" "htonll L"] by (auto simp: signatures elim!: signs_knownE [OF assms(2)])
  let ?fs = "reserve_recoup_fields pub sig (amount_entry ''amount'' (rp_value r)) r"
  have c: "compile_operation L X (RO_RECOUP_COIN r) = Done (Some ?fs)"
    using n s by (clarsimp simp: signed_then_def pack_amount_normal)
  have "hist_spec R (json_object W ?fs) = Some (rp_value r, ''RECOUP'')"
    using n assms(1) by (intro hist_spec_codec) (simp_all add: reserve_recoup_fields_def)
  moreover have "recoup_entry_spec R (json_object W ?fs) = Some \<lparr>rcd_coin_pub = rp_coin_pub r, rcd_exchange_sig = sig,
      rcd_exchange_pub = pub, rcd_timestamp = rp_timestamp r\<rparr>"
    using n assms(1) by (clarsimp simp: recoup_entry_spec_def reserve_recoup_fields_def codec_read)
  moreover have "known_denominations R (fst kc) [json_object W ?fs]"
    by (rule no_withdrawal [OF assms(1)]) (simp add: absent_def reserve_recoup_fields_def)
  ultimately have "op_arrives L R kc rpub cur (RO_RECOUP_COIN r) (json_object W ?fs)"
    using n s by (auto simp: op_arrives_def read_reserve_entry_def read_item_types sound_item_def)
  then show ?thesis using c by blast
qed

lemma closing_arrives:
  assumes "codec R W" "signs_known L X kc" "checkable L kc rpub cur (RO_EXCHANGE_TO_BANK c)"
  shows "\<exists>fs. compile_operation L X (RO_EXCHANGE_TO_BANK c) = Done (Some fs)
           \<and> op_arrives L R kc rpub cur (RO_EXCHANGE_TO_BANK c) (json_object W fs)"
proof -
  note n = assms(3) [simplified of_currency_def checkable.simps]
  obtain pub sig where s: "TALER_exchange_online_reserve_closed_sign L (sign_online X) (ct_execution_date c) (ct_amount c)
      (ct_closing_fee c) (ct_receiver_account_details c) (ct_wtid c) (ct_reserve_pub c) = Done (Some (pub, sig))" "key_in_use kc pub"
    "TALER_exchange_online_reserve_closed_verify L (ct_execution_date c) (ct_amount c) (ct_closing_fee c)
      (ct_receiver_account_details c) (ct_wtid c) rpub pub sig = Done GNUNET_OK"
    using n hton_Done [of "ct_amount c" "htonll L"] hton_Done [of "ct_closing_fee c" "htonll L"]
    by (auto simp: signatures TALER_full_payto_hash_def elim!: signs_knownE [OF assms(2)])
  let ?fs = "closing_fields pub sig (amount_entry ''amount'' (ct_amount c)) (amount_entry ''closing_fee'' (ct_closing_fee c)) c"
  have k: "compile_operation L X (RO_EXCHANGE_TO_BANK c) = Done (Some ?fs)"
    using n s by (clarsimp simp: signed_then_def pack_amount_normal)
  have "hist_spec R (json_object W ?fs) = Some (ct_amount c, ''CLOSING'')"
    using n assms(1) by (intro hist_spec_codec) (simp_all add: closing_fields_def TALER_JSON_pack_full_payto_def)
  moreover have "closing_spec R (json_object W ?fs) = Some \<lparr>cd_receiver_account_details = ct_receiver_account_details c,
      cd_wtid = ct_wtid c, cd_exchange_sig = sig, cd_exchange_pub = pub, cd_timestamp = ct_execution_date c, cd_fee = ct_closing_fee c\<rparr>"
    using n assms(1)
    by (clarsimp simp: closing_spec_def closing_fields_def TALER_JSON_pack_full_payto_def codec_read codec_payto codec_amount)
  moreover have "known_denominations R (fst kc) [json_object W ?fs]"
    by (rule no_withdrawal [OF assms(1)]) (simp add: absent_def closing_fields_def TALER_JSON_pack_full_payto_def)
  ultimately have "op_arrives L R kc rpub cur (RO_EXCHANGE_TO_BANK c) (json_object W ?fs)"
    using n s by (auto simp: op_arrives_def read_reserve_entry_def read_item_types sound_item_def)
  then show ?thesis using k by blast
qed

lemma codec_uint32:
  fixes w :: "32 word"
  assumes "codec R W" "map_of fs n = Some (Pack_uint64 (ucast w))"
  shows "spec_uint32 R (json_object W fs) n = Present w"
proof -
  have u: "unat (ucast w :: 64 word) = unat w" by (rule unat_ucast_up) simp
  have "(ucast (ucast w :: 64 word) :: 32 word) = w"
    by (rule word_unat_eq_iff [THEN iffD2]) (simp add: unsigned_ucast_eq u take_bit_nat_eq_self take_bit_word_eq_self)
  then show ?thesis
    using codecD(7) [OF assms] u unat_less_width [of w] by simp
qed

lemma merge_arrives:
  assumes "codec R W" "checkable L kc rpub cur (RO_PURSE_MERGE m)"
  shows "\<exists>fs. compile_operation L X (RO_PURSE_MERGE m) = Done (Some fs)
           \<and> op_arrives L R kc rpub cur (RO_PURSE_MERGE m) (json_object W fs)"
proof -
  let ?fs = "merge_fields (amount_entry ''purse_fee'' (pm_purse_fee m)) (amount_entry ''amount'' (pm_amount_with_fee m)) m"
  note n = assms(2) [simplified of_currency_def checkable.simps]
  have c: "compile_operation L X (RO_PURSE_MERGE m) = Done (Some ?fs)"
    using n by (clarsimp simp: pack_amount_normal)
  have "hist_spec R (json_object W ?fs) = Some (pm_amount_with_fee m, ''MERGE'')"
    using n assms(1) by (intro hist_spec_codec) (simp_all add: merge_fields_def)
  moreover have "merge_spec R (json_object W ?fs) = Some
     \<lparr>md_purse_fee = pm_purse_fee m, md_h_contract_terms = pm_h_contract_terms m, md_merge_pub = pm_merge_pub m,
       md_purse_pub = pm_purse_pub m, md_reserve_sig = pm_reserve_sig m, md_merge_timestamp = pm_merge_timestamp m,
       md_purse_expiration = pm_purse_expiration m, md_min_age = pm_min_age m, md_flags = pm_flags m, md_merged = pm_merged m\<rparr>"
    using n assms(1) by (clarsimp simp: merge_spec_def merge_fields_def codec_read codec_amount codec_uint32)
  moreover have "known_denominations R (fst kc) [json_object W ?fs]"
    by (rule no_withdrawal [OF assms(1)]) (simp add: absent_def merge_fields_def)
  ultimately have "op_arrives L R kc rpub cur (RO_PURSE_MERGE m) (json_object W ?fs)"
    using n by (auto simp: op_arrives_def read_reserve_entry_def read_item_types sound_item_def)
  then show ?thesis using c by blast
qed

section \<open>Properties\<close>

lemma checkable_arrives:
  assumes "codec R W" "signs_known L X kc" "checkable L kc rpub cur t"
  shows "\<exists>fs. compile_operation L X t = Done (Some fs) \<and> op_arrives L R kc rpub cur t (json_object W fs)"
proof (cases t)
  case (RO_BANK_TO_EXCHANGE b)
  then show ?thesis using credit_arrives [OF assms(1)] assms(3) by blast
next
  case (RO_WITHDRAW_COIN w)
  then show ?thesis using withdrawal_arrives [OF assms(1)] assms(3) by blast
next
  case (RO_RECOUP_COIN r)
  then show ?thesis using reserve_recoup_arrives [OF assms(1,2)] assms(3) by blast
next
  case (RO_EXCHANGE_TO_BANK c)
  then show ?thesis using closing_arrives [OF assms(1,2)] assms(3) by blast
next
  case (RO_PURSE_MERGE m)
  then show ?thesis using merge_arrives [OF assms(1)] assms(3) by blast
qed (use assms(3) in simp_all)

lemma compile_operations_arrive:
  assumes "codec R W" "signs_known L X kc" "list_all (checkable L kc rpub cur) ts"
  shows "\<exists>js. compile_operations L X W ts = Done (Some js) \<and> list_all2 (op_arrives L R kc rpub cur) ts js"
  using assms(3)
proof (induction ts)
  case (Cons t ts)
  then show ?case using checkable_arrives [OF assms(1,2), of rpub cur t] by fastforce
qed simp

lemma ops_read:
  assumes "list_all2 (op_arrives L R kc rpub cur) ts js"
  shows "known_denominations R (fst kc) js
    \<and> (\<exists>its. those (map (read_reserve_entry R) js) = Some its \<and> list_all (sound_item L kc rpub cur) its
         \<and> map paid_in its = map op_in ts \<and> map paid_out its = map op_out ts
         \<and> map (withdrawal_ids L) its = map (op_ids L) ts)"
  using assms by (induction rule: list_all2_induct) (auto simp: op_arrives_def known_denominations_def)

text \<open>
  C24: the exchange and the client agree on the history of a reserve. For stored operations that the
  client can check, \<^verbatim>\<open>compile_reserve_history\<close> returns an array, and \<^verbatim>\<open>parse_reserve_history\<close> accepts
  it and computes as \<^verbatim>\<open>total_in\<close> and \<^verbatim>\<open>total_out\<close> exactly what the stored operations moved,
  provided that no withdrawal is stored twice and both sums are representable.
\<close>

theorem reserve_history_delivered:
  assumes "codec R W" "signs_known L X (keys, latest, earliest)" "good_keys keys" "legal_currency cur"
    and "list_all (checkable L (keys, latest, earliest) rpub cur) ts" "distinct (concat (map (op_ids L) ts))"
    and "sum_list (map op_in ts) \<le> max_units" "sum_list (map op_out ts) \<le> max_units"
  shows "\<exists>j es. compile_reserve_history L X W ts = Done (Some j)
           \<and> parse_reserve_history L R latest earliest keys (json_array R j) rpub (cstr cur)
             = Done (Some (mk_amount cur (sum_list (map op_in ts)), mk_amount cur (sum_list (map op_out ts)), es))
           \<and> length es = length ts"
proof -
  let ?kc = "(keys, latest, earliest)"
  obtain js where js: "compile_operations L X W ts = Done (Some js)" "list_all2 (op_arrives L R ?kc rpub cur) ts js"
    using compile_operations_arrive [OF assms(1,2,5)] by blast
  then obtain its where k: "known_denominations R keys js" and its: "those (map (read_reserve_entry R) js) = Some its"
    "list_all (sound_item L ?kc rpub cur) its" "map paid_in its = map op_in ts" "map paid_out its = map op_out ts"
    "map (withdrawal_ids L) its = map (op_ids L) ts"
    using ops_read [OF js(2)] by auto
  have "reserve_history_reference L R ?kc rpub cur js = Some (mk_amount cur (sum_list (map op_in ts)),
      mk_amount cur (sum_list (map op_out ts)), map entry_of its)"
    using its assms(6-8) by (simp add: reserve_history_reference_def)
  moreover have "length its = length ts" using arg_cong [OF its(3), of length] by simp
  moreover have "json_array R (json_list W js) = js" using assms(1) by (simp add: codec_read)
  ultimately show ?thesis
    using parse_reserve_history_exact [OF assms(3,4) k, of L latest earliest rpub] js(1)
    by (auto simp: compile_reserve_history_def)
qed

text \<open>The operations whose entries the client does not understand.\<close>

fun unreadable :: "'s reserve_operation \<Rightarrow> bool" where
  "unreadable (RO_HISTORY_REQUEST h) = True"
| "unreadable (RO_OPEN_REQUEST q) = True"
| "unreadable (RO_CLOSE_REQUEST q) = True"
| "unreadable _ = False"

lemma unreadable_not_read:
  assumes "codec R W" "unreadable t" "compile_operation L X t = Done (Some fs)"
  shows "read_reserve_entry R (json_object W fs) = None"
proof -
  have no_amount: "read_reserve_entry R (json_object W fs) = None" if "absent fs ''amount''"
    using assms(1) that by (cases "spec_string R (json_object W fs) ''type''")
      (simp_all add: read_reserve_entry_def hist_spec_def spec_amount_any_def codec_absent)
  show ?thesis
  proof (cases t)
    case (RO_HISTORY_REQUEST h)
    then obtain a where "fs = history_fields a h" using assms(3) by (auto simp: obind_Done)
    then have "map_of fs ''type'' = Some (Pack_string ''HISTORY'')" by (simp add: history_fields_def)
    then show ?thesis
      using assms(1) by (cases "spec_amount_any R (json_object W fs) ''amount''")
        (simp_all add: read_reserve_entry_def hist_spec_def codec_read read_item_types)
  next
    case (RO_OPEN_REQUEST q)
    then obtain f where "fs = open_fields f q" "fst f = ''open_fee''"
      using assms(3) by (auto simp: obind_Done TALER_JSON_pack_amount_def)
    then have "absent fs ''amount''" by (cases f) (simp add: absent_def open_fields_def)
    then show ?thesis by (rule no_amount)
  next
    case (RO_CLOSE_REQUEST q)
    then have "absent fs ''amount''" using assms(3) by (auto simp: absent_def close_fields_def)
    then show ?thesis by (rule no_amount)
  qed (use assms(2) in simp_all)
qed

lemma compile_operations_list:
  "compile_operations L X W ts = Done (Some js) \<Longrightarrow>
   list_all2 (\<lambda>t j. \<exists>fs. compile_operation L X t = Done (Some fs) \<and> j = json_object W fs) ts js"
proof (induction ts arbitrary: js)
  case (Cons t ts)
  then show ?case by (auto simp: and_then_Some)
qed simp

text \<open>
  The history of a reserve that was ever opened or closed by request, or for which a history fee
  was charged, never reaches the client: \<^verbatim>\<open>parse_reserve_history\<close> refuses every array that
  \<^verbatim>\<open>compile_reserve_history\<close> builds with such an operation, because the entries of the first two kinds have no field
  \<^verbatim>\<open>amount\<close> and the client has no helper for the third.
\<close>

lemma reserve_history_not_delivered:
  assumes "codec R W" "good_keys keys" "legal_currency cur" "t \<in> set ts" "unreadable t"
    and "compile_reserve_history L X W ts = Done (Some j)" "known_denominations R keys (json_array R j)"
  shows "parse_reserve_history L R latest earliest keys (json_array R j) rpub (cstr cur) = Done None"
proof -
  obtain js where j: "j = json_list W js" and js: "compile_operations L X W ts = Done (Some js)"
    using assms(6) by (auto simp: compile_reserve_history_def and_then_Some)
  have a: "json_array R j = js" using assms(1) j by (simp add: codec_read)
  obtain fs where fs: "compile_operation L X t = Done (Some fs)" "json_object W fs \<in> set js"
    using assms(4) list_all2_set1 [OF compile_operations_list [OF js]] by blast
  have "those (map (read_reserve_entry R) js) = None"
  proof (rule ccontr)
    assume "those (map (read_reserve_entry R) js) \<noteq> None"
    then obtain its where "those (map (read_reserve_entry R) js) = Some its" by blast
    then have "None \<notin> set (map (read_reserve_entry R) js)" by (rule those_not_None)
    moreover have "None \<in> set (map (read_reserve_entry R) js)"
      using fs(2) unreadable_not_read [OF assms(1,5) fs(1)] by (auto simp: image_iff intro!: bexI [of _ "json_object W fs"])
    ultimately show False by simp
  qed
  then show ?thesis
    using parse_reserve_history_exact [OF assms(2,3,7), of L latest earliest rpub] a by (simp add: reserve_history_reference_def)
qed

section \<open>A sample exchange\<close>

text \<open>A reserve that got ten units, paid six for a coin and got three back.\<close>

definition served_keys :: exchange_keys where
  "served_keys = sample_keys\<lparr>sign_keys := [\<lparr>sk_key = ''x'', sk_valid_from = 0, sk_valid_until = 9\<rparr>]\<rparr>"

definition sample_operations :: "sample_sig \<Rightarrow> sample_sig reserve_operation list" where
  "sample_operations sig =
     [RO_BANK_TO_EXCHANGE \<lparr>bt_amount = eur 10, bt_execution_date = 7,
        bt_sender_account_details = ''payto://x-taler-bank/localhost/alice?receiver-name=Alice'', bt_wire_reference = 5\<rparr>,
      RO_WITHDRAW_COIN \<lparr>cb_denom_pub_hash = ''d'', cb_amount_with_fee = eur 6, cb_withdraw_fee = eur 1,
        cb_h_coin_envelope = ''envelope'', cb_reserve_sig = sig\<rparr>,
      RO_RECOUP_COIN \<lparr>rp_coin_pub = ''coin'', rp_reserve_pub = ''reserve'', rp_value = eur 3, rp_timestamp = 8\<rparr>]"

lemma served_keys_good: "good_keys served_keys"
  using sample_keys_good by (simp add: served_keys_def good_keys_def)

lemma sample_signs_known: "signs_known sample_library sample_service (served_keys, 5, 0)"
  by (simp add: signs_known_def sample_service_def key_in_use.simps served_keys_def)

lemma sample_account_valid:
  "TALER_payto_validate ''payto://x-taler-bank/localhost/alice?receiver-name=Alice'' = None"
  by code_simp

theorem reserve_history_delivered_witness:
  "\<exists>sig j es. TALER_wallet_withdraw_sign sample_library ''d'' (eur 6) ''envelope'' ''reserve'' = Done sig
     \<and> compile_reserve_history sample_library sample_service sample_writer (sample_operations sig) = Done (Some j)
     \<and> parse_reserve_history sample_library sample_reader 5 0 served_keys (json_array sample_reader j) ''reserve'' (cstr EUR)
       = Done (Some (eur 13, eur 6, es)) \<and> length es = 3"
proof -
  obtain sig where s: "TALER_wallet_withdraw_sign sample_library ''d'' (eur 6) ''envelope'' ''reserve'' = Done sig"
    "TALER_wallet_withdraw_verify sample_library ''d'' (eur 6) ''envelope'' ''reserve'' sig = Done GNUNET_OK"
    using sample_withdrawal_signed by blast
  have "list_all (checkable sample_library (served_keys, 5, 0) ''reserve'' EUR) (sample_operations sig)"
    using s(2) sample_account_valid
    by (simp add: sample_operations_def of_currency_def amount_consts TALER_EXCHANGE_get_denomination_key_by_hash_def
        served_keys_def sample_keys_def sample_fees_def)
  moreover have "distinct (concat (map (op_ids sample_library) (sample_operations sig)))"
    "sum_list (map op_in (sample_operations sig)) = 13" "sum_list (map op_out (sample_operations sig)) = 6"
    "length (sample_operations sig) = 3"
    by (simp_all add: sample_operations_def amount_consts)
  ultimately show ?thesis
    using s(1) reserve_history_delivered [OF sample_codec sample_signs_known served_keys_good legal_EUR, of "''reserve''" "sample_operations sig"]
    by (auto simp: eur_eqI amount_consts)
qed

end
