(* ===== verification/Url.thy ===== *)
theory Url
  imports Json_Helper
begin

text \<open>
  Encoding and joining of URLs, \<^verbatim>\<open>src/src/util/url.c\<close>. The growable buffer is GNUnet's: its functions are
  fields of \<open>buffer_lib\<close>, and \<open>buffer_laws\<close> states what the code relies on. The source writes some
  characters to \<^verbatim>\<open>buf->mem\<close> itself; a write behind the capacity is \<open>Abort\<close>. A \<^verbatim>\<open>char\<close> is signed, as on
  x86, and lengths stay below the range of \<^verbatim>\<open>size_t\<close>.
\<close>

section \<open>The buffer\<close>

record buffer =
  mem :: string
  capacity :: nat

abbreviation no_buffer :: buffer where
  "no_buffer \<equiv> \<lparr>mem = [], capacity = 0\<rparr>"

record buffer_lib =
  buffer_prealloc :: "buffer \<Rightarrow> nat \<Rightarrow> buffer"
  buffer_ensure_remaining :: "buffer \<Rightarrow> nat \<Rightarrow> buffer"
  buffer_write_str :: "buffer \<Rightarrow> string \<Rightarrow> buffer"
  buffer_write_fstr :: "buffer \<Rightarrow> string \<Rightarrow> buffer"
  buffer_write_path :: "buffer \<Rightarrow> string \<Rightarrow> buffer"
  buffer_reap_str :: "buffer \<Rightarrow> string"

section \<open>Encoding\<close>

definition UNRESERVED :: string where
  "UNRESERVED = ''0123456789abcdefghijklmnopqrstuvwxyzABCDEFGHIJKLMNOPQRSTUVWXYZ-._~''"

definition is_reserved :: "char \<Rightarrow> bool" where
  "is_reserved c = (if c \<in> set UNRESERVED then False else True)"

fun urlencode_len :: "string \<Rightarrow> nat" where
  "urlencode_len [] = 0"
| "urlencode_len (c # cs) = (if is_reserved c then 2 else 0) + 1 + urlencode_len cs"

definition hex_digit :: "nat \<Rightarrow> char" where
  "hex_digit n = ''0123456789ABCDEF'' ! n"

text \<open>
  The conversion \<^verbatim>\<open>%02X\<close> of a \<^verbatim>\<open>char\<close>: it is promoted to \<^verbatim>\<open>int\<close> and printed as an unsigned number of 32
  bits, so a negative one has eight digits.
\<close>

definition print_02X :: "char \<Rightarrow> string" where
  "print_02X c =
     (let n = of_char c :: nat; digits = [hex_digit (n div 16), hex_digit (n mod 16)]
      in if n < 128 then digits else ''FFFFFF'' @ digits)"

fun urlencode_loop :: "buffer_lib \<Rightarrow> buffer \<Rightarrow> string \<Rightarrow> buffer outcome" where
  "urlencode_loop B buf [] = Done buf"
| "urlencode_loop B buf (c # cs) =
     (if is_reserved c then urlencode_loop B (buffer_write_fstr B buf (CHR ''%'' # print_02X c)) cs
      else if length (mem buf) < capacity buf then urlencode_loop B (buf\<lparr>mem := mem buf @ [c]\<rparr>) cs
      else Abort)"

definition buffer_write_urlencode :: "buffer_lib \<Rightarrow> buffer \<Rightarrow> string \<Rightarrow> buffer outcome" where
  "buffer_write_urlencode B buf s =
     (let ulen = urlencode_len s
      in gassert (ulen < ulen + 1) (urlencode_loop B (buffer_ensure_remaining B buf (ulen + 1)) s))"

definition TALER_urlencode :: "buffer_lib \<Rightarrow> string \<Rightarrow> string outcome" where
  "TALER_urlencode B s = obind (buffer_write_urlencode B no_buffer s) (\<lambda>buf. Done (buffer_reap_str B buf))"

section \<open>Arguments and URLs\<close>

text \<open>The variable arguments: pairs of a key and a value, where a missing value skips the pair.\<close>

type_synonym url_args = "(string \<times> string option) list"

fun argument_length_loop :: "nat \<Rightarrow> url_args \<Rightarrow> nat outcome" where
  "argument_length_loop len [] = Done len"
| "argument_length_loop len ((key, None) # args) = argument_length_loop len args"
| "argument_length_loop len ((key, Some val) # args) =
     (let vlen = urlencode_len val; klen = length key
      in gassert (len \<le> len + vlen \<and> len \<le> len + vlen + klen \<and> len < len + vlen + klen + 2)
           (argument_length_loop (len + (vlen + klen + 2)) args))"

definition calculate_argument_length :: "url_args \<Rightarrow> nat outcome" where
  "calculate_argument_length args = argument_length_loop 0 args"

fun serialize_loop :: "buffer_lib \<Rightarrow> nat \<Rightarrow> buffer \<Rightarrow> url_args \<Rightarrow> buffer outcome" where
  "serialize_loop B iparam buf [] = Done buf"
| "serialize_loop B iparam buf ((key, None) # args) = serialize_loop B iparam buf args"
| "serialize_loop B iparam buf ((key, Some val) # args) =
     (let buf1 = buffer_write_str B buf (if iparam = 0 then ''?'' else ''&'');
          buf2 = buffer_write_str B buf1 key;
          buf3 = buffer_write_str B buf2 ''=''
      in obind (buffer_write_urlencode B buf3 val) (\<lambda>buf4. serialize_loop B 1 buf4 args))"

definition serialize_arguments :: "buffer_lib \<Rightarrow> buffer \<Rightarrow> url_args \<Rightarrow> buffer outcome" where
  "serialize_arguments B buf args = serialize_loop B 0 buf args"

definition TALER_url_join :: "buffer_lib \<Rightarrow> string option \<Rightarrow> string option \<Rightarrow> url_args \<Rightarrow> string option outcome" where
  "TALER_url_join B base_url path args =
     (case (base_url, path) of
        (Some base, Some p) \<Rightarrow>
          if length base = 0 then Done None
          else if p \<noteq> [] \<and> base ! (length base - 1) \<noteq> CHR ''/'' then Done None
          else if p \<noteq> [] \<and> p ! 0 = CHR ''/'' then Done None
          else obind (calculate_argument_length args) (\<lambda>alen.
               let buf = buffer_prealloc B no_buffer (length base + length p + 1 + alen);
                   buf1 = buffer_write_str B buf base;
                   buf2 = buffer_write_str B buf1 p
               in obind (serialize_arguments B buf2 args) (\<lambda>buf3. Done (Some (buffer_reap_str B buf3))))
      | _ \<Rightarrow> Abort)"

definition TALER_url_absolute_raw_va ::
  "buffer_lib \<Rightarrow> string \<Rightarrow> string \<Rightarrow> string \<Rightarrow> string \<Rightarrow> url_args \<Rightarrow> string outcome" where
  "TALER_url_absolute_raw_va B proto host prefix path args =
     obind (calculate_argument_length args) (\<lambda>alen.
       let len = length proto + length ''://'' + length host + (length prefix + length path) + (alen + 1);
           buf = buffer_prealloc B no_buffer len;
           buf1 = buffer_write_str B buf proto;
           buf2 = buffer_write_str B buf1 ''://'';
           buf3 = buffer_write_str B buf2 host;
           buf4 = buffer_write_path B buf3 prefix;
           buf5 = buffer_write_path B buf4 path
       in obind (serialize_arguments B buf5 args) (\<lambda>buf6. Done (buffer_reap_str B buf6)))"

definition TALER_url_absolute_raw ::
  "buffer_lib \<Rightarrow> string \<Rightarrow> string \<Rightarrow> string \<Rightarrow> string \<Rightarrow> url_args \<Rightarrow> string outcome" where
  "TALER_url_absolute_raw B proto host prefix path args = TALER_url_absolute_raw_va B proto host prefix path args"

section \<open>What the code relies on\<close>

text \<open>
  The functions of the buffer append and never lose room: making room keeps the contents, a write
  appends its text, and the capacity never shrinks. A path is appended behind exactly one slash.
\<close>

definition appends :: "(buffer \<Rightarrow> string \<Rightarrow> buffer) \<Rightarrow> bool" where
  "appends w \<longleftrightarrow> (\<forall>b s. mem (w b s) = mem b @ s \<and> capacity b \<le> capacity (w b s))"

definition one_slash :: "string \<Rightarrow> string \<Rightarrow> string" where
  "one_slash pre s =
     (if pre \<noteq> [] \<and> last pre = CHR ''/'' then pre else pre @ ''/'') @ dropWhile (\<lambda>c. c = CHR ''/'') s"

definition buffer_laws :: "buffer_lib \<Rightarrow> bool" where
  "buffer_laws B \<longleftrightarrow>
     (\<forall>n. mem (buffer_prealloc B no_buffer n) = [] \<and> n \<le> capacity (buffer_prealloc B no_buffer n))
     \<and> (\<forall>b n. mem (buffer_ensure_remaining B b n) = mem b \<and> length (mem b) + n \<le> capacity (buffer_ensure_remaining B b n)
            \<and> capacity b \<le> capacity (buffer_ensure_remaining B b n))
     \<and> appends (buffer_write_str B) \<and> appends (buffer_write_fstr B)
     \<and> (\<forall>b s. mem (buffer_write_path B b s) = one_slash (mem b) s)
     \<and> (\<forall>b. buffer_reap_str B b = mem b)"

lemma buffer_lawsD:
  assumes "buffer_laws B"
  shows "mem (buffer_prealloc B no_buffer n) = []"
    and "mem (buffer_ensure_remaining B b n) = mem b" "length (mem b) + n \<le> capacity (buffer_ensure_remaining B b n)"
    and "mem (buffer_write_str B b s) = mem b @ s" "mem (buffer_write_fstr B b s) = mem b @ s"
    and "capacity b \<le> capacity (buffer_write_fstr B b s)"
    and "mem (buffer_write_path B b s) = one_slash (mem b) s" "buffer_reap_str B b = mem b"
  using assms unfolding buffer_laws_def appends_def by auto

section \<open>The encoded string\<close>

definition is_ascii :: "string \<Rightarrow> bool" where
  "is_ascii s \<longleftrightarrow> list_all (\<lambda>c. (of_char c :: nat) < 128) s"

definition encode_char :: "char \<Rightarrow> string" where
  "encode_char c = (if is_reserved c then CHR ''%'' # print_02X c else [c])"

definition percent_encoded :: "string \<Rightarrow> string" where
  "percent_encoded s = concat (map encode_char s)"

lemma length_encode_char: "(of_char c :: nat) < 128 \<Longrightarrow> length (encode_char c) = (if is_reserved c then 3 else 1)"
  by (simp add: encode_char_def print_02X_def Let_def)

lemma urlencode_len_exact: "is_ascii s \<Longrightarrow> length (percent_encoded s) = urlencode_len s"
  by (induction s) (simp_all add: is_ascii_def percent_encoded_def length_encode_char)

lemma urlencode_loop_exact:
  assumes B: "buffer_laws B" and "is_ascii s" "length (mem buf) + urlencode_len s \<le> capacity buf"
  shows "\<exists>buf'. urlencode_loop B buf s = Done buf' \<and> mem buf' = mem buf @ percent_encoded s"
  using assms(2,3)
proof (induction s arbitrary: buf)
  case Nil
  then show ?case by (simp add: percent_encoded_def)
next
  case (Cons c s)
  have a: "(of_char c :: nat) < 128" "is_ascii s" using Cons.prems(1) by (simp_all add: is_ascii_def)
  show ?case
  proof (cases "is_reserved c")
    case True
    let ?b = "buffer_write_fstr B buf (CHR ''%'' # print_02X c)"
    have "length (print_02X c) = 2" using a(1) by (simp add: print_02X_def Let_def)
    then have "length (mem ?b) + urlencode_len s \<le> capacity ?b"
      using Cons.prems(2) True buffer_lawsD(5,6) [OF B, of buf "CHR ''%'' # print_02X c"] by simp
    from Cons.IH [OF a(2) this] show ?thesis
      using True buffer_lawsD(5) [OF B] by (auto simp: percent_encoded_def encode_char_def)
  next
    case False
    have "length (mem (buf\<lparr>mem := mem buf @ [c]\<rparr>)) + urlencode_len s \<le> capacity (buf\<lparr>mem := mem buf @ [c]\<rparr>)"
      using Cons.prems(2) False by simp
    from Cons.IH [OF a(2) this] show ?thesis
      using False Cons.prems(2) by (auto simp: percent_encoded_def encode_char_def)
  qed
qed

lemma write_urlencode_exact:
  assumes "buffer_laws B" "is_ascii s"
  shows "\<exists>buf'. buffer_write_urlencode B buf s = Done buf' \<and> mem buf' = mem buf @ percent_encoded s"
  using urlencode_loop_exact [OF assms, of "buffer_ensure_remaining B buf (urlencode_len s + 1)"]
    buffer_lawsD(2,3) [OF assms(1), of buf "urlencode_len s + 1"]
  by (simp add: buffer_write_urlencode_def Let_def)

text \<open>Decoding, as any reader of a query does it.\<close>

fun hex_value :: "char \<Rightarrow> nat" where
  "hex_value c = (let n = of_char c in if n < 58 then n - 48 else n - 55)"

fun url_decode :: "string \<Rightarrow> string" where
  "url_decode (c # a # b # cs) =
     (if c = CHR ''%'' then char_of (16 * hex_value a + hex_value b) # url_decode cs else c # url_decode (a # b # cs))"
| "url_decode cs = cs"

lemma url_decode_plain: "c \<noteq> CHR ''%'' \<Longrightarrow> url_decode (c # cs) = c # url_decode cs"
  by (cases "c # cs" rule: url_decode.cases) auto

lemma hex_value_digit: "n < 16 \<Longrightarrow> hex_value (hex_digit n) = n"
proof -
  have "list_all (\<lambda>n. hex_value (hex_digit n) = n) [0..<16]" by code_simp
  then show "n < 16 \<Longrightarrow> ?thesis" by (simp add: list_all_iff)
qed

lemma url_decode_encode: "is_ascii s \<Longrightarrow> url_decode (percent_encoded s) = s"
proof (induction s)
  case Nil
  then show ?case by (simp add: percent_encoded_def)
next
  case (Cons c s)
  have a: "(of_char c :: nat) < 128" and IH: "url_decode (percent_encoded s) = s"
    using Cons by (simp_all add: is_ascii_def)
  show ?case
  proof (cases "is_reserved c")
    case True
    have "hex_value (hex_digit (of_char c div 16)) = of_char c div 16" "hex_value (hex_digit (of_char c mod 16)) = of_char c mod 16"
      using a by (intro hex_value_digit; simp)+
    then show ?thesis
      using True a IH by (simp add: percent_encoded_def encode_char_def print_02X_def Let_def del: hex_value.simps)
  next
    case False
    have "c \<noteq> CHR ''%''" using False by (auto simp: is_reserved_def UNRESERVED_def)
    then show ?thesis using False IH by (simp add: percent_encoded_def encode_char_def url_decode_plain)
  qed
qed

lemma percent_encoded_charset:
  assumes "is_ascii s"
  shows "TALER_url_valid_charset (percent_encoded s)"
proof -
  have v: "TALER_url_valid_charset cs \<longleftrightarrow> set cs \<subseteq> set URL_CHARACTERS" for cs
    by (induction cs) auto
  have "list_all (\<lambda>n. hex_digit n \<in> set URL_CHARACTERS) [0..<16]" "list_all (\<lambda>c. c \<in> set URL_CHARACTERS) (CHR ''%'' # UNRESERVED)"
    by code_simp+
  then have d: "n < 16 \<Longrightarrow> hex_digit n \<in> set URL_CHARACTERS" and u: "c \<in> set UNRESERVED \<Longrightarrow> c \<in> set URL_CHARACTERS"
    and p: "CHR ''%'' \<in> set URL_CHARACTERS" for n c
    by (simp_all add: list_all_iff)
  have "set (encode_char c) \<subseteq> set URL_CHARACTERS" if "(of_char c :: nat) < 128" for c
    using that d u p by (auto simp: encode_char_def print_02X_def Let_def is_reserved_def split: if_splits)
  then show ?thesis using assms by (auto simp: v percent_encoded_def is_ascii_def list_all_iff)
qed

section \<open>Queries\<close>

fun query_from :: "char \<Rightarrow> url_args \<Rightarrow> string" where
  "query_from sep [] = []"
| "query_from sep ((key, None) # args) = query_from sep args"
| "query_from sep ((key, Some val) # args) = sep # key @ ''='' @ percent_encoded val @ query_from CHR ''&'' args"

definition ascii_args :: "url_args \<Rightarrow> bool" where
  "ascii_args args \<longleftrightarrow> (\<forall>key val. (key, Some val) \<in> set args \<longrightarrow> is_ascii val)"

lemma ascii_args_Cons: "ascii_args ((key, v) # args) \<longleftrightarrow> (case v of None \<Rightarrow> True | Some val \<Rightarrow> is_ascii val) \<and> ascii_args args"
  by (auto simp: ascii_args_def split: option.splits)

lemma argument_length_exact:
  "ascii_args args \<Longrightarrow> argument_length_loop len args = Done (len + length (query_from sep args))"
proof (induction args arbitrary: len sep)
  case (Cons a args)
  obtain key v where a: "a = (key, v)" by (cases a)
  show ?case
  proof (cases v)
    case None
    then show ?thesis using Cons a by (simp add: ascii_args_Cons)
  next
    case (Some val)
    then show ?thesis
      using Cons.IH [of "len + (urlencode_len val + length key + 2)" "CHR ''&''"] Cons.prems a
      by (simp add: ascii_args_Cons urlencode_len_exact Let_def add_ac)
  qed
qed simp

lemma serialize_exact:
  assumes "buffer_laws B" "ascii_args args"
  shows "\<exists>buf'. serialize_loop B iparam buf args = Done buf'
           \<and> mem buf' = mem buf @ query_from (if iparam = 0 then CHR ''?'' else CHR ''&'') args"
  using assms(2)
proof (induction args arbitrary: buf iparam)
  case (Cons a args)
  obtain key v where a: "a = (key, v)" by (cases a)
  show ?case
  proof (cases v)
    case None
    then show ?thesis using Cons a by (simp add: ascii_args_Cons)
  next
    case (Some val)
    let ?b = "buffer_write_str B (buffer_write_str B (buffer_write_str B buf (if iparam = 0 then ''?'' else ''&'')) key) ''=''"
    have v: "is_ascii val" "ascii_args args" using Cons.prems a Some by (simp_all add: ascii_args_Cons)
    obtain b' where b': "buffer_write_urlencode B ?b val = Done b'" "mem b' = mem ?b @ percent_encoded val"
      using write_urlencode_exact [OF assms(1) v(1), of ?b] by blast
    have "mem ?b = mem buf @ (if iparam = 0 then CHR ''?'' else CHR ''&'') # key @ ''=''"
      by (simp add: buffer_lawsD(4) [OF assms(1)])
    then show ?thesis using Cons.IH [OF v(2), of 1 b'] b' a Some by (auto simp: Let_def)
  qed
qed simp

lemma url_absolute_exact:
  assumes "buffer_laws B" "ascii_args args"
  shows "TALER_url_absolute_raw B proto host prefix path args
         = Done (one_slash (one_slash (proto @ ''://'' @ host) prefix) path @ query_from CHR ''?'' args)"
proof -
  have "calculate_argument_length args = Done (length (query_from CHR ''?'' args))"
    using argument_length_exact [OF assms(2), of 0] by (simp add: calculate_argument_length_def)
  moreover have "\<exists>r. serialize_arguments B b args = Done r \<and> mem r = mem b @ query_from CHR ''?'' args" for b
    using serialize_exact [OF assms, of 0 b] by (simp add: serialize_arguments_def)
  then obtain r where "\<And>b. serialize_arguments B b args = Done (r b)" "\<And>b. mem (r b) = mem b @ query_from CHR ''?'' args"
    by metis
  ultimately show ?thesis
    by (simp add: TALER_url_absolute_raw_def TALER_url_absolute_raw_va_def Let_def buffer_lawsD(1,4,7,8) [OF assms(1)])
qed

section \<open>Properties\<close>

text \<open>
  C25: encoding an ASCII string with \<^verbatim>\<open>TALER_urlencode\<close> always succeeds within the memory that
  \<^verbatim>\<open>urlencode_len\<close> computes, the result has that length and only characters of a URL, and decoding it gives back
  the string.
\<close>

theorem urlencode_roundtrip:
  assumes "buffer_laws B" "is_ascii s"
  shows "\<exists>e. TALER_urlencode B s = Done e \<and> length e = urlencode_len s \<and> TALER_url_valid_charset e \<and> url_decode e = s"
proof -
  obtain b where b: "buffer_write_urlencode B no_buffer s = Done b" "mem b = percent_encoded s"
    using write_urlencode_exact [OF assms, of no_buffer] by auto
  have "TALER_url_valid_charset (percent_encoded s)"
    using assms(2) by (rule percent_encoded_charset)
  then show ?thesis
    using b assms by (simp add: TALER_urlencode_def buffer_lawsD(8) urlencode_len_exact url_decode_encode)
qed

text \<open>
  \<^verbatim>\<open>TALER_url_join\<close> refuses exactly an empty base URL, a base URL that does not end with a slash when a path
  follows, and an absolute path. Otherwise, for values in ASCII, it returns the base URL, the
  path and the query with every present argument in order, without leaving its memory, and
  \<^verbatim>\<open>calculate_argument_length\<close> is the exact length of the query.
\<close>

lemma url_join_exact:
  assumes "buffer_laws B" "ascii_args args"
  shows "TALER_url_join B (Some base) (Some path) args =
           Done (if base = [] \<or> path \<noteq> [] \<and> (last base \<noteq> CHR ''/'' \<or> hd path = CHR ''/'') then None
                 else Some (base @ path @ query_from CHR ''?'' args))
         \<and> calculate_argument_length args = Done (length (query_from CHR ''?'' args))"
proof -
  have c: "calculate_argument_length args = Done (length (query_from CHR ''?'' args))"
    using argument_length_exact [OF assms(2), of 0] by (simp add: calculate_argument_length_def)
  let ?b = "buffer_write_str B (buffer_write_str B (buffer_prealloc B no_buffer
      (length base + length path + 1 + length (query_from CHR ''?'' args))) base) path"
  have "mem ?b = base @ path"
    by (simp add: buffer_lawsD(1,4) [OF assms(1)])
  moreover obtain r where "serialize_arguments B ?b args = Done r" "mem r = mem ?b @ query_from CHR ''?'' args"
    using serialize_exact [OF assms, of 0 ?b] unfolding serialize_arguments_def by auto
  ultimately show ?thesis
    using c by (auto simp: TALER_url_join_def Let_def buffer_lawsD(8) [OF assms(1)] last_conv_nth hd_conv_nth)
qed

text \<open>A library that allocates what it is asked for and grows only when it must.\<close>

definition exact_room :: "buffer_lib \<Rightarrow> bool" where
  "exact_room B \<longleftrightarrow>
     (\<forall>n. capacity (buffer_ensure_remaining B no_buffer n) = n)
     \<and> (\<forall>b s. length (mem b) + length s < capacity b \<longrightarrow> capacity (buffer_write_fstr B b s) = capacity b)"

lemma pokes_overflow:
  assumes "list_all (\<lambda>c. \<not> is_reserved c) s" "capacity b < length (mem b) + length s" "length (mem b) \<le> capacity b"
  shows "urlencode_loop B b s = Abort"
  using assms by (induction s arbitrary: b) auto

lemma urlencode_len_plain: "list_all (\<lambda>c. \<not> is_reserved c) s \<Longrightarrow> urlencode_len s = length s"
  by (induction s) auto

lemma unreserved_is_ascii:
  assumes "\<not> is_reserved c"
  shows "(of_char c :: nat) < 128"
proof -
  have "list_all (\<lambda>d. (of_char d :: nat) < 128) UNRESERVED" by code_simp
  then show ?thesis using assms by (auto simp: is_reserved_def list_all_iff split: if_splits)
qed

definition is_high :: "char \<Rightarrow> bool" where
  "is_high c \<longleftrightarrow> 128 \<le> (of_char c :: nat)"

lemma length_encode_any: "length (encode_char c) = (if is_reserved c then 3 else 1) + (if is_high c then 6 else 0)"
  using unreserved_is_ascii [of c] by (auto simp: encode_char_def print_02X_def Let_def is_high_def)

lemma length_percent_encoded: "length (percent_encoded s) = urlencode_len s + 6 * length (filter is_high s)"
  by (induction s) (simp_all add: percent_encoded_def length_encode_any)

lemma urlencode_loop_written:
  assumes "buffer_laws B" "urlencode_loop B buf s = Done buf'"
  shows "mem buf' = mem buf @ percent_encoded s"
  using assms(2)
  by (induction s arbitrary: buf)
    (auto simp: percent_encoded_def encode_char_def buffer_lawsD(5) [OF assms(1)] split: if_splits)

lemma urlencode_written:
  assumes "buffer_laws B" "TALER_urlencode B s = Done e"
  shows "e = percent_encoded s"
  using assms(2) urlencode_loop_written [OF assms(1)]
  by (auto simp: TALER_urlencode_def buffer_write_urlencode_def obind_Done buffer_lawsD(2,8) [OF assms(1)])

lemma urlencode_loop_reserved:
  "list_all is_reserved s \<Longrightarrow> \<exists>buf'. urlencode_loop B buf s = Done buf'"
  by (induction s arbitrary: buf) auto

lemma urlencode_reserved: "list_all is_reserved s \<Longrightarrow> \<exists>e. TALER_urlencode B s = Done e"
  using urlencode_loop_reserved [of s B "buffer_ensure_remaining B no_buffer (urlencode_len s + 1)"]
  by (auto simp: TALER_urlencode_def buffer_write_urlencode_def Let_def)

text \<open>
  With a buffer that allocates no more than it is asked for, a byte above 127 followed by six or
  more unreserved characters makes \<^verbatim>\<open>buffer_write_urlencode\<close> write behind the end of its memory.
\<close>

lemma urlencode_overflow:
  assumes B: "buffer_laws B" "exact_room B" and c: "is_high c"
    and rest: "list_all (\<lambda>c. \<not> is_reserved c) rest" "6 \<le> length rest"
  shows "TALER_urlencode B (c # rest) = Abort"
proof -
  let ?b = "buffer_ensure_remaining B no_buffer (urlencode_len (c # rest) + 1)"
  let ?b' = "buffer_write_fstr B ?b (CHR ''%'' # print_02X c)"
  have r: "is_reserved c" using c unreserved_is_ascii by (force simp: is_high_def)
  have p: "length (print_02X c) = 8" using c by (simp add: print_02X_def Let_def is_high_def)
  have m: "capacity ?b = length rest + 4" "mem ?b = []"
    using B(2) rest r buffer_lawsD(2) [OF B(1), of no_buffer] by (simp_all add: exact_room_def urlencode_len_plain)
  have "capacity ?b' = capacity ?b" using B(2) rest(2) m p unfolding exact_room_def by simp
  then have "urlencode_loop B ?b' rest = Abort"
    using m p rest(2) buffer_lawsD(5) [OF B(1)] by (intro pokes_overflow rest(1)) simp_all
  then show ?thesis using r by (simp add: TALER_urlencode_def buffer_write_urlencode_def Let_def)
qed

text \<open>
  C26: a byte above 127 is not encoded as three characters but as nine, the sign extension
  included, and \<^verbatim>\<open>urlencode_len\<close>, for which the memory is allocated, does not account for that:
  whenever \<^verbatim>\<open>TALER_urlencode\<close> returns, its result is longer than the computed length by six
  characters for each such byte, and it always returns for strings without unreserved characters.
\<close>

theorem urlencode_high_byte:
  assumes "buffer_laws B"
  shows "(128 \<le> (of_char c :: nat)
          \<longrightarrow> TALER_urlencode B [c] = Done (''%FFFFFF'' @ [hex_digit (of_char c div 16), hex_digit (of_char c mod 16)]))
       \<and> (TALER_urlencode B s = Done e
          \<longrightarrow> length e = urlencode_len s + 6 * length (filter (\<lambda>c. 128 \<le> (of_char c :: nat)) s))
       \<and> (list_all is_reserved s \<longrightarrow> (\<exists>e. TALER_urlencode B s = Done e))"
proof -
  have "TALER_urlencode B [c] = Done (''%FFFFFF'' @ [hex_digit (of_char c div 16), hex_digit (of_char c mod 16)])"
    if h: "128 \<le> (of_char c :: nat)"
  proof -
    have r: "is_reserved c" using h unreserved_is_ascii [of c] by linarith
    then obtain e where e: "TALER_urlencode B [c] = Done e" using urlencode_reserved [of "[c]"] by auto
    then show ?thesis
      using urlencode_written [OF assms e] r h by (simp add: percent_encoded_def encode_char_def print_02X_def Let_def)
  qed
  then show ?thesis
    using urlencode_written [OF assms, of s e] length_percent_encoded [of s] urlencode_reserved [of s B]
    by (auto simp: is_high_def [abs_def])
qed

section \<open>A sample buffer\<close>

definition sample_room :: "buffer \<Rightarrow> nat \<Rightarrow> buffer" where
  "sample_room b n = (if length (mem b) + n \<le> capacity b then b else b\<lparr>capacity := max (length (mem b) + n) (2 * capacity b)\<rparr>)"

definition sample_write :: "nat \<Rightarrow> buffer \<Rightarrow> string \<Rightarrow> buffer" where
  "sample_write extra b s = (let b' = sample_room b (length s + extra) in b'\<lparr>mem := mem b' @ s\<rparr>)"

definition sample_buffer :: buffer_lib where
  "sample_buffer = \<lparr>buffer_prealloc = sample_room, buffer_ensure_remaining = sample_room, buffer_write_str = sample_write 0,
     buffer_write_fstr = sample_write 1,
     buffer_write_path = (\<lambda>b s. b\<lparr>mem := one_slash (mem b) s, capacity := capacity b + length s + 1\<rparr>), buffer_reap_str = mem\<rparr>"

lemma sample_buffer_laws: "buffer_laws sample_buffer"
  by (auto simp: buffer_laws_def appends_def sample_buffer_def sample_write_def sample_room_def Let_def)

lemma sample_exact_room: "exact_room sample_buffer"
  by (auto simp: exact_room_def sample_buffer_def sample_write_def sample_room_def Let_def)

theorem urlencode_roundtrip_witness:
  "\<exists>e. TALER_urlencode sample_buffer ''a b&c'' = Done e \<and> length e = 9 \<and> url_decode e = ''a b&c''"
proof -
  have "is_ascii ''a b&c''" "urlencode_len ''a b&c'' = 9" by code_simp+
  then show ?thesis using urlencode_roundtrip [OF sample_buffer_laws, of "''a b&c''"] by metis
qed

theorem urlencode_high_byte_witness:
  "\<exists>e. TALER_urlencode sample_buffer [CHR 0xC3, CHR 0xA9] = Done e \<and> length e = 18
     \<and> urlencode_len [CHR 0xC3, CHR 0xA9] = 6 \<and> TALER_urlencode sample_buffer [CHR 0xC3] = Done ''%FFFFFFC3''"
proof -
  have "list_all is_reserved [CHR 0xC3, CHR 0xA9]" "urlencode_len [CHR 0xC3, CHR 0xA9] = 6" by code_simp+
  moreover have "hex_digit 12 = CHR ''C''" "hex_digit 3 = CHR ''3''" by code_simp+
  ultimately show ?thesis
    using urlencode_high_byte [OF sample_buffer_laws, where s = "[CHR 0xC3, CHR 0xA9]" and c = "CHR 0xC3"] by auto
qed

lemma sample_overflow: "TALER_urlencode sample_buffer (CHR 0xC3 # ''abcdef'') = Abort"
proof -
  have "list_all (\<lambda>c. \<not> is_reserved c) ''abcdef''" by code_simp
  then show ?thesis
    using urlencode_overflow [OF sample_buffer_laws sample_exact_room, of "CHR 0xC3" "''abcdef''"]
    by (simp add: is_high_def)
qed

end
