(* ===== verification/Kyc_Rules.thy ===== *)
theory Kyc_Rules
  imports Json_Library
begin

text \<open>
  The rules of \<^verbatim>\<open>src/src/kyclogic/kyclogic_api.c\<close>. A rule names an operation, a threshold and a
  timeframe, and the measures to take when the threshold is reached; a measure names a check the
  customer has to pass and the program that judges its result. The exchange has default rules and
  measures from its configuration; an account may have a rule set of its own, in JSON. This theory
  has the data, the lookups, the parser of rule sets, the conversions of measures and limits to
  JSON, and the test whether an operation triggers a rule.

  The fields of the JSON library that the file uses beside those of \<open>json_reader\<close> extend its record.
  The pointer of a rule to its rule set is an argument of the functions that follow it.
\<close>

section \<open>Data\<close>

datatype kyc_trigger =
    TALER_KYCLOGIC_KYC_TRIGGER_NONE
  | TALER_KYCLOGIC_KYC_TRIGGER_WITHDRAW
  | TALER_KYCLOGIC_KYC_TRIGGER_DEPOSIT
  | TALER_KYCLOGIC_KYC_TRIGGER_P2P_RECEIVE
  | TALER_KYCLOGIC_KYC_TRIGGER_WALLET_BALANCE
  | TALER_KYCLOGIC_KYC_TRIGGER_RESERVE_CLOSE
  | TALER_KYCLOGIC_KYC_TRIGGER_AGGREGATE
  | TALER_KYCLOGIC_KYC_TRIGGER_TRANSACTION
  | TALER_KYCLOGIC_KYC_TRIGGER_REFUND

record kyc_rule =
  r_rule_name :: "string option"
  r_timeframe :: "64 word"
  r_threshold :: amount
  r_next_measures :: "string list"
  r_display_priority :: "32 word"
  r_trigger :: kyc_trigger
  r_is_and_combinator :: bool
  r_exposed :: bool
  r_verboten :: bool

record 'j kyc_measure =
  m_measure_name :: string
  m_check_name :: string
  m_prog_name :: string
  m_context :: "'j option"
  m_voluntary :: bool

record 'j rule_set =
  ls_expiration_time :: "64 word"
  ls_successor_measure :: "string option"
  ls_jlrs :: "'j option"
  ls_kyc_rules :: "kyc_rule list"
  ls_custom_measures :: "'j kyc_measure list"

text \<open>Plugins and the details they keep are opaque handles.\<close>

type_synonym handle = nat

record kyc_plugin =
  lp_library_name :: string
  lp_name :: string
  lp_handle :: handle

record kyc_provider =
  kp_provider_name :: string
  kp_logic :: kyc_plugin
  kp_pd :: handle

text \<open>The type of a check with the details that its union holds.\<close>

datatype check_type =
    TALER_KYCLOGIC_CT_INFO
  | TALER_KYCLOGIC_CT_FORM string
  | TALER_KYCLOGIC_CT_LINK kyc_provider

record 'j kyc_check =
  ck_check_name :: string
  ck_description :: string
  ck_description_i18n :: "'j option"
  ck_requires :: "string list"
  ck_fallback :: string
  ck_outputs :: "string list"
  ck_type :: check_type

record aml_program =
  ap_program_name :: string
  ap_command :: string
  ap_description :: string
  ap_fallback :: string
  ap_required_contexts :: "string list"
  ap_required_attributes :: "string list"
  ap_input_mask :: "32 word"
  ap_aml_history_length_limit :: int
  ap_kyc_history_length_limit :: int

definition API_CONTEXT :: "32 word" where "API_CONTEXT = 1"

definition API_ATTRIBUTES :: "32 word" where "API_ATTRIBUTES = 2"

definition API_CURRENT_RULES :: "32 word" where "API_CURRENT_RULES = 4"

definition API_DEFAULT_RULES :: "32 word" where "API_DEFAULT_RULES = 8"

definition API_AML_HISTORY :: "32 word" where "API_AML_HISTORY = 16"

definition API_KYC_HISTORY :: "32 word" where "API_KYC_HISTORY = 32"

text \<open>The static variables of the file.\<close>

record 'j kyc_globals =
  kyc_logics :: "kyc_plugin list"
  kyc_providers :: "kyc_provider list"
  kyc_checks :: "'j kyc_check list"
  default_rules :: "'j rule_set"
  aml_programs :: "aml_program list"
  cfg_filename :: "string option"
  my_currency :: string

text \<open>A pointer to a rule set: \<^verbatim>\<open>NULL\<close>, the default rules, or the rules of an account.\<close>

datatype 'j rules_ref = Null_rules | Default_rules | Custom_rules "'j rule_set"

definition KYC_MEASURE_IMPOSSIBLE :: string where
  "KYC_MEASURE_IMPOSSIBLE = ''verboten''"

section \<open>The JSON library\<close>

text \<open>\<^verbatim>\<open>json_is_string\<close> and \<^verbatim>\<open>json_is_integer\<close> with the values they guard.\<close>

datatype json_scalar = Is_string string | Is_integer int | Is_other

record 'j kyc_reader = "('j, unit) json_reader" +
  spec_scalar :: "'j \<Rightarrow> string \<Rightarrow> json_scalar field"
  spec_relative_time :: "'j \<Rightarrow> string \<Rightarrow> 64 word field"
  spec_array_const :: "'j \<Rightarrow> string \<Rightarrow> 'j list field"
  spec_object_const :: "'j \<Rightarrow> string \<Rightarrow> 'j field"
  json_string_value :: "'j \<Rightarrow> string option"
  json_object_items :: "'j \<Rightarrow> (string \<times> 'j) list"
  json_is_object :: "'j \<Rightarrow> bool"

datatype 'j kyc_packed =
    Put_string string
  | Put_bool bool
  | Put_time_rel "64 word"
  | Put_timestamp "64 word"
  | Put_uint64 "64 word"
  | Put_array "'j list"
  | Put_object 'j
  | Put_null

text \<open>
  \<^verbatim>\<open>json_string\<close> returns \<^verbatim>\<open>NULL\<close> for a text that is not UTF-8; the code asserts that such a text is not
  appended to an array and is not the name of a member.
\<close>

record 'j kyc_writer =
  GNUNET_JSON_PACK :: "(string \<times> 'j kyc_packed) list \<Rightarrow> 'j"
  json_array_of :: "'j list \<Rightarrow> 'j"
  json_string :: "string \<Rightarrow> 'j option"

definition append_string :: "'j kyc_writer \<Rightarrow> string \<Rightarrow> 'j outcome" where
  "append_string W s = (case json_string W s of None \<Rightarrow> Abort | Some j \<Rightarrow> Done j)"

definition put_optional_string :: "string option \<Rightarrow> 'j kyc_packed" where
  "put_optional_string s = (case s of None \<Rightarrow> Put_null | Some t \<Rightarrow> Put_string t)"

definition put_optional_object :: "'j option \<Rightarrow> 'j kyc_packed" where
  "put_optional_object x = (case x of None \<Rightarrow> Put_null | Some j \<Rightarrow> Put_object j)"

definition put_amount :: "amount \<Rightarrow> 'j kyc_packed outcome" where
  "put_amount a = (case TALER_amount_to_string a of None \<Rightarrow> Abort | Some s \<Rightarrow> Done (Put_string s))"

text \<open>\<^verbatim>\<open>json_object_get\<close> of a context that may be \<^verbatim>\<open>NULL\<close>.\<close>

definition context_get :: "('j, 'x) kyc_reader_scheme \<Rightarrow> 'j option \<Rightarrow> string \<Rightarrow> 'j option" where
  "context_get R c k = Option.bind c (\<lambda>j. json_object_get R j k)"

text \<open>The trigger names of \<^verbatim>\<open>json_pack.c\<close> and \<^verbatim>\<open>json_helper.c\<close>, which also reads numbers.\<close>

fun TALER_JSON_pack_kycte :: "kyc_trigger \<Rightarrow> string" where
  "TALER_JSON_pack_kycte TALER_KYCLOGIC_KYC_TRIGGER_NONE = ''NONE''"
| "TALER_JSON_pack_kycte TALER_KYCLOGIC_KYC_TRIGGER_WITHDRAW = ''WITHDRAW''"
| "TALER_JSON_pack_kycte TALER_KYCLOGIC_KYC_TRIGGER_DEPOSIT = ''DEPOSIT''"
| "TALER_JSON_pack_kycte TALER_KYCLOGIC_KYC_TRIGGER_P2P_RECEIVE = ''MERGE''"
| "TALER_JSON_pack_kycte TALER_KYCLOGIC_KYC_TRIGGER_WALLET_BALANCE = ''BALANCE''"
| "TALER_JSON_pack_kycte TALER_KYCLOGIC_KYC_TRIGGER_RESERVE_CLOSE = ''CLOSE''"
| "TALER_JSON_pack_kycte TALER_KYCLOGIC_KYC_TRIGGER_AGGREGATE = ''AGGREGATE''"
| "TALER_JSON_pack_kycte TALER_KYCLOGIC_KYC_TRIGGER_TRANSACTION = ''TRANSACTION''"
| "TALER_JSON_pack_kycte TALER_KYCLOGIC_KYC_TRIGGER_REFUND = ''REFUND''"

definition kycte_table :: "(string \<times> int \<times> kyc_trigger) list" where
  "kycte_table =
     [(''NONE'', 0, TALER_KYCLOGIC_KYC_TRIGGER_NONE),
      (''WITHDRAW'', 1, TALER_KYCLOGIC_KYC_TRIGGER_WITHDRAW),
      (''DEPOSIT'', 2, TALER_KYCLOGIC_KYC_TRIGGER_DEPOSIT),
      (''MERGE'', 3, TALER_KYCLOGIC_KYC_TRIGGER_P2P_RECEIVE),
      (''BALANCE'', 4, TALER_KYCLOGIC_KYC_TRIGGER_WALLET_BALANCE),
      (''CLOSE'', 5, TALER_KYCLOGIC_KYC_TRIGGER_RESERVE_CLOSE),
      (''AGGREGATE'', 6, TALER_KYCLOGIC_KYC_TRIGGER_AGGREGATE),
      (''TRANSACTION'', 7, TALER_KYCLOGIC_KYC_TRIGGER_TRANSACTION),
      (''REFUND'', 8, TALER_KYCLOGIC_KYC_TRIGGER_REFUND)]"

fun parse_kycte :: "json_scalar \<Rightarrow> kyc_trigger option" where
  "parse_kycte (Is_string s) = map_option (snd \<circ> snd) (List.find (\<lambda>(n, _). strcaseeq s n) kycte_table)"
| "parse_kycte (Is_integer i) = map_option (snd \<circ> snd) (List.find (\<lambda>(_, v, _). i = v) kycte_table)"
| "parse_kycte Is_other = None"

definition spec_kycte :: "('j, 'x) kyc_reader_scheme \<Rightarrow> 'j \<Rightarrow> string \<Rightarrow> kyc_trigger field" where
  "spec_kycte R j name =
     (case spec_scalar R j name of
        Missing \<Rightarrow> Missing
      | Malformed \<Rightarrow> Malformed
      | Present v \<Rightarrow> (case parse_kycte v of None \<Rightarrow> Malformed | Some t \<Rightarrow> Present t))"

definition spec_amount :: "('j, 'x) kyc_reader_scheme \<Rightarrow> string \<Rightarrow> 'j \<Rightarrow> string \<Rightarrow> amount field" where
  "spec_amount R cur j name =
     parsed (\<lambda>s. parse_amount (Some cur) s invalidate) (spec_string R j name)"

definition TALER_KYCLOGIC_kyc_trigger_from_string :: "string \<Rightarrow> kyc_trigger option" where
  "TALER_KYCLOGIC_kyc_trigger_from_string s =
     map_option snd
       (List.find (\<lambda>(n, _). strcaseeq n s)
          [(''WITHDRAW'', TALER_KYCLOGIC_KYC_TRIGGER_WITHDRAW),
           (''DEPOSIT'', TALER_KYCLOGIC_KYC_TRIGGER_DEPOSIT),
           (''MERGE'', TALER_KYCLOGIC_KYC_TRIGGER_P2P_RECEIVE),
           (''BALANCE'', TALER_KYCLOGIC_KYC_TRIGGER_WALLET_BALANCE),
           (''CLOSE'', TALER_KYCLOGIC_KYC_TRIGGER_RESERVE_CLOSE),
           (''AGGREGATE'', TALER_KYCLOGIC_KYC_TRIGGER_AGGREGATE),
           (''TRANSACTION'', TALER_KYCLOGIC_KYC_TRIGGER_TRANSACTION),
           (''REFUND'', TALER_KYCLOGIC_KYC_TRIGGER_REFUND)])"

section \<open>Lookups\<close>

definition find_check :: "'j kyc_globals \<Rightarrow> string \<Rightarrow> 'j kyc_check option" where
  "find_check g name = List.find (\<lambda>c. strcaseeq name (ck_check_name c)) (kyc_checks g)"

definition find_program :: "'j kyc_globals \<Rightarrow> string \<Rightarrow> aml_program option" where
  "find_program g name = List.find (\<lambda>p. strcaseeq name (ap_program_name p)) (aml_programs g)"

definition find_provider :: "'j kyc_globals \<Rightarrow> string \<Rightarrow> kyc_provider option" where
  "find_provider g name = List.find (\<lambda>p. strcaseeq name (kp_provider_name p)) (kyc_providers g)"

definition find_named :: "string \<Rightarrow> 'j kyc_measure list \<Rightarrow> 'j kyc_measure option" where
  "find_named name ms = List.find (\<lambda>m. strcaseeq name (m_measure_name m)) ms"

text \<open>The measures of the rule set first; the default measures unless they were searched already.\<close>

fun find_measure :: "'j kyc_globals \<Rightarrow> 'j rules_ref \<Rightarrow> string \<Rightarrow> 'j kyc_measure option" where
  "find_measure g Null_rules name = find_named name (ls_custom_measures (default_rules g))"
| "find_measure g Default_rules name = find_named name (ls_custom_measures (default_rules g))"
| "find_measure g (Custom_rules l) name =
     (case find_named name (ls_custom_measures l) of
        Some m \<Rightarrow> Some m
      | None \<Rightarrow> find_named name (ls_custom_measures (default_rules g)))"

definition TALER_KYCLOGIC_get_measure :: "'j kyc_globals \<Rightarrow> 'j rules_ref \<Rightarrow> string \<Rightarrow> 'j kyc_measure option" where
  "TALER_KYCLOGIC_get_measure g l name = find_measure g l name"

text \<open>The rule set that a pointer stands for; \<^verbatim>\<open>NULL\<close> is replaced by the default rules.\<close>

fun rules_of :: "'j kyc_globals \<Rightarrow> 'j rules_ref \<Rightarrow> 'j rule_set" where
  "rules_of g (Custom_rules l) = l"
| "rules_of g _ = default_rules g"

text \<open>\<^verbatim>\<open>GNUNET_TIME_UNIT_FOREVER_TS\<close> is the largest time.\<close>

fun TALER_KYCLOGIC_rules_get_expiration :: "'j kyc_globals \<Rightarrow> 'j rules_ref \<Rightarrow> 64 word" where
  "TALER_KYCLOGIC_rules_get_expiration g Null_rules = - 1"
| "TALER_KYCLOGIC_rules_get_expiration g l = ls_expiration_time (rules_of g l)"

text \<open>The successor of a rule set; here \<^verbatim>\<open>NULL\<close> is dereferenced.\<close>

definition TALER_KYCLOGIC_rules_get_successor ::
  "'j kyc_globals \<Rightarrow> 'j rules_ref \<Rightarrow> 'j kyc_measure option outcome" where
  "TALER_KYCLOGIC_rules_get_successor g l =
     gassert (l \<noteq> Null_rules)
       (Done (case ls_successor_measure (rules_of g l) of
                None \<Rightarrow> None
              | Some name \<Rightarrow> TALER_KYCLOGIC_get_measure g l name))"

definition check_measure :: "('j, 'x) kyc_reader_scheme \<Rightarrow> 'j kyc_globals \<Rightarrow> 'j kyc_measure \<Rightarrow> bool" where
  "check_measure R g m =
     (case find_program g (m_prog_name m) of
        None \<Rightarrow> False
      | Some p \<Rightarrow>
          if list_ex (\<lambda>c. context_get R (m_context m) c = None) (ap_required_contexts p) then False
          else if strcaseeq (m_check_name m) ''SKIP'' then ap_required_attributes p = []
          else case find_check g (m_check_name m) of
                 None \<Rightarrow> False
               | Some c \<Rightarrow>
                   list_all (\<lambda>a. list_ex (\<lambda>out. strcaseeq a out) (ck_outputs c)) (ap_required_attributes p)
                   \<and> list_all (\<lambda>i. context_get R (m_context m) i \<noteq> None) (ck_requires c))"

section \<open>Parsing a rule set\<close>

definition is_impossible :: "string \<Rightarrow> bool" where
  "is_impossible s \<longleftrightarrow> strcaseeq s KYC_MEASURE_IMPOSSIBLE"

fun parse_measure_names :: "('j, 'x) kyc_reader_scheme \<Rightarrow> 'j list \<Rightarrow> (string list \<times> bool) option" where
  "parse_measure_names R [] = Some ([], False)"
| "parse_measure_names R (j # js) =
     (case json_string_value R j of
        None \<Rightarrow> None
      | Some s \<Rightarrow>
          (case parse_measure_names R js of
             None \<Rightarrow> None
           | Some (ss, v) \<Rightarrow> Some (s # ss, is_impossible s \<or> v)))"

definition parse_rule :: "('j, 'x) kyc_reader_scheme \<Rightarrow> string \<Rightarrow> 'j \<Rightarrow> kyc_rule option" where
  "parse_rule R cur jrule =
     need (spec_kycte R jrule ''operation_type'') (\<lambda>trig.
     need (spec_amount R cur jrule ''threshold'') (\<lambda>th.
     need (spec_relative_time R jrule ''timeframe'') (\<lambda>tf.
     need (spec_array_const R jrule ''measures'') (\<lambda>jmeasures.
     need (spec_uint32 R jrule ''display_priority'') (\<lambda>dp.
     may (spec_bool R jrule ''exposed'') (\<lambda>ex.
     may (spec_bool R jrule ''is_and_combinator'') (\<lambda>ia.
       if 2 ^ 32 \<le> length jmeasures then None
       else case parse_measure_names R jmeasures of
              None \<Rightarrow> None
            | Some (names, verboten) \<Rightarrow>
                Some \<lparr>r_rule_name = None, r_timeframe = tf, r_threshold = th, r_next_measures = names,
                      r_display_priority = dp, r_trigger = trig, r_is_and_combinator = (ia = Some True),
                      r_exposed = (ex = Some True), r_verboten = verboten\<rparr>)))))))"

definition parse_custom_measure ::
  "('j, 'x) kyc_reader_scheme \<Rightarrow> 'j kyc_globals \<Rightarrow> string \<times> 'j \<Rightarrow> 'j kyc_measure option" where
  "parse_custom_measure R g nj =
     (case nj of (name, j) \<Rightarrow>
        need (spec_string R j ''check_name'') (\<lambda>check.
        need (spec_string R j ''prog_name'') (\<lambda>prog.
        may (spec_object_const R j ''context'') (\<lambda>ctx.
        may (spec_bool R j ''voluntary'') (\<lambda>vol.
          let m = \<lparr>m_measure_name = name, m_check_name = check, m_prog_name = prog, m_context = ctx,
                   m_voluntary = (vol = Some True)\<rparr>
          in if check_measure R g m then Some m else None)))))"

fun map_all :: "('a \<Rightarrow> 'b option) \<Rightarrow> 'a list \<Rightarrow> 'b list option" where
  "map_all f [] = Some []"
| "map_all f (x # xs) =
     (case f x of None \<Rightarrow> None | Some y \<Rightarrow> (case map_all f xs of None \<Rightarrow> None | Some ys \<Rightarrow> Some (y # ys)))"

definition TALER_KYCLOGIC_rules_parse ::
  "('j, 'x) kyc_reader_scheme \<Rightarrow> 'j kyc_globals \<Rightarrow> 'j option \<Rightarrow> 'j rule_set option" where
  "TALER_KYCLOGIC_rules_parse R g jlrs =
     (case jlrs of
        None \<Rightarrow> None
      | Some j \<Rightarrow>
          need (spec_timestamp R j ''expiration_time'') (\<lambda>expiration.
          may (spec_string R j ''successor_measure'') (\<lambda>successor.
          need (spec_array_const R j ''rules'') (\<lambda>jrules.
          need (spec_object_const R j ''custom_measures'') (\<lambda>jcustom.
            if 2 ^ 32 \<le> length jrules then None
            else if 2 ^ 32 \<le> length (json_object_items R jcustom) then None
            else case map_all (parse_rule R (my_currency g)) jrules of
                   None \<Rightarrow> None
                 | Some rules \<Rightarrow>
                     (case map_all (parse_custom_measure R g) (json_object_items R jcustom) of
                        None \<Rightarrow> None
                      | Some custom \<Rightarrow>
                          Some \<lparr>ls_expiration_time = expiration, ls_successor_measure = successor,
                                ls_jlrs = Some j, ls_kyc_rules = rules,
                                ls_custom_measures = custom\<rparr>))))))"

section \<open>Measures of a rule\<close>

text \<open>\<^verbatim>\<open>strtok\<close>: the maximal runs of characters that are not separators.\<close>

fun tokens_from :: "string \<Rightarrow> string \<Rightarrow> string \<Rightarrow> string list" where
  "tokens_from sep acc [] = (if acc = [] then [] else [rev acc])"
| "tokens_from sep acc (c # cs) =
     (if c \<in> set sep then (if acc = [] then tokens_from sep [] cs else rev acc # tokens_from sep [] cs)
      else tokens_from sep (c # acc) cs)"

definition strtok :: "string \<Rightarrow> string \<Rightarrow> string list" where
  "strtok s sep = tokens_from sep [] s"

definition skips_check :: "'j kyc_measure \<Rightarrow> bool" where
  "skips_check m \<longleftrightarrow> strcaseeq (m_check_name m) ''SKIP''"

fun instant_of :: "'j kyc_globals \<Rightarrow> 'j rules_ref \<Rightarrow> string list \<Rightarrow> 'j kyc_measure option" where
  "instant_of g l [] = None"
| "instant_of g l (name # names) =
     (if is_impossible name then None
      else case find_measure g l name of
             None \<Rightarrow> None
           | Some m \<Rightarrow> if skips_check m then Some m else instant_of g l names)"

definition TALER_KYCLOGIC_rule_get_instant_measure ::
  "'j kyc_globals \<Rightarrow> 'j rules_ref \<Rightarrow> kyc_rule \<Rightarrow> 'j kyc_measure option" where
  "TALER_KYCLOGIC_rule_get_instant_measure g l r =
     (if r_verboten r then None else instant_of g l (r_next_measures r))"

definition measure_info :: "'j kyc_writer \<Rightarrow> string \<Rightarrow> string \<Rightarrow> 'j option \<Rightarrow> 'j" where
  "measure_info W check prog ctx =
     GNUNET_JSON_PACK W
       [(''check_name'', Put_string check), (''prog_name'', Put_string prog),
        (''context'', put_optional_object ctx)]"

definition measures_object :: "'j kyc_writer \<Rightarrow> 'j list \<Rightarrow> bool \<Rightarrow> bool \<Rightarrow> 'j" where
  "measures_object W ms is_and verboten =
     GNUNET_JSON_PACK W
       [(''measures'', Put_array ms), (''is_and_combinator'', Put_bool is_and), (''verboten'', Put_bool verboten)]"

definition named_info :: "'j kyc_writer \<Rightarrow> 'j kyc_globals \<Rightarrow> 'j rules_ref \<Rightarrow> string \<Rightarrow> 'j option" where
  "named_info W g l name =
     map_option (\<lambda>m. measure_info W (m_check_name m) (m_prog_name m) (m_context m)) (find_measure g l name)"

definition TALER_KYCLOGIC_rule_to_measures ::
  "'j kyc_writer \<Rightarrow> 'j kyc_globals \<Rightarrow> 'j rules_ref \<Rightarrow> kyc_rule \<Rightarrow> 'j option" where
  "TALER_KYCLOGIC_rule_to_measures W g l r =
     (case (if r_verboten r then Some [] else map_all (named_info W g l) (r_next_measures r)) of
        None \<Rightarrow> None
      | Some ms \<Rightarrow> Some (measures_object W ms (r_is_and_combinator r) (r_verboten r)))"

definition zero_info ::
  "'j kyc_writer \<Rightarrow> 'j kyc_globals \<Rightarrow> 'j rules_ref \<Rightarrow> kyc_rule \<Rightarrow> string \<Rightarrow> 'j list option" where
  "zero_info W g l r name =
     (case find_measure g l name of
        None \<Rightarrow> None
      | Some m \<Rightarrow>
          if is_impossible (m_check_name m) then Some []
          else Some [GNUNET_JSON_PACK W
                       [(''rule_name'', put_optional_string (r_rule_name r)),
                        (''operation_type'', Put_string (TALER_JSON_pack_kycte (r_trigger r))),
                        (''check_name'', Put_string (m_check_name m)),
                        (''prog_name'', Put_string (m_prog_name m)),
                        (''context'', put_optional_object (m_context m))]])"

definition zero_rule :: "kyc_rule \<Rightarrow> bool" where
  "zero_rule r \<longleftrightarrow> r_exposed r \<and> \<not> r_verboten r \<and> TALER_amount_is_zero (r_threshold r)"

definition TALER_KYCLOGIC_zero_measures ::
  "'j kyc_writer \<Rightarrow> 'j kyc_globals \<Rightarrow> 'j rules_ref \<Rightarrow> 'j option" where
  "TALER_KYCLOGIC_zero_measures W g l =
     (let l' = (if l = Null_rules then Default_rules else l) in
      case map_all (\<lambda>r. map_option concat (map_all (zero_info W g l' r) (r_next_measures r)))
             (filter zero_rule (ls_kyc_rules (rules_of g l'))) of
        None \<Rightarrow> None
      | Some mss \<Rightarrow> Some (measures_object W (concat mss) False False))"

text \<open>Appending a voluntary measure is switched off in the source; the array stays empty.\<close>

definition append_voluntary_measure :: "'j list \<Rightarrow> 'j kyc_measure \<Rightarrow> 'j list" where
  "append_voluntary_measure js m =
     (if \<not> m_voluntary m then js else if is_impossible (m_check_name m) then js else js)"

definition TALER_KYCLOGIC_voluntary_measures :: "'j kyc_globals \<Rightarrow> 'j rules_ref \<Rightarrow> 'j list" where
  "TALER_KYCLOGIC_voluntary_measures g l =
     foldl append_voluntary_measure
       (case l of
          Null_rules \<Rightarrow> []
        | _ \<Rightarrow> foldl append_voluntary_measure [] (ls_custom_measures (rules_of g l)))
       (ls_custom_measures (default_rules g))"

text \<open>A list of measures as a string: separated by blanks, with a leading plus for a conjunction.\<close>

definition spec_names :: "string \<Rightarrow> bool \<times> string list" where
  "spec_names s =
     (case s of
        [] \<Rightarrow> (False, [])
      | c # cs \<Rightarrow> if c = CHR ''+'' then (True, strtok cs '' '') else (False, strtok s '' ''))"

fun instant_token :: "'j kyc_globals \<Rightarrow> 'j rules_ref \<Rightarrow> string list \<Rightarrow> 'j kyc_measure option" where
  "instant_token g l [] = None"
| "instant_token g l (tok # toks) =
     (if is_impossible tok then instant_token g l toks
      else case find_measure g l tok of
             None \<Rightarrow> instant_token g l toks
           | Some m \<Rightarrow>
               if is_impossible (m_check_name m) then instant_token g l toks
               else if skips_check m then Some m
               else instant_token g l toks)"

definition TALER_KYCLOGIC_get_instant_measure ::
  "'j kyc_globals \<Rightarrow> 'j rules_ref \<Rightarrow> string \<Rightarrow> 'j kyc_measure option" where
  "TALER_KYCLOGIC_get_instant_measure g l s = instant_token g l (snd (spec_names s))"

definition TALER_KYCLOGIC_get_jmeasures ::
  "'j kyc_writer \<Rightarrow> 'j kyc_globals \<Rightarrow> 'j rules_ref \<Rightarrow> string \<Rightarrow> 'j option" where
  "TALER_KYCLOGIC_get_jmeasures W g l s =
     (case spec_names s of (is_and, names) \<Rightarrow>
        case map_all (named_info W g l) (filter (\<lambda>n. \<not> is_impossible n) names) of
          None \<Rightarrow> None
        | Some ms \<Rightarrow> Some (measures_object W ms is_and (list_ex is_impossible names)))"

record 'j check_context =
  kcc_check :: "'j kyc_check option"
  kcc_prog_name :: string
  kcc_context :: "'j option"

definition TALER_KYCLOGIC_check_to_jmeasures :: "'j kyc_writer \<Rightarrow> 'j check_context \<Rightarrow> 'j" where
  "TALER_KYCLOGIC_check_to_jmeasures W kcc =
     measures_object W
       [measure_info W (case kcc_check kcc of None \<Rightarrow> ''SKIP'' | Some c \<Rightarrow> ck_check_name c)
          (kcc_prog_name kcc) (kcc_context kcc)] True False"

definition TALER_KYCLOGIC_measure_to_jmeasures :: "'j kyc_writer \<Rightarrow> 'j kyc_measure \<Rightarrow> 'j" where
  "TALER_KYCLOGIC_measure_to_jmeasures W m =
     measures_object W [measure_info W (m_check_name m) (m_prog_name m) (m_context m)] False False"

text \<open>The check of a measure.\<close>

definition measure_check :: "'j kyc_globals \<Rightarrow> 'j kyc_measure \<Rightarrow> 'j check_context option" where
  "measure_check g m =
     (if skips_check m
      then Some \<lparr>kcc_check = None, kcc_prog_name = m_prog_name m, kcc_context = m_context m\<rparr>
      else case List.find (\<lambda>c. strcaseeq (m_check_name m) (ck_check_name c)) (kyc_checks g) of
             None \<Rightarrow> None
           | Some c \<Rightarrow> Some \<lparr>kcc_check = Some c, kcc_prog_name = m_prog_name m, kcc_context = m_context m\<rparr>)"

definition TALER_KYCLOGIC_get_original_measure :: "'j kyc_globals \<Rightarrow> string \<Rightarrow> 'j check_context option" where
  "TALER_KYCLOGIC_get_original_measure g name =
     (case find_measure g Default_rules name of None \<Rightarrow> None | Some m \<Rightarrow> measure_check g m)"

definition TALER_KYCLOGIC_requirements_to_check ::
  "'j kyc_globals \<Rightarrow> 'j rules_ref \<Rightarrow> kyc_rule option \<Rightarrow> string option \<Rightarrow> 'j check_context option" where
  "TALER_KYCLOGIC_requirements_to_check g l rule name =
     (let l' = (if l = Null_rules then Default_rules else l) in
      case name of
        None \<Rightarrow> None
      | Some n \<Rightarrow>
          if (case rule of
                None \<Rightarrow> True
              | Some r \<Rightarrow> list_ex (strcaseeq n) (r_next_measures r) \<and> \<not> r_verboten r)
          then (case find_measure g l' n of None \<Rightarrow> None | Some m \<Rightarrow> measure_check g m)
          else None)"

section \<open>Selecting a measure\<close>

datatype kyc_error =
    TALER_EC_EXCHANGE_KYC_MEASURES_MALFORMED
  | TALER_EC_EXCHANGE_KYC_MEASURE_INDEX_INVALID
  | TALER_EC_EXCHANGE_KYC_GENERIC_CHECK_GONE
  | TALER_EC_EXCHANGE_KYC_NOT_A_FORM
  | TALER_EC_EXCHANGE_KYC_GENERIC_AML_PROGRAM_GONE
  | TALER_EC_EXCHANGE_KYC_AML_FORM_INCOMPLETE

definition parse_measure_info :: "('j, 'x) kyc_reader_scheme \<Rightarrow> 'j \<Rightarrow> (string \<times> string \<times> 'j option) option" where
  "parse_measure_info R j =
     need (spec_string R j ''check_name'') (\<lambda>check.
     need (spec_string R j ''prog_name'') (\<lambda>prog.
     may (spec_object_const R j ''context'') (\<lambda>ctx. Some (check, prog, ctx))))"

definition TALER_KYCLOGIC_select_measure ::
  "('j, 'x) kyc_reader_scheme \<Rightarrow> 'j \<Rightarrow> nat \<Rightarrow> kyc_error + string \<times> string \<times> 'j option" where
  "TALER_KYCLOGIC_select_measure R jmeasures i =
     (case spec_array_const R jmeasures ''measures'' of
        Present arr \<Rightarrow>
          if length arr \<le> i then Inl TALER_EC_EXCHANGE_KYC_MEASURE_INDEX_INVALID
          else (case parse_measure_info R (arr ! i) of
                  None \<Rightarrow> Inl TALER_EC_EXCHANGE_KYC_MEASURES_MALFORMED
                | Some x \<Rightarrow> Inr x)
      | _ \<Rightarrow> Inl TALER_EC_EXCHANGE_KYC_MEASURES_MALFORMED)"

text \<open>The form check: an error with the name it is about, or none.\<close>

definition TALER_KYCLOGIC_check_form ::
  "('j, 'x) kyc_reader_scheme \<Rightarrow> 'j kyc_globals \<Rightarrow> 'j \<Rightarrow> nat \<Rightarrow> 'j \<Rightarrow> (kyc_error \<times> string option) option" where
  "TALER_KYCLOGIC_check_form R g jmeasures i form_data =
     (case TALER_KYCLOGIC_select_measure R jmeasures i of
        Inl _ \<Rightarrow> Some (TALER_EC_EXCHANGE_KYC_MEASURE_INDEX_INVALID, None)
      | Inr (check, prog, ctx) \<Rightarrow>
          (case find_check g check of
             None \<Rightarrow> Some (TALER_EC_EXCHANGE_KYC_GENERIC_CHECK_GONE, Some check)
           | Some c \<Rightarrow>
               if (case ck_type c of TALER_KYCLOGIC_CT_FORM _ \<Rightarrow> False | _ \<Rightarrow> True)
               then Some (TALER_EC_EXCHANGE_KYC_NOT_A_FORM, None)
               else case find_program g prog of
                      None \<Rightarrow> Some (TALER_EC_EXCHANGE_KYC_GENERIC_AML_PROGRAM_GONE, Some prog)
                    | Some p \<Rightarrow>
                        map_option (\<lambda>a. (TALER_EC_EXCHANGE_KYC_AML_FORM_INCOMPLETE, Some a))
                          (List.find (\<lambda>a. json_object_get R form_data a = None) (ap_required_attributes p))))"

definition TALER_KYCLOGIC_get_aml_program_fallback :: "'j kyc_globals \<Rightarrow> string \<Rightarrow> string option" where
  "TALER_KYCLOGIC_get_aml_program_fallback g prog = map_option ap_fallback (find_program g prog)"

text \<open>The provider of a check; an unknown check is a NULL pointer that is dereferenced.\<close>

definition TALER_KYCLOGIC_check_to_provider ::
  "'j kyc_globals \<Rightarrow> string option \<Rightarrow> kyc_provider option outcome" where
  "TALER_KYCLOGIC_check_to_provider g check =
     (case check of
        None \<Rightarrow> Done None
      | Some name \<Rightarrow>
          if strcaseeq name ''SKIP'' then Done None
          else case find_check g name of
                 None \<Rightarrow> Abort
               | Some c \<Rightarrow>
                   (case ck_type c of TALER_KYCLOGIC_CT_LINK p \<Rightarrow> Done (Some p) | _ \<Rightarrow> Done None))"

definition TALER_KYCLOGIC_lookup_logic ::
  "'j kyc_globals \<Rightarrow> string \<Rightarrow> (kyc_plugin \<times> handle option \<times> string option) option" where
  "TALER_KYCLOGIC_lookup_logic g name =
     (case find_provider g name of
        Some p \<Rightarrow> Some (kp_logic p, Some (kp_pd p), Some (kp_provider_name p))
      | None \<Rightarrow>
          map_option (\<lambda>lp. (lp, None, None))
            (List.find (\<lambda>lp. strcaseeq (lp_name lp) name) (kyc_logics g)))"

section \<open>What a check asks of the customer\<close>

definition TALER_kyc_measure_authorization_hash ::
  "(octets \<Rightarrow> octets \<Rightarrow> octets \<Rightarrow> octets) \<Rightarrow> (64 word \<Rightarrow> octets) \<Rightarrow> (32 word \<Rightarrow> octets)
     \<Rightarrow> octets \<Rightarrow> 64 word \<Rightarrow> 32 word \<Rightarrow> octets" where
  "TALER_kyc_measure_authorization_hash kdf be64 be32 token row offset = kdf (be64 row) token (be32 offset)"

definition requirement_id ::
  "(octets \<Rightarrow> 64 word \<Rightarrow> 32 word \<Rightarrow> octets) \<Rightarrow> (octets \<Rightarrow> string) \<Rightarrow> octets \<Rightarrow> nat \<Rightarrow> 64 word \<Rightarrow> string" where
  "requirement_id mah encode token offset row =
     encode (mah token row (of_nat offset)) @ ''-'' @ decimal offset @ ''-'' @ decimal (unat row)"

definition TALER_KYCLOGIC_measure_to_requirement ::
  "'j kyc_writer \<Rightarrow> 'j kyc_globals \<Rightarrow> (octets \<Rightarrow> 64 word \<Rightarrow> 32 word \<Rightarrow> octets) \<Rightarrow> (octets \<Rightarrow> string)
     \<Rightarrow> string \<Rightarrow> string \<Rightarrow> 'j option \<Rightarrow> octets \<Rightarrow> nat \<Rightarrow> 64 word \<Rightarrow> 'j option outcome" where
  "TALER_KYCLOGIC_measure_to_requirement W g mah encode check prog ctx token offset row =
     (case find_check g check of
        None \<Rightarrow> Done None
      | Some c \<Rightarrow>
          gassert (offset < 2 ^ 32)
            (Done (Some (GNUNET_JSON_PACK W
               (case ck_type c of
                  TALER_KYCLOGIC_CT_INFO \<Rightarrow>
                    [(''form'', Put_string ''INFO''), (''description'', Put_string (ck_description c)),
                     (''description_i18n'', put_optional_object (ck_description_i18n c))]
                | TALER_KYCLOGIC_CT_FORM form \<Rightarrow>
                    [(''form'', Put_string form),
                     (''id'', Put_string (requirement_id mah encode token offset row)),
                     (''context'', put_optional_object ctx),
                     (''description'', Put_string (ck_description c)),
                     (''description_i18n'', put_optional_object (ck_description_i18n c))]
                | TALER_KYCLOGIC_CT_LINK _ \<Rightarrow>
                    [(''form'', Put_string ''LINK''),
                     (''id'', Put_string (requirement_id mah encode token offset row)),
                     (''description'', Put_string (ck_description c)),
                     (''description_i18n'', put_optional_object (ck_description_i18n c))])))))"

section \<open>Limits\<close>

fun omap :: "('a \<Rightarrow> 'b outcome) \<Rightarrow> 'a list \<Rightarrow> 'b list outcome" where
  "omap f [] = Done []"
| "omap f (x # xs) = obind (f x) (\<lambda>y. obind (omap f xs) (\<lambda>ys. Done (y # ys)))"

definition TALER_KYCLOGIC_get_wallet_thresholds :: "'j kyc_writer \<Rightarrow> 'j kyc_globals \<Rightarrow> 'j list outcome" where
  "TALER_KYCLOGIC_get_wallet_thresholds W g =
     omap (\<lambda>r. case TALER_amount_to_string (r_threshold r) of
                 None \<Rightarrow> Abort
               | Some s \<Rightarrow> append_string W s)
       (filter (\<lambda>r. r_trigger r = TALER_KYCLOGIC_KYC_TRIGGER_WALLET_BALANCE) (ls_kyc_rules (default_rules g)))"

definition TALER_KYCLOGIC_get_hard_limits :: "'j kyc_writer \<Rightarrow> 'j kyc_globals \<Rightarrow> 'j list outcome" where
  "TALER_KYCLOGIC_get_hard_limits W g =
     omap (\<lambda>r. obind (put_amount (r_threshold r)) (\<lambda>a.
                 Done (GNUNET_JSON_PACK W
                   [(''rule_name'', put_optional_string (r_rule_name r)),
                    (''operation_type'', Put_string (TALER_JSON_pack_kycte (r_trigger r))),
                    (''timeframe'', Put_time_rel (r_timeframe r)), (''threshold'', a)])))
       (filter (\<lambda>r. r_verboten r \<and> r_exposed r) (ls_kyc_rules (default_rules g)))"

definition TALER_KYCLOGIC_get_zero_limits :: "'j kyc_writer \<Rightarrow> 'j kyc_globals \<Rightarrow> 'j list" where
  "TALER_KYCLOGIC_get_zero_limits W g =
     map (\<lambda>r. GNUNET_JSON_PACK W
                [(''rule_name'', put_optional_string (r_rule_name r)),
                 (''operation_type'', Put_string (TALER_JSON_pack_kycte (r_trigger r)))])
       (filter zero_rule (ls_kyc_rules (default_rules g)))"

definition limit_json ::
  "'j kyc_writer \<Rightarrow> string option \<Rightarrow> kyc_trigger \<Rightarrow> 64 word \<Rightarrow> amount \<Rightarrow> bool \<Rightarrow> 'j outcome" where
  "limit_json W name trig timeframe threshold soft =
     obind (put_amount threshold) (\<lambda>a.
       Done (GNUNET_JSON_PACK W
         [(''rule_name'', put_optional_string name),
          (''operation_type'', Put_string (TALER_JSON_pack_kycte trig)),
          (''timeframe'', Put_time_rel timeframe), (''threshold'', a), (''soft_limit'', Put_bool soft)]))"

text \<open>
  The loop over a rule set that is given. Each round parses the value that holds the rules, not
  the rule of the round. A name that is absent leaves an uninitialised pointer, whose use is \<open>Abort\<close>.
\<close>

definition parse_limit ::
  "('j, 'x) kyc_reader_scheme \<Rightarrow> string \<Rightarrow> 'j
     \<Rightarrow> (kyc_trigger \<times> 64 word \<times> amount \<times> 'j list \<times> bool \<times> string option) option" where
  "parse_limit R cur j =
     need (spec_kycte R j ''operation_type'') (\<lambda>trig.
     need (spec_relative_time R j ''timeframe'') (\<lambda>tf.
     need (spec_amount R cur j ''threshold'') (\<lambda>th.
     need (spec_array_const R j ''measures'') (\<lambda>jmeasures.
     may (spec_bool R j ''exposed'') (\<lambda>ex.
     may (spec_string R j ''rule_name'') (\<lambda>name.
       Some (trig, tf, th, jmeasures, ex = Some True, name)))))))"

fun custom_limits ::
  "('j, 'x) kyc_reader_scheme \<Rightarrow> 'j kyc_writer \<Rightarrow> string \<Rightarrow> 'j \<Rightarrow> 'j list \<Rightarrow> 'j list \<Rightarrow> 'j list option outcome" where
  "custom_limits R W cur jrules acc [] = Done (Some acc)"
| "custom_limits R W cur jrules acc (rule # rest) =
     (case parse_limit R cur jrules of
        None \<Rightarrow> Done None
      | Some (trig, tf, th, jmeasures, exposed, name) \<Rightarrow>
          if \<not> exposed then custom_limits R W cur jrules acc rest
          else case parse_measure_names R jmeasures of
                 None \<Rightarrow> Done None
               | Some (_, forbidden) \<Rightarrow>
                   gassert (name \<noteq> None)
                     (obind (limit_json W name trig tf th (\<not> forbidden))
                        (\<lambda>l. custom_limits R W cur jrules (acc @ [l]) rest)))"

definition TALER_KYCLOGIC_rules_to_limits ::
  "('j, 'x) kyc_reader_scheme \<Rightarrow> 'j kyc_writer \<Rightarrow> 'j kyc_globals \<Rightarrow> 'j option \<Rightarrow> 'j list option outcome" where
  "TALER_KYCLOGIC_rules_to_limits R W g jrules =
     (case jrules of
        None \<Rightarrow>
          obind (omap (\<lambda>r. limit_json W (r_rule_name r) (r_trigger r) (r_timeframe r) (r_threshold r) (\<not> r_verboten r))
                   (filter r_exposed (ls_kyc_rules (default_rules g))))
            (\<lambda>ls. Done (Some ls))
      | Some j \<Rightarrow> custom_limits R W (my_currency g) j [] (json_array R j))"

section \<open>The configuration for AML officers\<close>

text \<open>\<^verbatim>\<open>json_object_set_new\<close>: a name that is present gets the new value in its place.\<close>

fun json_object_set :: "'v \<Rightarrow> string \<Rightarrow> (string \<times> 'v) list \<Rightarrow> (string \<times> 'v) list" where
  "json_object_set v n [] = [(n, v)]"
| "json_object_set v n ((m, w) # kvs) = (if m = n then (m, v) # kvs else (m, w) # json_object_set v n kvs)"

definition json_objects :: "'j kyc_writer \<Rightarrow> (string \<times> 'j) list \<Rightarrow> 'j outcome" where
  "json_objects W kvs =
     gassert (list_all (\<lambda>(n, v). json_string W n \<noteq> None) kvs)
       (Done (GNUNET_JSON_PACK W
         (map (map_prod id Put_object) (foldl (\<lambda>acc (n, v). json_object_set v n acc) [] kvs))))"

definition program_json :: "'j kyc_writer \<Rightarrow> aml_program \<Rightarrow> (string \<times> 'j) outcome" where
  "program_json W p =
     obind (omap (append_string W) (ap_required_contexts p)) (\<lambda>ctx.
     obind (omap (append_string W) (ap_required_attributes p)) (\<lambda>inp.
       Done (ap_program_name p,
         GNUNET_JSON_PACK W
           [(''description'', Put_string (ap_description p)), (''context'', Put_array ctx),
            (''inputs'', Put_array inp)])))"

definition check_json :: "'j kyc_writer \<Rightarrow> 'j kyc_check \<Rightarrow> (string \<times> 'j) outcome" where
  "check_json W c =
     obind (omap (append_string W) (ck_requires c)) (\<lambda>reqs.
     obind (omap (append_string W) (ck_outputs c)) (\<lambda>outs.
       Done (ck_check_name c,
         GNUNET_JSON_PACK W
           [(''description'', Put_string (ck_description c)),
            (''description_i18n'', put_optional_object (ck_description_i18n c)),
            (''requires'', Put_array reqs), (''outputs'', Put_array outs),
            (''fallback'', Put_string (ck_fallback c))])))"

definition TALER_KYCLOGIC_get_measure_configuration :: "'j kyc_writer \<Rightarrow> 'j kyc_globals \<Rightarrow> ('j \<times> 'j \<times> 'j) outcome" where
  "TALER_KYCLOGIC_get_measure_configuration W g =
     obind (json_objects W
        (map (\<lambda>m. (m_measure_name m, measure_info W (m_check_name m) (m_prog_name m) (m_context m)))
           (ls_custom_measures (default_rules g)))) (\<lambda>roots.
     obind (obind (omap (program_json W) (aml_programs g)) (json_objects W)) (\<lambda>programs.
     obind (obind (omap (check_json W) (kyc_checks g)) (json_objects W)) (\<lambda>checks.
       Done (roots, programs, checks))))"

section \<open>Testing whether a rule is triggered\<close>

text \<open>
  The amounts come from an iterator that is given the range of time of interest and calls
  \<^verbatim>\<open>check_amount\<close> for each. An element of its list is the amount and how long ago it was when the
  call looked at the clock.
\<close>

record test_context =
  t_sum :: amount
  t_triggered_rule :: "kyc_rule option"

fun check_rule :: "kyc_trigger \<Rightarrow> amount \<Rightarrow> 64 word \<Rightarrow> kyc_rule option \<Rightarrow> kyc_rule \<Rightarrow> kyc_rule option outcome" where
  "check_rule event tot dur best rule =
     (if event \<noteq> r_trigger rule then Done best
      else if dur > r_timeframe rule then Done best
      else obind (TALER_amount_cmp tot (r_threshold rule)) (\<lambda>c.
             if c = -1 then Done best
             else case best of
                    None \<Rightarrow> Done (Some rule)
                  | Some b \<Rightarrow>
                      obind (TALER_amount_cmp (r_threshold b) (r_threshold rule)) (\<lambda>d.
                        Done (if d = 1 then best else Some rule))))"

fun check_rules :: "kyc_trigger \<Rightarrow> amount \<Rightarrow> 64 word \<Rightarrow> kyc_rule option \<Rightarrow> kyc_rule list \<Rightarrow> kyc_rule option outcome" where
  "check_rules event tot dur best [] = Done best"
| "check_rules event tot dur best (r # rs) =
     obind (check_rule event tot dur best r) (\<lambda>best'. check_rules event tot dur best' rs)"

definition check_amount ::
  "kyc_trigger \<Rightarrow> kyc_rule list \<Rightarrow> test_context \<Rightarrow> amount \<Rightarrow> 64 word \<Rightarrow> test_context outcome" where
  "check_amount event rules ktc a dur =
     obind (if TALER_amount_is_valid (t_sum ktc) \<noteq> GNUNET_OK then Done a
            else obind (TALER_amount_add (t_sum ktc) a) (\<lambda>(r, s). gassert (0 \<le> aar_code r) (Done s)))
       (\<lambda>s. obind (check_rules event s dur (t_triggered_rule ktc) rules)
          (\<lambda>best. Done \<lparr>t_sum = s, t_triggered_rule = best\<rparr>))"

fun check_amounts ::
  "kyc_trigger \<Rightarrow> kyc_rule list \<Rightarrow> test_context \<Rightarrow> (amount \<times> 64 word) list \<Rightarrow> test_context outcome" where
  "check_amounts event rules ktc [] = Done ktc"
| "check_amounts event rules ktc ((a, dur) # xs) =
     obind (check_amount event rules ktc a dur) (\<lambda>k. check_amounts event rules k xs)"

text \<open>The first loop: the highest threshold and the longest timeframe of the rules for the event.\<close>

fun scan_rules ::
  "kyc_trigger \<Rightarrow> amount option \<times> 64 word \<Rightarrow> kyc_rule list \<Rightarrow> (amount option \<times> 64 word) outcome" where
  "scan_rules event st [] = Done st"
| "scan_rules event (th, rng) (r # rs) =
     (if event \<noteq> r_trigger r then scan_rules event (th, rng) rs
      else obind (case th of
                    None \<Rightarrow> Done (r_threshold r)
                  | Some t \<Rightarrow>
                      obind (TALER_amount_max t (r_threshold r))
                        (\<lambda>(ret, m). gassert (ret = GNUNET_OK) (Done m)))
             (\<lambda>t. scan_rules event (Some t, max rng (r_timeframe r)) rs))"

text \<open>The result: the status of the query, the rule that was triggered and the next threshold.\<close>

definition TALER_KYCLOGIC_kyc_test_required ::
  "'j kyc_globals \<Rightarrow> kyc_trigger \<Rightarrow> 'j rules_ref \<Rightarrow> (64 word \<Rightarrow> int \<times> (amount \<times> 64 word) list)
     \<Rightarrow> (int \<times> kyc_rule option \<times> amount) outcome" where
  "TALER_KYCLOGIC_kyc_test_required g event l ai =
     (let rules = ls_kyc_rules (rules_of g l) in
      obind (scan_rules event (None, 0) rules) (\<lambda>(th, rng).
        case th of
          None \<Rightarrow> Done (0, None, invalidate)
        | Some t \<Rightarrow>
            (case ai rng of (qs, xs) \<Rightarrow>
               obind (check_amounts event rules \<lparr>t_sum = invalidate, t_triggered_rule = None\<rparr> xs)
                 (\<lambda>k. Done (qs, t_triggered_rule k, t)))))"

section \<open>The test is exact\<close>

text \<open>
  The rules for an event; the sum of the amounts within the timeframe of a rule; the rules that
  this sum triggers. A rule whose window is empty is not triggered, whatever its threshold.
\<close>

definition rules_for :: "kyc_trigger \<Rightarrow> kyc_rule list \<Rightarrow> kyc_rule set" where
  "rules_for event rules = {r \<in> set rules. r_trigger r = event}"

definition in_window :: "kyc_rule \<Rightarrow> (amount \<times> 64 word) list \<Rightarrow> (amount \<times> 64 word) list" where
  "in_window r xs = filter (\<lambda>(a, d). d \<le> r_timeframe r) xs"

definition amounts_sum :: "(amount \<times> 64 word) list \<Rightarrow> nat" where
  "amounts_sum xs = sum_list (map (units \<circ> fst) xs)"

definition reached :: "(amount \<times> 64 word) list \<Rightarrow> kyc_rule \<Rightarrow> bool" where
  "reached xs r \<longleftrightarrow> in_window r xs \<noteq> [] \<and> units (r_threshold r) \<le> amounts_sum (in_window r xs)"

definition longest_timeframe :: "kyc_trigger \<Rightarrow> kyc_rule list \<Rightarrow> 64 word" where
  "longest_timeframe event rules = foldl max 0 (map r_timeframe (filter (\<lambda>r. r_trigger r = event) rules))"

definition highest_in :: "kyc_rule set \<Rightarrow> kyc_rule option \<Rightarrow> bool" where
  "highest_in S best \<longleftrightarrow>
     (case best of
        None \<Rightarrow> S = {}
      | Some b \<Rightarrow> b \<in> S \<and> (\<forall>r\<in>S. units (r_threshold r) \<le> units (r_threshold b)))"

definition amounts_in :: "char list \<Rightarrow> amount set \<Rightarrow> bool" where
  "amounts_in c A \<longleftrightarrow> (\<forall>a\<in>A. normal a \<and> currency a = c)"

lemma amounts_in_insert [simp]: "amounts_in c (insert a A) \<longleftrightarrow> normal a \<and> currency a = c \<and> amounts_in c A"
  by (auto simp: amounts_in_def)

lemma amounts_sum_simps [simp]:
  "amounts_sum [] = 0" "amounts_sum (x # xs) = units (fst x) + amounts_sum xs"
  "amounts_sum (xs @ ys) = amounts_sum xs + amounts_sum ys"
  by (simp_all add: amounts_sum_def)

text \<open>The rules that the last amount of a list triggers with the sum of the whole list.\<close>

definition fires :: "kyc_trigger \<Rightarrow> nat \<Rightarrow> 64 word \<Rightarrow> kyc_rule \<Rightarrow> bool" where
  "fires event tot dur r \<longleftrightarrow> r_trigger r = event \<and> dur \<le> r_timeframe r \<and> units (r_threshold r) \<le> tot"

lemma check_rule_step:
  assumes "normal tot" "currency tot = c" "normal (r_threshold r)" "currency (r_threshold r) = c"
    and "\<And>b. best = Some b \<Longrightarrow> normal (r_threshold b) \<and> currency (r_threshold b) = c"
    and "highest_in S best"
  shows "\<exists>best'. check_rule event tot dur best r = Done best'
           \<and> highest_in (S \<union> {x \<in> {r}. fires event (units tot) dur x}) best'"
proof (cases "fires event (units tot) dur r")
  case False
  then have "S \<union> {x \<in> {r}. fires event (units tot) dur x} = S" by auto
  moreover have "check_rule event tot dur best r = Done best"
    using False assms(1-4) by (auto simp: fires_def cmp_representable normal_representable not_le)
  ultimately show ?thesis using assms(6) by simp
next
  case True
  then have S: "S \<union> {x \<in> {r}. fires event (units tot) dur x} = insert r S" by auto
  have cmp: "TALER_amount_cmp tot (r_threshold r) = Done (if units tot > units (r_threshold r) then 1 else 0)"
    using True assms(1-4) by (simp add: fires_def cmp_representable normal_representable)
  show ?thesis
  proof (cases best)
    case None
    then show ?thesis using True assms(6) cmp by (simp only: S) (auto simp: fires_def highest_in_def not_less)
  next
    case (Some b)
    then have "TALER_amount_cmp (r_threshold b) (r_threshold r) =
        Done (if units (r_threshold b) < units (r_threshold r) then -1
              else if units (r_threshold b) > units (r_threshold r) then 1 else 0)"
      using assms(3-5) by (simp add: cmp_representable normal_representable)
    then show ?thesis using True assms(6) cmp Some
      by (simp only: S) (auto simp: fires_def highest_in_def not_less)
  qed
qed

lemma check_rules_step:
  assumes "normal tot" "currency tot = c" "amounts_in c (r_threshold ` set rs)"
    and "\<And>b. best = Some b \<Longrightarrow> normal (r_threshold b) \<and> currency (r_threshold b) = c"
    and "amounts_in c (r_threshold ` S)" "highest_in S best"
  shows "\<exists>best'. check_rules event tot dur best rs = Done best'
           \<and> highest_in (S \<union> {r \<in> set rs. fires event (units tot) dur r}) best'"
  using assms(3-)
proof (induction rs arbitrary: best S)
  case Nil
  then show ?case by simp
next
  case (Cons r rs)
  let ?S = "S \<union> {x \<in> {r}. fires event (units tot) dur x}"
  obtain best1 where b1: "check_rule event tot dur best r = Done best1" "highest_in ?S best1"
    using check_rule_step [OF assms(1,2), of r best S event dur] Cons.prems by auto
  have th: "amounts_in c (r_threshold ` ?S)"
    using Cons.prems by (auto simp: amounts_in_def)
  have "normal (r_threshold b) \<and> currency (r_threshold b) = c" if "best1 = Some b" for b
    using b1(2) th that by (auto simp: highest_in_def amounts_in_def)
  then obtain best2 where "check_rules event tot dur best1 rs = Done best2"
      "highest_in (?S \<union> {r \<in> set rs. fires event (units tot) dur r}) best2"
    using Cons.IH [of best1 ?S] Cons.prems(1) th b1(2) by auto
  moreover have "?S \<union> {r \<in> set rs. fires event (units tot) dur r}
      = S \<union> {x \<in> set (r # rs). fires event (units tot) dur x}" by auto
  ultimately show ?case using b1(1) by auto
qed

text \<open>The rules that a list of amounts triggers on top of a sum, one amount after the other.\<close>

fun fired :: "kyc_trigger \<Rightarrow> kyc_rule list \<Rightarrow> nat \<Rightarrow> (amount \<times> 64 word) list \<Rightarrow> kyc_rule set" where
  "fired event rules tot [] = {}"
| "fired event rules tot ((a, d) # xs) =
     {r \<in> set rules. fires event (tot + units a) d r} \<union> fired event rules (tot + units a) xs"

definition sum_is :: "char list \<Rightarrow> nat \<Rightarrow> amount \<Rightarrow> bool" where
  "sum_is c tot s \<longleftrightarrow> s = invalidate \<and> tot = 0 \<or> normal s \<and> currency s = c \<and> units s = tot"

lemma normal_legal: "normal a \<Longrightarrow> legal_currency (currency a)"
  by (simp add: normal_def representable_def)

lemma check_amount_step:
  assumes rules: "amounts_in c (r_threshold ` set rules)" and S: "S \<subseteq> set rules" "highest_in S (t_triggered_rule k)"
    and sum: "sum_is c tot (t_sum k)" and a: "normal a" "currency a = c" "tot + units a \<le> max_units"
  shows "\<exists>k'. check_amount event rules k a d = Done k' \<and> sum_is c (tot + units a) (t_sum k')
           \<and> highest_in (S \<union> {r \<in> set rules. fires event (tot + units a) d r}) (t_triggered_rule k')"
proof -
  obtain s where s: "(if TALER_amount_is_valid (t_sum k) \<noteq> GNUNET_OK then Done a
            else obind (TALER_amount_add (t_sum k) a) (\<lambda>(r, s). gassert (0 \<le> aar_code r) (Done s))) = Done s"
      "normal s" "currency s = c" "units s = tot + units a"
  proof (cases "t_sum k = invalidate \<and> tot = 0")
    case True
    then show ?thesis using a that [of a] by (simp add: TALER_amount_is_valid_def invalidate_def TALER_CURRENCY_LEN_def)
  next
    case False
    then have n: "normal (t_sum k)" "currency (t_sum k) = c" "units (t_sum k) = tot"
      using sum by (auto simp: sum_is_def)
    have "legal_currency c" using normal_legal [OF a(1)] a(2) by simp
    moreover have "0 \<le> aar_code (aar_of u)" for u by (simp add: aar_of_def)
    ultimately show ?thesis using that [of "mk_amount c (tot + units a)"] n a
      by (simp add: add_representable normal_representable representable_valid)
  qed
  have th: "amounts_in c (r_threshold ` S)" using rules S(1) by (auto simp: amounts_in_def)
  have "normal (r_threshold b) \<and> currency (r_threshold b) = c" if "t_triggered_rule k = Some b" for b
    using S(2) th that by (auto simp: highest_in_def amounts_in_def)
  from check_rules_step [OF s(2,3) rules this th S(2), where event = event and dur = d]
  obtain best where "check_rules event s d (t_triggered_rule k) rules = Done best"
      "highest_in (S \<union> {r \<in> set rules. fires event (units s) d r}) best" by blast
  then show ?thesis using s by (simp add: check_amount_def sum_is_def)
qed

lemma check_amounts_fired:
  assumes "amounts_in c (r_threshold ` set rules)" "amounts_in c (fst ` set xs)" "tot + amounts_sum xs \<le> max_units"
    and "S \<subseteq> set rules" "highest_in S (t_triggered_rule k)" "sum_is c tot (t_sum k)"
  shows "\<exists>k'. check_amounts event rules k xs = Done k'
           \<and> highest_in (S \<union> fired event rules tot xs) (t_triggered_rule k')"
  using assms(2-)
proof (induction xs arbitrary: k S tot)
  case Nil
  then show ?case by simp
next
  case (Cons x xs)
  obtain a d where x: "x = (a, d)" by (cases x)
  let ?F = "{r \<in> set rules. fires event (tot + units a) d r}"
  obtain k1 where k1: "check_amount event rules k a d = Done k1" "sum_is c (tot + units a) (t_sum k1)"
      "highest_in (S \<union> ?F) (t_triggered_rule k1)"
    using check_amount_step [OF assms(1) Cons.prems(3-5), of a event d] Cons.prems(1,2) x by auto
  have "\<exists>k'. check_amounts event rules k1 xs = Done k'
      \<and> highest_in ((S \<union> ?F) \<union> fired event rules (tot + units a) xs) (t_triggered_rule k')"
    using Cons.IH [of "tot + units a" "S \<union> ?F" k1] Cons.prems k1 x by auto
  then show ?case using k1(1) x by (auto simp: Un_assoc)
qed

text \<open>When the amounts come in reverse chronological order, the last one of a window decides.\<close>

lemma in_window_older: "sorted (d # map snd xs) \<Longrightarrow> r_timeframe r < d \<Longrightarrow> in_window r xs = []"
  by (induction xs) (auto simp: in_window_def)

lemma fired_sorted:
  assumes "sorted (map snd xs)"
  shows "r \<in> fired event rules tot xs \<longleftrightarrow>
           r \<in> rules_for event rules \<and> in_window r xs \<noteq> []
           \<and> units (r_threshold r) \<le> tot + amounts_sum (in_window r xs)"
  using assms
proof (induction xs arbitrary: tot)
  case Nil
  then show ?case by (simp add: in_window_def)
next
  case (Cons x xs)
  obtain a d where x: "x = (a, d)" by (cases x)
  have srt: "sorted (d # map snd xs)" using Cons.prems x by simp
  have IH: "r \<in> fired event rules (tot + units a) xs \<longleftrightarrow>
           r \<in> rules_for event rules \<and> in_window r xs \<noteq> []
           \<and> units (r_threshold r) \<le> tot + units a + amounts_sum (in_window r xs)"
    using Cons.IH srt by simp
  show ?case
  proof (cases "d \<le> r_timeframe r")
    case True
    then have "in_window r (x # xs) = x # in_window r xs" by (simp add: in_window_def x)
    then show ?thesis using True IH x by (auto simp: fires_def rules_for_def)
  next
    case False
    then have "in_window r xs = []" "in_window r (x # xs) = []"
      using in_window_older [OF srt] by (simp_all add: in_window_def x)
    then show ?thesis using False IH x by (auto simp: fires_def)
  qed
qed

lemma scan_rules_exact:
  assumes "amounts_in c (r_threshold ` set rules)" "\<And>t. th = Some t \<Longrightarrow> normal t \<and> currency t = c"
  shows "\<exists>th'. scan_rules event (th, rng) rules
             = Done (th', foldl max rng (map r_timeframe (filter (\<lambda>r. r_trigger r = event) rules)))
           \<and> (th' = None \<longleftrightarrow> th = None \<and> rules_for event rules = {})
           \<and> (\<forall>t. th' = Some t \<longrightarrow>
                (\<forall>t0. th = Some t0 \<longrightarrow> units t0 \<le> units t)
                \<and> (\<forall>r\<in>rules_for event rules. units (r_threshold r) \<le> units t)
                \<and> (th = Some t \<or> t \<in> r_threshold ` rules_for event rules))"
  using assms
proof (induction rules arbitrary: th rng)
  case Nil
  then show ?case by (simp add: rules_for_def)
next
  case (Cons r rules)
  show ?case
  proof (cases "r_trigger r = event")
    case False
    then have "rules_for event (r # rules) = rules_for event rules" by (auto simp: rules_for_def)
    then show ?thesis using False Cons.IH [of th rng] Cons.prems by auto
  next
    case True
    then have R: "rules_for event (r # rules) = insert r (rules_for event rules)" by (auto simp: rules_for_def)
    define t where "t = (case th of None \<Rightarrow> r_threshold r
        | Some t0 \<Rightarrow> if units t0 > units (r_threshold r) then t0 else r_threshold r)"
    have step: "scan_rules event (th, rng) (r # rules) = scan_rules event (Some t, max rng (r_timeframe r)) rules"
      using True Cons.prems
      by (auto simp: t_def TALER_amount_max_def cmp_currency_representable cmp_representable
          normal_representable split: option.splits)
    have t: "normal t \<and> currency t = c" using Cons.prems by (auto simp: t_def split: option.splits)
    have th: "\<And>t0. th = Some t0 \<Longrightarrow> units t0 \<le> units t" "units (r_threshold r) \<le> units t"
      "th = Some t \<or> t = r_threshold r" by (auto simp: t_def split: option.splits)
    show ?thesis using Cons.IH [of "Some t" "max rng (r_timeframe r)"] Cons.prems(1) t th
      by (simp only: step R) (fastforce simp: True)
  qed
qed

text \<open>
  What the test reports. Among the triggered rules it takes one of the highest threshold, whatever
  their display priority, and the next threshold is the highest threshold of all rules for the
  event. \<^verbatim>\<open>taler_kyclogic_lib.h\<close> documents otherwise: the triggered rule is to be the highest by
  display priority, and the next threshold the next amount that may trigger a check.
\<close>

lemma kyc_test_required_choice:
  assumes "rules = ls_kyc_rules (rules_of g l)" "ai (longest_timeframe event rules) = (qs, xs)"
    and "amounts_in c (r_threshold ` set rules)" "amounts_in c (fst ` set xs)"
    and "amounts_sum xs \<le> max_units" "sorted (map snd xs)"
  shows "\<exists>best next. TALER_KYCLOGIC_kyc_test_required g event l ai
             = Done (if rules_for event rules = {} then 0 else qs, best, next)
           \<and> highest_in {r \<in> rules_for event rules. reached xs r} best
           \<and> (rules_for event rules \<noteq> {} \<longrightarrow>
                next \<in> r_threshold ` rules_for event rules
                \<and> (\<forall>r\<in>rules_for event rules. units (r_threshold r) \<le> units next))"
proof -
  obtain th where scan: "scan_rules event (None, 0) rules = Done (th, longest_timeframe event rules)"
      "th = None \<longleftrightarrow> rules_for event rules = {}"
      "\<And>t. th = Some t \<Longrightarrow> (\<forall>r\<in>rules_for event rules. units (r_threshold r) \<le> units t)
                           \<and> t \<in> r_threshold ` rules_for event rules"
    using scan_rules_exact [OF assms(3), of None event 0] by (auto simp: longest_timeframe_def)
  have "sum_is c 0 (t_sum \<lparr>t_sum = invalidate, t_triggered_rule = None\<rparr>)" by (simp add: sum_is_def)
  then obtain k where k: "check_amounts event rules \<lparr>t_sum = invalidate, t_triggered_rule = None\<rparr> xs = Done k"
      "highest_in (fired event rules 0 xs) (t_triggered_rule k)"
    using check_amounts_fired [OF assms(3,4), of 0 "{}" "\<lparr>t_sum = invalidate, t_triggered_rule = None\<rparr>" event] assms(5)
    by (auto simp: highest_in_def)
  have F: "fired event rules 0 xs = {r \<in> rules_for event rules. reached xs r}"
    using fired_sorted [OF assms(6), of _ event rules 0] by (auto simp: reached_def)
  show ?thesis
  proof (cases th)
    case None
    then show ?thesis using scan assms(1)
      by (simp add: TALER_KYCLOGIC_kyc_test_required_def highest_in_def)
  next
    case (Some t)
    then show ?thesis using scan k F assms(1,2)
      by (simp add: TALER_KYCLOGIC_kyc_test_required_def)
  qed
qed

text \<open>
  C35: the test of an operation triggers exactly if a rule applies. With amounts of one currency,
  which come in reverse chronological order and do not overflow together, the test ends without
  a failed assertion; it reports a rule exactly if there is a rule for the event whose window of
  time holds an amount and whose threshold is reached by the amounts in the window, and the rule
  that it reports is such a rule. Without a rule for the event the status is that of no results.
\<close>

theorem kyc_test_required_exact:
  assumes "rules = ls_kyc_rules (rules_of g l)" "ai (longest_timeframe event rules) = (qs, xs)"
    and "amounts_in c (r_threshold ` set rules)" "amounts_in c (fst ` set xs)"
    and "amounts_sum xs \<le> max_units" "sorted (map snd xs)"
  shows "\<exists>best next. TALER_KYCLOGIC_kyc_test_required g event l ai
             = Done (if rules_for event rules = {} then 0 else qs, best, next)
           \<and> (best \<noteq> None \<longleftrightarrow> (\<exists>r\<in>rules_for event rules. reached xs r))
           \<and> (\<forall>r. best = Some r \<longrightarrow> r \<in> rules_for event rules \<and> reached xs r)"
proof -
  obtain best "next" where b: "TALER_KYCLOGIC_kyc_test_required g event l ai
      = Done (if rules_for event rules = {} then 0 else qs, best, next)"
    "highest_in {r \<in> rules_for event rules. reached xs r} best"
    using kyc_test_required_choice [where ai = ai and event = event, OF assms] by blast
  then show ?thesis by (intro exI [of _ best] exI [of _ "next"]) (auto simp: highest_in_def split: option.splits)
qed

definition sample_rule :: "nat \<Rightarrow> 64 word \<Rightarrow> string list \<Rightarrow> kyc_rule" where
  "sample_rule u tf ms =
     \<lparr>r_rule_name = None, r_timeframe = tf, r_threshold = eur u, r_next_measures = ms, r_display_priority = 0,
      r_trigger = TALER_KYCLOGIC_KYC_TRIGGER_WITHDRAW, r_is_and_combinator = False, r_exposed = True,
      r_verboten = list_ex is_impossible ms\<rparr>"

definition sample_set :: "'j rule_set" where
  "sample_set =
     \<lparr>ls_expiration_time = 0, ls_successor_measure = None, ls_jlrs = None,
      ls_kyc_rules = [sample_rule 300 10 [''form''], sample_rule 500 100 [''verboten''], sample_rule 400 100 [''form'']],
      ls_custom_measures = []\<rparr>"

definition sample_globals :: "'j kyc_globals" where
  "sample_globals =
     \<lparr>kyc_logics = [], kyc_providers = [], kyc_checks = [], default_rules = sample_set, aml_programs = [],
      cfg_filename = None, my_currency = ''EUR''\<rparr>"

theorem kyc_test_required_exact_witness:
  "\<exists>best next.
     TALER_KYCLOGIC_kyc_test_required (sample_globals :: nat kyc_globals) TALER_KYCLOGIC_KYC_TRIGGER_WITHDRAW
       Null_rules (\<lambda>_. (2, [(eur 250, 5), (eur 200, 50)])) = Done (2, best, next)
     \<and> best \<noteq> None"
proof -
  let ?rules = "ls_kyc_rules (sample_set :: nat rule_set)" and ?xs = "[(eur 250, 5), (eur 200, 50)]"
  have r: "sample_rule 400 100 [''form''] \<in> rules_for TALER_KYCLOGIC_KYC_TRIGGER_WITHDRAW ?rules"
    by (simp add: rules_for_def sample_set_def sample_rule_def)
  moreover have "reached ?xs (sample_rule 400 100 [''form''])"
    by (simp add: reached_def in_window_def amounts_sum_def sample_rule_def amount_consts)
  ultimately show ?thesis
    using kyc_test_required_exact [where g = "sample_globals :: nat kyc_globals" and l = Null_rules and rules = ?rules
        and event = TALER_KYCLOGIC_KYC_TRIGGER_WITHDRAW and ai = "\<lambda>_. (2, ?xs)" and qs = 2 and xs = ?xs and c = EUR]
    by (fastforce simp: sample_globals_def sample_set_def sample_rule_def amounts_in_def amounts_sum_def amount_consts)
qed

end
