(* ===== verification/Kyc_Measures.thy ===== *)
theory Kyc_Measures
  imports Kyc_Rules
begin

text \<open>
  What the functions of \<open>Kyc_Rules\<close> promise each other. A rule set that was parsed is well-formed,
  and its measures have the checks and programs they name; the measures that a rule or a list of
  names is converted to are the ones that a later request selects by their index; the limits of an
  account with rules of its own are never reported.
\<close>

section \<open>Lists of fallible results\<close>

lemma map_all_None: "map_all f xs = None \<longleftrightarrow> (\<exists>x\<in>set xs. f x = None)"
  by (induction xs) (auto split: option.splits)

lemma map_all_Some: "map_all f xs = Some ys \<longleftrightarrow> map f xs = map Some ys"
proof (induction xs arbitrary: ys)
  case (Cons x xs)
  show ?case
  proof (cases "map_all f xs")
    case None
    then have "map f xs \<noteq> map Some zs" for zs using Cons.IH [of zs] by simp
    then show ?thesis using None by (cases ys) (auto split: option.splits)
  next
    case (Some zs)
    then show ?thesis using Cons.IH [of zs] by (cases ys) (auto split: option.splits dest: map_injective)
  qed
qed auto

lemma option_chain:
  "(if c then None else x) = Some y \<longleftrightarrow> \<not> c \<and> x = Some y"
  "(case z of None \<Rightarrow> None | Some v \<Rightarrow> f v) = Some y \<longleftrightarrow> (\<exists>v. z = Some v \<and> f v = Some y)"
  by (simp_all split: option.split)

lemmas parse_chain = need_Some may_Some option_chain

lemma case_Some_None: "(case x of None \<Rightarrow> None | Some y \<Rightarrow> Some (h y)) = None \<longleftrightarrow> x = None"
  by (cases x) simp_all

lemma map_all_in:
  assumes "map_all f xs = Some ys" "y \<in> set ys"
  shows "\<exists>x\<in>set xs. f x = Some y"
proof -
  have "Some y \<in> set (map f xs)" using assms by (simp add: map_all_Some)
  then show ?thesis by auto
qed

section \<open>Parsed rule sets\<close>

text \<open>The measures a rule set may use: its own ones and the default ones.\<close>

definition measures_in :: "'j kyc_globals \<Rightarrow> 'j rules_ref \<Rightarrow> 'j kyc_measure set" where
  "measures_in g l = set (ls_custom_measures (rules_of g l)) \<union> set (ls_custom_measures (default_rules g))"

lemma find_Some_in: "List.find P xs = Some x \<Longrightarrow> x \<in> set xs \<and> P x"
  by (auto simp: find_Some_iff)

lemma find_measure_in: "find_measure g l name = Some m \<Longrightarrow> m \<in> measures_in g l \<and> strcaseeq name (m_measure_name m)"
  by (cases l) (auto simp: measures_in_def find_named_def dest: find_Some_in split: option.splits)

lemma find_measure_None:
  "find_measure g l name = None \<longleftrightarrow> (\<forall>m\<in>measures_in g l. \<not> strcaseeq name (m_measure_name m))"
  by (cases l) (auto simp: measures_in_def find_named_def find_None_iff dest: find_Some_in split: option.splits)

definition rule_sound :: "string \<Rightarrow> kyc_rule \<Rightarrow> bool" where
  "rule_sound cur r \<longleftrightarrow>
     normal (r_threshold r) \<and> strcaseeq cur (cstr (currency (r_threshold r)))
     \<and> (r_verboten r \<longleftrightarrow> list_ex is_impossible (r_next_measures r))"

lemma parse_measure_names_sound:
  "parse_measure_names R js = Some (names, v) \<Longrightarrow> v = list_ex is_impossible names"
proof (induction js arbitrary: names v)
  case (Cons j js)
  then obtain s ss w where "parse_measure_names R js = Some (ss, w)" "names = s # ss" "v = (is_impossible s \<or> w)"
    by (auto split: option.split_asm)
  then show ?case using Cons.IH by simp
qed simp

lemma parse_amount_currency: "parse_amount (Some c) s r = Some a \<Longrightarrow> strcaseeq c (cstr (currency a))"
  by (cases "TALER_string_to_amount s r") (simp add: parse_amount_def split: if_split_asm)

lemma spec_amount_sound:
  assumes "spec_amount R cur j n = Present a"
  shows "normal a \<and> strcaseeq cur (cstr (currency a))"
proof -
  obtain s where "parse_amount (Some cur) s invalidate = Some a"
    using assms unfolding spec_amount_def by (rule parsedE)
  then show ?thesis by (simp add: parse_amount_normal parse_amount_currency)
qed

lemma parse_rule_sound:
  assumes "parse_rule R cur j = Some r"
  shows "rule_sound cur r"
proof -
  obtain names v th trig tf dp ia ex js where
    "parse_measure_names R js = Some (names, v)" "spec_amount R cur j ''threshold'' = Present th"
    "r = \<lparr>r_rule_name = None, r_timeframe = tf, r_threshold = th, r_next_measures = names,
          r_display_priority = dp, r_trigger = trig, r_is_and_combinator = ia, r_exposed = ex, r_verboten = v\<rparr>"
    using assms unfolding parse_rule_def parse_chain by fastforce
  then show ?thesis
    using parse_measure_names_sound [of R js names v] spec_amount_sound [of R cur j _ th]
    by (simp add: rule_sound_def)
qed

lemma parse_custom_measure_sound: "parse_custom_measure R g nj = Some m \<Longrightarrow> check_measure R g m"
  by (auto simp: parse_custom_measure_def parse_chain Let_def split: prod.split_asm if_split_asm)

lemma rules_parse_sound:
  assumes "TALER_KYCLOGIC_rules_parse R g j = Some l"
  shows "\<forall>r\<in>set (ls_kyc_rules l). rule_sound (my_currency g) r" "\<forall>m\<in>set (ls_custom_measures l). check_measure R g m"
proof -
  obtain rules measures js ms where p: "map_all (parse_rule R (my_currency g)) js = Some rules"
      "map_all (parse_custom_measure R g) ms = Some measures"
      "ls_kyc_rules l = rules" "ls_custom_measures l = measures"
    using assms unfolding TALER_KYCLOGIC_rules_parse_def parse_chain by fastforce
  show "\<forall>r\<in>set (ls_kyc_rules l). rule_sound (my_currency g) r"
    using p(1,3) parse_rule_sound by (metis map_all_in)
  show "\<forall>m\<in>set (ls_custom_measures l). check_measure R g m"
    using p(2,4) parse_custom_measure_sound by (metis map_all_in)
qed

text \<open>A measure that passed its check has a check, or needs none.\<close>

lemma check_measure_found:
  assumes "check_measure R g m"
  shows "find_program g (m_prog_name m) \<noteq> None" "measure_check g m \<noteq> None"
  using assms by (auto simp: check_measure_def measure_check_def skips_check_def find_check_def
      split: option.splits if_splits)

section \<open>Reading what was written\<close>

text \<open>
  An object context is read back; a field that is absent or null is missing. A text that \<^verbatim>\<open>json_string\<close>
  accepts is read back; that a packed text is read back is stated for all texts, since packing one that is not
  UTF-8 does not return.
\<close>

definition kyc_absent :: "(string \<times> 'j kyc_packed) list \<Rightarrow> string \<Rightarrow> bool" where
  "kyc_absent fs n \<longleftrightarrow> map_of fs n = None \<or> map_of fs n = Some Put_null"

definition kyc_codec :: "('j, 'x) kyc_reader_scheme \<Rightarrow> 'j kyc_writer \<Rightarrow> bool" where
  "kyc_codec R W \<longleftrightarrow>
     (\<forall>fs n. kyc_absent fs n \<longrightarrow>
        spec_string R (GNUNET_JSON_PACK W fs) n = Missing \<and> spec_scalar R (GNUNET_JSON_PACK W fs) n = Missing
        \<and> spec_object_const R (GNUNET_JSON_PACK W fs) n = Missing)
     \<and> (\<forall>fs n s. map_of fs n = Some (Put_string s) \<longrightarrow> spec_string R (GNUNET_JSON_PACK W fs) n = Present s)
     \<and> (\<forall>fs n js. map_of fs n = Some (Put_array js) \<longrightarrow> spec_array_const R (GNUNET_JSON_PACK W fs) n = Present js)
     \<and> (\<forall>fs n j. map_of fs n = Some (Put_object j) \<longrightarrow> json_is_object R j \<longrightarrow>
          spec_object_const R (GNUNET_JSON_PACK W fs) n = Present j)
     \<and> (\<forall>fs. json_array R (GNUNET_JSON_PACK W fs) = [])
     \<and> (\<forall>js. json_array R (json_array_of W js) = js)
     \<and> (\<forall>s j. json_string W s = Some j \<longrightarrow> json_string_value R j = Some s)
     \<and> (\<forall>js n. spec_scalar R (json_array_of W js) n = Missing)"

lemma kyc_codecD:
  assumes "kyc_codec R W"
  shows "kyc_absent fs n \<Longrightarrow> spec_object_const R (GNUNET_JSON_PACK W fs) n = Missing"
    and "kyc_absent fs n \<Longrightarrow> spec_scalar R (GNUNET_JSON_PACK W fs) n = Missing"
    and "map_of fs n = Some (Put_string s) \<Longrightarrow> spec_string R (GNUNET_JSON_PACK W fs) n = Present s"
    and "map_of fs n = Some (Put_array js) \<Longrightarrow> spec_array_const R (GNUNET_JSON_PACK W fs) n = Present js"
    and "map_of fs n = Some (Put_object j) \<Longrightarrow> json_is_object R j \<Longrightarrow>
           spec_object_const R (GNUNET_JSON_PACK W fs) n = Present j"
    and "json_array R (GNUNET_JSON_PACK W fs) = []"
    and "json_array R (json_array_of W js) = js"
    and "json_string W s = Some j \<Longrightarrow> json_string_value R j = Some s"
    and "spec_scalar R (json_array_of W js) n = Missing"
  using assms unfolding kyc_codec_def by blast+

definition measure_data :: "'j kyc_measure \<Rightarrow> string \<times> string \<times> 'j option" where
  "measure_data m = (m_check_name m, m_prog_name m, m_context m)"

definition object_context :: "('j, 'x) kyc_reader_scheme \<Rightarrow> 'j kyc_measure \<Rightarrow> bool" where
  "object_context R m \<longleftrightarrow> (case m_context m of None \<Rightarrow> True | Some c \<Rightarrow> json_is_object R c)"

lemma parse_measure_info_back:
  assumes "kyc_codec R W" "object_context R m"
  shows "parse_measure_info R (measure_info W (m_check_name m) (m_prog_name m) (m_context m)) = Some (measure_data m)"
  using assms(2)
  by (cases "m_context m")
     (auto simp: parse_measure_info_def measure_info_def measure_data_def object_context_def
       put_optional_object_def kyc_codecD [OF assms(1)] kyc_absent_def)

text \<open>What selecting from the measures of a list of names gives.\<close>

definition selection :: "'j kyc_globals \<Rightarrow> 'j rules_ref \<Rightarrow> string list \<Rightarrow> nat \<Rightarrow> kyc_error + string \<times> string \<times> 'j option" where
  "selection g l names i =
     (if i < length names
      then (case find_measure g l (names ! i) of
              None \<Rightarrow> Inl TALER_EC_EXCHANGE_KYC_MEASURES_MALFORMED
            | Some m \<Rightarrow> Inr (measure_data m))
      else Inl TALER_EC_EXCHANGE_KYC_MEASURE_INDEX_INVALID)"

lemma select_named:
  assumes "kyc_codec R W" "\<forall>m\<in>measures_in g l. object_context R m"
    and "map_all (named_info W g l) names = Some js"
  shows "TALER_KYCLOGIC_select_measure R (measures_object W js b v) i = selection g l names i"
proof -
  have len: "length js = length names"
    using assms(3) by (metis map_all_Some length_map)
  have "parse_measure_info R (js ! i) = Some (measure_data m)"
      if "i < length names" "find_measure g l (names ! i) = Some m" for m
  proof -
    have "named_info W g l (names ! i) = Some (js ! i)"
      using assms(3) that(1) len by (metis map_all_Some nth_map)
    then have "js ! i = measure_info W (m_check_name m) (m_prog_name m) (m_context m)"
      using that(2) by (simp add: named_info_def)
    then show ?thesis
      using parse_measure_info_back [OF assms(1)] assms(2) find_measure_in [OF that(2)] by simp
  qed
  moreover have "find_measure g l (names ! i) \<noteq> None" if "i < length names"
  proof
    assume "find_measure g l (names ! i) = None"
    then have "map_all (named_info W g l) names = None"
      using that by (auto simp: map_all_None named_info_def intro: nth_mem)
    then show False using assms(3) by simp
  qed
  ultimately show ?thesis using len
    by (auto simp: TALER_KYCLOGIC_select_measure_def measures_object_def selection_def
        kyc_codecD [OF assms(1)])
qed

lemma named_info_None:
  "map_all (named_info W g l) names = None \<longleftrightarrow> (\<exists>n\<in>set names. find_measure g l n = None)"
  by (simp add: map_all_None named_info_def)

text \<open>
  C38: when the contexts of the measures are absent or objects, the measures of a rule can be
  converted exactly if the rule forbids the operation, where the list is empty, or all of them exist, and a
  list of names exactly if all names but the forbidden one exist; selecting by index from
  what they are converted to gives the measures of the names, in their order, and an error for
  every other index.
\<close>

theorem kyc_measures_roundtrip:
  assumes "kyc_codec R W" "\<forall>m\<in>measures_in g l. object_context R m"
    and "names = (if r_verboten r then [] else r_next_measures r)"
    and "toks = filter (\<lambda>n. \<not> is_impossible n) (snd (spec_names s))"
  shows "(TALER_KYCLOGIC_rule_to_measures W g l r = None \<longleftrightarrow> (\<exists>n\<in>set names. find_measure g l n = None))
    \<and> (TALER_KYCLOGIC_get_jmeasures W g l s = None \<longleftrightarrow> (\<exists>n\<in>set toks. find_measure g l n = None))
    \<and> (\<forall>j i. TALER_KYCLOGIC_rule_to_measures W g l r = Some j \<longrightarrow>
               TALER_KYCLOGIC_select_measure R j i = selection g l names i)
    \<and> (\<forall>j i. TALER_KYCLOGIC_get_jmeasures W g l s = Some j \<longrightarrow>
               TALER_KYCLOGIC_select_measure R j i = selection g l toks i)"
proof (intro conjI allI impI)
  show "TALER_KYCLOGIC_rule_to_measures W g l r = None \<longleftrightarrow> (\<exists>n\<in>set names. find_measure g l n = None)"
    using assms(3) by (simp add: TALER_KYCLOGIC_rule_to_measures_def case_Some_None flip: named_info_None [of W])
  show "TALER_KYCLOGIC_get_jmeasures W g l s = None \<longleftrightarrow> (\<exists>n\<in>set toks. find_measure g l n = None)"
    using assms(4) by (cases "spec_names s") (auto simp: TALER_KYCLOGIC_get_jmeasures_def case_Some_None named_info_None)
next
  fix j i assume "TALER_KYCLOGIC_rule_to_measures W g l r = Some j"
  then obtain js where "map_all (named_info W g l) names = Some js"
      "j = measures_object W js (r_is_and_combinator r) (r_verboten r)"
    using assms(3) by (auto simp: TALER_KYCLOGIC_rule_to_measures_def split: option.splits if_splits)
  then show "TALER_KYCLOGIC_select_measure R j i = selection g l names i"
    using select_named [OF assms(1,2)] by simp
next
  fix j i assume "TALER_KYCLOGIC_get_jmeasures W g l s = Some j"
  then obtain js b where "map_all (named_info W g l) toks = Some js"
      "j = measures_object W js b (list_ex is_impossible (snd (spec_names s)))"
    using assms(4) by (auto simp: TALER_KYCLOGIC_get_jmeasures_def split: option.splits prod.splits)
  then show "TALER_KYCLOGIC_select_measure R j i = selection g l toks i"
    using select_named [OF assms(1,2)] by simp
qed

section \<open>Limits of an account\<close>

lemma parse_limit_array: "kyc_codec R W \<Longrightarrow> parse_limit R cur (json_array_of W js) = None"
  by (simp add: parse_limit_def spec_kycte_def kyc_codecD)

text \<open>
  The limits of an account with rules of its own are lost. For the JSON object of a rule set,
  which is what callers pass, the function returns no limits whatever the rules are, and for a
  non-empty array of rules it fails.
\<close>

lemma kyc_account_limits_lost:
  assumes "kyc_codec R W"
  shows "TALER_KYCLOGIC_rules_to_limits R W g (Some (GNUNET_JSON_PACK W fs)) = Done (Some [])
    \<and> TALER_KYCLOGIC_rules_to_limits R W g (Some (json_array_of W (j # js))) = Done None"
  using assms by (simp add: TALER_KYCLOGIC_rules_to_limits_def kyc_codecD parse_limit_array)

section \<open>A sample library\<close>

datatype kyc_sample = KObject "(string \<times> kyc_sample kyc_packed) list" | KArray "kyc_sample list" | KText string

definition sample_field :: "(kyc_sample kyc_packed \<Rightarrow> 'a field) \<Rightarrow> kyc_sample \<Rightarrow> string \<Rightarrow> 'a field" where
  "sample_field f j n =
     (case j of
        KObject fs \<Rightarrow> (case map_of fs n of None \<Rightarrow> Missing | Some v \<Rightarrow> if v = Put_null then Missing else f v)
      | _ \<Rightarrow> Missing)"

fun packed_value :: "kyc_sample kyc_packed \<Rightarrow> kyc_sample" where
  "packed_value (Put_string s) = KText s"
| "packed_value (Put_array js) = KArray js"
| "packed_value (Put_object j) = j"
| "packed_value _ = KText []"

definition kyc_sample_reader :: "kyc_sample kyc_reader" where
  "kyc_sample_reader =
     \<lparr>json_array = (\<lambda>j. case j of KArray js \<Rightarrow> js | _ \<Rightarrow> []),
      spec_fixed = (\<lambda>j n. Missing), spec_sig = (\<lambda>j n. Missing),
      spec_string = sample_field (\<lambda>v. case v of Put_string s \<Rightarrow> Present s | _ \<Rightarrow> Malformed),
      spec_timestamp = sample_field (\<lambda>v. case v of Put_timestamp w \<Rightarrow> Present w | _ \<Rightarrow> Malformed),
      spec_uint64 = sample_field (\<lambda>v. case v of Put_uint64 w \<Rightarrow> Present w | _ \<Rightarrow> Malformed),
      spec_uint32 = sample_field (\<lambda>v. case v of Put_uint64 w \<Rightarrow> Present (ucast w) | _ \<Rightarrow> Malformed),
      spec_bool = sample_field (\<lambda>v. case v of Put_bool b \<Rightarrow> Present b | _ \<Rightarrow> Malformed),
      json_object_get = (\<lambda>j n. case j of KObject fs \<Rightarrow> map_option packed_value (map_of fs n) | _ \<Rightarrow> None),
      spec_scalar = sample_field (\<lambda>v. case v of Put_string s \<Rightarrow> Present (Is_string s) | _ \<Rightarrow> Present Is_other),
      spec_relative_time = sample_field (\<lambda>v. case v of Put_time_rel w \<Rightarrow> Present w | _ \<Rightarrow> Malformed),
      spec_array_const = sample_field (\<lambda>v. case v of Put_array js \<Rightarrow> Present js | _ \<Rightarrow> Malformed),
      spec_object_const = sample_field (\<lambda>v. case v of Put_object j \<Rightarrow> Present j | _ \<Rightarrow> Malformed),
      json_string_value = (\<lambda>j. case j of KText s \<Rightarrow> Some s | _ \<Rightarrow> None),
      json_object_items = (\<lambda>j. case j of KObject fs \<Rightarrow> map (map_prod id packed_value) fs | _ \<Rightarrow> []),
      json_is_object = (\<lambda>j. case j of KObject _ \<Rightarrow> True | _ \<Rightarrow> False)\<rparr>"

definition kyc_sample_writer :: "kyc_sample kyc_writer" where
  "kyc_sample_writer = \<lparr>GNUNET_JSON_PACK = KObject, json_array_of = KArray, json_string = (\<lambda>s. Some (KText s))\<rparr>"

lemma kyc_sample_codec: "kyc_codec kyc_sample_reader kyc_sample_writer"
  by (auto simp: kyc_codec_def kyc_sample_reader_def kyc_sample_writer_def sample_field_def kyc_absent_def)

definition sample_form :: "kyc_sample kyc_measure" where
  "sample_form =
     \<lparr>m_measure_name = ''Form'', m_check_name = ''form-id'', m_prog_name = ''judge'',
      m_context = Some (KObject []), m_voluntary = False\<rparr>"

definition sample_skip :: "kyc_sample kyc_measure" where
  "sample_skip =
     \<lparr>m_measure_name = ''freeze'', m_check_name = ''skip'', m_prog_name = ''stop'', m_context = None, m_voluntary = False\<rparr>"

definition sample_account :: "kyc_sample rule_set" where
  "sample_account = sample_set\<lparr>ls_custom_measures := [sample_form, sample_skip]\<rparr>"

lemma sample_account_measures:
  "measures_in sample_globals (Custom_rules sample_account) = {sample_form, sample_skip}"
  by (simp add: measures_in_def sample_account_def sample_globals_def sample_set_def)

theorem kyc_measures_roundtrip_witness:
  "TALER_KYCLOGIC_select_measure kyc_sample_reader
     (the (TALER_KYCLOGIC_get_jmeasures kyc_sample_writer sample_globals (Custom_rules sample_account) ''+FREEZE verboten form'')) 1
   = Inr (''form-id'', ''judge'', Some (KObject []))"
proof -
  let ?l = "Custom_rules sample_account" and ?r = "sample_rule 300 10 [''form'']"
  have objs: "\<forall>m\<in>measures_in sample_globals ?l. object_context kyc_sample_reader m"
    by (simp add: sample_account_measures object_context_def sample_form_def sample_skip_def kyc_sample_reader_def)
  have toks: "filter (\<lambda>n. \<not> is_impossible n) (snd (spec_names ''+FREEZE verboten form'')) = [''FREEZE'', ''form'']"
    by (simp add: spec_names_def strtok_def is_impossible_def KYC_MEASURE_IMPOSSIBLE_def strcaseeq_def c_tolower_def c_isupper_def)
  have found: "find_measure sample_globals ?l ''FREEZE'' = Some sample_skip" "find_measure sample_globals ?l ''form'' = Some sample_form"
    by (simp_all add: sample_account_def find_named_def sample_form_def sample_skip_def strcaseeq_def c_tolower_def c_isupper_def
        char_of_def bit_0)
  note all = kyc_measures_roundtrip [OF kyc_sample_codec objs refl refl,
      where r = "?r" and s = "''+FREEZE verboten form''", unfolded toks]
  have "TALER_KYCLOGIC_get_jmeasures kyc_sample_writer sample_globals ?l ''+FREEZE verboten form'' \<noteq> None"
    using all found by simp
  then obtain j where j: "TALER_KYCLOGIC_get_jmeasures kyc_sample_writer sample_globals ?l ''+FREEZE verboten form'' = Some j"
    by blast
  then have "TALER_KYCLOGIC_select_measure kyc_sample_reader j 1 = selection sample_globals ?l [''FREEZE'', ''form''] 1"
    using all by blast
  then show ?thesis using j found by (simp add: selection_def measure_data_def sample_form_def)
qed

end
