(* ===== verification/Kyc_Init.thy ===== *)
theory Kyc_Init
  imports Kyc_Measures "HOL-Library.Multiset"
begin

text \<open>
  Loading the configuration of the KYC logic: \<^verbatim>\<open>TALER_KYCLOGIC_kyc_init\<close> of
  \<^verbatim>\<open>src/src/kyclogic/kyclogic_api.c\<close> with the sections it reads (providers, checks, rules, programs,
  measures) and the checks it makes. The configuration, the plugins, the output of programs and the
  sorting function of the C library are parameters. A configuration that is accepted is sound: rules
  name measures that exist, measures have their check and program, and every fallback measure can
  run without input. The JSON form of the default rules is not accepted as a rule set.
\<close>

unbundle bit_operations_syntax

section \<open>Parameters\<close>

record 'j kyc_environment =
  get_value_string :: "string \<Rightarrow> string \<Rightarrow> string option"
  get_value_yesno :: "string \<Rightarrow> string \<Rightarrow> generic_return"
  get_value_time :: "string \<Rightarrow> string \<Rightarrow> 64 word option"
  config_sections :: "string list"
  plugin_load :: "string \<Rightarrow> handle option"
  load_configuration :: "handle \<Rightarrow> string \<Rightarrow> handle option"
  run_command :: "string list \<Rightarrow> string option"
  json_loads :: "string \<Rightarrow> 'j option"
  qsort_rules :: "(kyc_rule \<Rightarrow> kyc_rule \<Rightarrow> int) \<Rightarrow> kyc_rule list \<Rightarrow> kyc_rule list"

section \<open>Providers\<close>

definition section_name :: "string \<Rightarrow> string \<Rightarrow> string" where
  "section_name prefix section = drop (length prefix) section"

definition load_logic :: "'j kyc_environment \<Rightarrow> 'j kyc_globals \<Rightarrow> string \<Rightarrow> (kyc_plugin \<times> 'j kyc_globals) option" where
  "load_logic E g name =
     (let lib_name = ''libtaler_plugin_kyclogic_'' @ name in
      case List.find (\<lambda>lp. strcaseeq lib_name (lp_library_name lp)) (kyc_logics g) of
        Some lp \<Rightarrow> Some (lp, g)
      | None \<Rightarrow>
          (case plugin_load E lib_name of
             None \<Rightarrow> None
           | Some h \<Rightarrow>
               let lp = \<lparr>lp_library_name = lib_name, lp_name = name, lp_handle = h\<rparr>
               in Some (lp, g\<lparr>kyc_logics := kyc_logics g @ [lp]\<rparr>)))"

text \<open>The tables change also when a later step of a section fails: the plugin stays loaded.\<close>

definition add_provider :: "'j kyc_environment \<Rightarrow> 'j kyc_globals \<Rightarrow> string \<Rightarrow> bool \<times> 'j kyc_globals" where
  "add_provider E g sect =
     (case get_value_string E sect ''LOGIC'' of
        None \<Rightarrow> (False, g)
      | Some logic \<Rightarrow>
          (case load_logic E g logic of
             None \<Rightarrow> (False, g)
           | Some (lp, g1) \<Rightarrow>
               (case load_configuration E (lp_handle lp) sect of
                  None \<Rightarrow> (False, g1)
                | Some pd \<Rightarrow>
                    (True, g1\<lparr>kyc_providers := kyc_providers g1 @
                       [\<lparr>kp_provider_name = section_name ''kyc-provider-'' sect, kp_logic = lp, kp_pd = pd\<rparr>]\<rparr>))))"

section \<open>Checks\<close>

definition add_tokens :: "string \<Rightarrow> string list" where
  "add_tokens s = strtok s [CHR '';'', CHR '' '', CHR 0x0A, CHR 0x09]"

definition i18n_field :: "string \<Rightarrow> bool" where
  "i18n_field f \<longleftrightarrow>
     (length f = 2 \<and> list_all c_isalpha f)
     \<or> ((length f = 5 \<or> length f = 6)
         \<and> list_all c_isalpha (take 2 f) \<and> f ! 2 = CHR ''_'' \<and> list_all c_isalpha (drop 3 f))"

definition TALER_JSON_check_i18n :: "('j, 'x) kyc_reader_scheme \<Rightarrow> 'j \<Rightarrow> bool" where
  "TALER_JSON_check_i18n R j \<longleftrightarrow>
     json_is_object R j
     \<and> list_all (\<lambda>(f, m). json_string_value R m \<noteq> None \<and> i18n_field f) (json_object_items R j)"

text \<open>The type of a check; the union's details are filled in by the section.\<close>

datatype check_kind = CT_INFO | CT_LINK | CT_FORM

definition check_type_from_string :: "string \<Rightarrow> check_kind option" where
  "check_type_from_string s =
     map_option snd
       (List.find (\<lambda>(n, _). strcaseeq n s) [(''INFO'', CT_INFO), (''LINK'', CT_LINK), (''FORM'', CT_FORM)])"

definition check_details :: "'j kyc_environment \<Rightarrow> 'j kyc_globals \<Rightarrow> string \<Rightarrow> check_kind \<Rightarrow> check_type option" where
  "check_details E g sect kind =
     (case kind of
        CT_INFO \<Rightarrow> Some TALER_KYCLOGIC_CT_INFO
      | CT_FORM \<Rightarrow> map_option TALER_KYCLOGIC_CT_FORM (get_value_string E sect ''FORM_NAME'')
      | CT_LINK \<Rightarrow>
          (case get_value_string E sect ''PROVIDER_ID'' of
             None \<Rightarrow> None
           | Some p \<Rightarrow> map_option TALER_KYCLOGIC_CT_LINK (find_provider g p)))"

text \<open>The optional translations: \<open>None\<close> is the failure, \<open>Some None\<close> their absence.\<close>

definition check_i18n :: "('j, 'x) kyc_reader_scheme \<Rightarrow> 'j kyc_environment \<Rightarrow> string \<Rightarrow> 'j option option" where
  "check_i18n R E sect =
     (case get_value_string E sect ''DESCRIPTION_I18N'' of
        None \<Rightarrow> Some None
      | Some tmp \<Rightarrow>
          (case json_loads E tmp of
             None \<Rightarrow> None
           | Some j \<Rightarrow> if TALER_JSON_check_i18n R j then Some (Some j) else None))"

definition string_or_empty :: "string option \<Rightarrow> string" where
  "string_or_empty x = (case x of None \<Rightarrow> [] | Some s \<Rightarrow> s)"

definition new_check :: "('j, 'x) kyc_reader_scheme \<Rightarrow> 'j kyc_environment \<Rightarrow> 'j kyc_globals \<Rightarrow> string \<Rightarrow> 'j kyc_check option" where
  "new_check R E g sect =
     (if strcaseeq (section_name ''kyc-check-'' sect) ''SKIP'' then None
      else
        Option.bind (get_value_string E sect ''TYPE'') (\<lambda>type_s.
        Option.bind (check_type_from_string type_s) (\<lambda>ct.
        Option.bind (get_value_string E sect ''DESCRIPTION'') (\<lambda>descr.
        Option.bind (check_i18n R E sect) (\<lambda>i18n.
        Option.bind (get_value_string E sect ''FALLBACK'') (\<lambda>fb.
        Option.bind (check_details E g sect ct) (\<lambda>details.
          Some \<lparr>ck_check_name = section_name ''kyc-check-'' sect, ck_description = descr,
                ck_description_i18n = i18n,
                ck_requires = add_tokens (string_or_empty (get_value_string E sect ''REQUIRES'')),
                ck_fallback = fb,
                ck_outputs = add_tokens (string_or_empty (get_value_string E sect ''OUTPUTS'')),
                ck_type = details\<rparr>)))))))"

definition add_check :: "('j, 'x) kyc_reader_scheme \<Rightarrow> 'j kyc_environment \<Rightarrow> 'j kyc_globals \<Rightarrow> string \<Rightarrow> bool \<times> 'j kyc_globals" where
  "add_check R E g sect =
     (case new_check R E g sect of
        None \<Rightarrow> (False, g)
      | Some c \<Rightarrow> (True, g\<lparr>kyc_checks := kyc_checks g @ [c]\<rparr>))"

section \<open>Rules\<close>

definition TALER_config_get_amount :: "'j kyc_environment \<Rightarrow> string \<Rightarrow> string \<Rightarrow> generic_return \<times> amount" where
  "TALER_config_get_amount E sect opt =
     (case get_value_string E sect opt of
        None \<Rightarrow> (GNUNET_NO, invalidate)
      | Some s \<Rightarrow>
          (case TALER_string_to_amount s invalidate of
             (r, a) \<Rightarrow> if r \<noteq> GNUNET_OK then (GNUNET_SYSERR, a) else (GNUNET_OK, a)))"

definition rule_timeframe :: "'j kyc_environment \<Rightarrow> string \<Rightarrow> kyc_trigger \<Rightarrow> 64 word option" where
  "rule_timeframe E sect ot =
     (case get_value_time E sect ''TIMEFRAME'' of
        Some t \<Rightarrow> Some t
      | None \<Rightarrow> if ot = TALER_KYCLOGIC_KYC_TRIGGER_WALLET_BALANCE then Some 0 else None)"

definition new_rule :: "'j kyc_environment \<Rightarrow> string \<Rightarrow> kyc_rule option" where
  "new_rule E sect =
     (case TALER_config_get_amount E sect ''THRESHOLD'' of (r, threshold) \<Rightarrow>
        if r \<noteq> GNUNET_OK then None
        else
          let exposed = (get_value_yesno E sect ''EXPOSED'' = GNUNET_YES);
              ia = get_value_yesno E sect ''IS_AND_COMBINATOR''
          in if ia = GNUNET_SYSERR then None
             else
               Option.bind (get_value_string E sect ''OPERATION_TYPE'') (\<lambda>ot_s.
               Option.bind (TALER_KYCLOGIC_kyc_trigger_from_string ot_s) (\<lambda>ot.
               Option.bind (rule_timeframe E sect ot) (\<lambda>tf.
               Option.bind (get_value_string E sect ''NEXT_MEASURES'') (\<lambda>ms.
                 Some \<lparr>r_rule_name = Some (section_name ''kyc-rule-'' sect), r_timeframe = tf,
                       r_threshold = threshold, r_next_measures = add_tokens ms, r_display_priority = 0,
                       r_trigger = ot, r_is_and_combinator = (ia = GNUNET_YES), r_exposed = exposed,
                       r_verboten = list_ex is_impossible (add_tokens ms)\<rparr>)))))"

definition add_default_rule :: "kyc_rule \<Rightarrow> 'j kyc_globals \<Rightarrow> 'j kyc_globals" where
  "add_default_rule r g =
     g\<lparr>default_rules := (default_rules g)\<lparr>ls_kyc_rules := ls_kyc_rules (default_rules g) @ [r]\<rparr>\<rparr>"

definition add_rule :: "'j kyc_environment \<Rightarrow> 'j kyc_globals \<Rightarrow> string \<Rightarrow> bool \<times> 'j kyc_globals" where
  "add_rule E g sect =
     (if get_value_yesno E sect ''ENABLED'' \<noteq> GNUNET_YES then (True, g)
      else case new_rule E sect of
             None \<Rightarrow> (False, g)
           | Some r \<Rightarrow> (True, add_default_rule r g))"

section \<open>Programs\<close>

text \<open>
  Word splitting of a command: blanks are skipped and a word is scanned, until no word is found;
  the extra arguments follow.
\<close>

function split_command :: "string \<Rightarrow> string list" where
  "split_command s =
     (let s1 = dropWhile (\<lambda>c. c = CHR '' '') s;
          word = takeWhile (\<lambda>c. c \<noteq> CHR '' '') s1
      in if word = [] then [] else word # split_command (drop (length word) s1))"
  by pat_completeness auto
termination
proof (relation "measure length")
  fix s :: string and s1 word
  assume *: "s1 = dropWhile (\<lambda>c. c = CHR '' '') s" "word = takeWhile (\<lambda>c. c \<noteq> CHR '' '') s1" "word \<noteq> []"
  have "0 < length word" "length word \<le> length s1" using * by (auto simp: length_takeWhile_le)
  then have "length (drop (length word) s1) < length s1" unfolding length_drop by linarith
  also have "\<dots> \<le> length s" using * by (simp add: length_dropWhile_le)
  finally show "(drop (length word) s1, s) \<in> measure length" by simp
qed simp

declare split_command.simps [simp del]

definition split_words :: "string \<Rightarrow> string list \<Rightarrow> string list" where
  "split_words command extra_args = split_command command @ extra_args"

definition config_args :: "'j kyc_globals \<Rightarrow> string list" where
  "config_args g = ''-c'' # (case cfg_filename g of None \<Rightarrow> [] | Some f \<Rightarrow> [f])"

definition command_output :: "'j kyc_environment \<Rightarrow> 'j kyc_globals \<Rightarrow> string \<Rightarrow> string \<Rightarrow> string option" where
  "command_output E g command arg =
     map_option cstr (run_command E (split_words command (arg # config_args g)))"

text \<open>
  \<^verbatim>\<open>sscanf (dim, "[%lld]%c", ...)\<close>: the number of items that are assigned and the number. Text that
  does not match after the number ends the scan with one item.
\<close>

definition sscanf_dim :: "string \<Rightarrow> nat \<times> int" where
  "sscanf_dim dim =
     (let b = dropWhile c_isspace (drop 1 dim);
          neg = (take 1 b = ''-'');
          b1 = (if take 1 b = ''-'' \<or> take 1 b = ''+'' then drop 1 b else b);
          ds = takeWhile c_isdigit b1;
          rest = dropWhile c_isdigit b1;
          v = (if neg then - int (digits_value ds) else int (digits_value ds))
      in if ds = [] then (0, 0)
         else (if take 1 rest = '']'' \<and> 2 \<le> length rest then 2 else 1,
               max (- (2 ^ 63)) (min (2 ^ 63 - 1) v)))"

definition parse_dim :: "string \<Rightarrow> int \<Rightarrow> int option" where
  "parse_dim tok limit =
     (let dim = dropWhile (\<lambda>c. c \<noteq> CHR ''['') tok in
      if dim = [] then Some limit
      else case sscanf_dim dim of (n, v) \<Rightarrow> if n \<noteq> 1 then None else Some v)"

fun program_inputs :: "32 word \<times> int \<times> int \<Rightarrow> string list \<Rightarrow> (32 word \<times> int \<times> int) option" where
  "program_inputs st [] = Some st"
| "program_inputs (im, aml, kyc) (tok # toks) =
     (if strcaseeq tok ''context'' then program_inputs (im OR API_CONTEXT, aml, kyc) toks
      else if strcaseeq tok ''attributes'' then program_inputs (im OR API_ATTRIBUTES, aml, kyc) toks
      else if strcaseeq tok ''current_rules'' then program_inputs (im OR API_CURRENT_RULES, aml, kyc) toks
      else if strcaseeq tok ''default_rules'' then program_inputs (im OR API_DEFAULT_RULES, aml, kyc) toks
      else if strncaseeq tok ''aml_history'' 11 then
        Option.bind (parse_dim tok aml) (\<lambda>aml'. program_inputs (im OR API_AML_HISTORY, aml', kyc) toks)
      else if strncaseeq tok ''kyc_history'' 11 then
        Option.bind (parse_dim tok kyc) (\<lambda>kyc'. program_inputs (im OR API_KYC_HISTORY, aml, kyc') toks)
      else None)"

definition new_program :: "'j kyc_environment \<Rightarrow> 'j kyc_globals \<Rightarrow> string \<Rightarrow> aml_program option" where
  "new_program E g sect =
     Option.bind (get_value_string E sect ''COMMAND'') (\<lambda>command.
     Option.bind (get_value_string E sect ''DESCRIPTION'') (\<lambda>descr.
     Option.bind (get_value_string E sect ''FALLBACK'') (\<lambda>fb.
     Option.bind (command_output E g command ''-r'') (\<lambda>contexts.
     Option.bind (command_output E g command ''-a'') (\<lambda>attributes.
     Option.bind (command_output E g command ''-i'') (\<lambda>inputs.
     Option.bind (program_inputs (0, 2 ^ 63 - 1, 2 ^ 63 - 1)
                    (strtok inputs [CHR '';'', CHR 0x0A, CHR '' '', CHR 0x09])) (\<lambda>(im, aml, kyc).
       Some \<lparr>ap_program_name = section_name ''aml-program-'' sect, ap_command = command,
             ap_description = descr, ap_fallback = fb,
             ap_required_contexts = add_tokens contexts, ap_required_attributes = add_tokens attributes,
             ap_input_mask = im, ap_aml_history_length_limit = aml, ap_kyc_history_length_limit = kyc\<rparr>)))))))"

definition add_program :: "'j kyc_environment \<Rightarrow> 'j kyc_globals \<Rightarrow> string \<Rightarrow> bool \<times> 'j kyc_globals" where
  "add_program E g sect =
     (case new_program E g sect of
        None \<Rightarrow> (False, g)
      | Some p \<Rightarrow> (True, g\<lparr>aml_programs := aml_programs g @ [p]\<rparr>))"

section \<open>Measures\<close>

definition new_measure :: "'j kyc_environment \<Rightarrow> string \<Rightarrow> 'j kyc_measure option" where
  "new_measure E sect =
     (let check = (case get_value_string E sect ''CHECK_NAME'' of None \<Rightarrow> ''SKIP'' | Some s \<Rightarrow> s) in
      Option.bind (get_value_string E sect ''PROGRAM'') (\<lambda>program.
      Option.bind (get_value_string E sect ''CONTEXT'') (\<lambda>ctx_s.
      Option.bind (json_loads E ctx_s) (\<lambda>ctx.
        Some \<lparr>m_measure_name = section_name ''kyc-measure-'' sect, m_check_name = check,
              m_prog_name = program, m_context = Some ctx,
              m_voluntary = (get_value_yesno E sect ''VOLUNTARY'' = GNUNET_YES)\<rparr>))))"

definition add_measure :: "'j kyc_environment \<Rightarrow> 'j kyc_globals \<Rightarrow> string \<Rightarrow> bool \<times> 'j kyc_globals" where
  "add_measure E g sect =
     (case new_measure E sect of
        None \<Rightarrow> (False, g)
      | Some m \<Rightarrow>
          (True, g\<lparr>default_rules := (default_rules g)
                     \<lparr>ls_custom_measures := ls_custom_measures (default_rules g) @ [m]\<rparr>\<rparr>))"

section \<open>Loading the configuration\<close>

text \<open>The callbacks of the sections: those with the prefix are added, and a failure is remembered.\<close>

definition handle_section ::
  "string \<Rightarrow> ('j kyc_globals \<Rightarrow> string \<Rightarrow> bool \<times> 'j kyc_globals) \<Rightarrow> bool \<times> 'j kyc_globals \<Rightarrow> string \<Rightarrow> bool \<times> 'j kyc_globals" where
  "handle_section prefix add st sect =
     (case st of (ok, g) \<Rightarrow>
        if strncaseeq sect prefix (length prefix)
        then (case add g sect of (r, g') \<Rightarrow> (ok \<and> r, g'))
        else (ok, g))"

definition iterate_sections ::
  "'j kyc_environment \<Rightarrow> string \<Rightarrow> ('j kyc_globals \<Rightarrow> string \<Rightarrow> bool \<times> 'j kyc_globals) \<Rightarrow> bool \<times> 'j kyc_globals \<Rightarrow> bool \<times> 'j kyc_globals" where
  "iterate_sections E prefix add st = foldl (handle_section prefix add) st (config_sections E)"

definition TALER_config_get_currency :: "'j kyc_environment \<Rightarrow> string \<Rightarrow> string option" where
  "TALER_config_get_currency E sect =
     (case get_value_string E sect ''CURRENCY'' of
        None \<Rightarrow> None
      | Some s \<Rightarrow> if TALER_CURRENCY_LEN \<le> length s \<or> list_ex (\<lambda>c. \<not> c_isalpha c) s then None else Some s)"

definition sort_by_timeframe :: "kyc_rule \<Rightarrow> kyc_rule \<Rightarrow> int" where
  "sort_by_timeframe r1 r2 =
     (if r_timeframe r1 < r_timeframe r2 then -1 else if r_timeframe r1 > r_timeframe r2 then 1 else 0)"

text \<open>Shutting down keeps the default measures and the JSON of the default rules.\<close>

definition TALER_KYCLOGIC_kyc_done :: "'j kyc_globals \<Rightarrow> 'j kyc_globals" where
  "TALER_KYCLOGIC_kyc_done g =
     g\<lparr>default_rules := (default_rules g)\<lparr>ls_kyc_rules := []\<rparr>, kyc_providers := [], kyc_logics := [],
       kyc_checks := [], aml_programs := [], cfg_filename := None\<rparr>"

text \<open>
  The measures of a rule in JSON, one after the other: the forbidden one is left out, the names are
  compared exactly; a measure that does not exist is an error, a name that is not UTF-8 fails an
  assertion.
\<close>

fun rule_measures_json :: "'j kyc_writer \<Rightarrow> 'j kyc_globals \<Rightarrow> string list \<Rightarrow> 'j list option outcome" where
  "rule_measures_json W g [] = Done (Some [])"
| "rule_measures_json W g (n # ns) =
     (if n = KYC_MEASURE_IMPOSSIBLE then rule_measures_json W g ns
      else if find_measure g Default_rules n = None then Done None
      else obind (append_string W n) (\<lambda>j.
             and_then (rule_measures_json W g ns) (\<lambda>js. Done (Some (j # js)))))"

definition rule_json :: "'j kyc_writer \<Rightarrow> 'j kyc_globals \<Rightarrow> kyc_rule \<Rightarrow> 'j option outcome" where
  "rule_json W g r =
     and_then (rule_measures_json W g (r_next_measures r)) (\<lambda>measures.
       obind (put_amount (r_threshold r)) (\<lambda>a.
         Done (Some (GNUNET_JSON_PACK W
           [(''rule_name'', put_optional_string (r_rule_name r)),
            (''operation_type'', Put_string (TALER_JSON_pack_kycte (r_trigger r))),
            (''threshold'', a), (''timeframe'', Put_time_rel (r_timeframe r)),
            (''measures'', Put_array measures),
            (''display_priority'', Put_uint64 (ucast (r_display_priority r))),
            (''exposed'', Put_bool (r_exposed r)),
            (''is_and_combinator'', Put_bool (r_is_and_combinator r))]))))"

fun rules_json :: "'j kyc_writer \<Rightarrow> 'j kyc_globals \<Rightarrow> kyc_rule list \<Rightarrow> 'j list option outcome" where
  "rules_json W g [] = Done (Some [])"
| "rules_json W g (r # rs) =
     and_then (rule_json W g r) (\<lambda>j. and_then (rules_json W g rs) (\<lambda>js. Done (Some (j # js))))"

definition default_jlrs :: "'j kyc_writer \<Rightarrow> 'j list \<Rightarrow> 'j" where
  "default_jlrs W js =
     GNUNET_JSON_PACK W [(''expiration_time'', Put_timestamp (- 1)), (''rules'', Put_array js)]"

text \<open>A fallback measure exists, skips its check and has a program without input; its program is asserted.\<close>

definition check_fallback :: "'j kyc_globals \<Rightarrow> string \<Rightarrow> bool outcome" where
  "check_fallback g fb =
     (case find_measure g Default_rules fb of
        None \<Rightarrow> Done False
      | Some m \<Rightarrow>
          if \<not> skips_check m then Done False
          else case find_program g (m_prog_name m) of
                 None \<Rightarrow> Abort
               | Some p \<Rightarrow> Done (ap_input_mask p = 0))"

fun check_fallbacks :: "'j kyc_globals \<Rightarrow> string list \<Rightarrow> bool outcome" where
  "check_fallbacks g [] = Done True"
| "check_fallbacks g (fb # fbs) =
     obind (check_fallback g fb) (\<lambda>ok. if ok then check_fallbacks g fbs else Done False)"

definition load_sections :: "('j, 'x) kyc_reader_scheme \<Rightarrow> 'j kyc_environment \<Rightarrow> 'j kyc_globals \<Rightarrow> bool \<times> 'j kyc_globals" where
  "load_sections R E g =
     iterate_sections E ''kyc-measure-'' (add_measure E)
       (iterate_sections E ''aml-program-'' (add_program E)
         (iterate_sections E ''kyc-rule-'' (add_rule E)
           (iterate_sections E ''kyc-check-'' (add_check R E)
             (iterate_sections E ''kyc-provider-'' (add_provider E) (True, g)))))"

definition sort_default_rules :: "'j kyc_environment \<Rightarrow> 'j kyc_globals \<Rightarrow> 'j kyc_globals" where
  "sort_default_rules E g =
     (if ls_kyc_rules (default_rules g) = [] then g
      else g\<lparr>default_rules := (default_rules g)
               \<lparr>ls_kyc_rules := qsort_rules E sort_by_timeframe (ls_kyc_rules (default_rules g))\<rparr>\<rparr>)"

definition TALER_KYCLOGIC_kyc_init ::
  "('j, 'x) kyc_reader_scheme \<Rightarrow> 'j kyc_writer \<Rightarrow> 'j kyc_environment \<Rightarrow> 'j kyc_globals \<Rightarrow> string
     \<Rightarrow> (generic_return \<times> 'j kyc_globals) outcome" where
  "TALER_KYCLOGIC_kyc_init R W E g cfg_fn =
     (case TALER_config_get_currency E ''exchange'' of
        None \<Rightarrow> Abort
      | Some cur \<Rightarrow>
          (case load_sections R E (g\<lparr>cfg_filename := Some cfg_fn, my_currency := cur\<rparr>) of (ok, g1) \<Rightarrow>
             if \<not> ok then Done (GNUNET_SYSERR, TALER_KYCLOGIC_kyc_done g1)
             else
               let g2 = sort_default_rules E g1 in
               obind (rules_json W g2 (ls_kyc_rules (default_rules g2))) (\<lambda>jrules.
                 case jrules of
                   None \<Rightarrow> Done (GNUNET_SYSERR, g2)
                 | Some js \<Rightarrow>
                     let g3 = g2\<lparr>default_rules := (default_rules g2)\<lparr>ls_jlrs := Some (default_jlrs W js)\<rparr>\<rparr> in
                     if list_ex (\<lambda>m. \<not> check_measure R g3 m) (ls_custom_measures (default_rules g3))
                     then Done (GNUNET_SYSERR, g3)
                     else
                       obind (check_fallbacks g3 (map ap_fallback (aml_programs g3))) (\<lambda>ok1.
                         if \<not> ok1 then Done (GNUNET_SYSERR, g3)
                         else
                           obind (check_fallbacks g3 (map ck_fallback (kyc_checks g3))) (\<lambda>ok2.
                             Done (if ok2 then GNUNET_OK else GNUNET_SYSERR, g3))))))"

section \<open>Words and tokens\<close>

text \<open>The hand-written splitting agrees with \<^verbatim>\<open>strtok\<close> on blanks.\<close>

lemma tokens_from_word:
  "list_all (\<lambda>c. c \<notin> set sep) w \<Longrightarrow> tokens_from sep acc (w @ s) = tokens_from sep (rev w @ acc) s"
  by (induction w arbitrary: acc) auto

lemma tokens_from_skip: "tokens_from sep [] (dropWhile (\<lambda>c. c \<in> set sep) s) = tokens_from sep [] s"
  by (induction s) auto

lemma tokens_from_end: "acc \<noteq> [] \<Longrightarrow> s = [] \<or> s ! 0 \<in> set sep \<Longrightarrow> tokens_from sep acc s = rev acc # tokens_from sep [] s"
  by (cases s) auto

lemma split_command_strtok: "split_command s = strtok s '' ''"
proof (induction s rule: split_command.induct)
  case (1 s)
  define s1 word rest where "s1 = dropWhile (\<lambda>c. c = CHR '' '') s"
    and "word = takeWhile (\<lambda>c. c \<noteq> CHR '' '') s1" and "rest = drop (length word) s1"
  have s1: "s1 = word @ rest" "rest = dropWhile (\<lambda>c. c \<noteq> CHR '' '') s1"
    by (simp_all add: word_def rest_def flip: dropWhile_eq_drop)
  have rest: "rest = [] \<or> rest ! 0 \<in> set '' ''"
    using hd_dropWhile [of "\<lambda>c. c \<noteq> CHR '' ''" s1, folded s1(2)] by (cases "rest = []") (auto simp: hd_conv_nth)
  have skip: "strtok s '' '' = tokens_from '' '' [] s1"
    using tokens_from_skip [of "'' ''" s] by (simp add: strtok_def s1_def)
  show ?case
  proof (cases "word = []")
    case True
    moreover have "s1 = []"
      using True hd_dropWhile [of "\<lambda>c. c = CHR '' ''" s, folded s1_def]
      by (cases s1) (auto simp: word_def split: if_split_asm)
    moreover have "split_command s = []"
      using True by (subst split_command.simps) (simp add: Let_def s1_def word_def)
    ultimately show ?thesis using skip by simp
  next
    case False
    have "list_all (\<lambda>c. c \<notin> set '' '') word"
      by (auto simp: word_def list_all_iff dest: set_takeWhileD)
    then have "tokens_from '' '' [] s1 = word # tokens_from '' '' [] rest"
      using tokens_from_word [of "'' ''" word "[]" rest] tokens_from_end [of "rev word" rest "'' ''"] rest False s1(1)
      by simp
    moreover have "split_command s = word # split_command rest"
      using False by (subst split_command.simps) (simp add: Let_def s1_def word_def rest_def)
    moreover have "split_command rest = strtok rest '' ''"
      using 1 [OF s1_def word_def False] by (simp add: rest_def)
    ultimately show ?thesis using skip by (simp add: strtok_def)
  qed
qed

section \<open>A configuration that is accepted\<close>

text \<open>The default rules while sections are read: their thresholds are amounts and they know when they forbid.\<close>

definition default_rules_ok :: "'j kyc_globals \<Rightarrow> bool" where
  "default_rules_ok g \<longleftrightarrow>
     (\<forall>r\<in>set (ls_kyc_rules (default_rules g)).
        normal (r_threshold r) \<and> (r_verboten r \<longleftrightarrow> list_ex is_impossible (r_next_measures r)))"

lemma new_rule_ok:
  "new_rule E s = Some r \<Longrightarrow> normal (r_threshold r) \<and> (r_verboten r \<longleftrightarrow> list_ex is_impossible (r_next_measures r))"
  by (auto simp: new_rule_def TALER_config_get_amount_def Let_def Option.bind_eq_Some_conv
      intro: string_to_amount_normal split: prod.split_asm if_split_asm option.split_asm)

lemma handle_section_inv:
  assumes "\<And>g s. P g \<Longrightarrow> P (snd (add g s))" "P (snd st)"
  shows "P (snd (handle_section prefix add st s))"
proof -
  obtain ok g where st: "st = (ok, g)" by (cases st)
  then show ?thesis using assms(1) [of g s] assms(2) by (cases "add g s") (simp add: handle_section_def)
qed

lemma iterate_sections_inv:
  assumes "\<And>g s. P g \<Longrightarrow> P (snd (add g s))" "P (snd st)"
  shows "P (snd (iterate_sections E prefix add st))"
proof -
  have "P (snd (foldl (handle_section prefix add) st ss))" for ss
    using assms(2) handle_section_inv [of P add, OF assms(1)] by (induction ss arbitrary: st) auto
  then show ?thesis by (simp add: iterate_sections_def)
qed

lemma add_keeps_rules_ok:
  assumes "default_rules_ok g"
  shows "default_rules_ok (snd (add_provider E g s))" "default_rules_ok (snd (add_check R E g s))"
    "default_rules_ok (snd (add_rule E g s))" "default_rules_ok (snd (add_program E g s))"
    "default_rules_ok (snd (add_measure E g s))"
  using assms
  by (auto simp: default_rules_ok_def add_provider_def load_logic_def Let_def add_check_def add_rule_def
      add_default_rule_def add_program_def add_measure_def dest: new_rule_ok split: option.splits)

lemma load_sections_rules_ok: "default_rules_ok g \<Longrightarrow> default_rules_ok (snd (load_sections R E g))"
  unfolding load_sections_def
  by (rule iterate_sections_inv [where P = default_rules_ok], erule add_keeps_rules_ok)+ simp

definition fallback_usable :: "'j kyc_globals \<Rightarrow> string \<Rightarrow> bool" where
  "fallback_usable g fb \<longleftrightarrow>
     (\<exists>m p. find_measure g Default_rules fb = Some m \<and> skips_check m
            \<and> find_program g (m_prog_name m) = Some p \<and> ap_input_mask p = 0)"

definition config_sound :: "('j, 'x) kyc_reader_scheme \<Rightarrow> 'j kyc_globals \<Rightarrow> bool" where
  "config_sound R g \<longleftrightarrow>
     default_rules_ok g \<and> sorted (map r_timeframe (ls_kyc_rules (default_rules g)))
     \<and> (\<forall>r\<in>set (ls_kyc_rules (default_rules g)). \<forall>n\<in>set (r_next_measures r).
          n = KYC_MEASURE_IMPOSSIBLE \<or> find_measure g Default_rules n \<noteq> None)
     \<and> (\<forall>m\<in>set (ls_custom_measures (default_rules g)). check_measure R g m)
     \<and> (\<forall>p\<in>set (aml_programs g). fallback_usable g (ap_fallback p))
     \<and> (\<forall>c\<in>set (kyc_checks g). fallback_usable g (ck_fallback c))"

definition qsort_sorts :: "'j kyc_environment \<Rightarrow> bool" where
  "qsort_sorts E \<longleftrightarrow>
     (\<forall>xs. mset (qsort_rules E sort_by_timeframe xs) = mset xs
           \<and> sorted_wrt (\<lambda>r1 r2. sort_by_timeframe r1 r2 \<le> 0) (qsort_rules E sort_by_timeframe xs))"

lemma sort_by_timeframe_sorted:
  "sorted_wrt (\<lambda>r1 r2. sort_by_timeframe r1 r2 \<le> 0) xs \<longleftrightarrow> sorted (map r_timeframe xs)"
proof -
  have "sort_by_timeframe r1 r2 \<le> 0 \<longleftrightarrow> r_timeframe r1 \<le> r_timeframe r2" for r1 r2
    by (auto simp: sort_by_timeframe_def)
  then show ?thesis by (simp add: sorted_wrt_map)
qed

lemma sort_default_rules_ok:
  assumes "qsort_sorts E" "default_rules_ok g"
  shows "default_rules_ok (sort_default_rules E g)"
    "sorted (map r_timeframe (ls_kyc_rules (default_rules (sort_default_rules E g))))"
proof -
  have "set (qsort_rules E sort_by_timeframe xs) = set xs" for xs
    using assms(1) unfolding qsort_sorts_def by (metis mset_eq_setD)
  then show "default_rules_ok (sort_default_rules E g)"
    using assms(2) by (simp add: default_rules_ok_def sort_default_rules_def)
  show "sorted (map r_timeframe (ls_kyc_rules (default_rules (sort_default_rules E g))))"
    using assms(1) by (simp add: sort_default_rules_def qsort_sorts_def sort_by_timeframe_sorted)
qed

text \<open>The names of measures that the rules list can be written in JSON.\<close>

definition encodable_names :: "'j kyc_writer \<Rightarrow> 'j kyc_globals \<Rightarrow> bool" where
  "encodable_names W g \<longleftrightarrow>
     (\<forall>r\<in>set (ls_kyc_rules (default_rules g)). \<forall>n\<in>set (r_next_measures r). json_string W n \<noteq> None)"

definition utf8_measures :: "'j kyc_writer \<Rightarrow> 'j kyc_environment \<Rightarrow> bool" where
  "utf8_measures W E \<longleftrightarrow>
     (\<forall>sect ms n. get_value_string E sect ''NEXT_MEASURES'' = Some ms \<longrightarrow> n \<in> set (add_tokens ms) \<longrightarrow> json_string W n \<noteq> None)"

lemma new_rule_encodable:
  "utf8_measures W E \<Longrightarrow> new_rule E s = Some r \<Longrightarrow> n \<in> set (r_next_measures r) \<Longrightarrow> json_string W n \<noteq> None"
  unfolding utf8_measures_def
  by (auto simp: new_rule_def Let_def Option.bind_eq_Some_conv split: prod.split_asm if_split_asm option.split_asm)

lemma add_keeps_encodable:
  assumes "encodable_names W g"
  shows "encodable_names W (snd (add_provider E g s))" "encodable_names W (snd (add_check R E g s))"
    "utf8_measures W E \<Longrightarrow> encodable_names W (snd (add_rule E g s))" "encodable_names W (snd (add_program E g s))"
    "encodable_names W (snd (add_measure E g s))"
  using assms new_rule_encodable [of W E]
  by (auto simp: encodable_names_def add_provider_def load_logic_def Let_def add_check_def add_rule_def
      add_default_rule_def add_program_def add_measure_def split: option.splits)

lemma load_sections_encodable:
  assumes "utf8_measures W E" "encodable_names W g"
  shows "encodable_names W (snd (load_sections R E g))"
  unfolding load_sections_def using add_keeps_encodable(3) [OF _ assms(1)] assms(2)
  by (intro iterate_sections_inv [where P = "encodable_names W"]) (simp_all add: add_keeps_encodable)

lemma sort_encodable:
  assumes "qsort_sorts E" "encodable_names W g"
  shows "encodable_names W (sort_default_rules E g)"
proof -
  have "set (qsort_rules E sort_by_timeframe xs) = set xs" for xs
    using assms(1) unfolding qsort_sorts_def by (metis mset_eq_setD)
  then show ?thesis using assms(2) by (simp add: encodable_names_def sort_default_rules_def)
qed

text \<open>Writing the rules does not fail, and finds their measures if it succeeds.\<close>

lemma rule_measures_ok:
  assumes "\<forall>n\<in>set ns. json_string W n \<noteq> None"
  shows "\<exists>x. rule_measures_json W g ns = Done x
           \<and> (x \<noteq> None \<longrightarrow> (\<forall>n\<in>set ns. n = KYC_MEASURE_IMPOSSIBLE \<or> find_measure g Default_rules n \<noteq> None))"
  using assms
proof (induction ns)
  case (Cons n ns)
  then obtain x where x: "rule_measures_json W g ns = Done x"
      "x \<noteq> None \<longrightarrow> (\<forall>n\<in>set ns. n = KYC_MEASURE_IMPOSSIBLE \<or> find_measure g Default_rules n \<noteq> None)" by auto
  obtain j where "json_string W n = Some j" using Cons.prems by auto
  then show ?case using x by (cases x) (auto simp: append_string_def)
qed simp

lemma rules_json_ok:
  assumes "\<forall>r\<in>set rs. normal (r_threshold r) \<and> (\<forall>n\<in>set (r_next_measures r). json_string W n \<noteq> None)"
  shows "\<exists>x. rules_json W g rs = Done x
           \<and> (x \<noteq> None \<longrightarrow> (\<forall>r\<in>set rs. \<forall>n\<in>set (r_next_measures r).
                n = KYC_MEASURE_IMPOSSIBLE \<or> find_measure g Default_rules n \<noteq> None))"
  using assms
proof (induction rs)
  case (Cons r rs)
  have p: "put_amount (r_threshold r) = Done (Put_string (amount_text (currency (r_threshold r)) (units (r_threshold r))) :: 'a kyc_packed)"
    using Cons.prems by (simp add: put_amount_def to_string_representable normal_representable)
  obtain ms where ms: "rule_measures_json W g (r_next_measures r) = Done ms"
      "ms \<noteq> None \<longrightarrow> (\<forall>n\<in>set (r_next_measures r). n = KYC_MEASURE_IMPOSSIBLE \<or> find_measure g Default_rules n \<noteq> None)"
    using rule_measures_ok [of "r_next_measures r" W g] Cons.prems by auto
  obtain x where x: "rules_json W g rs = Done x" "x \<noteq> None \<longrightarrow> (\<forall>r\<in>set rs. \<forall>n\<in>set (r_next_measures r).
                n = KYC_MEASURE_IMPOSSIBLE \<or> find_measure g Default_rules n \<noteq> None)"
    using Cons by auto
  have "\<exists>y. rule_json W g r = Done y \<and> (y \<noteq> None \<longrightarrow> ms \<noteq> None)"
    using ms(1) by (cases ms) (simp_all add: rule_json_def p)
  then obtain y where y: "rule_json W g r = Done y" "y \<noteq> None \<longrightarrow> ms \<noteq> None" by blast
  show ?case
    using y x ms(2) by (cases y; cases x) auto
qed simp

lemma check_fallbacks_ok:
  assumes "\<forall>m\<in>set (ls_custom_measures (default_rules g)). check_measure R g m"
  shows "\<exists>ok. check_fallbacks g fbs = Done ok \<and> (ok \<longrightarrow> (\<forall>fb\<in>set fbs. fallback_usable g fb))"
proof (induction fbs)
  case (Cons fb fbs)
  have "\<exists>ok. check_fallback g fb = Done ok \<and> (ok \<longrightarrow> fallback_usable g fb)"
  proof (cases "find_measure g Default_rules fb")
    case (Some m)
    then have "m \<in> set (ls_custom_measures (default_rules g))"
      using find_measure_in [OF Some] by (simp add: measures_in_def)
    then obtain p where "find_program g (m_prog_name m) = Some p"
      using check_measure_found(1) assms by blast
    then show ?thesis using Some by (cases "skips_check m") (auto simp: check_fallback_def fallback_usable_def)
  qed (auto simp: check_fallback_def)
  then show ?case using Cons by auto
qed auto

lemma kyc_init_result:
  assumes "qsort_sorts E" "ls_kyc_rules (default_rules g) = []" "TALER_config_get_currency E ''exchange'' = Some cur"
    and "utf8_measures W E"
  shows "\<exists>r g'. TALER_KYCLOGIC_kyc_init R W E g cfg_fn = Done (r, g')
           \<and> (r = GNUNET_OK \<longrightarrow> config_sound R g')"
proof -
  let ?g0 = "g\<lparr>cfg_filename := Some cfg_fn, my_currency := cur\<rparr>"
  obtain ok g1 where g1: "load_sections R E ?g0 = (ok, g1)" by (cases "load_sections R E ?g0")
  have ok1: "default_rules_ok g1"
    using load_sections_rules_ok [of ?g0 R E] assms(2) g1 by (simp add: default_rules_ok_def)
  define g2 where "g2 = sort_default_rules E g1"
  note ok2 = sort_default_rules_ok [OF assms(1) ok1, folded g2_def]
  have "encodable_names W g1"
    using load_sections_encodable [OF assms(4), of ?g0 R] assms(2) g1 by (simp add: encodable_names_def)
  then have enc: "encodable_names W g2" unfolding g2_def by (rule sort_encodable [OF assms(1)])
  obtain x where x: "rules_json W g2 (ls_kyc_rules (default_rules g2)) = Done x"
      "x \<noteq> None \<longrightarrow> (\<forall>r\<in>set (ls_kyc_rules (default_rules g2)). \<forall>n\<in>set (r_next_measures r).
          n = KYC_MEASURE_IMPOSSIBLE \<or> find_measure g2 Default_rules n \<noteq> None)"
    using rules_json_ok [of "ls_kyc_rules (default_rules g2)" W g2] ok2(1) enc by (auto simp: default_rules_ok_def encodable_names_def)
  define g3 where "g3 = (\<lambda>js. g2\<lparr>default_rules := (default_rules g2)\<lparr>ls_jlrs := Some (default_jlrs W js)\<rparr>\<rparr>)"
  show ?thesis
  proof (cases "ok \<and> x \<noteq> None \<and> list_all (check_measure R (g3 (the x))) (ls_custom_measures (default_rules (g3 (the x))))")
    case False
    then show ?thesis
      using assms(3) g1 x(1)
      by (auto simp: TALER_KYCLOGIC_kyc_init_def Let_def g2_def g3_def list_all_iff list_ex_iff split: option.split)
  next
    case True
    then obtain js where js: "x = Some js" by auto
    have cm: "\<forall>m\<in>set (ls_custom_measures (default_rules (g3 js))). check_measure R (g3 js) m"
      using True js by (simp add: list_all_iff)
    obtain b1 b2 where b: "check_fallbacks (g3 js) (map ap_fallback (aml_programs (g3 js))) = Done b1"
        "b1 \<longrightarrow> (\<forall>p\<in>set (aml_programs (g3 js)). fallback_usable (g3 js) (ap_fallback p))"
        "check_fallbacks (g3 js) (map ck_fallback (kyc_checks (g3 js))) = Done b2"
        "b2 \<longrightarrow> (\<forall>c\<in>set (kyc_checks (g3 js)). fallback_usable (g3 js) (ck_fallback c))"
      using check_fallbacks_ok [OF cm, of "map ap_fallback (aml_programs (g3 js))"]
        check_fallbacks_ok [OF cm, of "map ck_fallback (kyc_checks (g3 js))"] by auto
    have "list_ex (\<lambda>m. \<not> check_measure R (g3 js) m) (ls_custom_measures (default_rules (g3 js))) = False"
      using cm by (auto simp: list_ex_iff)
    then have init: "TALER_KYCLOGIC_kyc_init R W E g cfg_fn
        = Done (if b1 \<and> b2 then GNUNET_OK else GNUNET_SYSERR, g3 js)"
      using assms(3) g1 x(1) js b True
      by (simp add: TALER_KYCLOGIC_kyc_init_def Let_def g3_def flip: g2_def)
    have "default_rules_ok (g3 js)" "sorted (map r_timeframe (ls_kyc_rules (default_rules (g3 js))))"
      using ok2 by (simp_all add: g3_def default_rules_ok_def)
    moreover have "find_measure (g3 js) Default_rules n = find_measure g2 Default_rules n" for n
      by (simp add: g3_def)
    ultimately have "config_sound R (g3 js)" if "b1 \<and> b2"
      using that x(2) js cm b by (simp add: config_sound_def) (simp add: g3_def)
    then show ?thesis using init by (auto split: if_split_asm)
  qed
qed

text \<open>What a sound configuration gives the requests: every measure of a rule can be taken.\<close>

lemma requirement_exists:
  assumes "\<forall>m\<in>measures_in g l. check_measure R g m" "l \<noteq> Null_rules" "\<not> r_verboten r" "n \<in> set (r_next_measures r)"
  shows "TALER_KYCLOGIC_requirements_to_check g l (Some r) (Some n) = None \<longleftrightarrow> find_measure g l n = None"
proof -
  have "list_ex (strcaseeq n) (r_next_measures r)" using assms(4) by (auto simp: list_ex_iff intro!: bexI [of _ n])
  moreover have "measure_check g m \<noteq> None" if "find_measure g l n = Some m" for m
    using check_measure_found(2) assms(1) find_measure_in [OF that] by blast
  ultimately show ?thesis using assms(2,3)
    by (auto simp: TALER_KYCLOGIC_requirements_to_check_def Let_def split: option.split)
qed

lemma measures_in_default: "measures_in g Default_rules = set (ls_custom_measures (default_rules g))"
  by (simp add: measures_in_def)

lemma impossible_impossible: "is_impossible KYC_MEASURE_IMPOSSIBLE"
  by (simp add: is_impossible_def)

lemma sound_rule_usable:
  assumes "config_sound R g" "r \<in> set (ls_kyc_rules (default_rules g))" "\<not> r_verboten r"
  shows "TALER_KYCLOGIC_rule_to_measures W g Default_rules r \<noteq> None"
    "\<forall>n\<in>set (r_next_measures r). TALER_KYCLOGIC_requirements_to_check g Default_rules (Some r) (Some n) \<noteq> None"
proof -
  have found: "find_measure g Default_rules n \<noteq> None" if "n \<in> set (r_next_measures r)" for n
  proof -
    have "\<not> list_ex is_impossible (r_next_measures r)"
      using assms by (auto simp: config_sound_def default_rules_ok_def)
    then have "n \<noteq> KYC_MEASURE_IMPOSSIBLE" using that impossible_impossible by (auto simp: list_ex_iff)
    then show ?thesis using assms(1,2) that unfolding config_sound_def by blast
  qed
  have "map_all (named_info W g Default_rules) (r_next_measures r) \<noteq> None"
    unfolding named_info_None using found by blast
  then show "TALER_KYCLOGIC_rule_to_measures W g Default_rules r \<noteq> None"
    using assms(3) by (auto simp: TALER_KYCLOGIC_rule_to_measures_def)
  have "\<forall>m\<in>measures_in g Default_rules. check_measure R g m"
    using assms(1) by (simp add: measures_in_default config_sound_def)
  then show "\<forall>n\<in>set (r_next_measures r). TALER_KYCLOGIC_requirements_to_check g Default_rules (Some r) (Some n) \<noteq> None"
    using requirement_exists [of g Default_rules R r] assms(3) found by blast
qed

text \<open>
  C36: loading the configuration. On fresh tables, with a currency, with a \<^verbatim>\<open>qsort\<close> that sorts and with
  names of measures in UTF-8, no assertion of \<^verbatim>\<open>TALER_KYCLOGIC_kyc_init\<close> fails; if it succeeds, the
  default rules are sorted and name measures that exist, every measure has its check, program and
  context, and every fallback of a program or check is a measure without check whose program needs
  no input. Then every measure of a default rule that does not forbid the operation can be
  offered and taken. (Without a currency, or with the name of a measure that is not UTF-8, the function
  does abort.)
\<close>

theorem kyc_init_sound:
  assumes "qsort_sorts E" "ls_kyc_rules (default_rules g) = []" "TALER_config_get_currency E ''exchange'' = Some cur"
    and "utf8_measures W E"
  shows "\<exists>r g'. TALER_KYCLOGIC_kyc_init R W E g cfg_fn = Done (r, g')
    \<and> (r = GNUNET_OK \<longrightarrow> config_sound R g'
        \<and> (\<forall>rule\<in>set (ls_kyc_rules (default_rules g')). \<not> r_verboten rule \<longrightarrow>
             TALER_KYCLOGIC_rule_to_measures W g' Default_rules rule \<noteq> None
             \<and> (\<forall>n\<in>set (r_next_measures rule).
                  TALER_KYCLOGIC_requirements_to_check g' Default_rules (Some rule) (Some n) \<noteq> None)))"
  using kyc_init_result [OF assms, of R cfg_fn] sound_rule_usable by metis

text \<open>
  C37: a rule set that is parsed under a sound configuration is well-formed: thresholds are amounts in
  the currency of the exchange, a rule forbids exactly if it lists the forbidden measure, and
  each of its measures, own or default, can be taken whenever a measure of the name exists.
\<close>

theorem kyc_parsed_rules_usable:
  assumes "config_sound R g" "TALER_KYCLOGIC_rules_parse R g j = Some l" "r \<in> set (ls_kyc_rules l)"
  shows "rule_sound (my_currency g) r
    \<and> (\<not> r_verboten r \<longrightarrow> (\<forall>n\<in>set (r_next_measures r).
         TALER_KYCLOGIC_requirements_to_check g (Custom_rules l) (Some r) (Some n) = None
         \<longleftrightarrow> (\<forall>m\<in>measures_in g (Custom_rules l). \<not> strcaseeq n (m_measure_name m))))"
proof -
  have "\<forall>m\<in>measures_in g (Custom_rules l). check_measure R g m"
    using assms(1) rules_parse_sound(2) [OF assms(2)] by (auto simp: measures_in_def config_sound_def)
  then show ?thesis
    using rules_parse_sound(1) [OF assms(2)] assms(3) requirement_exists [of g "Custom_rules l" R r]
    by (simp add: find_measure_None del: find_measure.simps)
qed

section \<open>The JSON of the default rules\<close>

lemma kyc_init_jlrs:
  assumes "TALER_KYCLOGIC_kyc_init R W E g cfg_fn = Done (GNUNET_OK, g')"
  shows "\<exists>g2 js. rules_json W g2 (ls_kyc_rules (default_rules g')) = Done (Some js)
           \<and> ls_jlrs (default_rules g') = Some (default_jlrs W js)
           \<and> ls_custom_measures (default_rules g2) = ls_custom_measures (default_rules g')"
proof -
  obtain cur where cur: "TALER_config_get_currency E ''exchange'' = Some cur"
    using assms by (auto simp: TALER_KYCLOGIC_kyc_init_def split: option.splits)
  obtain ok g1 where g1: "load_sections R E (g\<lparr>cfg_filename := Some cfg_fn, my_currency := cur\<rparr>) = (ok, g1)"
    by fastforce
  define g2 where "g2 = sort_default_rules E g1"
  obtain x where x: "ok" "rules_json W g2 (ls_kyc_rules (default_rules g2)) = Done x"
    using assms cur g1
    by (cases "rules_json W g2 (ls_kyc_rules (default_rules g2))")
       (auto simp: TALER_KYCLOGIC_kyc_init_def Let_def g2_def split: if_split_asm)
  then obtain js where js: "x = Some js"
    using assms cur g1 by (cases x) (auto simp: TALER_KYCLOGIC_kyc_init_def Let_def g2_def split: if_split_asm)
  have "g' = g2\<lparr>default_rules := (default_rules g2)\<lparr>ls_jlrs := Some (default_jlrs W js)\<rparr>\<rparr>"
    using assms cur g1 x js
    by (auto simp: TALER_KYCLOGIC_kyc_init_def Let_def obind_Done simp flip: g2_def split: if_split_asm)
  then show ?thesis using x js by auto
qed

lemma rules_json_element:
  assumes "rules_json W g rs = Done (Some js)" "j \<in> set js"
  shows "\<exists>r\<in>set rs. rule_json W g r = Done (Some j)"
  using assms
proof (induction rs arbitrary: js)
  case (Cons r rs)
  then obtain j1 js1 where "rule_json W g r = Done (Some j1)" "rules_json W g rs = Done (Some js1)" "js = j1 # js1"
    by (auto simp: and_then_Some)
  then show ?case using Cons by auto
qed simp

lemma rule_measures_back:
  assumes "kyc_codec R W" "rule_measures_json W g ns = Done (Some js)"
  shows "\<exists>names. parse_measure_names R js = Some (names, list_ex is_impossible names)
           \<and> (\<forall>n\<in>set names. find_measure g Default_rules n \<noteq> None)"
  using assms(2)
proof (induction ns arbitrary: js)
  case (Cons n ns)
  show ?case
  proof (cases "n = KYC_MEASURE_IMPOSSIBLE")
    case True
    then show ?thesis using Cons by simp
  next
    case False
    with Cons.prems obtain j js1 where j: "json_string W n = Some j" "rule_measures_json W g ns = Done (Some js1)"
        "js = j # js1" "find_measure g Default_rules n \<noteq> None"
      by (auto simp: append_string_def and_then_Some split: if_split_asm option.split_asm)
    obtain names where "parse_measure_names R js1 = Some (names, list_ex is_impossible names)"
        "\<forall>n\<in>set names. find_measure g Default_rules n \<noteq> None"
      using Cons.IH [OF j(2)] by blast
    then show ?thesis using j kyc_codecD(8) [OF assms(1) j(1)] by (intro exI [of _ "n # names"]) simp
  qed
qed simp

lemma rule_json_forgets_verboten:
  assumes "kyc_codec R W" "\<forall>m\<in>set (ls_custom_measures (default_rules g)). \<not> is_impossible (m_measure_name m)"
    and "rule_json W g r = Done (Some j)" "parse_rule R cur j = Some r'"
  shows "\<not> r_verboten r'"
proof -
  obtain js where js: "rule_measures_json W g (r_next_measures r) = Done (Some js)"
      "spec_array_const R j ''measures'' = Present js"
    using assms(3) by (auto simp: rule_json_def and_then_Some obind_Done kyc_codecD [OF assms(1)])
  obtain names where names: "parse_measure_names R js = Some (names, list_ex is_impossible names)"
      "\<forall>n\<in>set names. find_measure g Default_rules n \<noteq> None"
    using rule_measures_back [OF assms(1) js(1)] by blast
  have "\<not> is_impossible n" if n: "n \<in> set names" for n
  proof
    assume imp: "is_impossible n"
    obtain m where m: "m \<in> set (ls_custom_measures (default_rules g))" "strcaseeq n (m_measure_name m)"
      using names(2) n find_measure_in by (metis measures_in_default not_None_eq)
    then have "is_impossible (m_measure_name m)"
      using imp strcaseeq_trans strcaseeq_sym unfolding is_impossible_def by blast
    then show False using assms(2) m(1) by blast
  qed
  moreover have "r_verboten r' = list_ex is_impossible names"
    using assms(4) js(2) names(1) unfolding parse_rule_def parse_chain by auto
  ultimately show ?thesis by (auto simp: list_ex_iff)
qed

text \<open>
  C40: the JSON of the default rules, which programs are given as the default rules and as the current
  rules of accounts without rules of their own, is not a rule set: the parser always refuses it, for
  lack of measures. Its rules do not carry the prohibition either: read back, none of them
  forbids the operation, unless a measure has the reserved name.
\<close>

theorem kyc_default_rules_not_a_rule_set:
  assumes "kyc_codec R W" "TALER_KYCLOGIC_kyc_init R W E g cfg_fn = Done (GNUNET_OK, g')"
  shows "TALER_KYCLOGIC_rules_parse R g' (ls_jlrs (default_rules g')) = None
    \<and> (\<exists>js. ls_jlrs (default_rules g') = Some (default_jlrs W js)
         \<and> ((\<forall>m\<in>set (ls_custom_measures (default_rules g')). \<not> is_impossible (m_measure_name m)) \<longrightarrow>
              (\<forall>j\<in>set js. \<forall>r'. parse_rule R (my_currency g') j = Some r' \<longrightarrow> \<not> r_verboten r')))"
proof -
  obtain g2 js where js: "rules_json W g2 (ls_kyc_rules (default_rules g')) = Done (Some js)"
      "ls_jlrs (default_rules g') = Some (default_jlrs W js)"
      "ls_custom_measures (default_rules g2) = ls_custom_measures (default_rules g')"
    using kyc_init_jlrs [OF assms(2)] by blast
  have "spec_object_const R (default_jlrs W js) ''custom_measures'' = Missing"
    by (simp add: default_jlrs_def kyc_codecD [OF assms(1)] kyc_absent_def)
  then have "TALER_KYCLOGIC_rules_parse R g' (Some (default_jlrs W js)) \<noteq> Some l" for l
    unfolding TALER_KYCLOGIC_rules_parse_def parse_chain option.case by auto
  then have "TALER_KYCLOGIC_rules_parse R g' (ls_jlrs (default_rules g')) = None"
    using js(2) by (metis not_None_eq)
  moreover have "\<not> r_verboten r'"
    if "\<forall>m\<in>set (ls_custom_measures (default_rules g')). \<not> is_impossible (m_measure_name m)"
       "j \<in> set js" "parse_rule R (my_currency g') j = Some r'" for j r'
    using rules_json_element [OF js(1) that(2)] rule_json_forgets_verboten [OF assms(1) _ _ that(3)] that(1) js(3)
    by metis
  ultimately show ?thesis using js(2) by blast
qed

section \<open>A sample configuration\<close>

text \<open>One rule that forbids withdrawals, on top of the tables given.\<close>

definition sample_options :: "string \<Rightarrow> string \<Rightarrow> string option" where
  "sample_options sect opt =
     (if sect = ''exchange'' then (if opt = ''CURRENCY'' then Some ''EUR'' else None)
      else if opt = ''THRESHOLD'' then Some (amount_text EUR 500)
      else if opt = ''OPERATION_TYPE'' then Some ''WITHDRAW''
      else if opt = ''NEXT_MEASURES'' then Some ''verboten''
      else None)"

definition sample_environment :: "kyc_sample kyc_environment" where
  "sample_environment =
     \<lparr>get_value_string = sample_options, get_value_yesno = (\<lambda>_ _. GNUNET_YES), get_value_time = (\<lambda>_ _. Some 10),
      config_sections = [''exchange'', ''kyc-rule-stop''], plugin_load = (\<lambda>_. None), load_configuration = (\<lambda>_ _. None),
      run_command = (\<lambda>_. None), json_loads = (\<lambda>_. None), qsort_rules = (\<lambda>_. sort_key r_timeframe)\<rparr>"

definition fresh_globals :: "kyc_sample kyc_globals" where
  "fresh_globals =
     \<lparr>kyc_logics = [], kyc_providers = [], kyc_checks = [],
      default_rules = \<lparr>ls_expiration_time = 0, ls_successor_measure = None, ls_jlrs = None, ls_kyc_rules = [],
                       ls_custom_measures = []\<rparr>,
      aml_programs = [], cfg_filename = None, my_currency = []\<rparr>"

lemma sample_qsort: "qsort_sorts sample_environment"
  by (simp add: qsort_sorts_def sample_environment_def sort_by_timeframe_sorted)

lemma sample_currency: "TALER_config_get_currency sample_environment ''exchange'' = Some ''EUR''"
  by (simp add: TALER_config_get_currency_def sample_environment_def sample_options_def amount_consts
      c_isalpha_def c_isupper_def)

theorem kyc_init_sound_witness:
  "\<exists>r g'. TALER_KYCLOGIC_kyc_init kyc_sample_reader kyc_sample_writer sample_environment fresh_globals ''taler.conf'' = Done (r, g')
    \<and> (r = GNUNET_OK \<longrightarrow> config_sound kyc_sample_reader g'
        \<and> (\<forall>rule\<in>set (ls_kyc_rules (default_rules g')). \<not> r_verboten rule \<longrightarrow>
             TALER_KYCLOGIC_rule_to_measures kyc_sample_writer g' Default_rules rule \<noteq> None
             \<and> (\<forall>n\<in>set (r_next_measures rule).
                  TALER_KYCLOGIC_requirements_to_check g' Default_rules (Some rule) (Some n) \<noteq> None)))"
  by (rule kyc_init_sound [OF sample_qsort _ sample_currency])
     (simp_all add: fresh_globals_def utf8_measures_def kyc_sample_writer_def)

definition stop_rule :: kyc_rule where
  "stop_rule =
     \<lparr>r_rule_name = Some ''stop'', r_timeframe = 10, r_threshold = eur 500, r_next_measures = [''verboten''],
      r_display_priority = 0, r_trigger = TALER_KYCLOGIC_KYC_TRIGGER_WITHDRAW, r_is_and_combinator = True,
      r_exposed = True, r_verboten = True\<rparr>"

lemma sample_new_rule: "new_rule sample_environment ''kyc-rule-stop'' = Some stop_rule"
proof -
  have "TALER_config_get_amount sample_environment ''kyc-rule-stop'' ''THRESHOLD'' = (GNUNET_OK, eur 500)"
    by (simp add: TALER_config_get_amount_def sample_environment_def sample_options_def
        string_to_amount_text [OF legal_EUR] eur_def amount_consts)
  moreover have "add_tokens ''verboten'' = [''verboten'']"
    by (simp add: add_tokens_def strtok_def)
  moreover have "TALER_KYCLOGIC_kyc_trigger_from_string ''WITHDRAW'' = Some TALER_KYCLOGIC_KYC_TRIGGER_WITHDRAW"
    by (simp add: TALER_KYCLOGIC_kyc_trigger_from_string_def)
  ultimately show ?thesis
    by (simp add: new_rule_def stop_rule_def)
       (simp add: sample_environment_def sample_options_def rule_timeframe_def section_name_def is_impossible_def
        KYC_MEASURE_IMPOSSIBLE_def)
qed

definition stop_globals :: "kyc_sample list \<Rightarrow> kyc_sample kyc_globals" where
  "stop_globals js =
     fresh_globals\<lparr>cfg_filename := Some ''taler.conf'', my_currency := ''EUR'',
       default_rules := (default_rules fresh_globals)
         \<lparr>ls_kyc_rules := [stop_rule], ls_jlrs := Some (default_jlrs kyc_sample_writer js)\<rparr>\<rparr>"

lemma sample_sections:
  "load_sections kyc_sample_reader sample_environment (fresh_globals\<lparr>cfg_filename := Some ''taler.conf'', my_currency := ''EUR''\<rparr>)
   = (True, fresh_globals\<lparr>cfg_filename := Some ''taler.conf'', my_currency := ''EUR'',
        default_rules := (default_rules fresh_globals)\<lparr>ls_kyc_rules := [stop_rule]\<rparr>\<rparr>)"
proof -
  have secs: "config_sections sample_environment = [''exchange'', ''kyc-rule-stop'']"
    and yes: "get_value_yesno sample_environment ''kyc-rule-stop'' ''ENABLED'' = GNUNET_YES"
    by (simp_all add: sample_environment_def)
  show ?thesis
    by (simp add: load_sections_def iterate_sections_def secs handle_section_def strncaseeq_def c_tolower_def
        c_isupper_def add_rule_def yes sample_new_rule add_default_rule_def fresh_globals_def)
qed

lemma sample_init:
  "\<exists>js. TALER_KYCLOGIC_kyc_init kyc_sample_reader kyc_sample_writer sample_environment fresh_globals ''taler.conf''
     = Done (GNUNET_OK, stop_globals js)"
proof -
  have q: "qsort_rules sample_environment sort_by_timeframe [stop_rule] = [stop_rule]"
    by (simp add: sample_environment_def)
  have n: "rule_measures_json kyc_sample_writer g (r_next_measures stop_rule) = Done (Some [])" for g :: "kyc_sample kyc_globals"
    by (simp add: stop_rule_def KYC_MEASURE_IMPOSSIBLE_def)
  have a: "put_amount (r_threshold stop_rule) = Done (Put_string (amount_text EUR 500) :: kyc_sample kyc_packed)"
    by (simp add: put_amount_def stop_rule_def to_string_representable amount_consts)
  show ?thesis
    by (simp add: TALER_KYCLOGIC_kyc_init_def sample_currency sample_sections sort_default_rules_def q Let_def
        rule_json_def n a) (auto simp: stop_globals_def fresh_globals_def q)
qed

theorem kyc_default_rules_not_a_rule_set_witness:
  "\<exists>g'. TALER_KYCLOGIC_kyc_init kyc_sample_reader kyc_sample_writer sample_environment fresh_globals ''taler.conf'' = Done (GNUNET_OK, g')
     \<and> TALER_KYCLOGIC_rules_parse kyc_sample_reader g' (ls_jlrs (default_rules g')) = None"
  using sample_init kyc_default_rules_not_a_rule_set [OF kyc_sample_codec, of sample_environment fresh_globals "''taler.conf''"]
  by blast

text \<open>A configuration with a measure that stops an account, and an account whose rules use it.\<close>

definition stop_program :: aml_program where
  "stop_program =
     \<lparr>ap_program_name = ''stop'', ap_command = ''stop'', ap_description = ''stop'', ap_fallback = ''freeze'',
      ap_required_contexts = [], ap_required_attributes = [], ap_input_mask = 0,
      ap_aml_history_length_limit = 0, ap_kyc_history_length_limit = 0\<rparr>"

definition sound_globals :: "kyc_sample kyc_globals" where
  "sound_globals =
     fresh_globals\<lparr>aml_programs := [stop_program], my_currency := ''EUR'',
       default_rules := (default_rules fresh_globals)\<lparr>ls_custom_measures := [sample_skip]\<rparr>\<rparr>"

definition freeze_rule :: kyc_sample where
  "freeze_rule =
     KObject [(''operation_type'', Put_string ''WITHDRAW''), (''threshold'', Put_string (amount_text EUR 500)),
              (''timeframe'', Put_time_rel 10), (''measures'', Put_array [KText ''freeze'']),
              (''display_priority'', Put_uint64 0)]"

definition freeze_account :: kyc_sample where
  "freeze_account =
     KObject [(''expiration_time'', Put_timestamp 7), (''rules'', Put_array [freeze_rule]),
              (''custom_measures'', Put_object (KObject []))]"

definition parsed_rule :: kyc_rule where
  "parsed_rule =
     \<lparr>r_rule_name = None, r_timeframe = 10, r_threshold = eur 500, r_next_measures = [''freeze''],
      r_display_priority = 0, r_trigger = TALER_KYCLOGIC_KYC_TRIGGER_WITHDRAW, r_is_and_combinator = False,
      r_exposed = False, r_verboten = False\<rparr>"

lemma sound_globals_measure: "find_measure sound_globals Default_rules ''freeze'' = Some sample_skip"
  by (simp add: sound_globals_def fresh_globals_def find_named_def sample_skip_def)

lemma sound_globals_program: "find_program sound_globals ''stop'' = Some stop_program"
  by (simp add: sound_globals_def fresh_globals_def find_program_def stop_program_def)

lemma sample_skips: "skips_check sample_skip"
  by (simp add: skips_check_def sample_skip_def strcaseeq_def c_tolower_def c_isupper_def char_of_def bit_0)

lemma sound_globals_sound: "config_sound kyc_sample_reader sound_globals"
proof -
  have "check_measure kyc_sample_reader sound_globals sample_skip"
    using sample_skips sound_globals_program
    by (simp add: check_measure_def skips_check_def) (simp add: sample_skip_def stop_program_def)
  moreover have "fallback_usable sound_globals ''freeze''"
    using sample_skips sound_globals_program sound_globals_measure
    by (simp add: fallback_usable_def del: find_measure.simps) (simp add: sample_skip_def stop_program_def)
  ultimately show ?thesis
    by (simp add: config_sound_def default_rules_ok_def) (simp add: sound_globals_def fresh_globals_def stop_program_def)
qed

lemma sample_rule_parsed: "parse_rule kyc_sample_reader ''EUR'' freeze_rule = Some parsed_rule"
proof -
  have "parse_amount (Some ''EUR'') (amount_text EUR 500) invalidate = Some (eur 500)"
    by (simp add: parse_amount_def string_to_amount_text [OF legal_EUR] eur_def amount_consts)
       (simp add: EUR_def is_cstring_def)
  then have "spec_amount kyc_sample_reader ''EUR'' freeze_rule ''threshold'' = Present (eur 500)"
    by (simp add: spec_amount_def kyc_sample_reader_def sample_field_def freeze_rule_def)
  moreover have "spec_kycte kyc_sample_reader freeze_rule ''operation_type'' = Present TALER_KYCLOGIC_KYC_TRIGGER_WITHDRAW"
    by (simp add: spec_kycte_def kyc_sample_reader_def sample_field_def freeze_rule_def kycte_table_def strcaseeq_def
        c_tolower_def c_isupper_def)
  ultimately show ?thesis
    by (simp add: parse_rule_def) (simp add: kyc_sample_reader_def sample_field_def freeze_rule_def parsed_rule_def
        is_impossible_def KYC_MEASURE_IMPOSSIBLE_def strcaseeq_def)
qed

lemma sample_account_parsed:
  "\<exists>l. TALER_KYCLOGIC_rules_parse kyc_sample_reader sound_globals (Some freeze_account) = Some l
       \<and> ls_kyc_rules l = [parsed_rule] \<and> ls_custom_measures l = []"
proof -
  have "my_currency sound_globals = ''EUR''" by (simp add: sound_globals_def)
  then show ?thesis
    by (simp add: TALER_KYCLOGIC_rules_parse_def freeze_account_def kyc_sample_reader_def sample_field_def
        sample_rule_parsed [unfolded kyc_sample_reader_def])
qed

theorem kyc_parsed_rules_usable_witness:
  "\<exists>l. TALER_KYCLOGIC_rules_parse kyc_sample_reader sound_globals (Some freeze_account) = Some l
       \<and> TALER_KYCLOGIC_requirements_to_check sound_globals (Custom_rules l) (Some parsed_rule) (Some ''freeze'') \<noteq> None"
proof -
  obtain l where l: "TALER_KYCLOGIC_rules_parse kyc_sample_reader sound_globals (Some freeze_account) = Some l"
      "ls_kyc_rules l = [parsed_rule]"
    using sample_account_parsed by blast
  have "sample_skip \<in> measures_in sound_globals (Custom_rules l)" "strcaseeq ''freeze'' (m_measure_name sample_skip)"
    "\<not> r_verboten parsed_rule" "''freeze'' \<in> set (r_next_measures parsed_rule)"
    by (simp_all add: measures_in_def sound_globals_def sample_skip_def parsed_rule_def)
  then show ?thesis
    using kyc_parsed_rules_usable [OF sound_globals_sound l(1), of parsed_rule] l by auto
qed

end
