(* ===== verification/Aml_Program.thy ===== *)
theory Aml_Program
  imports Kyc_Init
begin

text \<open>
  Running an AML program (\<^verbatim>\<open>TALER_KYCLOGIC_run_aml_program2\<close> and its callbacks in
  \<^verbatim>\<open>src/src/kyclogic/kyclogic_api.c\<close>). The program runs as a child process; its output, a timeout, or a
  timeout of the fallback that replaces it leads to a call of the client with the result, after which
  the handle is gone. The events are the exit of the process, the scheduler running the pending
  task, and the client cancelling. Starting a process is a parameter that tells whether it worked.
\<close>

section \<open>Results and state\<close>

datatype aml_error =
    TALER_EC_EXCHANGE_KYC_AML_PROGRAM_FAILURE
  | TALER_EC_EXCHANGE_KYC_AML_PROGRAM_MALFORMED_RESULT
  | TALER_EC_EXCHANGE_KYC_GENERIC_AML_PROGRAM_TIMEOUT
  | TALER_EC_EXCHANGE_KYC_GENERIC_PROVIDER_INCOMPLETE_REPLY
  | TALER_EC_EXCHANGE_KYC_GENERIC_PROVIDER_INCOMPLETE_CONTEXT

record 'j aml_success =
  s_to_investigate :: bool
  s_account_properties :: "'j option"
  s_events :: "string list"
  s_new_rules :: 'j
  s_expiration_time :: "64 word"

text \<open>A failure holds the fallback measure, a message and the code.\<close>

datatype 'j aml_result =
    TALER_KYCLOGIC_AMLR_FAILURE string string aml_error
  | TALER_KYCLOGIC_AMLR_SUCCESS "'j aml_success"

datatype aml_task = Async_return | Aml_timeout | Aml_timeout2

record 'j aml_handle =
  h_program :: aml_program
  h_proc :: "string list option"
  h_input :: "'j option"
  h_async_cb :: "aml_task option"
  h_apr :: "'j aml_result option"

section \<open>Starting a program\<close>

definition aml_input ::
  "'j kyc_writer \<Rightarrow> 'j option \<Rightarrow> 'j option \<Rightarrow> 'j option \<Rightarrow> 'j option \<Rightarrow> 'j list option \<Rightarrow> 'j list option \<Rightarrow> 'j" where
  "aml_input W current_rules jdefault ctx attributes aml_history kyc_history =
     GNUNET_JSON_PACK W
       [(''current_rules'', put_optional_object current_rules),
        (''default_rules'', put_optional_object jdefault),
        (''context'', put_optional_object ctx),
        (''attributes'', put_optional_object attributes),
        (''aml_history'', case aml_history of None \<Rightarrow> Put_null | Some js \<Rightarrow> Put_array js),
        (''kyc_history'', case kyc_history of None \<Rightarrow> Put_null | Some js \<Rightarrow> Put_array js)]"

definition wants :: "aml_program \<Rightarrow> 32 word \<Rightarrow> bool" where
  "wants p bit_mask \<longleftrightarrow> bit_mask AND ap_input_mask p \<noteq> 0"

definition failed_handle :: "aml_program \<Rightarrow> string \<Rightarrow> aml_error \<Rightarrow> 'j aml_handle" where
  "failed_handle p msg ec =
     \<lparr>h_program = p, h_proc = None, h_input = None, h_async_cb = Some Async_return,
      h_apr = Some (TALER_KYCLOGIC_AMLR_FAILURE (ap_fallback p) msg ec)\<rparr>"

text \<open>The callbacks of the caller are the values they return; only those that are wanted are called.\<close>

definition TALER_KYCLOGIC_run_aml_program2 ::
  "('j, 'x) kyc_reader_scheme \<Rightarrow> 'j kyc_writer \<Rightarrow> 'j kyc_globals \<Rightarrow> (string list \<Rightarrow> bool) \<Rightarrow> string \<Rightarrow> 'j option
     \<Rightarrow> 'j option \<Rightarrow> 'j option \<Rightarrow> 'j list option \<Rightarrow> 'j list option \<Rightarrow> 'j aml_handle option" where
  "TALER_KYCLOGIC_run_aml_program2 R W g start prog_name ctx attributes_cb rules_cb aml_cb kyc_cb =
     (case find_program g prog_name of
        None \<Rightarrow> None
      | Some p \<Rightarrow>
          (case (if wants p API_ATTRIBUTES
                 then List.find (\<lambda>a. context_get R attributes_cb a = None) (ap_required_attributes p) else None) of
             Some a \<Rightarrow> Some (failed_handle p a TALER_EC_EXCHANGE_KYC_GENERIC_PROVIDER_INCOMPLETE_REPLY)
           | None \<Rightarrow>
               (case (if wants p API_CONTEXT
                      then List.find (\<lambda>c. context_get R ctx c = None) (ap_required_contexts p) else None) of
                  Some c \<Rightarrow> Some (failed_handle p c TALER_EC_EXCHANGE_KYC_GENERIC_PROVIDER_INCOMPLETE_CONTEXT)
                | None \<Rightarrow>
                    let args = split_words (ap_command p) (config_args g);
                        input = aml_input W (if wants p API_CURRENT_RULES then rules_cb else None)
                                  (if wants p API_DEFAULT_RULES then ls_jlrs (default_rules g) else None)
                                  (if wants p API_CONTEXT then ctx else None)
                                  (if wants p API_ATTRIBUTES then attributes_cb else None)
                                  (if wants p API_AML_HISTORY then aml_cb else None)
                                  (if wants p API_KYC_HISTORY then kyc_cb else None)
                    in Some \<lparr>h_program = p, h_proc = (if start args then Some args else None),
                             h_input = Some input, h_async_cb = Some Aml_timeout, h_apr = None\<rparr>)))"

definition TALER_KYCLOGIC_run_aml_program ::
  "('j, 'x) kyc_reader_scheme \<Rightarrow> 'j kyc_writer \<Rightarrow> 'j kyc_globals \<Rightarrow> (string list \<Rightarrow> bool) \<Rightarrow> 'j \<Rightarrow> nat
     \<Rightarrow> 'j option \<Rightarrow> 'j option \<Rightarrow> 'j list option \<Rightarrow> 'j list option \<Rightarrow> 'j aml_handle option" where
  "TALER_KYCLOGIC_run_aml_program R W g start jmeasures i attributes_cb rules_cb aml_cb kyc_cb =
     (case TALER_KYCLOGIC_select_measure R jmeasures i of
        Inl _ \<Rightarrow> None
      | Inr (check, prog, ctx) \<Rightarrow>
          TALER_KYCLOGIC_run_aml_program2 R W g start prog ctx attributes_cb rules_cb aml_cb kyc_cb)"

definition TALER_KYCLOGIC_run_aml_program3 ::
  "('j, 'x) kyc_reader_scheme \<Rightarrow> 'j kyc_writer \<Rightarrow> 'j kyc_globals \<Rightarrow> (string list \<Rightarrow> bool) \<Rightarrow> 'j kyc_measure
     \<Rightarrow> 'j option \<Rightarrow> 'j option \<Rightarrow> 'j list option \<Rightarrow> 'j list option \<Rightarrow> 'j aml_handle option" where
  "TALER_KYCLOGIC_run_aml_program3 R W g start m attributes_cb rules_cb aml_cb kyc_cb =
     TALER_KYCLOGIC_run_aml_program2 R W g start (m_prog_name m) (m_context m) attributes_cb rules_cb aml_cb kyc_cb"

section \<open>The output of the process\<close>

definition output_field :: "('j \<Rightarrow> 'a field) \<Rightarrow> 'j option \<Rightarrow> 'a field" where
  "output_field f result = (case result of None \<Rightarrow> Missing | Some j \<Rightarrow> f j)"

text \<open>The fields of the output, or the name of the first one that does not parse.\<close>

definition parse_output ::
  "('j, 'x) kyc_reader_scheme \<Rightarrow> 'j option \<Rightarrow> string + bool option \<times> 'j option \<times> 'j list option \<times> 'j" where
  "parse_output R result =
     (case output_field (\<lambda>j. spec_bool R j ''to_investigate'') result of
        Malformed \<Rightarrow> Inl ''to_investigate''
      | investigate \<Rightarrow>
          (case output_field (\<lambda>j. spec_object_const R j ''properties'') result of
             Malformed \<Rightarrow> Inl ''properties''
           | props \<Rightarrow>
               (case output_field (\<lambda>j. spec_array_const R j ''events'') result of
                  Malformed \<Rightarrow> Inl ''events''
                | evs \<Rightarrow>
                    (case output_field (\<lambda>j. spec_object_const R j ''new_rules'') result of
                       Present rules \<Rightarrow>
                         Inr (case investigate of Present b \<Rightarrow> Some b | _ \<Rightarrow> None,
                              case props of Present j \<Rightarrow> Some j | _ \<Rightarrow> None,
                              case evs of Present js \<Rightarrow> Some js | _ \<Rightarrow> None, rules)
                     | _ \<Rightarrow> Inl ''new_rules''))))"

definition aml_output_result ::
  "('j, 'x) kyc_reader_scheme \<Rightarrow> 'j kyc_globals \<Rightarrow> aml_program \<Rightarrow> bool \<Rightarrow> nat \<Rightarrow> 'j option \<Rightarrow> 'j aml_result outcome" where
  "aml_output_result R g p exited status result =
     (if \<not> exited \<or> status \<noteq> 0
      then Done (TALER_KYCLOGIC_AMLR_FAILURE (ap_fallback p) ''AML program returned non-zero exit code''
                   TALER_EC_EXCHANGE_KYC_AML_PROGRAM_FAILURE)
      else case parse_output R result of
             Inl err \<Rightarrow> Done (TALER_KYCLOGIC_AMLR_FAILURE (ap_fallback p) err
                                 TALER_EC_EXCHANGE_KYC_AML_PROGRAM_MALFORMED_RESULT)
           | Inr (investigate, props, jevents, rules) \<Rightarrow>
               (let evs = (case jevents of None \<Rightarrow> [] | Some js \<Rightarrow> js) in
                gassert (length evs < 2 ^ 32)
                  (case map_all (json_string_value R) evs of
                     None \<Rightarrow> Done (TALER_KYCLOGIC_AMLR_FAILURE (ap_fallback p) ''events''
                                      TALER_EC_EXCHANGE_KYC_AML_PROGRAM_MALFORMED_RESULT)
                   | Some events \<Rightarrow>
                       (case TALER_KYCLOGIC_rules_parse R g (Some rules) of
                          None \<Rightarrow> Done (TALER_KYCLOGIC_AMLR_FAILURE (ap_fallback p) ''new_rules''
                                           TALER_EC_EXCHANGE_KYC_AML_PROGRAM_MALFORMED_RESULT)
                        | Some lrs \<Rightarrow>
                            Done (TALER_KYCLOGIC_AMLR_SUCCESS
                              \<lparr>s_to_investigate = (investigate = Some True), s_account_properties = props,
                               s_events = events, s_new_rules = rules,
                               s_expiration_time = ls_expiration_time lrs\<rparr>)))))"

section \<open>Callbacks\<close>

text \<open>
  A callback gives the handle it leaves, if any, and the results it passed to the client. The
  callbacks that pass a result also free the handle.
\<close>

type_synonym 'j aml_state = "'j aml_handle option \<times> 'j aml_result list"

definition handle_aml_output ::
  "('j, 'x) kyc_reader_scheme \<Rightarrow> 'j kyc_globals \<Rightarrow> 'j aml_handle \<Rightarrow> bool \<Rightarrow> nat \<Rightarrow> 'j option \<Rightarrow> 'j aml_state outcome" where
  "handle_aml_output R g h exited status result =
     obind (aml_output_result R g (h_program h) exited status result) (\<lambda>apr. Done (None, [apr]))"

text \<open>Passing on a result that was stored; a handle without one would pass on an empty result.\<close>

definition async_return_task :: "'j aml_handle \<Rightarrow> 'j aml_state outcome" where
  "async_return_task h = (case h_apr h of None \<Rightarrow> Abort | Some apr \<Rightarrow> Done (None, [apr]))"

definition timeout_failure :: "aml_program \<Rightarrow> 'j aml_result" where
  "timeout_failure p =
     TALER_KYCLOGIC_AMLR_FAILURE (ap_fallback p) (ap_program_name p) TALER_EC_EXCHANGE_KYC_GENERIC_AML_PROGRAM_TIMEOUT"

definition handle_aml_timeout2 :: "'j aml_handle \<Rightarrow> 'j aml_state outcome" where
  "handle_aml_timeout2 h = async_return_task (h\<lparr>h_proc := None, h_apr := Some (timeout_failure (h_program h))\<rparr>)"

definition handle_aml_timeout ::
  "'j kyc_writer \<Rightarrow> 'j kyc_globals \<Rightarrow> (string list \<Rightarrow> bool) \<Rightarrow> 'j aml_handle \<Rightarrow> 'j aml_state outcome" where
  "handle_aml_timeout W g start h =
     (case TALER_KYCLOGIC_get_measure g Default_rules (ap_fallback (h_program h)) of
        None \<Rightarrow> async_return_task (h\<lparr>h_async_cb := None, h_proc := None, h_apr := Some (timeout_failure (h_program h))\<rparr>)
      | Some m \<Rightarrow>
          (case find_program g (m_prog_name m) of
             None \<Rightarrow> Abort
           | Some fprogram \<Rightarrow>
               if ap_input_mask fprogram \<noteq> 0
               then async_return_task (h\<lparr>h_async_cb := None, h_proc := None, h_apr := Some (timeout_failure (h_program h))\<rparr>)
               else
                 let args = split_words (ap_command fprogram) (config_args g)
                 in Done (Some (h\<lparr>h_proc := (if start args then Some args else None),
                                  h_input := Some (GNUNET_JSON_PACK W []), h_async_cb := Some Aml_timeout2\<rparr>), [])))"

section \<open>Runs\<close>

datatype 'j aml_event = Program_exits bool nat "'j option" | Task_runs | Client_cancels

text \<open>What an event does to a handle; \<open>None\<close> if it cannot happen.\<close>

fun aml_event_step ::
  "('j, 'x) kyc_reader_scheme \<Rightarrow> 'j kyc_writer \<Rightarrow> 'j kyc_globals \<Rightarrow> (string list \<Rightarrow> bool)
     \<Rightarrow> 'j aml_handle \<Rightarrow> 'j aml_event \<Rightarrow> 'j aml_state outcome option" where
  "aml_event_step R W g start h (Program_exits exited status result) =
     (if h_proc h = None then None else Some (handle_aml_output R g h exited status result))"
| "aml_event_step R W g start h Task_runs =
     (case h_async_cb h of
        None \<Rightarrow> None
      | Some Async_return \<Rightarrow> Some (async_return_task h)
      | Some Aml_timeout \<Rightarrow> Some (handle_aml_timeout W g start h)
      | Some Aml_timeout2 \<Rightarrow> Some (handle_aml_timeout2 h))"
| "aml_event_step R W g start h Client_cancels = Some (Done (None, []))"

inductive aml_reaches ::
  "('j, 'x) kyc_reader_scheme \<Rightarrow> 'j kyc_writer \<Rightarrow> 'j kyc_globals \<Rightarrow> (string list \<Rightarrow> bool)
     \<Rightarrow> 'j aml_handle \<Rightarrow> 'j aml_event list \<Rightarrow> 'j aml_state \<Rightarrow> bool"
  for R W g start h0 where
  aml_init: "aml_reaches R W g start h0 [] (Some h0, [])"
| aml_event: "aml_reaches R W g start h0 evs (Some h, rs) \<Longrightarrow>
     aml_event_step R W g start h ev = Some (Done (h', rs')) \<Longrightarrow>
     aml_reaches R W g start h0 (evs @ [ev]) (h', rs @ rs')"

section \<open>One result\<close>

definition sound_result :: "('j, 'x) kyc_reader_scheme \<Rightarrow> 'j kyc_globals \<Rightarrow> aml_program \<Rightarrow> 'j aml_result \<Rightarrow> bool" where
  "sound_result R g p r \<longleftrightarrow>
     (case r of
        TALER_KYCLOGIC_AMLR_FAILURE fb _ _ \<Rightarrow> fb = ap_fallback p
      | TALER_KYCLOGIC_AMLR_SUCCESS s \<Rightarrow>
          (\<exists>l. TALER_KYCLOGIC_rules_parse R g (Some (s_new_rules s)) = Some l
               \<and> s_expiration_time s = ls_expiration_time l))"

definition handle_ok :: "('j, 'x) kyc_reader_scheme \<Rightarrow> 'j kyc_globals \<Rightarrow> aml_program \<Rightarrow> 'j aml_handle \<Rightarrow> bool" where
  "handle_ok R g p h \<longleftrightarrow>
     h_program h = p \<and> h_async_cb h \<noteq> None
     \<and> (h_async_cb h = Some Async_return \<longrightarrow> (\<exists>r. h_apr h = Some r \<and> sound_result R g p r))"

lemma output_result_sound: "aml_output_result R g p exited n result = Done r \<Longrightarrow> sound_result R g p r"
  by (auto simp: aml_output_result_def sound_result_def Let_def gassert_Done
      split: if_split_asm sum.split_asm prod.split_asm option.split_asm)

lemma timeout_failure_sound: "sound_result R g p (timeout_failure p)"
  by (simp add: sound_result_def timeout_failure_def)

lemma timeout_starts_fallback:
  assumes "fallback_usable g (ap_fallback (h_program h))"
  shows "\<exists>args. handle_aml_timeout W g start h =
    Done (Some (h\<lparr>h_proc := (if start args then Some args else None), h_input := Some (GNUNET_JSON_PACK W []),
                  h_async_cb := Some Aml_timeout2\<rparr>), [])"
  using assms by (auto simp: fallback_usable_def handle_aml_timeout_def TALER_KYCLOGIC_get_measure_def Let_def)

lemma started_handle_ok:
  assumes "TALER_KYCLOGIC_run_aml_program2 R W g start prog ctx a b c d = Some h"
  shows "h_program h \<in> set (aml_programs g)" "handle_ok R g (h_program h) h"
  using assms
  by (auto simp: TALER_KYCLOGIC_run_aml_program2_def failed_handle_def handle_ok_def sound_result_def Let_def
      find_program_def dest!: find_Some_in split: option.split_asm)

text \<open>A step leaves a handle and no result, or no handle and one result, unless the client cancels.\<close>

lemma aml_step_result:
  assumes "handle_ok R g p h" "fallback_usable g (ap_fallback p)" "aml_event_step R W g start h ev = Some (Done (h', rs))"
  shows "(case h' of
            Some k \<Rightarrow> rs = [] \<and> handle_ok R g p k \<and> ev = Task_runs
          | None \<Rightarrow> if ev = Client_cancels then rs = [] else \<exists>r. rs = [r] \<and> sound_result R g p r)"
proof (cases ev)
  case (Program_exits exited n result)
  then show ?thesis using assms output_result_sound [of R g p exited n result]
    by (auto simp: handle_aml_output_def handle_ok_def obind_Done split: if_split_asm)
next
  case Task_runs
  obtain task where task: "h_async_cb h = Some task" using assms(1) by (auto simp: handle_ok_def)
  show ?thesis
  proof (cases task)
    case Async_return
    then show ?thesis using Task_runs task assms(1,3) by (auto simp: handle_ok_def async_return_task_def)
  next
    case Aml_timeout
    then show ?thesis
      using Task_runs task assms timeout_starts_fallback [of g h W start] by (auto simp: handle_ok_def)
  next
    case Aml_timeout2
    then show ?thesis using Task_runs task assms(1,3) timeout_failure_sound [of R g p]
      by (auto simp: handle_ok_def handle_aml_timeout2_def async_return_task_def)
  qed
next
  case Client_cancels
  then show ?thesis using assms(3) by simp
qed

lemma aml_reaches_state:
  assumes "aml_reaches R W g start h0 evs s" "handle_ok R g p h0" "fallback_usable g (ap_fallback p)"
  shows "case s of
           (Some k, rs) \<Rightarrow> rs = [] \<and> handle_ok R g p k \<and> Client_cancels \<notin> set evs
         | (None, rs) \<Rightarrow> if Client_cancels \<in> set evs then rs = [] else \<exists>r. rs = [r] \<and> sound_result R g p r"
  using assms(1)
proof induction
  case aml_init
  then show ?case using assms(2) by simp
next
  case (aml_event evs h rs ev h' rs')
  then have "rs = []" "handle_ok R g p h" "Client_cancels \<notin> set evs" by simp_all
  then show ?case using aml_step_result [OF _ assms(3) aml_event.hyps(2)]
    by (cases h') (auto split: if_split_asm)
qed

text \<open>The pending task alone brings the result.\<close>

lemma aml_progress:
  assumes "handle_ok R g p h" "fallback_usable g (ap_fallback p)" "aml_reaches R W g start h0 evs (Some h, [])"
  shows "\<exists>n r. 1 \<le> n \<and> n \<le> 2 \<and> aml_reaches R W g start h0 (evs @ replicate n Task_runs) (None, [r])"
proof -
  have last: "\<exists>r. aml_reaches R W g start h0 (evs' @ [Task_runs]) (None, [r])"
    if "handle_ok R g p k" "aml_reaches R W g start h0 evs' (Some k, [])" "h_async_cb k \<noteq> Some Aml_timeout" for k evs'
  proof -
    have "\<exists>r. aml_event_step R W g start k Task_runs = Some (Done (None, [r]))"
      using that(1,3) by (cases "h_async_cb k"; cases "the (h_async_cb k)")
        (auto simp: handle_ok_def async_return_task_def handle_aml_timeout2_def)
    then show ?thesis using aml_event [OF that(2)] by fastforce
  qed
  show ?thesis
  proof (cases "h_async_cb h = Some Aml_timeout")
    case False
    then show ?thesis using last [OF assms(1,3)] by (intro exI [of _ 1]) simp
  next
    case True
    have "h_program h = p" using assms(1) by (simp add: handle_ok_def)
    then obtain args where t: "handle_aml_timeout W g start h =
      Done (Some (h\<lparr>h_proc := (if start args then Some args else None), h_input := Some (GNUNET_JSON_PACK W []),
                  h_async_cb := Some Aml_timeout2\<rparr>), [])"
      using timeout_starts_fallback [of g h W start] assms(2) by auto
    let ?k = "h\<lparr>h_proc := (if start args then Some args else None), h_input := Some (GNUNET_JSON_PACK W []),
                  h_async_cb := Some Aml_timeout2\<rparr>"
    have "aml_reaches R W g start h0 (evs @ [Task_runs]) (Some ?k, [] @ [])"
      using aml_event [OF assms(3)] True t by simp
    moreover have "handle_ok R g p ?k" using assms(1) by (simp add: handle_ok_def)
    ultimately show ?thesis using last [of ?k "evs @ [Task_runs]"]
      by (intro exI [of _ 2]) (simp add: numeral_2_eq_2)
  qed
qed

text \<open>
  C39: under a sound configuration a program that was started gives its client exactly one result,
  unless the client cancels, and then none; a handle that exists has given none, and the pending
  task gives one after at most two timeouts whatever the process does. A failure names the
  fallback measure of the program, which can run without input; a success carries rules
  that the parser accepts, with their time of expiration.
\<close>

theorem aml_program_one_result:
  assumes "config_sound R g" "TALER_KYCLOGIC_run_aml_program2 R W g start prog ctx a b c d = Some h0"
    and "aml_reaches R W g start h0 evs (h, rs)"
  shows "length rs = (if h = None \<and> Client_cancels \<notin> set evs then 1 else 0)
    \<and> (h \<noteq> None \<longrightarrow> (\<exists>n r. 1 \<le> n \<and> n \<le> 2 \<and> aml_reaches R W g start h0 (evs @ replicate n Task_runs) (None, [r])))
    \<and> fallback_usable g (ap_fallback (h_program h0))
    \<and> (\<forall>r\<in>set rs. sound_result R g (h_program h0) r)"
proof -
  have fb: "fallback_usable g (ap_fallback (h_program h0))"
    using started_handle_ok(1) [OF assms(2)] assms(1) by (simp add: config_sound_def)
  note st = aml_reaches_state [OF assms(3) started_handle_ok(2) [OF assms(2)] fb]
  show ?thesis
  proof (cases h)
    case None
    then show ?thesis using st fb by (auto split: if_split_asm)
  next
    case (Some k)
    then have "rs = []" "handle_ok R g (h_program h0) k" using st by simp_all
    then show ?thesis using aml_progress [OF _ fb, of R k W start h0 evs] assms(3) fb Some by simp
  qed
qed

definition stop_handle :: "kyc_sample aml_handle" where
  "stop_handle =
     \<lparr>h_program = stop_program, h_proc = Some (split_words ''stop'' [''-c'']),
      h_input = Some (aml_input kyc_sample_writer None None None None None None),
      h_async_cb = Some Aml_timeout, h_apr = None\<rparr>"

lemma stop_handle_started:
  "TALER_KYCLOGIC_run_aml_program2 kyc_sample_reader kyc_sample_writer sound_globals (\<lambda>_. True) ''stop'' None None None None None
     = Some stop_handle"
  using sound_globals_program
  by (simp add: TALER_KYCLOGIC_run_aml_program2_def wants_def)
     (simp add: stop_program_def stop_handle_def config_args_def sound_globals_def fresh_globals_def Let_def)

theorem aml_program_one_result_witness:
  "\<exists>n r. 1 \<le> n \<and> n \<le> 2
     \<and> aml_reaches kyc_sample_reader kyc_sample_writer sound_globals (\<lambda>_. True) stop_handle ([] @ replicate n Task_runs) (None, [r])"
  using aml_program_one_result [OF sound_globals_sound stop_handle_started aml_init] by simp

end
