(* ===== verification/Json_Contract.thy ===== *)
theory Json_Contract
  imports Taler_Prelude "HOL-Library.Char_ord"
begin

text \<open>
  Contracts with forgettable fields (\<^verbatim>\<open>src/src/json/json.c\<close>). A merchant may mark fields of a contract as
  forgettable, with a salt for each in the member \<^verbatim>\<open>$forgettable\<close>. The hash of a contract is taken after
  each such field is replaced by its salted hash in the member \<^verbatim>\<open>$forgotten\<close>, so that a field can be
  forgotten for good, by putting its hash there, without changing the hash of the contract.

  Values of jansson are a datatype; objects are lists of members in the order of insertion, which is the
  order of \<^verbatim>\<open>json_object_foreach\<close>. Printing with sorted keys, hashing and key derivation are parameters;
  \<open>Abort\<close> is a failed assertion or undefined behaviour.
  The values \<^verbatim>\<open>true\<close>, \<^verbatim>\<open>false\<close> and \<^verbatim>\<open>null\<close> are single objects in jansson, which matters where the code
  compares pointers. Functions that change a value give back the changed value.
\<close>

section \<open>Values\<close>

datatype json =
    JNull
  | JTrue
  | JFalse
  | JInteger int
  | JReal "64 word"
  | JString string
  | JArray "json list"
  | JObject "(string \<times> json) list"

type_synonym members = "(string \<times> json) list"

definition is_singleton :: "json \<Rightarrow> bool" where
  "is_singleton j \<longleftrightarrow> j = JNull \<or> j = JTrue \<or> j = JFalse"

fun json_object_get :: "json option \<Rightarrow> string \<Rightarrow> json option" where
  "json_object_get (Some (JObject kvs)) k = map_of kvs k"
| "json_object_get _ k = None"

fun json_array_get :: "json option \<Rightarrow> nat \<Rightarrow> json option" where
  "json_array_get (Some (JArray vs)) i = (if i < length vs then Some (vs ! i) else None)"
| "json_array_get _ i = None"

fun json_string_value :: "json option \<Rightarrow> string option" where
  "json_string_value (Some (JString s)) = Some s"
| "json_string_value _ = None"

text \<open>\<^verbatim>\<open>json_object_set_new\<close> keeps the place of a key that is present; \<^verbatim>\<open>json_object_del\<close>.\<close>

fun set_member :: "string \<Rightarrow> json \<Rightarrow> members \<Rightarrow> members" where
  "set_member k v [] = [(k, v)]"
| "set_member k v ((k', v') # kvs) = (if k' = k then (k, v) # kvs else (k', v') # set_member k v kvs)"

definition del_member :: "string \<Rightarrow> members \<Rightarrow> members" where
  "del_member k kvs = filter (\<lambda>(k', _). k' \<noteq> k) kvs"

fun json_object_del :: "json option \<Rightarrow> string \<Rightarrow> json option" where
  "json_object_del (Some (JObject kvs)) k = Some (JObject (del_member k kvs))"
| "json_object_del j k = j"

fun json_object_set :: "json \<Rightarrow> string \<Rightarrow> json \<Rightarrow> json option" where
  "json_object_set (JObject kvs) k v = Some (JObject (set_member k v kvs))"
| "json_object_set _ k v = None"

section \<open>Hashing\<close>

text \<open>
  What the code calls in jansson, libunistring and GNUnet. \<^verbatim>\<open>u8_mblen\<close> gets the rest of a text with its
  terminator; \<^verbatim>\<open>u32_to_u8\<close> has no result for a number that is not a character.
\<close>

record digester =
  json_dumps :: "json \<Rightarrow> string option"
  u8_mblen :: "string \<Rightarrow> int"
  u32_to_u8 :: "nat \<Rightarrow> string option"
  crypto_hash :: "string \<Rightarrow> string"
  crypto_kdf :: "string \<Rightarrow> string \<Rightarrow> string option"
  from_data :: "string \<Rightarrow> string"

definition hex_digit :: "nat \<Rightarrow> char" where
  "hex_digit n = (if n < 10 then char_of (48 + n) else char_of (87 + n))"

definition lowdump :: "char \<Rightarrow> string" where
  "lowdump c =
     (let val = of_char c :: nat
      in if val = 8 then CHR 0x5C # ''b''
         else if val = 9 then CHR 0x5C # ''t''
         else if val = 10 then CHR 0x5C # ''n''
         else if val = 12 then CHR 0x5C # ''f''
         else if val = 13 then CHR 0x5C # ''r''
         else CHR 0x5C # ''u00'' @ [hex_digit (val div 16), hex_digit (val mod 16)])"

text \<open>\<^verbatim>\<open>sscanf (s, "%4x", &num)\<close>: white space, then at most four characters: a sign, a prefix, digits.\<close>

definition hex_value :: "char \<Rightarrow> nat option" where
  "hex_value c =
     (if c_isdigit c then Some (of_char c - 48)
      else if CHR ''a'' \<le> c \<and> c \<le> CHR ''f'' then Some (of_char c - 87)
      else if CHR ''A'' \<le> c \<and> c \<le> CHR ''F'' then Some (of_char c - 55)
      else None)"

definition hex_number :: "string \<Rightarrow> nat option" where
  "hex_number s =
     (let ds = takeWhile (\<lambda>c. hex_value c \<noteq> None) s
      in if ds = [] then None else Some (foldl (\<lambda>n c. 16 * n + the (hex_value c)) 0 ds))"

definition hex_prefixed :: "string \<Rightarrow> nat option" where
  "hex_prefixed s =
     (if take 2 s = ''0x'' \<or> take 2 s = ''0X'' then hex_number (drop 2 s) else hex_number s)"

definition sscanf_hex4 :: "string \<Rightarrow> nat option" where
  "sscanf_hex4 s =
     (let item = take 4 (dropWhile c_isspace s)
      in case item of
           [] \<Rightarrow> None
         | c # cs \<Rightarrow>
             if c = CHR ''-'' then map_option (\<lambda>n. (2 ^ 32 - n) mod 2 ^ 32) (hex_prefixed cs)
             else if c = CHR ''+'' then hex_prefixed cs
             else hex_prefixed item)"

text \<open>
  One turn of the loop of \<^verbatim>\<open>TALER_rfc8785encode\<close>: what is written and how far the position moves. A
  number without a character leaves the buffer that is written undefined, and a position beyond the end of
  the text or a negative length is undefined as well: all these are \<open>Abort\<close>.
\<close>

definition rfc8785_turn :: "digester \<Rightarrow> nat \<Rightarrow> string \<Rightarrow> (string \<times> nat) outcome" where
  "rfc8785_turn D mbl s =
     (let val = hd s; next_char = (s @ [NUL, NUL]) ! 1
      in if mbl = 1 \<and> of_char val \<le> (31 :: nat) then Done (lowdump val, 1)
         else if mbl = 1 \<and> val = CHR 0x5C then
           (if next_char = CHR ''u'' then
              (case sscanf_hex4 (drop 2 s) of
                 None \<Rightarrow> Abort
               | Some num \<Rightarrow>
                   (case u32_to_u8 D num of
                      None \<Rightarrow> Abort
                    | Some res \<Rightarrow>
                        Done (if length res = 1 \<and> of_char (hd res) \<le> (31 :: nat) then lowdump (hd res) else res, 6)))
            else Done (take 2 (s @ [NUL]), 2))
         else Done (take mbl s, mbl))"

function rfc8785_loop :: "digester \<Rightarrow> string \<Rightarrow> string outcome" where
  "rfc8785_loop D s =
     (let mbl = u8_mblen D (s @ [NUL])
      in if mbl = 0 then Done []
         else if mbl < 0 \<or> nat mbl > length s then Abort
         else case rfc8785_turn D (nat mbl) s of
                Abort \<Rightarrow> Abort
              | Done (out, n) \<Rightarrow>
                  if n = 0 \<or> n > length s then Abort
                  else (case rfc8785_loop D (drop n s) of Abort \<Rightarrow> Abort | Done rest \<Rightarrow> Done (out @ rest)))"
  by pat_completeness auto

termination by (relation "measure (\<lambda>(D, s). length s)") auto

declare rfc8785_loop.simps [simp del]

text \<open>The length that is returned counts the terminator.\<close>

definition TALER_rfc8785encode :: "digester \<Rightarrow> string \<Rightarrow> string outcome" where
  "TALER_rfc8785encode D inp = obind (rfc8785_loop D inp) (\<lambda>s. Done (s @ [NUL]))"

primrec contains_real :: "json \<Rightarrow> bool" where
  "contains_real JNull = False"
| "contains_real JTrue = False"
| "contains_real JFalse = False"
| "contains_real (JInteger i) = False"
| "contains_real (JReal r) = True"
| "contains_real (JString s) = False"
| "contains_real (JArray vs) = list_ex id (map contains_real vs)"
| "contains_real (JObject kvs) = list_ex snd (map (map_prod id contains_real) kvs)"

definition dump_and_hash :: "digester \<Rightarrow> json option \<Rightarrow> string option \<Rightarrow> generic_return outcome + string" where
  "dump_and_hash D json salt =
     (case json of
        None \<Rightarrow> Inl (Done GNUNET_NO)
      | Some j \<Rightarrow>
          if contains_real j then Inl (Done GNUNET_NO)
          else case json_dumps D j of
                 None \<Rightarrow> Inl (Done GNUNET_SYSERR)
               | Some wire_enc \<Rightarrow>
                   (case TALER_rfc8785encode D wire_enc of
                      Abort \<Rightarrow> Inl Abort
                    | Done s \<Rightarrow>
                        (case salt of
                           None \<Rightarrow> Inr (crypto_hash D s)
                         | Some x \<Rightarrow>
                             (case crypto_kdf D (x @ [NUL]) s of
                                None \<Rightarrow> Inl (Done GNUNET_SYSERR)
                              | Some hc \<Rightarrow> Inr hc))))"

text \<open>
  \<^verbatim>\<open>forget\<close>. The loop over the members of an object has the current \<^verbatim>\<open>$forgettable\<close>, from which salts are
  scrubbed, the collected hashes \<^verbatim>\<open>rx\<close> and the result \<^verbatim>\<open>ret\<close>. The first component of a result is
  the argument after the scrubbing; the second is an error or the value without forgettable parts.
  \<^verbatim>\<open>rx\<close> is a copy, so that the pointer comparison with it holds for the single objects only.
\<close>

definition is_forgettable :: "json option \<Rightarrow> string \<Rightarrow> json \<Rightarrow> bool" where
  "is_forgettable fg k v \<longleftrightarrow> fg \<noteq> None \<and> (k = ''$forgettable'' \<or> is_singleton v \<and> fg = Some v)"

definition with_forgettable :: "json option \<Rightarrow> members \<Rightarrow> members" where
  "with_forgettable fg kvs = (case fg of None \<Rightarrow> kvs | Some j \<Rightarrow> set_member ''$forgettable'' j kvs)"

definition with_forgotten :: "json option \<Rightarrow> members \<Rightarrow> members" where
  "with_forgotten rx ret = (case rx of None \<Rightarrow> ret | Some x \<Rightarrow> set_member ''$forgotten'' x ret)"

fun forget :: "digester \<Rightarrow> json \<Rightarrow> json \<times> (generic_return outcome + json)"
  and forget_array :: "digester \<Rightarrow> json list \<Rightarrow> json list \<times> (generic_return outcome + json list)"
  and forget_members :: "digester \<Rightarrow> json option \<Rightarrow> json option \<Rightarrow> members \<Rightarrow> members
        \<Rightarrow> members \<times> json option \<times> (generic_return outcome + members \<times> json option)" where
  "forget D (JReal r) = (JReal r, Inl (Done GNUNET_NO))"
| "forget D (JArray vs) =
     (case forget_array D vs of
        (vs', Inl e) \<Rightarrow> (JArray vs', Inl e)
      | (vs', Inr ts) \<Rightarrow> (JArray vs', Inr (JArray ts)))"
| "forget D (JObject kvs) =
     (case forget_members D (map_of kvs ''$forgettable'') (map_of kvs ''$forgotten'') [] kvs of
        (kvs', fg, Inl e) \<Rightarrow> (JObject (with_forgettable fg kvs'), Inl e)
      | (kvs', fg, Inr (ret, rx)) \<Rightarrow>
          (JObject (with_forgettable fg kvs'), Inr (JObject (with_forgotten rx ret))))"
| "forget D j = (j, Inr j)"
| "forget_array D [] = ([], Inr [])"
| "forget_array D (v # vs) =
     (case forget D v of
        (v', Inl e) \<Rightarrow> (v' # vs, Inl e)
      | (v', Inr t) \<Rightarrow>
          (case forget_array D vs of
             (vs', Inl e) \<Rightarrow> (v' # vs', Inl e)
           | (vs', Inr ts) \<Rightarrow> (v' # vs', Inr (t # ts))))"
| "forget_members D fg rx ret [] = ([], fg, Inr (ret, rx))"
| "forget_members D fg rx ret ((k, v) # kvs) =
     (if is_forgettable fg k v \<or> is_singleton v \<and> rx = Some v
      then (case forget_members D fg rx ret kvs of (kvs', r) \<Rightarrow> ((k, v) # kvs', r))
      else if json_object_get rx k \<noteq> None
      then (case forget_members D fg rx (del_member k ret) kvs of (kvs', r) \<Rightarrow> ((k, v) # kvs', r))
      else case forget D v of
             (v', Inl e) \<Rightarrow> ((k, v') # kvs, fg, Inl e)
           | (v', Inr t) \<Rightarrow>
               (case json_object_get fg k of
                  None \<Rightarrow>
                    (case forget_members D fg rx (set_member k t ret) kvs of (kvs', r) \<Rightarrow> ((k, v') # kvs', r))
                | Some salt \<Rightarrow>
                    (case json_string_value (Some salt) of
                       None \<Rightarrow> ((k, v') # kvs, fg, Inl (Done GNUNET_NO))
                     | Some s \<Rightarrow>
                         (case dump_and_hash D (Some t) (Some s) of
                            Inl e \<Rightarrow> ((k, v') # kvs, fg, Inl e)
                          | Inr hc \<Rightarrow>
                              (case json_object_set (case rx of None \<Rightarrow> JObject [] | Some x \<Rightarrow> x) k
                                      (JString (from_data D hc)) of
                                 None \<Rightarrow> ((k, v') # kvs, json_object_del fg k, Inl (Done GNUNET_SYSERR))
                               | Some rx' \<Rightarrow>
                                   (case forget_members D (json_object_del fg k) (Some rx') ret kvs of
                                      (kvs', r) \<Rightarrow> ((k, v') # kvs', r)))))))"

lemma dump_and_hash_not_ok: "dump_and_hash D j s \<noteq> Inl (Done GNUNET_OK)"
  by (auto simp: dump_and_hash_def split: option.split outcome.split)

lemma forget_members_not_ok:
  "\<forall>kv\<in>set kvs. snd (forget D (snd kv)) \<noteq> Inl (Done GNUNET_OK)
   \<Longrightarrow> snd (snd (forget_members D fg rx ret kvs)) \<noteq> Inl (Done GNUNET_OK)"
proof (induction kvs arbitrary: fg rx ret)
  case (Cons kv kvs)
  then show ?case
    by (cases kv) (auto simp: dump_and_hash_not_ok case_prod_beta split: sum.splits option.splits)
qed simp

lemma forget_array_not_ok:
  "\<forall>v\<in>set vs. snd (forget D v) \<noteq> Inl (Done GNUNET_OK) \<Longrightarrow> snd (forget_array D vs) \<noteq> Inl (Done GNUNET_OK)"
  by (induction vs) (auto simp: case_prod_beta split: sum.splits prod.splits)

lemma forget_not_ok: "snd (forget D j) \<noteq> Inl (Done GNUNET_OK)"
proof (induction j)
  case (JArray vs)
  then show ?case using forget_array_not_ok[of vs D] by (auto split: prod.splits sum.splits)
next
  case (JObject kvs)
  have "\<forall>kv\<in>set kvs. snd (forget D (snd kv)) \<noteq> Inl (Done GNUNET_OK)"
    using JObject by (force simp: snds.simps)
  from forget_members_not_ok[OF this, of "map_of kvs ''$forgettable''" "map_of kvs ''$forgotten''" "[]"]
  show ?case by (auto split: prod.splits sum.splits)
qed simp_all

text \<open>The hash of a contract, taken of a copy.\<close>

definition TALER_JSON_contract_hash :: "digester \<Rightarrow> json \<Rightarrow> generic_return outcome + string" where
  "TALER_JSON_contract_hash D json =
     (case snd (forget D json) of
        Inl e \<Rightarrow> Inl e
      | Inr cjson \<Rightarrow> dump_and_hash D (Some cjson) None)"

section \<open>Marking and forgetting\<close>

definition forgettable_name :: "string \<Rightarrow> bool" where
  "forgettable_name f \<longleftrightarrow> list_all (\<lambda>c. c_isalpha c \<or> c_isdigit c \<or> c = CHR ''_'') f"

text \<open>The random salt is an argument.\<close>

fun TALER_JSON_contract_mark_forgettable :: "digester \<Rightarrow> string \<Rightarrow> json \<Rightarrow> string \<Rightarrow> json \<times> generic_return" where
  "TALER_JSON_contract_mark_forgettable D salt (JObject kvs) field =
     (if \<not> forgettable_name field then (JObject kvs, GNUNET_SYSERR)
      else if map_of kvs field = None then (JObject kvs, GNUNET_SYSERR)
      else
        let fg = (case map_of kvs ''$forgettable'' of None \<Rightarrow> JObject [] | Some fg \<Rightarrow> fg);
            kvs1 = (if map_of kvs ''$forgettable'' = None then set_member ''$forgettable'' fg kvs else kvs)
        in case json_object_set fg field (JString (from_data D salt)) of
             None \<Rightarrow> (JObject kvs1, GNUNET_SYSERR)
           | Some fg' \<Rightarrow> (JObject (set_member ''$forgettable'' fg' kvs1), GNUNET_OK))"
| "TALER_JSON_contract_mark_forgettable D salt j field = (j, GNUNET_SYSERR)"

text \<open>
  Forgetting a field. The member \<^verbatim>\<open>$forgotten\<close> is created before it is known that the field can be
  forgotten; the value of the field is scrubbed while its hash is computed.
\<close>

definition forget_field ::
  "digester \<Rightarrow> members \<Rightarrow> string \<Rightarrow> json \<Rightarrow> json \<Rightarrow> json \<Rightarrow> string \<Rightarrow> json \<times> generic_return outcome" where
  "forget_field D kvs field part fg rx salt =
     (case forget D part of
        (part', Inl e) \<Rightarrow> (JObject (set_member field part' kvs), e)
      | (part', Inr fp) \<Rightarrow>
          (case dump_and_hash D (Some fp) (Some salt) of
             Inl e \<Rightarrow> (JObject (set_member field part' kvs), if e = Abort then Abort else Done GNUNET_SYSERR)
           | Inr hc \<Rightarrow>
               let kvs1 = set_member ''$forgettable'' (the (json_object_del (Some fg) field))
                            (set_member field part' kvs)
               in case json_object_set rx field (JString (from_data D hc)) of
                    None \<Rightarrow> (JObject kvs1, Done GNUNET_SYSERR)
                  | Some rx' \<Rightarrow> (JObject (del_member field (set_member ''$forgotten'' rx' kvs1)), Done GNUNET_OK)))"

fun TALER_JSON_contract_part_forget :: "digester \<Rightarrow> json \<Rightarrow> string \<Rightarrow> json \<times> generic_return outcome" where
  "TALER_JSON_contract_part_forget D (JObject kvs) field =
     (case map_of kvs field of
        None \<Rightarrow> (JObject kvs, Done GNUNET_SYSERR)
      | Some part \<Rightarrow>
          (case map_of kvs ''$forgettable'' of
             None \<Rightarrow> (JObject kvs, Done GNUNET_SYSERR)
           | Some fg \<Rightarrow>
               let rx = (case map_of kvs ''$forgotten'' of None \<Rightarrow> JObject [] | Some x \<Rightarrow> x);
                   kvs1 = (if map_of kvs ''$forgotten'' = None then set_member ''$forgotten'' rx kvs else kvs)
               in if json_object_get (Some rx) field \<noteq> None
                  then (JObject kvs1, Done (if part \<noteq> JNull then GNUNET_SYSERR else GNUNET_NO))
                  else case json_string_value (json_object_get (Some fg) field) of
                         None \<Rightarrow> (JObject kvs1, Done GNUNET_SYSERR)
                       | Some salt \<Rightarrow> forget_field D kvs1 field part fg rx salt))"
| "TALER_JSON_contract_part_forget D j field = (j, Done GNUNET_SYSERR)"

section \<open>Seeding salts\<close>

text \<open>
  The random blocks are a function of their position in the sequence of draws; the number of draws is
  part of the state.
\<close>

fun seed_members :: "digester \<Rightarrow> (nat \<Rightarrow> string) \<Rightarrow> nat \<Rightarrow> members \<Rightarrow> members \<times> nat \<times> generic_return" where
  "seed_members D rnd n [] = ([], n, GNUNET_OK)"
| "seed_members D rnd n ((k, v) # kvs) =
     (if json_string_value (Some v) \<noteq> None
      then (case seed_members D rnd n kvs of (kvs', r) \<Rightarrow> ((k, v) # kvs', r))
      else if v = JTrue
      then (case seed_members D rnd (n + 1) kvs of (kvs', r) \<Rightarrow> ((k, JString (from_data D (rnd n))) # kvs', r))
      else ((k, v) # kvs, n, GNUNET_SYSERR))"

fun seed_forgettable :: "digester \<Rightarrow> (nat \<Rightarrow> string) \<Rightarrow> nat \<Rightarrow> json \<Rightarrow> json \<times> nat \<times> generic_return" where
  "seed_forgettable D rnd n (JObject kvs) = (case seed_members D rnd n kvs of (kvs', r) \<Rightarrow> (JObject kvs', r))"
| "seed_forgettable D rnd n f = (f, n, GNUNET_OK)"

fun json_array_set :: "json \<Rightarrow> nat \<Rightarrow> json \<Rightarrow> json" where
  "json_array_set (JArray vs) i v = JArray (vs[i := v])"
| "json_array_set j i v = j"

fun TALER_JSON_contract_seed_forgettable ::
      "digester \<Rightarrow> (nat \<Rightarrow> string) \<Rightarrow> nat \<Rightarrow> json \<Rightarrow> json \<Rightarrow> json \<times> nat \<times> generic_return outcome"
  and seed_object ::
      "digester \<Rightarrow> (nat \<Rightarrow> string) \<Rightarrow> nat \<Rightarrow> members \<Rightarrow> json \<Rightarrow> json \<times> nat \<times> generic_return outcome"
  and seed_array ::
      "digester \<Rightarrow> (nat \<Rightarrow> string) \<Rightarrow> nat \<Rightarrow> nat \<Rightarrow> json list \<Rightarrow> json \<Rightarrow> json \<times> nat \<times> generic_return outcome" where
  "TALER_JSON_contract_seed_forgettable D rnd n (JObject spec) c = seed_object D rnd n spec c"
| "TALER_JSON_contract_seed_forgettable D rnd n (JArray spec) c = seed_array D rnd n 0 spec c"
| "TALER_JSON_contract_seed_forgettable D rnd n _ c = (c, n, Done GNUNET_OK)"
| "seed_object D rnd n [] c = (c, n, Done GNUNET_OK)"
| "seed_object D rnd n ((key, val) # spec) c =
     (if key = ''$forgettable'' then
        (case seed_forgettable D rnd n val of
           (xval, n', ret) \<Rightarrow>
             if ret \<noteq> GNUNET_OK then (c, n', Done GNUNET_SYSERR)
             else (case json_object_set c ''$forgettable'' xval of
                     None \<Rightarrow> (c, n', Abort)
                   | Some c' \<Rightarrow> seed_object D rnd n' spec c'))
      else case json_object_get (Some c) key of
             None \<Rightarrow> seed_object D rnd n spec c
           | Some cval \<Rightarrow>
               (case TALER_JSON_contract_seed_forgettable D rnd n val cval of
                  (cval', n', ret) \<Rightarrow>
                    let c' = (case json_object_set c key cval' of None \<Rightarrow> c | Some c' \<Rightarrow> c')
                    in if ret = Abort then (c', n', Abort)
                       else if ret \<noteq> Done GNUNET_OK then (c', n', Done GNUNET_SYSERR)
                       else seed_object D rnd n' spec c'))"
| "seed_array D rnd n i [] c = (c, n, Done GNUNET_OK)"
| "seed_array D rnd n i (val # spec) c =
     (case json_array_get (Some c) i of
        None \<Rightarrow> seed_array D rnd n (i + 1) spec c
      | Some ival \<Rightarrow>
          (case TALER_JSON_contract_seed_forgettable D rnd n val ival of
             (ival', n', ret) \<Rightarrow>
               let c' = json_array_set c i ival'
               in if ret = Abort then (c', n', Abort)
                  else if ret \<noteq> Done GNUNET_OK then (c', n', Done GNUNET_SYSERR)
                  else seed_array D rnd n' (i + 1) spec c'))"

section \<open>Paths\<close>

text \<open>
  The calls of the callback are a list: the name of the object and its parent, which is absent at the top.
  A callback that changes the value while it is walked is outside of this model. The first dot after the
  one that ends the current name is overwritten with a terminator before the closing bracket is looked for.
\<close>

type_synonym path_call = "string \<times> json option"

definition before_char :: "char \<Rightarrow> string \<Rightarrow> string" where
  "before_char c s = takeWhile (\<lambda>x. x \<noteq> c) s"

definition after_char :: "char \<Rightarrow> string \<Rightarrow> string" where
  "after_char c s = drop 1 (dropWhile (\<lambda>x. x \<noteq> c) s)"

text \<open>\<^verbatim>\<open>sscanf (bracket, "%u%c", ...)\<close> with one item: a number that ends the text, kept in 32 bits.\<close>

definition sscanf_index :: "string \<Rightarrow> nat option" where
  "sscanf_index s =
     (let b = dropWhile c_isspace s;
          ds = (if take 1 b = ''-'' \<or> take 1 b = ''+'' then drop 1 b else b);
          v = min (digits_value ds) (2 ^ 64 - 1)
      in if ds = [] \<or> \<not> list_all c_isdigit ds then None
         else Some (if take 1 b = ''-'' \<and> digits_value ds < 2 ^ 64 then (2 ^ 64 - v) mod 2 ^ 32 else v mod 2 ^ 32))"

definition bracket_text :: "string \<Rightarrow> string option" where
  "bracket_text next_path =
     (let seg = (if CHR ''.'' \<in> set (before_char CHR ''['' next_path) then after_char CHR ''['' next_path
                 else before_char CHR ''.'' (after_char CHR ''['' next_path))
      in if CHR '']'' \<in> set seg then Some (before_char CHR '']'' seg) else None)"

definition next_name :: "string \<Rightarrow> string" where
  "next_name next_path = before_char CHR ''['' (before_char CHR ''.'' next_path)"

lemma length_after_char: "c \<in> set s \<Longrightarrow> length (after_char c s) < length s"
proof (induction s)
  case (Cons x s)
  then show ?case
    by (cases "x = c") (simp_all add: after_char_def less_SucI)
qed simp

function parse_path :: "json \<Rightarrow> json option \<Rightarrow> string \<Rightarrow> path_call list \<times> generic_return"
  and parse_path_all :: "json list \<Rightarrow> json \<Rightarrow> string \<Rightarrow> path_call list \<times> generic_return" where
  "parse_path obj prev path =
     (if CHR ''.'' \<notin> set path then ([(path, prev)], GNUNET_OK)
      else
        let next_path = after_char CHR ''.'' path
        in if prev = None \<and> before_char CHR ''.'' path \<noteq> ''$'' then ([], GNUNET_SYSERR)
           else if CHR ''['' \<in> set next_path then
             (case bracket_text next_path of
                None \<Rightarrow> ([], GNUNET_SYSERR)
              | Some text \<Rightarrow>
                  (let array = json_object_get (Some obj) (next_name next_path)
                   in if text = ''*'' then
                        (case array of
                           Some (JArray vs) \<Rightarrow> parse_path_all vs obj next_path
                         | _ \<Rightarrow> ([], GNUNET_OK))
                      else (case sscanf_index text of
                              None \<Rightarrow> ([], GNUNET_SYSERR)
                            | Some index \<Rightarrow>
                                (case json_array_get array index of
                                   None \<Rightarrow> ([], GNUNET_OK)
                                 | Some next_obj \<Rightarrow> parse_path next_obj (Some obj) next_path))))
           else (case json_object_get (Some obj) (next_name next_path) of
                   None \<Rightarrow> ([], GNUNET_OK)
                 | Some next_obj \<Rightarrow> parse_path next_obj (Some obj) next_path))"
| "parse_path_all [] obj path = ([], GNUNET_OK)"
| "parse_path_all (v # vs) obj path =
     (case parse_path v (Some obj) path of
        (calls, ret) \<Rightarrow>
          if ret \<noteq> GNUNET_OK then (calls, ret)
          else (case parse_path_all vs obj path of (calls', ret') \<Rightarrow> (calls @ calls', ret')))"
  by pat_completeness auto

termination
  by (relation "measures [\<lambda>x. case x of Inl (_, _, path) \<Rightarrow> length path | Inr (_, _, path) \<Rightarrow> length path,
                          \<lambda>x. case x of Inl _ \<Rightarrow> 0 | Inr (vs, _, _) \<Rightarrow> Suc (length vs)]")
     (auto simp: length_after_char)

definition TALER_JSON_expand_path :: "json \<Rightarrow> string \<Rightarrow> path_call list \<times> generic_return" where
  "TALER_JSON_expand_path json path = parse_path json None path"

section \<open>Other uses of the hash, and errors\<close>

text \<open>The numbers of the error codes are in a header that another package generates.\<close>

record error_codes =
  EC_INVALID :: int
  EC_NONE :: int
  EC_GENERIC_INVALID_RESPONSE :: int

definition to_int32 :: "int \<Rightarrow> int" where
  "to_int32 i = (i + 2 ^ 31) mod 2 ^ 32 - 2 ^ 31"

definition TALER_JSON_get_error_code :: "error_codes \<Rightarrow> json option \<Rightarrow> int" where
  "TALER_JSON_get_error_code E json =
     (if json = None then EC_GENERIC_INVALID_RESPONSE E
      else case json_object_get json ''code'' of
             Some (JInteger i) \<Rightarrow> to_int32 i
           | _ \<Rightarrow> EC_INVALID E)"

definition TALER_JSON_get_error_hint :: "json option \<Rightarrow> string option" where
  "TALER_JSON_get_error_hint json = json_string_value (json_object_get json ''hint'')"

text \<open>\<open>json_loadb\<close> is the parser of jansson.\<close>

definition TALER_JSON_get_error_code2 :: "error_codes \<Rightarrow> (string \<Rightarrow> json option) \<Rightarrow> string \<Rightarrow> int" where
  "TALER_JSON_get_error_code2 E json_loadb data =
     (case json_loadb data of
        None \<Rightarrow> EC_INVALID E
      | Some json \<Rightarrow>
          let ec = TALER_JSON_get_error_code E (Some json)
          in if ec = EC_NONE E then EC_INVALID E else ec)"

definition TALER_deposit_policy_hash :: "digester \<Rightarrow> json option \<Rightarrow> string outcome" where
  "TALER_deposit_policy_hash D policy =
     (case dump_and_hash D policy (Some ''taler-extensions-policy'') of Inl _ \<Rightarrow> Abort | Inr hc \<Rightarrow> Done hc)"

definition TALER_JSON_canonicalize :: "digester \<Rightarrow> json \<Rightarrow> string option outcome" where
  "TALER_JSON_canonicalize D input =
     (case json_dumps D input of
        None \<Rightarrow> Done None
      | Some wire_enc \<Rightarrow> obind (TALER_rfc8785encode D wire_enc) (\<lambda>s. Done (Some (cstr s))))"

definition TALER_JSON_extensions_manifests_hash :: "digester \<Rightarrow> json option \<Rightarrow> generic_return outcome + string" where
  "TALER_JSON_extensions_manifests_hash D manifests = dump_and_hash D manifests (Some ''taler-extensions-manifests'')"

text \<open>
  \<^verbatim>\<open>TALER_json_hash\<close> of \<^verbatim>\<open>util.c\<close>, which is for objects and arrays only: without \<^verbatim>\<open>JSON_ENCODE_ANY\<close> the printer
  refuses other values.
\<close>

definition TALER_json_hash :: "digester \<Rightarrow> json \<Rightarrow> string outcome" where
  "TALER_json_hash D j =
     (case (case j of JArray _ \<Rightarrow> json_dumps D j | JObject _ \<Rightarrow> json_dumps D j | _ \<Rightarrow> None) of
        None \<Rightarrow> Abort
      | Some s \<Rightarrow> obind (TALER_rfc8785encode D s) (\<lambda>c. Done (crypto_hash D c)))"

section \<open>Seeded salts\<close>

text \<open>
  Seeding succeeds exactly when every mark is a string or \<^verbatim>\<open>true\<close>; strings stay, and each \<^verbatim>\<open>true\<close> gets a random
  block of its own.
\<close>

lemma seed_members_ok_iff:
  "snd (snd (seed_members D rnd n kvs)) = GNUNET_OK
     \<longleftrightarrow> (\<forall>(k, v)\<in>set kvs. json_string_value (Some v) \<noteq> None \<or> v = JTrue)"
  by (induction D rnd n kvs rule: seed_members.induct) (auto split: prod.splits)

lemma seed_members_salts:
  assumes "seed_members D rnd n kvs = (kvs', n', GNUNET_OK)" "i < length kvs"
  shows "kvs' ! i =
     (if snd (kvs ! i) = JTrue
      then (fst (kvs ! i), JString (from_data D (rnd (n + length (filter (\<lambda>kv. snd kv = JTrue) (take i kvs))))))
      else kvs ! i)"
  using assms
proof (induction D rnd n kvs arbitrary: kvs' i rule: seed_members.induct)
  case (2 D rnd n k v kvs)
  then show ?case by (cases i) (auto split: prod.splits if_splits)
qed simp

section \<open>Paths without brackets\<close>

definition path_name :: "string \<Rightarrow> bool" where
  "path_name s \<longleftrightarrow> CHR ''.'' \<notin> set s \<and> CHR ''['' \<notin> set s"

definition dotted :: "string list \<Rightarrow> string" where
  "dotted ids = concat (map (\<lambda>s. CHR ''.'' # s) ids)"

fun walk :: "json \<Rightarrow> string list \<Rightarrow> json option" where
  "walk j [] = Some j"
| "walk j (i # ids) = (case json_object_get (Some j) i of None \<Rightarrow> None | Some j' \<Rightarrow> walk j' ids)"

declare parse_path.simps [simp del]

lemma before_char_none: "c \<notin> set s \<Longrightarrow> before_char c s = s"
  by (simp add: before_char_def takeWhile_eq_all_conv) metis

lemma before_char_append: "c \<notin> set s \<Longrightarrow> before_char c (s @ c # r) = s"
  unfolding before_char_def by (induction s) auto

lemma after_char_append: "c \<notin> set s \<Longrightarrow> after_char c (s @ c # r) = r"
  unfolding after_char_def by (induction s) auto

lemma bracket_free: "list_all path_name ids \<Longrightarrow> CHR ''['' \<notin> set (dotted ids)"
  by (auto simp: dotted_def path_name_def list_all_iff)

lemma next_name_dotted: "path_name i \<Longrightarrow> next_name (i @ dotted ids) = i"
  by (cases ids) (simp_all add: next_name_def dotted_def path_name_def before_char_none before_char_append)

lemma parse_path_name:
  assumes "CHR ''.'' \<notin> set s" "prev \<noteq> None \<or> s = ''$''" "list_all path_name (i # ids)"
  shows "parse_path obj prev (s @ dotted (i # ids)) =
     (case json_object_get (Some obj) i of
        None \<Rightarrow> ([], GNUNET_OK)
      | Some next_obj \<Rightarrow> parse_path next_obj (Some obj) (i @ dotted ids))"
proof -
  have path: "s @ dotted (i # ids) = s @ CHR ''.'' # i @ dotted ids" by (simp add: dotted_def)
  have "CHR ''['' \<notin> set (i @ dotted ids)"
    using assms(3) bracket_free[of ids] by (simp add: path_name_def)
  then show ?thesis
    unfolding path using assms
    by (subst parse_path.simps)
       (auto simp: Let_def after_char_append before_char_append next_name_dotted split: option.split)
qed

lemma parse_path_dotted:
  assumes "CHR ''.'' \<notin> set s" "prev \<noteq> None \<or> s = ''$''" "list_all path_name ids" "ids \<noteq> []"
  shows "parse_path obj prev (s @ dotted ids) =
     (case walk obj (butlast ids) of
        Some p \<Rightarrow> if json_object_get (Some p) (last ids) = None then [] else [(last ids, Some p)]
      | None \<Rightarrow> [], GNUNET_OK)"
  using assms
proof (induction ids arbitrary: s prev obj)
  case (Cons i ids)
  show ?case
  proof (cases "ids = []")
    case True
    have "parse_path o' (Some obj) i = ([(i, Some obj)], GNUNET_OK)" for o'
      using Cons.prems(3) by (subst parse_path.simps) (simp add: path_name_def)
    with True show ?thesis
      unfolding parse_path_name[OF Cons.prems(1-3)] by (simp add: dotted_def split: option.split)
  next
    case False
    have "CHR ''.'' \<notin> set i" "list_all path_name ids" using Cons.prems(3) by (simp_all add: path_name_def[of i])
    with Cons.IH[of i "Some obj"] False show ?thesis
      unfolding parse_path_name[OF Cons.prems(1-3)] by (simp split: option.split)
  qed
qed simp

lemma parse_path_all_names:
  assumes "CHR ''.'' \<notin> set s" "path_name b"
  shows "parse_path_all vs obj (s @ CHR ''.'' # b) =
     (map (\<lambda>v. (b, Some v)) (filter (\<lambda>v. json_object_get (Some v) b \<noteq> None) vs), GNUNET_OK)"
proof (induction vs)
  case (Cons v vs)
  have "s @ CHR ''.'' # b = s @ dotted [b]" by (simp add: dotted_def)
  with parse_path_dotted[of s "Some obj" "[b]" v] assms Cons show ?case by (auto split: option.split)
qed simp

text \<open>
  A path of names. For a path that begins with the dollar sign and names members without brackets,
  \<^verbatim>\<open>TALER_JSON_expand_path\<close> succeeds; it calls the callback once, with the last name and the object that the
  names before it lead to, when that object exists and has the member, and not at all otherwise.
\<close>

lemma expand_path_names:
  assumes "list_all path_name ids" "ids \<noteq> []"
  shows "TALER_JSON_expand_path json (''$'' @ dotted ids) =
     (case walk json (butlast ids) of
        Some p \<Rightarrow> if json_object_get (Some p) (last ids) = None then [] else [(last ids, Some p)]
      | None \<Rightarrow> [], GNUNET_OK)"
  unfolding TALER_JSON_expand_path_def using assms by (intro parse_path_dotted) simp_all

definition sample_fruit :: json where
  "sample_fruit = JObject [(''abc1'', JObject [(''xyz'', JString ''value'')]),
     (''fruit'', JArray [JObject [(''name'', JString ''banana'')], JObject [(''name'', JString ''apple'')]])]"

lemma parse_path_bracket:
  assumes "path_name a" "CHR '']'' \<notin> set text" "CHR ''.'' \<notin> set text"
  shows "parse_path obj None (''$.'' @ a @ CHR ''['' # text @ CHR '']'' # CHR ''.'' # rest) =
     (let array = json_object_get (Some obj) a; path = a @ CHR ''['' # text @ CHR '']'' # CHR ''.'' # rest
      in if text = ''*'' then (case array of Some (JArray vs) \<Rightarrow> parse_path_all vs obj path | _ \<Rightarrow> ([], GNUNET_OK))
         else case sscanf_index text of
                None \<Rightarrow> ([], GNUNET_SYSERR)
              | Some index \<Rightarrow> (case json_array_get array index of
                                None \<Rightarrow> ([], GNUNET_OK)
                              | Some next_obj \<Rightarrow> parse_path next_obj (Some obj) path))"
proof -
  let ?path = "a @ CHR ''['' # text @ CHR '']'' # CHR ''.'' # rest"
  have a: "CHR ''.'' \<notin> set a" "CHR ''['' \<notin> set a" using assms(1) by (auto simp: path_name_def)
  have inside: "bracket_text ?path = Some text"
    using a assms(2,3) before_char_append[of "CHR ''.''" "text @ [CHR '']'']" rest]
    by (simp add: bracket_text_def before_char_append after_char_append)
  have name: "next_name ?path = a"
    using a assms(3) before_char_append[of "CHR ''.''" "a @ CHR ''['' # text @ [CHR '']'']" rest]
    by (simp add: next_name_def before_char_append)
  have "before_char CHR ''.'' (''$.'' @ ?path) = ''$''" "after_char CHR ''.'' (''$.'' @ ?path) = ?path"
    by (simp_all add: before_char_def after_char_def)
  with inside name show ?thesis
    by (subst parse_path.simps) (simp add: Let_def)
qed

text \<open>
  A wildcard: for an array that is a member of the top object, a path through all of its elements to a
  name calls the callback for each element that has the member, in the order of the array.
\<close>

lemma expand_path_wildcard:
  assumes "path_name a" "path_name b" "json_object_get (Some json) a = Some (JArray vs)"
  shows "TALER_JSON_expand_path json (''$.'' @ a @ ''[*].'' @ b) =
     (map (\<lambda>v. (b, Some v)) (filter (\<lambda>v. json_object_get (Some v) b \<noteq> None) vs), GNUNET_OK)"
  using parse_path_bracket[OF assms(1), of "''*''" json b]
    parse_path_all_names[of "a @ ''[*]''" b vs json] assms
  by (simp add: TALER_JSON_expand_path_def path_name_def)

lemma sscanf_zero: "sscanf_index ''0'' = Some 0"
  by (simp add: sscanf_index_def Let_def c_isspace_def c_isdigit_def digits_value_def digit_val_def)

lemma bracket_text_later:
  assumes "path_name a" "list_all path_name ids" "ids \<noteq> []" "CHR '']'' \<notin> set ix"
  shows "bracket_text (a @ dotted ids @ CHR ''['' # ix @ CHR '']'' # rest) = Some ix"
    and "next_name (a @ dotted ids @ CHR ''['' # ix @ CHR '']'' # rest) = a"
proof -
  let ?names = "a @ dotted ids"
  have free: "CHR ''['' \<notin> set ?names" using assms(1) bracket_free[OF assms(2)] by (simp add: path_name_def)
  have dot: "CHR ''.'' \<in> set ?names" using assms(3) by (cases ids) (simp_all add: dotted_def)
  show "bracket_text (a @ dotted ids @ CHR ''['' # ix @ CHR '']'' # rest) = Some ix"
    using before_char_append[OF free, of "ix @ CHR '']'' # rest"] after_char_append[OF free, of "ix @ CHR '']'' # rest"]
      before_char_append[OF assms(4)] dot
    by (simp add: bracket_text_def)
  obtain i js where ids: "ids = i # js" using assms(3) by (cases ids) auto
  show "next_name (a @ dotted ids @ CHR ''['' # ix @ CHR '']'' # rest) = a"
    using assms(1) by (simp add: ids next_name_def dotted_def path_name_def before_char_append before_char_none)
qed

text \<open>
  C31: a bracket below the first name is not found where it belongs. The bracket is looked for in the whole
  rest of the path and applied to the first name: when the first name leads to an object and the first
  bracket, with an index or a wildcard, follows a later name, at any depth, the path is not followed:
  the callback is never called, although the path is well-formed and success is returned.
\<close>

theorem expand_path_nested_index_lost:
  assumes "path_name a" "list_all path_name ids" "ids \<noteq> []" "CHR '']'' \<notin> set ix"
    and "ix = ''*'' \<or> sscanf_index ix \<noteq> None" "json_object_get (Some json) a = Some (JObject m)"
  shows "TALER_JSON_expand_path json (''$.'' @ a @ dotted ids @ ''['' @ ix @ '']'' @ rest) = ([], GNUNET_OK)"
proof -
  let ?path = "a @ dotted ids @ CHR ''['' # ix @ CHR '']'' # rest"
  have "before_char CHR ''.'' (''$.'' @ ?path) = ''$''" "after_char CHR ''.'' (''$.'' @ ?path) = ?path"
    by (simp_all add: before_char_def after_char_def)
  then show ?thesis
    unfolding TALER_JSON_expand_path_def using assms(5,6) bracket_text_later[OF assms(1-4), of rest]
    by (subst parse_path.simps) (auto simp: Let_def)
qed

theorem expand_path_nested_index_lost_witness:
  "TALER_JSON_expand_path (JObject [(''a'', sample_fruit)]) ''$.a.fruit[0].name'' = ([], GNUNET_OK)
   \<and> TALER_JSON_expand_path (JObject [(''b'', JObject [(''a'', sample_fruit)])]) ''$.b.a.fruit[*].name'' = ([], GNUNET_OK)
   \<and> TALER_JSON_expand_path sample_fruit ''$.fruit[0].name'' \<noteq> ([], GNUNET_OK)"
proof (intro conjI)
  show "TALER_JSON_expand_path (JObject [(''a'', sample_fruit)]) ''$.a.fruit[0].name'' = ([], GNUNET_OK)"
    using expand_path_nested_index_lost[of "''a''" "[''fruit'']" "''0''" "JObject [(''a'', sample_fruit)]" _ "''.name''"]
    by (simp add: path_name_def sample_fruit_def sscanf_zero dotted_def)
  show "TALER_JSON_expand_path (JObject [(''b'', JObject [(''a'', sample_fruit)])]) ''$.b.a.fruit[*].name'' = ([], GNUNET_OK)"
    using expand_path_nested_index_lost[of "''b''" "[''a'', ''fruit'']" "''*''"
        "JObject [(''b'', JObject [(''a'', sample_fruit)])]" _ "''.name''"]
    by (simp add: path_name_def dotted_def)
  show "TALER_JSON_expand_path sample_fruit ''$.fruit[0].name'' \<noteq> ([], GNUNET_OK)"
    using parse_path_bracket[of "''fruit''" "''0''" sample_fruit "''name''"]
      parse_path_dotted[of "''fruit[0]''" "Some sample_fruit" "[''name'']"]
    by (simp add: TALER_JSON_expand_path_def sscanf_zero path_name_def dotted_def sample_fruit_def)
qed

section \<open>The canonical text\<close>

text \<open>
  A text as a printer of JSON makes it: characters, escapes of two characters, and control characters
  with a number of four hexadecimal digits, in upper or lower case. \<open>normal_token\<close> is what RFC 8785 asks for.
\<close>

datatype json_token = Plain string | Escape char | Control bool nat

definition hex_digit_upper :: "nat \<Rightarrow> char" where
  "hex_digit_upper n = (if n < 10 then char_of (48 + n) else char_of (55 + n))"

definition hex_digit_cased :: "bool \<Rightarrow> nat \<Rightarrow> char" where
  "hex_digit_cased upper n = (if upper then hex_digit_upper n else hex_digit n)"

fun token_text :: "json_token \<Rightarrow> string" where
  "token_text (Plain s) = s"
| "token_text (Escape c) = [CHR 0x5C, c]"
| "token_text (Control upper n) = CHR 0x5C # ''u00'' @ [hex_digit_cased upper (n div 16), hex_digit_cased upper (n mod 16)]"

fun normal_token :: "json_token \<Rightarrow> json_token" where
  "normal_token (Control upper n) =
     (if n = 8 then Escape CHR ''b'' else if n = 9 then Escape CHR ''t'' else if n = 10 then Escape CHR ''n''
      else if n = 12 then Escape CHR ''f'' else if n = 13 then Escape CHR ''r'' else Control False n)"
| "normal_token t = t"

definition tokens_text :: "json_token list \<Rightarrow> string" where
  "tokens_text ts = concat (map token_text ts)"

definition utf8_digester :: "digester \<Rightarrow> bool" where
  "utf8_digester D \<longleftrightarrow> (\<forall>s. u8_mblen D (NUL # s) = 0)
     \<and> (\<forall>c s. c \<noteq> NUL \<longrightarrow> of_char c < (128 :: nat) \<longrightarrow> u8_mblen D (c # s) = 1)
     \<and> (\<forall>n < 32. u32_to_u8 D n = Some [char_of n])"

fun token_ok :: "digester \<Rightarrow> json_token \<Rightarrow> bool" where
  "token_ok D (Plain s) \<longleftrightarrow> s \<noteq> [] \<and> (\<forall>r. u8_mblen D (s @ r) = int (length s))
     \<and> (length s = 1 \<longrightarrow> 31 < (of_char (hd s) :: nat) \<and> s \<noteq> [CHR 0x5C])"
| "token_ok D (Escape c) \<longleftrightarrow> c \<noteq> CHR ''u''"
| "token_ok D (Control upper n) \<longleftrightarrow> n < 32"

lemma hex_value_digits:
  assumes "n < 16"
  shows "hex_value (hex_digit_cased upper n) = Some n"
  using assms
  by (auto simp: hex_digit_cased_def hex_digit_upper_def hex_digit_def hex_value_def c_isdigit_def
      less_eq_char_def of_char_of)

lemma sscanf_two_digits:
  assumes "hex_value h = Some a" "hex_value l = Some b"
  shows "sscanf_hex4 (''00'' @ [h, l] @ r) = Some (16 * a + b)"
proof -
  have "hex_value CHR ''0'' = Some 0" by (simp add: hex_value_def c_isdigit_def)
  with assms show ?thesis
    by (simp add: sscanf_hex4_def hex_prefixed_def hex_number_def c_isspace_def numeral_eq_Suc)
qed

lemma sscanf_control: "n < 32 \<Longrightarrow> sscanf_hex4 (drop 2 (token_text (Control upper n) @ r)) = Some n"
  using sscanf_two_digits[OF hex_value_digits[of "n div 16" upper] hex_value_digits[of "n mod 16" upper], of r]
  by simp

lemma lowdump_control: "n < 32 \<Longrightarrow> lowdump (char_of n) = token_text (normal_token (Control upper n))"
  by (simp add: lowdump_def of_char_of hex_digit_cased_def)

lemma rfc8785_turn_token:
  assumes "utf8_digester D" "token_ok D t"
  shows "rfc8785_turn D (if \<exists>s. t = Plain s then length (token_text t) else 1) (token_text t @ r)
       = Done (token_text (normal_token t), length (token_text t))"
proof (cases t)
  case (Plain s)
  with assms(2) show ?thesis by (cases s) (auto simp: rfc8785_turn_def Let_def)
next
  case (Escape c)
  with assms(2) show ?thesis by (simp add: rfc8785_turn_def)
next
  case (Control upper n)
  with assms(2) have n: "n < 32" by simp
  with assms(1) have "u32_to_u8 D n = Some [char_of n]" by (simp add: utf8_digester_def)
  with n Control sscanf_control[OF n, of upper r] lowdump_control[OF n, of upper] show ?thesis
    by (simp add: rfc8785_turn_def of_char_of del: normal_token.simps)
qed

lemma token_mblen:
  assumes "utf8_digester D" "token_ok D t"
  shows "u8_mblen D (token_text t @ r) = (if \<exists>s. t = Plain s then int (length (token_text t)) else 1)"
    and "token_text t \<noteq> []"
  using assms by (cases t; simp add: utf8_digester_def)+

lemma rfc8785_loop_token:
  assumes "utf8_digester D" "token_ok D t" "rfc8785_loop D r = Done out"
  shows "rfc8785_loop D (token_text t @ r) = Done (token_text (normal_token t) @ out)"
proof -
  let ?m = "if \<exists>s. t = Plain s then length (token_text t) else 1"
  have mbl: "u8_mblen D ((token_text t @ r) @ [NUL]) = int ?m"
    using token_mblen(1)[OF assms(1,2), of "r @ [NUL]"] by simp
  have "0 < ?m" "?m \<le> length (token_text t @ r)"
    using token_mblen(2)[OF assms(1,2)] by (auto simp: Suc_le_eq)
  then show ?thesis
    unfolding rfc8785_loop.simps[of D "token_text t @ r"] Let_def mbl nat_int
      rfc8785_turn_token[OF assms(1,2)]
    using token_mblen(2)[OF assms(1,2)] assms(3) by simp
qed

lemma rfc8785_loop_tokens:
  assumes "utf8_digester D" "list_all (token_ok D) ts"
  shows "rfc8785_loop D (tokens_text ts) = Done (tokens_text (map normal_token ts))"
  using assms(2)
proof (induction ts)
  case Nil
  then show ?case using assms(1) by (subst rfc8785_loop.simps) (simp add: tokens_text_def utf8_digester_def)
next
  case (Cons t ts)
  then show ?case using rfc8785_loop_token[OF assms(1)] by (simp add: tokens_text_def)
qed

lemma normal_token_idem [simp]: "normal_token (normal_token t) = normal_token t"
  by (cases t) simp_all

lemma normal_token_ok: "token_ok D t \<Longrightarrow> token_ok D (normal_token t)"
  by (cases t) simp_all

text \<open>
  C30: the canonical encoding. On a text of characters, escapes of two characters and numbered control
  characters, as a printer of JSON makes it, \<^verbatim>\<open>TALER_rfc8785encode\<close> neither aborts nor changes a character: it
  gives each control character its short escape or its number in lower case, and adds a terminator. What it
  gives is canonical: encoding it once more gives the same text.
\<close>

theorem rfc8785encode_canonical:
  assumes "utf8_digester D" "list_all (token_ok D) ts"
  shows "TALER_rfc8785encode D (tokens_text ts) = Done (tokens_text (map normal_token ts) @ [NUL])
     \<and> TALER_rfc8785encode D (tokens_text (map normal_token ts)) = TALER_rfc8785encode D (tokens_text ts)"
proof -
  have "list_all (token_ok D) (map normal_token ts)"
    using assms(2) by (auto simp: list_all_iff normal_token_ok)
  from rfc8785_loop_tokens[OF assms(1) this] rfc8785_loop_tokens[OF assms] show ?thesis
    by (simp add: TALER_rfc8785encode_def comp_def)
qed

definition ascii_digester :: digester where
  "ascii_digester =
     \<lparr>json_dumps = (\<lambda>j. None), u8_mblen = (\<lambda>s. if hd s = NUL then 0 else 1), u32_to_u8 = (\<lambda>n. Some [char_of n]),
      crypto_hash = (\<lambda>s. s), crypto_kdf = (\<lambda>salt s. Some (salt @ s)), from_data = (\<lambda>s. s)\<rparr>"

lemma ascii_utf8_digester: "utf8_digester ascii_digester"
  by (simp add: utf8_digester_def ascii_digester_def)

theorem rfc8785encode_canonical_witness:
  "TALER_rfc8785encode ascii_digester (''a'' @ [CHR 0x5C] @ ''u001F'' @ [CHR 0x5C] @ ''u000A'')
     = Done (''a'' @ [CHR 0x5C] @ ''u001f'' @ [CHR 0x5C] @ ''n'' @ [NUL])"
  using rfc8785encode_canonical[OF ascii_utf8_digester, of "[Plain ''a'', Control True 31, Control True 10]"]
  by (simp add: tokens_text_def ascii_digester_def hex_digit_cased_def hex_digit_upper_def hex_digit_def char_of_def bit_0)

end
