(* ===== verification/Contract_Hash.thy ===== *)
theory Contract_Hash
  imports Json_Contract "HOL-Library.List_Lexorder" "HOL-Library.Multiset"
begin

text \<open>
  Forgetting keeps the hash of a contract. The loop of \<^verbatim>\<open>forget\<close> with its accumulators is reduced to a function
  that shows or hides each member of an object by the salts and hashes as they came in (\<open>hide\<close>). The order
  of members does not matter (\<open>canon\<close>), because the printer sorts them. \<open>forgets\<close> is the step of forgetting a
  field anywhere in a contract.
\<close>

section \<open>Values up to the order of members\<close>

primrec canon :: "json \<Rightarrow> json" where
  "canon JNull = JNull"
| "canon JTrue = JTrue"
| "canon JFalse = JFalse"
| "canon (JInteger i) = JInteger i"
| "canon (JReal r) = JReal r"
| "canon (JString s) = JString s"
| "canon (JArray vs) = JArray (map canon vs)"
| "canon (JObject kvs) = JObject (sort_key fst (map (map_prod id canon) kvs))"

definition sorts_keys :: "digester \<Rightarrow> bool" where
  "sorts_keys D \<longleftrightarrow> (\<forall>a b. canon a = canon b \<longrightarrow> json_dumps D a = json_dumps D b)"

lemma contains_real_canon [simp]: "contains_real (canon j) = contains_real j"
proof (induction j)
  case (JArray vs)
  then show ?case by (simp add: list_ex_iff)
next
  case (JObject kvs)
  then have "contains_real (canon (snd kv)) = contains_real (snd kv)" if "kv \<in> set kvs" for kv
    using that by (cases kv) force
  then show ?case by (auto simp: list_ex_iff)
qed simp_all

lemma dump_and_hash_canon:
  assumes "sorts_keys D" "canon a = canon b"
  shows "dump_and_hash D (Some a) s = dump_and_hash D (Some b) s"
proof -
  have "contains_real a = contains_real b"
    using arg_cong[OF assms(2), of contains_real] by simp
  moreover have "json_dumps D a = json_dumps D b"
    using assms unfolding sorts_keys_def by blast
  ultimately show ?thesis by (simp add: dump_and_hash_def)
qed

abbreviation canon_members :: "members \<Rightarrow> members" where
  "canon_members \<equiv> map (map_prod id canon)"

lemma canon_objectI:
  assumes "mset (canon_members a) = mset (canon_members b)" "distinct (map fst a)"
  shows "canon (JObject a) = canon (JObject b)"
proof -
  have "inj_on fst (set (canon_members a))"
    using assms(2) by (auto simp: inj_on_def dest: eq_key_imp_eq_value)
  then have "sort_key fst (canon_members a) = sort_key fst (canon_members b)"
    using assms(1) by (intro sort_key_inj_key_eq) auto
  then show ?thesis by simp
qed

lemma set_member_new: "k \<notin> fst ` set kvs \<Longrightarrow> set_member k v kvs = kvs @ [(k, v)]"
  by (induction kvs) auto

lemma del_member_Cons:
  "del_member k (kv # kvs) = (if fst kv = k then del_member k kvs else kv # del_member k kvs)"
  by (simp add: del_member_def case_prod_beta)

lemma del_member_append: "del_member k (a @ b) = del_member k a @ del_member k b"
  by (simp add: del_member_def)

lemma del_member_Nil [simp]: "del_member k [] = []"
  by (simp add: del_member_def)

lemma del_member_absent: "k \<notin> fst ` set kvs \<Longrightarrow> del_member k kvs = kvs"
  by (force simp: del_member_def filter_id_conv)

lemma map_of_set_member: "map_of (set_member k v kvs) = (map_of kvs)(k \<mapsto> v)"
  by (induction kvs) auto

lemma map_of_del_member: "map_of (del_member k kvs) = (map_of kvs)(k := None)"
  by (induction kvs) (auto simp: del_member_def)

lemma keys_set_member: "fst ` set (set_member k v kvs) = insert k (fst ` set kvs)"
  by (induction k v kvs rule: set_member.induct) auto

lemma distinct_set_member: "distinct (map fst kvs) \<Longrightarrow> distinct (map fst (set_member k v kvs))"
  by (induction k v kvs rule: set_member.induct) (auto simp: keys_set_member)

lemma set_del_member: "set (del_member k kvs) = {(k', v) \<in> set kvs. k' \<noteq> k}"
  by (auto simp: del_member_def)

lemma distinct_del_member: "distinct (map fst kvs) \<Longrightarrow> distinct (map fst (del_member k kvs))"
  by (simp add: del_member_def distinct_map_filter)

lemma del_set_member: "del_member k (set_member k v kvs) = del_member k kvs"
  by (induction kvs) (auto simp: del_member_def)

lemma mset_set_member:
  "distinct (map fst kvs) \<Longrightarrow> mset (set_member k v kvs) = add_mset (k, v) (mset (del_member k kvs))"
proof (induction kvs)
  case (Cons kv kvs)
  then have "fst kv \<notin> fst ` set kvs" by simp
  with Cons show ?case
    by (cases kv) (auto simp: del_member_Cons del_member_absent)
qed (simp add: del_member_def)

section \<open>Well-formed contracts\<close>

definition special :: "string \<Rightarrow> bool" where
  "special k \<longleftrightarrow> k = ''$forgettable'' \<or> k = ''$forgotten''"

definition ordinary :: "(json \<Rightarrow> bool) \<Rightarrow> members \<Rightarrow> bool" where
  "ordinary P m \<longleftrightarrow> distinct (map fst m) \<and> (\<forall>(k, v)\<in>set m. \<not> special k \<and> P v)"

fun ordinary_object :: "(json \<Rightarrow> bool) \<Rightarrow> json option \<Rightarrow> bool" where
  "ordinary_object P None = True"
| "ordinary_object P (Some (JObject m)) = ordinary P m"
| "ordinary_object P _ = False"

definition is_string :: "json \<Rightarrow> bool" where
  "is_string v \<longleftrightarrow> (\<exists>s. v = JString s)"

lemma is_string_code [simp, code]:
  "is_string JNull = False" "is_string JTrue = False" "is_string JFalse = False"
  "is_string (JInteger i) = False" "is_string (JReal r) = False" "is_string (JString s) = True"
  "is_string (JArray vs) = False" "is_string (JObject kvs) = False"
  by (simp_all add: is_string_def)

definition contract_object :: "members \<Rightarrow> bool" where
  "contract_object kvs \<longleftrightarrow> distinct (map fst kvs)
     \<and> ordinary_object (\<lambda>_. True) (map_of kvs ''$forgettable'')
     \<and> ordinary_object is_string (map_of kvs ''$forgotten'')"

primrec wf_json :: "json \<Rightarrow> bool" where
  "wf_json JNull = True"
| "wf_json JTrue = True"
| "wf_json JFalse = True"
| "wf_json (JInteger i) = True"
| "wf_json (JReal r) = True"
| "wf_json (JString s) = True"
| "wf_json (JArray vs) = list_all id (map wf_json vs)"
| "wf_json (JObject kvs) = (contract_object kvs \<and> list_all (\<lambda>(k, w). special k \<or> w) (map (map_prod id wf_json) kvs))"

lemma ordinary_objectD:
  assumes "ordinary_object P j"
  shows "j = None \<or> (\<exists>m. j = Some (JObject m) \<and> ordinary P m)"
  using assms by (cases "(P, j)" rule: ordinary_object.cases) auto

lemma ordinary_object_special [simp]:
  assumes "ordinary_object P j" "special k"
  shows "json_object_get j k = None"
  using ordinary_objectD[OF assms(1)] assms(2) by (fastforce simp: ordinary_def map_of_eq_None_iff)

section \<open>What is shown and what is hidden\<close>

text \<open>
  The result of \<^verbatim>\<open>forget\<close> without the accumulators of its loop: a member of an object is shown or hidden,
  by the salts and the forgotten fields of the object as it came in.
\<close>

definition place :: "digester \<Rightarrow> json option \<Rightarrow> string \<Rightarrow> json \<Rightarrow> generic_return outcome + members \<times> members" where
  "place D salt k v =
     (case snd (forget D v) of
        Inl e \<Rightarrow> Inl e
      | Inr t \<Rightarrow>
          (case salt of
             None \<Rightarrow> Inr ([(k, t)], [])
           | Some j \<Rightarrow>
               (case json_string_value (Some j) of
                  None \<Rightarrow> Inl (Done GNUNET_NO)
                | Some s \<Rightarrow>
                    (case dump_and_hash D (Some t) (Some s) of
                       Inl e \<Rightarrow> Inl e
                     | Inr hc \<Rightarrow> Inr ([], [(k, JString (from_data D hc))])))))"

fun hide :: "digester \<Rightarrow> json option \<Rightarrow> json option \<Rightarrow> members \<Rightarrow> generic_return outcome + members \<times> members" where
  "hide D fg rx [] = Inr ([], [])"
| "hide D fg rx ((k, v) # kvs) =
     (if special k \<or> json_object_get rx k \<noteq> None then hide D fg rx kvs
      else case place D (json_object_get fg k) k v of
             Inl e \<Rightarrow> Inl e
           | Inr (vis, hid) \<Rightarrow>
               (case hide D fg rx kvs of
                  Inl e \<Rightarrow> Inl e
                | Inr (vs, hs) \<Rightarrow> Inr (vis @ vs, hid @ hs)))"

fun object_members :: "json option \<Rightarrow> members" where
  "object_members (Some (JObject m)) = m"
| "object_members _ = []"

definition add_hashes :: "json option \<Rightarrow> members \<Rightarrow> json option" where
  "add_hashes rx hid = (if hid = [] then rx else Some (JObject (object_members rx @ hid)))"

abbreviation is_object_option :: "json option \<Rightarrow> bool" where
  "is_object_option j \<equiv> j = None \<or> (\<exists>m. j = Some (JObject m))"

fun without_forgotten :: "members \<times> json option \<Rightarrow> members \<times> json option" where
  "without_forgotten (ret, rx) = (del_member ''$forgotten'' ret, rx)"

fun map_ok :: "('a \<Rightarrow> 'b) \<Rightarrow> 'e + 'a \<Rightarrow> 'e + 'b" where
  "map_ok f (Inl e) = Inl e"
| "map_ok f (Inr x) = Inr (f x)"

lemma get_del: "k' \<noteq> k \<Longrightarrow> json_object_get (json_object_del j k) k' = json_object_get j k'"
  by (cases "(j, k)" rule: json_object_del.cases) (auto simp: map_of_del_member)

lemma is_object_option_del: "is_object_option j \<Longrightarrow> is_object_option (json_object_del j k)"
  by auto

lemma del_eq_None [simp]: "json_object_del j k = None \<longleftrightarrow> j = None"
  by (cases "(j, k)" rule: json_object_del.cases) auto

definition same_lookups :: "json option \<Rightarrow> json option \<Rightarrow> string set \<Rightarrow> bool" where
  "same_lookups a b K \<longleftrightarrow> (\<forall>k\<in>K. json_object_get a k = json_object_get b k)"

definition loop_ok ::
  "digester \<Rightarrow> json option \<Rightarrow> json option \<Rightarrow> json option \<Rightarrow> json option \<Rightarrow> members \<Rightarrow> members \<Rightarrow> bool" where
  "loop_ok D fg0 rx0 fg rx ret kvs \<longleftrightarrow>
     distinct (map fst kvs) \<and> is_object_option fg \<and> is_object_option rx
     \<and> same_lookups fg fg0 (fst ` set kvs) \<and> same_lookups rx rx0 (fst ` set kvs)
     \<and> fst ` set ret \<inter> fst ` set kvs = {} \<and> (''$forgettable'' \<in> fst ` set kvs \<longrightarrow> fg \<noteq> None)
     \<and> json_object_get fg0 ''$forgotten'' = None \<and> json_object_get rx0 ''$forgotten'' = None
     \<and> (\<forall>v. (''$forgotten'', v) \<in> set kvs \<longrightarrow> (\<exists>t. snd (forget D v) = Inr t))"

lemma add_hashes_add: "add_hashes (add_hashes rx [kh]) hid = add_hashes rx (kh # hid)"
  by (simp add: add_hashes_def)

lemma get_add_hash: "\<lbrakk>k' \<noteq> k; is_object_option rx\<rbrakk> \<Longrightarrow> json_object_get (add_hashes rx [(k, h)]) k' = json_object_get rx k'"
  by (auto simp: add_hashes_def map_add_def split: option.split)

lemma set_forgotten_new:
  assumes "is_object_option rx" "json_object_get rx k = None"
  shows "json_object_set (case rx of None \<Rightarrow> JObject [] | Some x \<Rightarrow> x) k h = add_hashes rx [(k, h)]"
  using assms by (auto simp: add_hashes_def map_of_eq_None_iff set_member_new)

lemma loop_ok_skip: "loop_ok D fg0 rx0 fg rx ret ((k, v) # kvs) \<Longrightarrow> loop_ok D fg0 rx0 fg rx ret kvs"
  unfolding loop_ok_def same_lookups_def by auto

lemma loop_ok_show:
  "loop_ok D fg0 rx0 fg rx ret ((k, v) # kvs) \<Longrightarrow> loop_ok D fg0 rx0 fg rx (ret @ [(k, t)]) kvs"
  unfolding loop_ok_def same_lookups_def by auto

lemma loop_ok_hide:
  assumes ok: "loop_ok D fg0 rx0 fg rx ret ((k, v) # kvs)"
  shows "loop_ok D fg0 rx0 (json_object_del fg k) (add_hashes rx [(k, h)]) ret kvs"
proof -
  have new: "k' \<noteq> k" if "k' \<in> fst ` set kvs" for k'
    using ok that unfolding loop_ok_def by auto
  have "same_lookups (json_object_del fg k) fg0 (fst ` set kvs)"
    using ok new unfolding loop_ok_def same_lookups_def by (simp add: get_del)
  moreover have "same_lookups (add_hashes rx [(k, h)]) rx0 (fst ` set kvs)"
    using ok new unfolding loop_ok_def same_lookups_def by (simp add: get_add_hash)
  moreover have "is_object_option (add_hashes rx [(k, h)])" "is_object_option (json_object_del fg k)"
    using ok by (auto simp: add_hashes_def loop_ok_def)
  ultimately show ?thesis
    using loop_ok_skip[OF ok] unfolding loop_ok_def by simp
qed

lemma loop_ok_facts:
  assumes "loop_ok D fg0 rx0 fg rx ret ((k, v) # kvs)"
  shows "json_object_get fg k = json_object_get fg0 k" "json_object_get rx k = json_object_get rx0 k"
    and "k \<notin> fst ` set ret" "is_object_option rx"
    and "(is_forgettable fg k v \<or> is_singleton v \<and> rx = Some v) \<longleftrightarrow> k = ''$forgettable''"
    and "k = ''$forgotten'' \<Longrightarrow> json_object_get fg0 k = None \<and> json_object_get rx0 k = None"
    and "k = ''$forgotten'' \<Longrightarrow> \<exists>t. snd (forget D v) = Inr t"
  using assms unfolding loop_ok_def same_lookups_def is_forgettable_def is_singleton_def by auto

text \<open>One turn of the loop, in terms of the rest of it.\<close>

abbreviation loop_result ::
  "digester \<Rightarrow> json option \<Rightarrow> json option \<Rightarrow> members \<Rightarrow> members \<Rightarrow> generic_return outcome + members \<times> json option" where
  "loop_result D fg rx ret kvs \<equiv> snd (snd (forget_members D fg rx ret kvs))"

lemma loop_result_turn:
  assumes "loop_ok D fg0 rx0 fg rx ret ((k, v) # kvs)"
  shows "loop_result D fg rx ret ((k, v) # kvs) =
     (if k = ''$forgettable'' \<or> json_object_get rx0 k \<noteq> None then loop_result D fg rx ret kvs
      else case place D (json_object_get fg0 k) k v of
             Inl e \<Rightarrow> Inl e
           | Inr (vis, []) \<Rightarrow> loop_result D fg rx (ret @ vis) kvs
           | Inr (vis, kh # _) \<Rightarrow> loop_result D (json_object_del fg k) (add_hashes rx [kh]) ret kvs)"
proof -
  note facts = loop_ok_facts(1-5)[OF assms]
  note simps = forget_members.simps facts(5) facts(1,2)
  consider (skip) "k = ''$forgettable'' \<or> json_object_get rx0 k \<noteq> None"
    | (new) "k \<noteq> ''$forgettable''" "json_object_get rx k = None" "json_object_get rx0 k = None"
    using facts(2) by auto
  then show ?thesis
  proof cases
    case skip
    then show ?thesis
      by (simp only: simps) (auto simp: del_member_absent[OF facts(3)] split: prod.split)
  next
    case new
    note set_new = set_forgotten_new[OF facts(4) new(2)]
    show ?thesis
      by (cases "forget D v"; simp only: simps set_new)
         (simp add: new place_def set_member_new[OF facts(3)] add_hashes_def
            split: sum.split option.split prod.split)
  qed
qed

lemma forget_members_hide:
  assumes "loop_ok D fg0 rx0 fg rx ret kvs"
  shows "map_ok without_forgotten (loop_result D fg rx ret kvs)
       = map_ok (\<lambda>(vis, hid). (del_member ''$forgotten'' ret @ vis, add_hashes rx hid)) (hide D fg0 rx0 kvs)"
  using assms
proof (induction kvs arbitrary: fg rx ret)
  case Nil
  then show ?case by (simp add: add_hashes_def)
next
  case (Cons kv kvs)
  obtain k v where kv [simp]: "kv = (k, v)" by (cases kv)
  note ok = Cons.prems[unfolded kv]
  note IHs = Cons.IH[OF loop_ok_skip[OF ok]] Cons.IH[OF loop_ok_show[OF ok]] Cons.IH[OF loop_ok_hide[OF ok]]
  show ?case
  proof (cases "k = ''$forgotten''")
    case True
    then obtain t where "snd (forget D v) = Inr t" using loop_ok_facts(7)[OF ok] by auto
    with True loop_ok_facts(6)[OF ok] show ?thesis
      unfolding kv loop_result_turn[OF ok]
      by (simp add: place_def special_def IHs[unfolded True] del_member_append del_member_Cons)
  next
    case False
    then show ?thesis
      unfolding kv loop_result_turn[OF ok]
      by (auto simp: place_def special_def IHs add_hashes_add del_member_append del_member_Cons
          split: sum.split option.split)
  qed
qed

lemma loop_result_keys:
  "\<lbrakk>loop_result D fg rx ret kvs = Inr (ret', rx'); distinct (map fst ret)\<rbrakk>
   \<Longrightarrow> distinct (map fst ret') \<and> fst ` set ret' \<subseteq> fst ` set ret \<union> fst ` set kvs"
proof (induction kvs arbitrary: fg rx ret)
  case (Cons kv kvs)
  obtain k v where kv [simp]: "kv = (k, v)" by (cases kv)
  have "\<exists>fg1 rx1 ret1. loop_result D fg1 rx1 ret1 kvs = Inr (ret', rx')
          \<and> (ret1 = ret \<or> ret1 = del_member k ret \<or> (\<exists>t. ret1 = set_member k t ret))"
    using Cons.prems(1) by (simp add: case_prod_beta split: if_splits sum.splits option.splits) blast+
  then obtain fg1 rx1 ret1 where rest: "loop_result D fg1 rx1 ret1 kvs = Inr (ret', rx')"
      and ret1: "ret1 = ret \<or> ret1 = del_member k ret \<or> (\<exists>t. ret1 = set_member k t ret)" by blast
  have "distinct (map fst ret1)" "fst ` set ret1 \<subseteq> insert k (fst ` set ret)"
    using ret1 Cons.prems(2)
    by (elim disjE exE; auto simp: distinct_del_member distinct_set_member set_del_member
        dest!: equalityD1[OF keys_set_member, THEN subsetD, OF imageI])+
  then show ?case
    using Cons.IH[OF rest] by simp blast
qed simp

lemma snd_forget_object:
  "snd (forget D (JObject kvs)) = map_ok (\<lambda>(ret, rx). JObject (with_forgotten rx ret))
     (loop_result D (map_of kvs ''$forgettable'') (map_of kvs ''$forgotten'') [] kvs)"
  by (simp split: prod.split sum.split)

definition assemble :: "json option \<Rightarrow> members \<Rightarrow> members \<Rightarrow> json" where
  "assemble rx vis hid =
     JObject (vis @ (case add_hashes rx hid of None \<Rightarrow> [] | Some x \<Rightarrow> [(''$forgotten'', x)]))"

lemma hide_strings: "\<forall>(k, v)\<in>set kvs. \<not> special k \<and> is_string v \<Longrightarrow> \<exists>r. hide D None None kvs = Inr r"
  by (induction kvs) (auto simp: place_def is_string_def)

lemma forget_strings:
  assumes "ordinary is_string m"
  shows "\<exists>t. snd (forget D (JObject m)) = Inr t"
proof -
  have none: "map_of m k = None" if "special k" for k
    using assms that by (fastforce simp: ordinary_def map_of_eq_None_iff)
  have "loop_ok D None None None None [] m"
    using assms by (fastforce simp: ordinary_def loop_ok_def same_lookups_def special_def)
  from forget_members_hide[OF this] hide_strings[of m D] assms
  obtain r where "map_ok without_forgotten (loop_result D None None [] m) = Inr r"
    by (fastforce simp: ordinary_def)
  then obtain ret rx where "loop_result D None None [] m = Inr (ret, rx)"
    by (cases "loop_result D None None [] m") auto
  then show ?thesis
    using none[of "''$forgettable''"] none[of "''$forgotten''"]
    by (simp add: special_def snd_forget_object del: forget.simps)
qed

lemma contract_object_loop_ok:
  assumes "contract_object kvs"
  shows "loop_ok D (map_of kvs ''$forgettable'') (map_of kvs ''$forgotten'')
           (map_of kvs ''$forgettable'') (map_of kvs ''$forgotten'') [] kvs"
proof -
  note co = assms[unfolded contract_object_def]
  have "\<exists>t. snd (forget D v) = Inr t" if "(''$forgotten'', v) \<in> set kvs" for v
  proof -
    have "map_of kvs ''$forgotten'' = Some v" using co that by simp
    then obtain m where "v = JObject m" "ordinary is_string m"
      using co ordinary_objectD[of is_string "Some v"] by auto
    then show ?thesis using forget_strings by simp
  qed
  moreover have "is_object_option (map_of kvs ''$forgettable'')" "is_object_option (map_of kvs ''$forgotten'')"
    using co ordinary_objectD by blast+
  moreover have "json_object_get (map_of kvs ''$forgettable'') ''$forgotten'' = None"
    "json_object_get (map_of kvs ''$forgotten'') ''$forgotten'' = None"
    using co by (auto simp: special_def)
  moreover have "''$forgettable'' \<in> fst ` set kvs \<longrightarrow> map_of kvs ''$forgettable'' \<noteq> None"
    by (simp add: map_of_eq_None_iff)
  ultimately show ?thesis
    using co unfolding loop_ok_def same_lookups_def by simp
qed

text \<open>The result of \<^verbatim>\<open>forget\<close> on an object, up to the order of members.\<close>

lemma forget_object:
  assumes "contract_object kvs"
  shows "map_ok canon (snd (forget D (JObject kvs)))
       = map_ok (\<lambda>(vis, hid). canon (assemble (map_of kvs ''$forgotten'') vis hid))
           (hide D (map_of kvs ''$forgettable'') (map_of kvs ''$forgotten'') kvs)"
proof (cases "loop_result D (map_of kvs ''$forgettable'') (map_of kvs ''$forgotten'') [] kvs")
  case (Inl e)
  with forget_members_hide[OF contract_object_loop_ok[OF assms], of D] show ?thesis
    by (cases "hide D (map_of kvs ''$forgettable'') (map_of kvs ''$forgotten'') kvs")
       (auto simp: snd_forget_object simp del: forget.simps)
next
  case (Inr r)
  obtain ret rx where r: "r = (ret, rx)" by (cases r)
  with Inr forget_members_hide[OF contract_object_loop_ok[OF assms], of D]
  obtain vis hid where h: "hide D (map_of kvs ''$forgettable'') (map_of kvs ''$forgotten'') kvs = Inr (vis, hid)"
      and vis: "vis = del_member ''$forgotten'' ret" and rx: "rx = add_hashes (map_of kvs ''$forgotten'') hid"
    by (cases "hide D (map_of kvs ''$forgettable'') (map_of kvs ''$forgotten'') kvs") auto
  have keys: "distinct (map fst ret)" "fst ` set ret \<subseteq> fst ` set kvs"
    using loop_result_keys[OF Inr[unfolded r]] by auto
  have "mset (with_forgotten rx ret) = mset (vis @ (case rx of None \<Rightarrow> [] | Some x \<Rightarrow> [(''$forgotten'', x)]))"
  proof (cases rx)
    case None
    then have "''$forgotten'' \<notin> fst ` set kvs"
      using rx by (simp add: add_hashes_def map_of_eq_None_iff split: if_splits)
    with keys(2) have "del_member ''$forgotten'' ret = ret"
      by (intro del_member_absent) blast
    with None show ?thesis by (simp add: with_forgotten_def vis)
  next
    case (Some x)
    then show ?thesis by (simp add: with_forgotten_def vis mset_set_member[OF keys(1)])
  qed
  then have "canon (JObject (with_forgotten rx ret)) = canon (assemble (map_of kvs ''$forgotten'') vis hid)"
    unfolding assemble_def rx[symmetric] using keys(1)
    by (intro canon_objectI) (simp_all add: with_forgotten_def distinct_set_member split: option.split)
  then show ?thesis
    by (simp add: Inr r h snd_forget_object del: forget.simps canon.simps)
qed

section \<open>Values with the same hash\<close>

definition same_outcome :: "digester \<Rightarrow> json \<Rightarrow> json \<Rightarrow> bool" where
  "same_outcome D a b \<longleftrightarrow> map_ok canon (snd (forget D a)) = map_ok canon (snd (forget D b))"

lemma same_outcome_cases:
  assumes "same_outcome D a b"
  obtains (err) e where "snd (forget D a) = Inl e" "snd (forget D b) = Inl e"
    | (ok) s t where "snd (forget D a) = Inr s" "snd (forget D b) = Inr t" "canon s = canon t"
  using assms unfolding same_outcome_def
  by (cases "snd (forget D a)"; cases "snd (forget D b)") auto

lemma same_outcome_hash:
  assumes "sorts_keys D" "same_outcome D a b"
  shows "TALER_JSON_contract_hash D a = TALER_JSON_contract_hash D b"
  using assms(2)
proof (cases rule: same_outcome_cases)
  case (ok s t)
  then show ?thesis
    by (simp add: TALER_JSON_contract_hash_def dump_and_hash_canon[OF assms(1) ok(3)])
qed (simp add: TALER_JSON_contract_hash_def)

definition combine :: "generic_return outcome + members \<times> members \<Rightarrow> generic_return outcome + members \<times> members
    \<Rightarrow> generic_return outcome + members \<times> members" where
  "combine a b = (case a of Inl e \<Rightarrow> Inl e
      | Inr (vis, hid) \<Rightarrow> (case b of Inl e \<Rightarrow> Inl e | Inr (vs, hs) \<Rightarrow> Inr (vis @ vs, hid @ hs)))"

lemma hide_Cons:
  "hide D fg rx ((k, v) # kvs) =
     (if special k \<or> json_object_get rx k \<noteq> None then hide D fg rx kvs
      else combine (place D (json_object_get fg k) k v) (hide D fg rx kvs))"
  by (simp add: combine_def split: sum.split)

declare hide.simps(2) [simp del]

lemma combine_assoc: "combine (combine a b) c = combine a (combine b c)"
  by (auto simp: combine_def split: sum.split)

lemma hide_append: "hide D fg rx (xs @ ys) = combine (hide D fg rx xs) (hide D fg rx ys)"
proof (induction xs)
  case Nil
  then show ?case by (auto simp: combine_def split: sum.split)
next
  case (Cons kv xs)
  then show ?case by (cases kv) (simp add: hide_Cons combine_assoc)
qed

fun canon_parts :: "members \<times> members \<Rightarrow> members \<times> members" where
  "canon_parts (vis, hid) = (canon_members vis, hid)"

lemma combine_canon:
  assumes "map_ok canon_parts a = map_ok canon_parts a'" "map_ok canon_parts b = map_ok canon_parts b'"
  shows "map_ok canon_parts (combine a b) = map_ok canon_parts (combine a' b')"
  using assms by (cases a; cases a'; cases b; cases b') (auto simp: combine_def)

lemma place_canon:
  assumes "sorts_keys D" "same_outcome D a b"
  shows "map_ok canon_parts (place D salt k a) = map_ok canon_parts (place D salt k b)"
  using assms(2)
proof (cases rule: same_outcome_cases)
  case (ok s t)
  then show ?thesis
    by (simp add: place_def dump_and_hash_canon[OF assms(1) ok(3)] split: option.split sum.split)
qed (simp add: place_def)

lemma assemble_canon:
  assumes "map_ok canon_parts p = map_ok canon_parts q"
  shows "map_ok (\<lambda>(vis, hid). canon (assemble rx vis hid)) p = map_ok (\<lambda>(vis, hid). canon (assemble rx vis hid)) q"
  using assms by (cases p; cases q) (auto simp: assemble_def)

lemma same_outcome_member:
  assumes "sorts_keys D" "same_outcome D a b" "\<not> special k"
    and "contract_object (xs @ (k, a) # ys)" "contract_object (xs @ (k, b) # ys)"
  shows "same_outcome D (JObject (xs @ (k, a) # ys)) (JObject (xs @ (k, b) # ys))"
proof -
  have look: "map_of (xs @ (k, a) # ys) k' = map_of (xs @ (k, b) # ys) k'" if "special k'" for k'
    using assms(3) that by (auto simp: map_add_def split: option.split)
  let ?fg = "map_of (xs @ (k, b) # ys) ''$forgettable''" and ?rx = "map_of (xs @ (k, b) # ys) ''$forgotten''"
  have parts: "map_ok canon_parts (hide D ?fg ?rx (xs @ (k, a) # ys)) = map_ok canon_parts (hide D ?fg ?rx (xs @ (k, b) # ys))"
    unfolding hide_append hide_Cons
    by (intro combine_canon refl) (auto intro!: combine_canon place_canon[OF assms(1,2)])
  from assemble_canon[OF parts, of ?rx] show ?thesis
    using look[of "''$forgettable''"] look[of "''$forgotten''"]
    by (simp only: same_outcome_def forget_object[OF assms(4)] forget_object[OF assms(5)] special_def simp_thms)
qed

lemma same_outcome_element:
  assumes "same_outcome D a b"
  shows "same_outcome D (JArray (xs @ a # ys)) (JArray (xs @ b # ys))"
proof -
  have *: "map_ok (map canon) (snd (forget_array D (xs @ a # ys))) = map_ok (map canon) (snd (forget_array D (xs @ b # ys)))"
  proof (induction xs)
    case Nil
    from assms show ?case
      by (cases rule: same_outcome_cases) (auto simp: case_prod_beta split: sum.split prod.split)
  next
    case (Cons x xs)
    then show ?case
      by (cases "snd (forget_array D (xs @ a # ys))"; cases "snd (forget_array D (xs @ b # ys))")
         (auto simp: case_prod_beta split: sum.split prod.split)
  qed
  have **: "snd (forget D (JArray vs)) = map_ok JArray (snd (forget_array D vs))" for vs
    by (simp split: prod.split sum.split)
  from * show ?thesis
    by (cases "snd (forget_array D (xs @ a # ys))"; cases "snd (forget_array D (xs @ b # ys))")
       (simp_all add: same_outcome_def ** del: forget.simps)
qed

section \<open>Forgetting a field keeps the hash\<close>

definition after_forgetting :: "string \<Rightarrow> json \<Rightarrow> json \<Rightarrow> json \<Rightarrow> members \<Rightarrow> members" where
  "after_forgetting f part' fg' rx' kvs =
     del_member f (set_member ''$forgotten'' rx' (set_member ''$forgettable'' fg' (set_member f part' kvs)))"

definition plain :: "members \<Rightarrow> members" where
  "plain kvs = filter (\<lambda>(k, _). \<not> special k) kvs"

lemma plain_set_special: "special k \<Longrightarrow> plain (set_member k v kvs) = plain kvs"
  by (induction k v kvs rule: set_member.induct) (auto simp: plain_def)

lemma plain_del: "plain (del_member f kvs) = del_member f (plain kvs)"
  by (simp add: plain_def del_member_def case_prod_beta conj_commute)

lemma del_set_other: "k \<noteq> f \<Longrightarrow> del_member f (set_member k v kvs) = set_member k v (del_member f kvs)"
  by (induction kvs) (auto simp: del_member_Cons)

lemma set_set_member [simp]: "set_member k v (set_member k w kvs) = set_member k v kvs"
  by (induction kvs) auto

lemma after_forgetting:
  assumes "distinct (map fst kvs)" "\<not> special f"
  shows "plain (after_forgetting f part' fg' rx' kvs) = del_member f (plain kvs)"
    and "distinct (map fst (after_forgetting f part' fg' rx' kvs))"
    and "map_of (after_forgetting f part' fg' rx' kvs) ''$forgettable'' = Some fg'"
    and "map_of (after_forgetting f part' fg' rx' kvs) ''$forgotten'' = Some rx'"
proof -
  have ne: "''$forgettable'' \<noteq> f" "''$forgotten'' \<noteq> f" using assms(2) by (auto simp: special_def)
  note simps = after_forgetting_def del_set_other[OF ne(1)] del_set_other[OF ne(2)] del_set_member
  show "plain (after_forgetting f part' fg' rx' kvs) = del_member f (plain kvs)"
    by (simp add: simps plain_set_special special_def plain_del)
  show "distinct (map fst (after_forgetting f part' fg' rx' kvs))"
    by (simp add: simps distinct_set_member distinct_del_member assms(1))
  show "map_of (after_forgetting f part' fg' rx' kvs) ''$forgettable'' = Some fg'"
       "map_of (after_forgetting f part' fg' rx' kvs) ''$forgotten'' = Some rx'"
    by (simp_all add: simps map_of_set_member)
qed

lemma json_string_value_Some: "json_string_value j = Some s \<longleftrightarrow> j = Some (JString s)"
  by (cases j rule: json_string_value.cases) auto

lemma part_forget_ok:
  assumes "TALER_JSON_contract_part_forget D (JObject kvs) f = (j, Done GNUNET_OK)" "contract_object kvs"
  obtains part part' fg salt t hc rx' kvs1 where "map_of kvs f = Some part" "map_of kvs ''$forgettable'' = Some fg"
    "json_object_get (map_of kvs ''$forgotten'') f = None" "json_object_get (Some fg) f = Some (JString salt)"
    "snd (forget D part) = Inr t" "dump_and_hash D (Some t) (Some salt) = Inr hc"
    "add_hashes (map_of kvs ''$forgotten'') [(f, JString (from_data D hc))] = Some rx'"
    "j = JObject (after_forgetting f part' (the (json_object_del (Some fg) f)) rx' kvs1)"
    "kvs1 = kvs \<or> kvs1 = set_member ''$forgotten'' (JObject []) kvs" "\<not> special f"
proof -
  let ?rx = "map_of kvs ''$forgotten''"
  let ?ro = "case ?rx of None \<Rightarrow> JObject [] | Some x \<Rightarrow> x"
  define kvs1 where "kvs1 = (if ?rx = None then set_member ''$forgotten'' ?ro kvs else kvs)"
  from assms(1) obtain part fg salt where look: "map_of kvs f = Some part" "map_of kvs ''$forgettable'' = Some fg"
      "json_object_get (Some ?ro) f = None" "json_object_get (Some fg) f = Some (JString salt)"
      and ff: "forget_field D kvs1 f part fg ?ro salt = (j, Done GNUNET_OK)"
    by (auto simp: Let_def kvs1_def json_string_value_Some split: option.splits if_splits)
  have obj: "is_object_option ?rx" "json_object_get ?rx f = None"
    using look(3) assms(2) ordinary_objectD[of is_string ?rx] unfolding contract_object_def
    by (auto split: option.splits)
  from ff obtain part' t hc rx' where "forget D part = (part', Inr t)" "dump_and_hash D (Some t) (Some salt) = Inr hc"
      "json_object_set ?ro f (JString (from_data D hc)) = Some rx'"
      "j = JObject (after_forgetting f part' (the (json_object_del (Some fg) f)) rx' kvs1)"
    using forget_not_ok[of D part]
    by (auto simp: forget_field_def Let_def after_forgetting_def
        split: prod.splits sum.splits option.splits if_splits)
  moreover have "\<not> special f"
    using look(2,4) assms(2) ordinary_object_special[of "\<lambda>_. True" "Some fg" f]
    unfolding contract_object_def by auto
  moreover have "kvs1 = kvs \<or> kvs1 = set_member ''$forgotten'' (JObject []) kvs"
    by (simp add: kvs1_def)
  ultimately show ?thesis
    using that[of part fg salt t hc rx' part' kvs1] look obj(2) set_forgotten_new[OF obj] by simp
qed

lemma hide_plain: "hide D fg rx (plain kvs) = hide D fg rx kvs"
proof (induction kvs)
  case (Cons kv kvs)
  then show ?case by (cases kv) (auto simp: hide_Cons plain_def)
qed (simp add: plain_def)

lemma hide_cong:
  assumes "same_lookups fg fg' (fst ` set kvs)" "same_lookups rx rx' (fst ` set kvs)"
  shows "hide D fg rx kvs = hide D fg' rx' kvs"
  using assms
proof (induction kvs)
  case (Cons kv kvs)
  then show ?case by (cases kv) (simp add: hide_Cons same_lookups_def)
qed simp

lemma place_keys: "place D s k v = Inr (vis, hid) \<Longrightarrow> fst ` set hid \<subseteq> {k} \<and> length hid \<le> 1"
  by (auto simp: place_def split: sum.splits option.splits)

lemma hide_keys:
  "\<lbrakk>hide D fg rx kvs = Inr (vis, hid); distinct (map fst kvs)\<rbrakk>
   \<Longrightarrow> distinct (map fst hid) \<and> fst ` set hid \<subseteq> {k \<in> fst ` set kvs. json_object_get rx k = None}"
proof (induction kvs arbitrary: vis hid)
  case (Cons kv kvs)
  obtain k v where kv [simp]: "kv = (k, v)" by (cases kv)
  show ?case
  proof (cases "special k \<or> json_object_get rx k \<noteq> None")
    case True
    with Cons show ?thesis by (auto simp: hide_Cons)
  next
    case False
    with Cons.prems(1) obtain v1 h1 v2 h2 where p: "place D (json_object_get fg k) k v = Inr (v1, h1)"
        "hide D fg rx kvs = Inr (v2, h2)" and hid: "hid = h1 @ h2"
      by (auto simp: hide_Cons combine_def split: sum.splits)
    have "h1 = [] \<or> (\<exists>h. h1 = [(k, h)])"
      using place_keys[OF p(1)] by (cases h1) auto
    moreover have "k \<notin> fst ` set h2" using Cons.IH[OF p(2)] Cons.prems(2) by auto
    ultimately show ?thesis using Cons.IH[OF p(2)] Cons.prems(2) False hid
      by (elim disjE exE; simp add: subset_iff)
  qed
qed simp

lemma assemble_move:
  assumes "add_hashes rx [(f, h)] = Some rx'" "is_object_option rx"
    and "distinct (map fst (object_members rx @ h1 @ (f, h) # h2))"
  shows "canon (assemble rx vis (h1 @ (f, h) # h2)) = canon (assemble (Some rx') vis (h1 @ h2))"
proof -
  have rx': "rx' = JObject (object_members rx @ [(f, h)])"
    using assms(1) by (simp add: add_hashes_def)
  have "canon (JObject (object_members rx @ h1 @ (f, h) # h2)) = canon (JObject (object_members rx @ [(f, h)] @ h1 @ h2))"
    by (rule canon_objectI) (use assms(3) in simp_all)
  then show ?thesis
    by (simp add: assemble_def add_hashes_def rx')
qed

lemma ordinary_add_hash:
  assumes "ordinary_object is_string rx" "add_hashes rx [(f, JString h)] = Some rx'"
    and "json_object_get rx f = None" "\<not> special f"
  shows "ordinary_object is_string (Some rx')"
  using assms ordinary_objectD[OF assms(1)]
  by (auto simp: add_hashes_def ordinary_def map_of_eq_None_iff)

lemma ordinary_del:
  assumes "ordinary_object P (Some fg)"
  shows "\<exists>m. fg = JObject m \<and> json_object_del (Some fg) f = Some (JObject (del_member f m))"
    and "ordinary_object P (json_object_del (Some fg) f)"
  using ordinary_objectD[OF assms] by (auto simp: ordinary_def distinct_del_member set_del_member)

lemma part_forget_contract:
  assumes "TALER_JSON_contract_part_forget D (JObject kvs) f = (j, Done GNUNET_OK)" "contract_object kvs"
  shows "\<exists>kvs'. j = JObject kvs' \<and> contract_object kvs' \<and> plain kvs' = del_member f (plain kvs) \<and> \<not> special f"
  using assms
proof (rule part_forget_ok)
  fix part part' fg salt t hc rx' kvs1
  assume a: "map_of kvs ''$forgettable'' = Some fg" "json_object_get (map_of kvs ''$forgotten'') f = None"
    "add_hashes (map_of kvs ''$forgotten'') [(f, JString (from_data D hc))] = Some rx'"
    "j = JObject (after_forgetting f part' (the (json_object_del (Some fg) f)) rx' kvs1)"
    "kvs1 = kvs \<or> kvs1 = set_member ''$forgotten'' (JObject []) kvs" "\<not> special f"
  have d1: "distinct (map fst kvs1)" "plain kvs1 = plain kvs"
    using a(5) assms(2) by (auto simp: contract_object_def distinct_set_member plain_set_special special_def)
  have fg: "ordinary_object (\<lambda>_. True) (Some fg)" and rx: "ordinary_object is_string (map_of kvs ''$forgotten'')"
    using assms(2) a(1) by (simp_all add: contract_object_def)
  from ordinary_del[OF fg, of f] ordinary_add_hash[OF rx a(3,2,6)] show ?thesis
    using a(4,6) d1 by (auto simp: contract_object_def after_forgetting)
qed

lemma object_members_keys:
  "is_object_option rx \<Longrightarrow> json_object_get rx k = None \<longleftrightarrow> k \<notin> fst ` set (object_members rx)"
  by (elim disjE exE) (simp_all add: map_of_eq_None_iff)

lemma hide_without_field:
  assumes dis: "distinct (map fst (xs @ (f, part) # ys))" and f: "\<not> special f" "json_object_get rx f = None"
    and place: "place D (json_object_get fg f) f part = Inr ([], [(f, h)])"
    and rx: "ordinary_object P rx" and rx': "add_hashes rx [(f, h)] = Some rx'"
  shows "map_ok (\<lambda>(vis, hid). canon (assemble rx vis hid)) (hide D fg rx (xs @ (f, part) # ys))
       = map_ok (\<lambda>(vis, hid). canon (assemble (Some rx') vis hid)) (hide D (json_object_del fg f) (Some rx') (xs @ ys))"
proof -
  have obj: "is_object_option rx" using ordinary_objectD[OF rx] by auto
  have new: "k \<noteq> f" if "k \<in> fst ` set (xs @ ys)" for k using dis that by auto
  have same: "hide D (json_object_del fg f) (Some rx') (xs @ ys) = hide D fg rx (xs @ ys)"
    unfolding rx'[symmetric] using new obj
    by (intro hide_cong) (simp_all add: same_lookups_def get_del get_add_hash)
  have full: "hide D fg rx (xs @ (f, part) # ys)
      = combine (hide D fg rx xs) (combine (Inr ([], [(f, h)])) (hide D fg rx ys))"
    using f place by (simp add: hide_append hide_Cons)
  show ?thesis
  proof (cases "hide D fg rx (xs @ (f, part) # ys)")
    case (Inl e)
    then show ?thesis
      unfolding same using full by (auto simp: hide_append combine_def split: sum.splits)
  next
    case (Inr p)
    then obtain v1 h1 v2 h2 where x: "hide D fg rx xs = Inr (v1, h1)" and y: "hide D fg rx ys = Inr (v2, h2)"
      using full by (auto simp: combine_def split: sum.splits)
    with full have all: "hide D fg rx (xs @ (f, part) # ys) = Inr (v1 @ v2, h1 @ (f, h) # h2)"
      by (simp add: combine_def)
    have "set (map fst (object_members rx)) \<inter> set (map fst (h1 @ (f, h) # h2)) = {}"
      using hide_keys[OF all dis] by (simp only: object_members_keys[OF obj] set_map) blast
    moreover have "distinct (map fst (object_members rx))"
      using ordinary_objectD[OF rx] by (auto simp: ordinary_def)
    ultimately have "distinct (map fst (object_members rx @ h1 @ (f, h) # h2))"
      using hide_keys[OF all dis] by (simp only: map_append distinct_append simp_thms)
    from assemble_move[OF rx' obj this] show ?thesis
      unfolding same all by (simp add: hide_append x y combine_def)
  qed
qed

lemma part_forget_same_outcome:
  assumes pf: "TALER_JSON_contract_part_forget D (JObject kvs) f = (j, Done GNUNET_OK)" and co: "contract_object kvs"
  shows "same_outcome D (JObject kvs) j"
  using assms
proof (rule part_forget_ok)
  fix part part' fg salt t hc rx' kvs1
  let ?rx = "map_of kvs ''$forgotten''" and ?h = "JString (from_data D hc)"
    and ?fg' = "json_object_del (Some fg) f"
  assume a: "map_of kvs f = Some part" "map_of kvs ''$forgettable'' = Some fg" "json_object_get ?rx f = None"
    "json_object_get (Some fg) f = Some (JString salt)" "snd (forget D part) = Inr t"
    "dump_and_hash D (Some t) (Some salt) = Inr hc" "add_hashes ?rx [(f, ?h)] = Some rx'"
    "j = JObject (after_forgetting f part' (the ?fg') rx' kvs1)"
    "kvs1 = kvs \<or> kvs1 = set_member ''$forgotten'' (JObject []) kvs" "\<not> special f"
  from part_forget_contract[OF pf co] obtain kvs' where kvs': "j = JObject kvs'" "contract_object kvs'"
      "plain kvs' = del_member f (plain kvs)" by auto
  have fg': "?fg' = Some (the ?fg')" by (metis del_eq_None option.collapse option.distinct(1))
  have "distinct (map fst kvs1)" using a(9) co by (auto simp: contract_object_def distinct_set_member)
  from after_forgetting(3,4)[OF this a(10), of part' "the ?fg'" rx'] a(8) kvs'(1) fg'
  have look: "map_of kvs' ''$forgettable'' = ?fg'" "map_of kvs' ''$forgotten'' = Some rx'" by simp_all
  obtain xs ys where parts: "kvs = xs @ (f, part) # ys"
    using map_of_SomeD[OF a(1)] by (meson split_list)
  have dis: "distinct (map fst kvs)" using co by (simp add: contract_object_def)
  have rest: "del_member f kvs = xs @ ys"
    using dis by (simp add: parts del_member_append del_member_Cons del_member_absent)
  have "hide D ?fg' (Some rx') kvs' = hide D ?fg' (Some rx') (xs @ ys)"
    by (metis hide_plain kvs'(3) plain_del rest)
  moreover have "place D (json_object_get (Some fg) f) f part = Inr ([], [(f, ?h)])"
    using a(4,5,6) by (simp add: place_def)
  ultimately show ?thesis
    using hide_without_field[OF dis[unfolded parts] a(10,3) _ _ a(7), of D "Some fg" is_string] co kvs'(1,2)
    by (simp add: same_outcome_def forget_object look a(2) contract_object_def parts[symmetric] del: forget.simps)
qed

section \<open>Forgetting anywhere in a contract\<close>

text \<open>A field of the contract, of an object in it, or of an object in an array of it is forgotten.\<close>

inductive forgets :: "digester \<Rightarrow> json \<Rightarrow> json \<Rightarrow> bool" for D where
  here: "TALER_JSON_contract_part_forget D a f = (b, Done GNUNET_OK) \<Longrightarrow> forgets D a b"
| element: "forgets D a b \<Longrightarrow> forgets D (JArray (xs @ a # ys)) (JArray (xs @ b # ys))"
| member: "\<lbrakk>forgets D a b; \<not> special k\<rbrakk> \<Longrightarrow> forgets D (JObject (xs @ (k, a) # ys)) (JObject (xs @ (k, b) # ys))"

lemma wf_json_object: "wf_json (JObject kvs) \<longleftrightarrow> contract_object kvs \<and> (\<forall>(k, v)\<in>set (plain kvs). wf_json v)"
  by (force simp: list_all_iff plain_def)

lemma contract_object_replace:
  assumes "contract_object (xs @ (k, a) # ys)" "\<not> special k"
  shows "contract_object (xs @ (k, b) # ys)"
proof -
  have "map_of (xs @ (k, a) # ys) k' = map_of (xs @ (k, b) # ys) k'" if "special k'" for k'
    using assms(2) that by (auto simp: map_add_def split: option.split)
  with assms(1) show ?thesis
    unfolding contract_object_def by (simp add: special_def)
qed

lemma part_forget_wf:
  assumes "TALER_JSON_contract_part_forget D (JObject kvs) f = (j, Done GNUNET_OK)" "wf_json (JObject kvs)"
  shows "wf_json j"
  using part_forget_contract[OF assms(1)] assms(2) by (auto simp: wf_json_object set_del_member simp del: wf_json.simps)

lemma part_forget_object:
  "TALER_JSON_contract_part_forget D a f = (b, Done GNUNET_OK) \<Longrightarrow> \<exists>kvs. a = JObject kvs"
  by (cases a) simp_all

lemma forgets_step:
  assumes "forgets D a b" "sorts_keys D" "wf_json a"
  shows "same_outcome D a b \<and> wf_json b"
  using assms(1,3)
proof (induction rule: forgets.induct)
  case (here a f b)
  then show ?case
    using part_forget_object[OF here(1)] part_forget_same_outcome part_forget_wf by (auto simp: wf_json_object)
next
  case (element a b xs ys)
  then show ?case by (simp add: same_outcome_element)
next
  case (member a b k xs ys)
  then have "contract_object (xs @ (k, a) # ys)" "contract_object (xs @ (k, b) # ys)" "wf_json a"
    using contract_object_replace by auto
  with member assms(2) show ?case by (simp add: same_outcome_member)
qed

lemma forgets_rtranclp:
  assumes "(forgets D)\<^sup>*\<^sup>* a b" "sorts_keys D" "wf_json a"
  shows "TALER_JSON_contract_hash D b = TALER_JSON_contract_hash D a \<and> wf_json b"
  using assms(1)
proof (induction rule: rtranclp_induct)
  case (step b c)
  then show ?case
    using forgets_step[OF step(2) assms(2)] same_outcome_hash[OF assms(2)] by metis
qed (simp add: assms(3))

section \<open>Properties\<close>

lemma contract_hash_parts:
  assumes "TALER_JSON_contract_hash D (JObject kvs) = Inr h" "contract_object kvs"
  shows "\<exists>p. hide D (map_of kvs ''$forgettable'') (map_of kvs ''$forgotten'') kvs = Inr p"
  using assms(1) forget_object[OF assms(2), of D]
  by (cases "hide D (map_of kvs ''$forgettable'') (map_of kvs ''$forgotten'') kvs"; cases "snd (forget D (JObject kvs))")
     (auto simp: TALER_JSON_contract_hash_def simp del: forget.simps)


lemma part_forget_result:
  assumes "TALER_JSON_contract_part_forget D (JObject kvs) f = (j, Done GNUNET_OK)" "contract_object kvs"
  shows "\<exists>kvs' hc. j = JObject kvs' \<and> map_of kvs' f = None
     \<and> json_object_get (map_of kvs' ''$forgettable'') f = None
     \<and> json_object_get (map_of kvs' ''$forgotten'') f = Some (JString hc)
     \<and> (\<forall>k. k \<noteq> f \<longrightarrow> \<not> special k \<longrightarrow> map_of kvs' k = map_of kvs k)"
  using assms
proof (rule part_forget_ok)
  fix part part' fg salt t hc rx' kvs1
  assume a: "map_of kvs ''$forgettable'' = Some fg" "json_object_get (map_of kvs ''$forgotten'') f = None"
    "add_hashes (map_of kvs ''$forgotten'') [(f, JString (from_data D hc))] = Some rx'"
    "j = JObject (after_forgetting f part' (the (json_object_del (Some fg) f)) rx' kvs1)"
    "kvs1 = kvs \<or> kvs1 = set_member ''$forgotten'' (JObject []) kvs" "\<not> special f"
  have d1: "distinct (map fst kvs1)"
    using a(5) assms(2) by (auto simp: contract_object_def distinct_set_member)
  have ne: "''$forgettable'' \<noteq> f" "''$forgotten'' \<noteq> f" using a(6) by (auto simp: special_def)
  obtain m where m: "fg = JObject m"
    using assms(2) a(1) ordinary_objectD[of "\<lambda>_. True" "Some fg"] by (auto simp: contract_object_def)
  have rx: "ordinary_object is_string (map_of kvs ''$forgotten'')" using assms(2) by (simp add: contract_object_def)
  have hash: "json_object_get (Some rx') f = Some (JString (from_data D hc))"
    unfolding a(3)[symmetric] using ordinary_objectD[OF rx] a(2)
    by (auto simp: add_hashes_def map_add_def split: option.split)
  have rest: "map_of (after_forgetting f part' g x kvs1) k = (if k = f then None else map_of kvs k)"
    if "\<not> special k" for k g x
    using that a(5) ne
    by (auto simp: after_forgetting_def map_of_del_member map_of_set_member special_def)
  show ?thesis
    using a(4,6) hash rest after_forgetting(3,4)[OF d1 a(6)]
    by (auto simp: m map_of_del_member)
qed


text \<open>A digester for examples: sorted members are printed, and the texts stand for their hashes.\<close>

definition print_members :: "(string \<times> string) list \<Rightarrow> string" where
  "print_members kvs = CHR 0x7B # concat (map (\<lambda>(k, s). k @ '':'' @ s @ '','') kvs) @ [CHR 0x7D]"

primrec print_json :: "json \<Rightarrow> string" where
  "print_json JNull = ''null''"
| "print_json JTrue = ''true''"
| "print_json JFalse = ''false''"
| "print_json (JInteger i) = decimal (nat i)"
| "print_json (JReal r) = ''real''"
| "print_json (JString s) = CHR 0x22 # s @ [CHR 0x22]"
| "print_json (JArray vs) = ''['' @ concat (map (\<lambda>s. s @ '','') (map print_json vs)) @ '']''"
| "print_json (JObject kvs) = print_members (map (map_prod id print_json) kvs)"

definition sample_digester :: digester where
  "sample_digester =
     \<lparr>json_dumps = (\<lambda>j. Some (print_json (canon j))), u8_mblen = (\<lambda>s. if hd s = NUL then 0 else 1),
      u32_to_u8 = (\<lambda>n. Some [char_of n]), crypto_hash = (\<lambda>s. s), crypto_kdf = (\<lambda>salt s. Some (butlast salt @ butlast s)),
      from_data = (\<lambda>s. s)\<rparr>"

lemma sample_sorts_keys: "sorts_keys sample_digester"
  by (simp add: sorts_keys_def sample_digester_def)

definition sample_inner :: json where
  "sample_inner = JObject [(''n1'', JString ''n2''), (''$forgettable'', JObject [(''n1'', JString ''salt'')])]"

definition sample_members :: members where
  "sample_members =
     [(''k1'', JString ''v1''), (''k2'', sample_inner), (''$forgettable'', JObject [(''k1'', JString ''s1'')])]"

abbreviation sample_after :: "json \<Rightarrow> json" where
  "sample_after inner \<equiv> JObject [(''k2'', inner), (''$forgettable'', JObject []),
     (''$forgotten'', JObject [(''k1'', JString (''s1'' @ [CHR 0x22] @ ''v1'' @ [CHR 0x22]))])]"

abbreviation sample_inner_after :: json where
  "sample_inner_after \<equiv> JObject [(''$forgettable'', JObject []),
     (''$forgotten'', JObject [(''n1'', JString (''salt'' @ [CHR 0x22] @ ''n2'' @ [CHR 0x22]))])]"

lemma sample_forgets: "(forgets sample_digester)\<^sup>*\<^sup>* (JObject sample_members) (sample_after sample_inner_after)"
proof -
  have "TALER_JSON_contract_part_forget sample_digester (JObject sample_members) ''k1'' = (sample_after sample_inner, Done GNUNET_OK)"
    by code_simp
  then have 1: "forgets sample_digester (JObject sample_members) (sample_after sample_inner)"
    by (rule forgets.here)
  have "TALER_JSON_contract_part_forget sample_digester sample_inner ''n1'' = (sample_inner_after, Done GNUNET_OK)"
    by code_simp
  then have "forgets sample_digester sample_inner sample_inner_after"
    by (rule forgets.here)
  from forgets.member[OF this, of "''k2''" "[]"]
  have "forgets sample_digester (sample_after sample_inner) (sample_after sample_inner_after)"
    by (simp add: special_def)
  with 1 show ?thesis by auto
qed

lemma sample_wf: "wf_json (JObject sample_members)"
  by code_simp

text \<open>
  C27: forgetting keeps the hash of a contract. Take a well-formed contract, and forget fields of it with
  \<^verbatim>\<open>TALER_JSON_contract_part_forget\<close>, one after the other, each call returning success: fields of the contract
  itself, of objects in it and of objects in its arrays, at any depth, outside of the two bookkeeping
  members. Then \<^verbatim>\<open>TALER_JSON_contract_hash\<close> gives what it gave before: the same hash, or the same error. The
  printer has to print values that differ in the order of members alike, as it sorts the keys.
\<close>

theorem contract_forget_keeps_hash:
  assumes "sorts_keys D" "wf_json contract" "(forgets D)\<^sup>*\<^sup>* contract contract'"
  shows "TALER_JSON_contract_hash D contract' = TALER_JSON_contract_hash D contract \<and> wf_json contract'"
  using forgets_rtranclp[OF assms(3,1,2)] .

theorem contract_forget_keeps_hash_witness:
  "TALER_JSON_contract_hash sample_digester (sample_after sample_inner_after)
     = TALER_JSON_contract_hash sample_digester (JObject sample_members)
   \<and> TALER_JSON_contract_hash sample_digester (JObject sample_members) \<noteq> Inl Abort"
proof
  show "TALER_JSON_contract_hash sample_digester (sample_after sample_inner_after)
     = TALER_JSON_contract_hash sample_digester (JObject sample_members)"
    using contract_forget_keeps_hash[OF sample_sorts_keys sample_wf sample_forgets] ..
  show "TALER_JSON_contract_hash sample_digester (JObject sample_members) \<noteq> Inl Abort"
    by code_simp
qed


text \<open>
  A second call for a forgotten field. The header \<^verbatim>\<open>taler_json_lib.h\<close> documents \<^verbatim>\<open>GNUNET_NO\<close> for it, and
  the comment at the end of the function speaks of a field that is set to null; the field is
  deleted, so the second call does not find it and reports an error.
\<close>

lemma contract_forget_twice:
  assumes "TALER_JSON_contract_part_forget D (JObject kvs) f = (j, Done GNUNET_OK)" "contract_object kvs"
  shows "TALER_JSON_contract_part_forget D j f = (j, Done GNUNET_SYSERR)"
  using part_forget_result[OF assms] by auto



text \<open>What hides members, and an empty member \<^verbatim>\<open>$forgotten\<close> that is added.\<close>

lemma place_hidden: "place D s k v = Inr (vis, hid) \<Longrightarrow> (hid \<noteq> [] \<longleftrightarrow> s \<noteq> None) \<and> fst ` set vis \<subseteq> {k}"
  by (auto simp: place_def split: sum.splits option.splits)

lemma hide_hidden:
  assumes "hide D fg rx kvs = Inr (vis, hid)"
  shows "(hid \<noteq> [] \<longleftrightarrow> (\<exists>(k, v)\<in>set kvs. \<not> special k \<and> json_object_get rx k = None \<and> json_object_get fg k \<noteq> None))
     \<and> (\<forall>k\<in>fst ` set vis. \<not> special k)"
  using assms
proof (induction kvs arbitrary: vis hid)
  case (Cons kv kvs)
  obtain k v where kv [simp]: "kv = (k, v)" by (cases kv)
  show ?case
  proof (cases "special k \<or> json_object_get rx k \<noteq> None")
    case True
    with Cons show ?thesis by (auto simp: hide_Cons)
  next
    case False
    with Cons.prems obtain v1 h1 v2 h2 where p: "place D (json_object_get fg k) k v = Inr (v1, h1)"
        "hide D fg rx kvs = Inr (v2, h2)" and parts: "vis = v1 @ v2" "hid = h1 @ h2"
      by (auto simp: hide_Cons combine_def split: sum.splits)
    show ?thesis using place_hidden[OF p(1)] Cons.IH[OF p(2)] False parts by auto
  qed
qed simp

lemma contract_hash_assemble:
  assumes "sorts_keys D" "contract_object kvs"
    and "hide D (map_of kvs ''$forgettable'') (map_of kvs ''$forgotten'') kvs = Inr (vis, hid)"
  shows "TALER_JSON_contract_hash D (JObject kvs) = dump_and_hash D (Some (assemble (map_of kvs ''$forgotten'') vis hid)) None"
proof -
  obtain s where s: "snd (forget D (JObject kvs)) = Inr s" "canon s = canon (assemble (map_of kvs ''$forgotten'') vis hid)"
    using forget_object[OF assms(2), of D] assms(3) by (cases "snd (forget D (JObject kvs))") (auto simp del: forget.simps)
  then show ?thesis
    using dump_and_hash_canon[OF assms(1) s(2)] by (simp add: TALER_JSON_contract_hash_def del: forget.simps)
qed

lemma empty_forgotten_hash:
  assumes "sorts_keys D" "contract_object kvs" "map_of kvs ''$forgotten'' = None"
    and "hide D (map_of kvs ''$forgettable'') None kvs = Inr (vis, hid)"
  shows "TALER_JSON_contract_hash D (JObject (kvs @ [(''$forgotten'', JObject [])]))
       = dump_and_hash D (Some (assemble (Some (JObject [])) vis hid)) None"
proof -
  let ?kvs = "kvs @ [(''$forgotten'', JObject [])]"
  have new: "''$forgotten'' \<notin> fst ` set kvs" using assms(3) by (simp add: map_of_eq_None_iff)
  have maps: "map_of ?kvs ''$forgettable'' = map_of kvs ''$forgettable''" "map_of ?kvs ''$forgotten'' = Some (JObject [])"
    using assms(3) by (auto simp: map_add_def split: option.split)
  have "contract_object ?kvs" using assms(2) new unfolding contract_object_def maps by (auto simp: ordinary_def)
  moreover have "hide D (map_of kvs ''$forgettable'') (Some (JObject [])) ?kvs = Inr (vis, hid)"
    using assms(4) hide_cong[of "map_of kvs ''$forgettable''" "map_of kvs ''$forgettable''" kvs None "Some (JObject [])" D]
    by (simp add: hide_append hide_Cons special_def combine_def same_lookups_def)
  ultimately show ?thesis using contract_hash_assemble[OF assms(1), of ?kvs vis hid] unfolding maps by blast
qed

text \<open>
  C29: forgetting a field that has no salt, in a contract without a member \<^verbatim>\<open>$forgotten\<close>, fails but
  changes the contract: an empty member \<^verbatim>\<open>$forgotten\<close> stays behind. If another member of the object has a
  salt, the hash of the contract is the same as before, since a member of this name is hashed anyway; if no member has one, the text
  that is hashed is no longer the one of the members shown but has the empty member added to them.
\<close>

theorem contract_failed_forget_changes_hash:
  assumes "sorts_keys D" "contract_object kvs" "TALER_JSON_contract_hash D (JObject kvs) = Inr h"
    and "map_of kvs f = Some part" "\<not> special f" "map_of kvs ''$forgotten'' = None"
    and "map_of kvs ''$forgettable'' = Some (JObject m)" "map_of m f = None"
  shows "TALER_JSON_contract_part_forget D (JObject kvs) f
        = (JObject (kvs @ [(''$forgotten'', JObject [])]), Done GNUNET_SYSERR)
     \<and> (if \<exists>(k, v)\<in>set kvs. \<not> special k \<and> map_of m k \<noteq> None
        then TALER_JSON_contract_hash D (JObject (kvs @ [(''$forgotten'', JObject [])])) = Inr h
        else \<exists>vis. ''$forgotten'' \<notin> fst ` set vis
           \<and> Inr h = dump_and_hash D (Some (JObject vis)) None
           \<and> TALER_JSON_contract_hash D (JObject (kvs @ [(''$forgotten'', JObject [])]))
             = dump_and_hash D (Some (JObject (vis @ [(''$forgotten'', JObject [])]))) None)"
proof -
  have new: "''$forgotten'' \<notin> fst ` set kvs" using assms(6) by (simp add: map_of_eq_None_iff)
  have call: "TALER_JSON_contract_part_forget D (JObject kvs) f
      = (JObject (kvs @ [(''$forgotten'', JObject [])]), Done GNUNET_SYSERR)"
    using assms(4,6-8) by (simp add: Let_def set_member_new[OF new])
  obtain vis hid where p: "hide D (map_of kvs ''$forgettable'') None kvs = Inr (vis, hid)"
    using contract_hash_parts[OF assms(3,2)] assms(6) by auto
  have salted: "hid \<noteq> [] \<longleftrightarrow> (\<exists>(k, v)\<in>set kvs. \<not> special k \<and> map_of m k \<noteq> None)"
    using hide_hidden[OF p, THEN conjunct1] assms(7) by simp
  have shown: "''$forgotten'' \<notin> fst ` set vis"
    using hide_hidden[OF p, THEN conjunct2] special_def by blast
  have before: "Inr h = dump_and_hash D (Some (assemble None vis hid)) None"
    using contract_hash_assemble[OF assms(1,2), of vis hid] p assms(3,6) by simp
  note after = empty_forgotten_hash[OF assms(1,2,6) p]
  show ?thesis
  proof (cases "hid = []")
    case True
    have "assemble None vis hid = JObject vis"
      "assemble (Some (JObject [])) vis hid = JObject (vis @ [(''$forgotten'', JObject [])])"
      using True by (simp_all add: assemble_def add_hashes_def)
    then show ?thesis using call before after shown True unfolding salted[symmetric] by auto
  next
    case False
    then have "assemble (Some (JObject [])) vis hid = assemble None vis hid"
      by (simp add: assemble_def add_hashes_def)
    then show ?thesis using call before after False unfolding salted[symmetric] by simp
  qed
qed

theorem contract_failed_forget_changes_hash_witness:
  "\<exists>h. TALER_JSON_contract_part_forget sample_digester (JObject [(''k1'', JInteger 1), (''$forgettable'', JObject [])]) ''k1''
       = (JObject [(''k1'', JInteger 1), (''$forgettable'', JObject []), (''$forgotten'', JObject [])], Done GNUNET_SYSERR)
     \<and> TALER_JSON_contract_hash sample_digester (JObject [(''k1'', JInteger 1), (''$forgettable'', JObject [])]) = Inr h
     \<and> TALER_JSON_contract_hash sample_digester
         (JObject [(''k1'', JInteger 1), (''$forgettable'', JObject []), (''$forgotten'', JObject [])]) \<noteq> Inr h"
proof -
  let ?kvs = "[(''k1'', JInteger 1), (''$forgettable'', JObject [])]"
  have h: "TALER_JSON_contract_hash sample_digester (JObject ?kvs)
      = Inr (crypto_hash sample_digester (print_json (JObject [(''k1'', JInteger 1)]) @ [NUL]))" by code_simp
  have "TALER_JSON_contract_hash sample_digester (JObject (?kvs @ [(''$forgotten'', JObject [])]))
      \<noteq> Inr (crypto_hash sample_digester (print_json (JObject [(''k1'', JInteger 1)]) @ [NUL]))" by code_simp
  then show ?thesis
    using contract_failed_forget_changes_hash[OF sample_sorts_keys _ h, of "''k1''" "JInteger 1" "[]"] h
    by (auto simp: contract_object_def ordinary_def special_def)
qed

end
