(* ===== verification/Spec2Isabelle.thy ===== *)
theory Spec2Isabelle
  imports Transaction_Totals Age_Restriction Fakebank_Properties Fakebank_Checks Reserves_Get Url Aml_Program Contract_Hash
begin

text \<open>
  Verification of the GNU Taler exchange: amounts, account identifiers, signatures, contracts,
  histories and customer-check rules of its libraries, and the bank it is tested with.

  \<^bold>\<open>The program.\<close> GNU Taler is a payment system. An exchange issues coins against wire
  transfers, wallets spend them, and merchants are paid by the exchange. The sources
  (\<^verbatim>\<open>src/src\<close>) hold utilities (\<^verbatim>\<open>util\<close>), the HTTP service and background processes (\<^verbatim>\<open>exchange\<close>), the
  database (\<^verbatim>\<open>exchangedb\<close>), the client library (\<^verbatim>\<open>lib\<close>), the rules for customer checks (\<^verbatim>\<open>kyclogic\<close>), and a
  complete in-memory bank (\<^verbatim>\<open>bank-lib\<close>) that speaks the wire gateway, core bank and bank integration
  protocols. Everything that moves money goes through \<^verbatim>\<open>amount.c\<close>; accounts are payto URIs; every request
  of a wallet is an EdDSA signature over a packed structure; what a wallet or an auditor believes about a
  coin or a reserve is a history of such signatures, compiled by the exchange and checked by the client.

  \<^bold>\<open>Conventions\<close> (\<open>Taler_Prelude\<close>). A failed \<^verbatim>\<open>GNUNET_assert\<close>, a NULL dereference and a write outside an
  array are the value \<open>Abort\<close> of the type \<open>outcome\<close>; \<open>Done\<close> is a return. Machine integers are words of
  their width. A C string argument is the list of its bytes, a \<^verbatim>\<open>char[n]\<close> buffer a list of \<open>n\<close>
  bytes. The three values of \<^verbatim>\<open>GNUNET_GenericReturnValue\<close> are a datatype. Code of GNUnet, jansson and
  libmicrohttpd is a parameter (hash functions, EdDSA, byte order, random blocks, reading and writing
  JSON, configuration, child processes), with the laws a theorem needs as its hypotheses.

  \<^bold>\<open>Amounts.\<close>
  \<^item> \<open>Taler_Amount\<close>: the arithmetic of \<^verbatim>\<open>util/amount.c\<close>. An amount is a 64-bit value, a 32-bit fraction and a
    12-byte currency buffer; \<open>units\<close> counts it in hundred-millionths. Addition, subtraction,
    comparison, normalisation, multiplication, division and rounding are exact on units,
    or report the error exactly when the result is out of range. The loop that adds a
    list of amounts is treated once, in the locale \<open>exact_arithmetic\<close> that amounts interpret.
  \<^item> \<open>Amount_Format\<close>: parsing, printing and network byte order of amounts: round trips, the type of
    parsed amounts and the size of the static buffer. \<open>Fee_Sets\<close>: the fee structures of \<^verbatim>\<open>util/util.c\<close>.
  \<^item> \<open>Transaction_Totals\<close>: \<^verbatim>\<open>exchangedb/exchangedb_transactions.c\<close>: the balance of a coin from its
    transactions, and the path that reads an uninitialised fee.

  \<^bold>\<open>Identifiers and encodings.\<close>
  \<^item> \<open>Age_Restriction\<close>: \<^verbatim>\<open>util/age_restriction.c\<close>: age groups, mask strings, and commitments with
    the attestations they allow.
  \<^item> \<open>Iban\<close> and \<open>Payto\<close>: \<^verbatim>\<open>util/iban.c\<close> and \<^verbatim>\<open>util/payto.c\<close>: the checksum with the rounding of its
    double-precision sums against the checksum of the standard, binary search over the country table, validation, normal forms and hashes
    of payto URIs.
  \<^item> \<open>Url\<close>: \<^verbatim>\<open>util/url.c\<close>: encoding within the memory computed for it, decoding as its inverse, joining
    of URLs with queries, and the bytes for which the computed memory is too small.
  \<^item> \<open>Json_Helper\<close> and \<open>Json_Library\<close>: field parsers of \<^verbatim>\<open>json/json_helper.c\<close>, packers, and the interface to
    the JSON library with the law that a reader gives back what a writer wrote.

  \<^bold>\<open>Contracts\<close> (\<^verbatim>\<open>json/json.c\<close>).
  \<^item> \<open>Json_Contract\<close>: values of jansson, the canonical text of RFC 8785 (\<^verbatim>\<open>util/util.c\<close>), the hash of a contract with
    forgettable fields, marking, seeding and forgetting fields, paths and error codes. Encoding is canonical;
    paths of names lead to what they name, and an index or wildcard below the first name is lost.
  \<^item> \<open>Contract_Hash\<close>: forgetting fields anywhere in a contract, in any order, keeps its hash; a marked field
    can be forgotten; a refused request may still change the hash. The loop that hides fields is reduced
    to a function without accumulators, up to the order of members, which the printer sorts away.

  \<^bold>\<open>Signatures and histories.\<close>
  \<^item> \<open>Wallet_Signatures\<close> and \<open>Exchange_Signatures\<close>: all \<^verbatim>\<open>util/*_signatures.c\<close>: what is signed is accepted by the
    matching verification, and signatures over deposits and denominations bind the whole request.
  \<^item> \<open>Exchange_Keys\<close>, \<open>Coin_History\<close>, \<open>Reserve_History\<close>: the client's lookups and its checks of histories
    (\<^verbatim>\<open>lib/exchange_api_coins_history.c\<close>, \<^verbatim>\<open>exchange_api_reserves_history.c\<close>). Each check is equivalent to a reference
    that reads all entries and judges them together.
  \<^item> \<open>Coins_Get\<close>, \<open>Reserves_Get\<close>: the handlers of the exchange that compile the histories
    (\<^verbatim>\<open>exchange/taler-exchange-httpd_coins_get.c\<close>, \<^verbatim>\<open>..._reserves_history.c\<close>). What they compile from stored
    transactions is accepted by the client with the totals of the transactions, and the kinds of
    transactions for which it is refused are given.

  \<^bold>\<open>Rules for customer checks\<close> (\<^verbatim>\<open>kyclogic/kyclogic_api.c\<close>).
  \<^item> \<open>Kyc_Rules\<close>: rules, measures, checks and programs, the parser of rule sets, the JSON forms of measures and
    limits, and the test whether an operation triggers a rule: it reports a rule exactly if the
    window of time of one reaches its threshold, and takes the highest threshold, not the display priority.
  \<^item> \<open>Kyc_Measures\<close>: selecting from the measures that were written gives the measures of the rule, and the
    limits of accounts with rules of their own are lost.
  \<^item> \<open>Kyc_Init\<close>: loading the configuration, with the assertions on the currency and on names that are
    not UTF-8. An accepted configuration is sound, and then measures of default
    and of parsed rules can be taken; the JSON of the default rules is not itself a rule set.
  \<^item> \<open>Aml_Program\<close>: running a program with its timeout and fallback as a state machine over the events of
    the scheduler: the client gets exactly one result unless it cancels.

  \<^bold>\<open>The bank.\<close>
  \<^item> \<open>Fakebank\<close>: the ledger of \<^verbatim>\<open>bank-lib\<close>: accounts, the ring buffer of transactions, doubly
    linked lists as lists of pointers, the maps of reserve keys and request identifiers, and the
    operations of \<^verbatim>\<open>fakebank_common_*.c\<close> over an explicit store. \<open>Fakebank_Ledger\<close> has its invariant and
    what one booking does, \<open>Fakebank_Transfers\<close> an abstract ledger of signed balances and what the three
    transfers do to it.
  \<^item> \<open>Fakebank_Requests\<close>: the handlers of the HTTP requests. \<open>Fakebank_Runs\<close>: a bank under a sequence of
    requests, as an inductive step relation in which a confirmation is two critical sections
    with other requests between them; the locale \<open>transfer_contract\<close> states what the runs need of
    a transfer and is interpreted for the three transfers of the code.
  \<^item> \<open>Fakebank_Properties\<close>: refinement of the abstract ledger, idempotence of transfers while they are in the ring
    buffer, the invariant and
    conservation of money on all reachable banks, reserve keys credited once, exclusion of abort
    and confirmation, the outcomes of confirmations, and the runs in which the code fails.

  \<^item> \<open>Fakebank_History\<close>: the histories of an account. The locale \<open>history_source\<close> states what a history needs of its
    lists and is interpreted for the debit, the credit and the revenue history; each reports what the list
    of the account holds after the start. The requests that crash the bank, wait forever or get old
    transactions are given.
  \<^item> \<open>Fakebank_Checks\<close>: the checks that tests make of the ledger, each of which takes one booking, and the status of a
    transfer or a withdrawal.

  \<^bold>\<open>Bounds and termination.\<close> All loops are structural or have a measure, with three exceptions, which are
  partial functions with the result \<open>None\<close> for a loop that does not end: drawing a withdrawal identifier until
  it is unused (\<open>fakebank_withdrawal_id_loop\<close> says exactly when it ends), and the two loops of a history, which
  end under the invariant (\<open>fakebank_history_exact\<close> gives their result). No fuel is used. Amounts
  are bounded by \<open>max_units\<close> (\<open>2 ^ 52\<close> and a fraction); the theorems on sums cover the overflow. The checksum
  of IBANs is exact up to 29 digits, the bound in \<open>iban_validate_correct\<close>. The laws of the JSON library
  are stated for all times and texts, where the library itself asks for whole seconds and UTF-8; the code writes
  only such, apart from configured names, for which \<^verbatim>\<open>json_string\<close> may fail.

  \<^bold>\<open>Not modelled.\<close> \<^verbatim>\<open>TALER_amount_divide2\<close> (it starts from a double-precision quotient), \<^verbatim>\<open>TALER_parse_coarse_date\<close>
  (calendar time of the C library), release of memory, and logging. Of the fakebank: URL dispatch, timeouts of long pollers, threads other than the
  interleaving of confirmations. Most of the exchange service, background processes, auditor and database
  plugins are SQL transactions whose effect is in PostgreSQL and its stored procedures; the
  cryptographic primitives are GNUnet, libgcrypt and libsodium; the remaining parts are HTTP and JSON
  glue, tools, tests and benchmarks.
\<close>

end
